(* ===== verification/Prelude.thy ===== *)
theory Prelude
  imports Complex_Main "HOL-Library.List_Lexorder" "HOL-Library.Char_ord"
begin

text \<open>
  Shared vocabulary of the development: the readings of the C++ base types, the numeric
  helpers of the standard library (\<open>std::round\<close>, \<open>std::clamp\<close>, the truncating casts
  and \<open>duration_cast\<close>), the ordered maps (\<open>std::map\<close>, \<open>std::set\<close>,
  \<open>absl::btree_map\<close>) as association lists sorted by the map's comparator, and the
  generic lemmas the components share.

  Conventions. A C++ \<open>double\<close> is a \<^typ>\<open>real\<close>: rounding is idealised, NaN and the
  infinities are not values, and a division the code can reach with a zero divisor is
  written out with the value IEEE arithmetic gives the comparison that follows. A
  \<open>time_point\<close> and a \<open>duration\<close> are an \<^typ>\<open>int\<close> number of nanoseconds, the tick of
  \<open>system_clock\<close> on the supported platform. A \<open>std::string\<close> is a \<^typ>\<open>string\<close>, and its
  order is the lexicographic order of its bytes.
\<close>

section \<open>Fact collections\<close>

named_theorems omap_simps \<open>laws of the ordered maps\<close>
named_theorems inv_intros \<open>preservation of the component invariants\<close>

section \<open>Base types\<close>

type_synonym double = real
type_synonym time_point = int
type_synonym duration = int
type_synonym ticker = string

definition nanos_per_sec :: int where "nanos_per_sec = 1000000000"

definition seconds :: "int \<Rightarrow> duration" where "seconds n = n * 1000000000"

definition milliseconds :: "int \<Rightarrow> duration" where "milliseconds n = n * 1000000"

definition minutes :: "int \<Rightarrow> duration" where "minutes n = n * 60000000000"

text \<open>Integer division as C++ has it, rounding towards zero (\<open>duration_cast\<close> uses it).\<close>

definition cdiv :: "int \<Rightarrow> int \<Rightarrow> int" where
  "cdiv a b = sgn a * sgn b * (\<bar>a\<bar> div \<bar>b\<bar>)"

definition to_minutes :: "duration \<Rightarrow> int" where "to_minutes d = cdiv d 60000000000"

definition to_seconds :: "duration \<Rightarrow> int" where "to_seconds d = cdiv d 1000000000"

text \<open>\<open>std::chrono::duration<double>(d).count()\<close>: seconds as a real number.\<close>

definition elapsed_seconds :: "duration \<Rightarrow> double" where
  "elapsed_seconds d = real_of_int d / 1000000000"

lemma cdiv_nonneg: "0 \<le> a \<Longrightarrow> 0 < b \<Longrightarrow> cdiv a b = a div b"
  by (cases "a = 0") (simp_all add: cdiv_def sgn_if)

lemma cdiv_le_iff:
  assumes "0 \<le> a" "0 < b"
  shows "cdiv a b \<le> n \<longleftrightarrow> a < (n + 1) * b"
proof -
  have eq: "b * (a div b) + a mod b = a" by simp
  have m: "0 \<le> a mod b" "a mod b < b" using assms by simp_all
  show ?thesis
  proof (cases "a div b \<le> n")
    case True
    then have "b * (a div b) \<le> b * n" using assms by simp
    then have "a < b * n + b" using eq m by linarith
    with True show ?thesis using assms by (simp add: cdiv_nonneg algebra_simps)
  next
    case False
    then have "b * (n + 1) \<le> b * (a div b)" using assms by simp
    then have "b * (n + 1) \<le> a" using eq m by linarith
    with False show ?thesis using assms by (simp add: cdiv_nonneg algebra_simps)
  qed
qed

section \<open>Rounding and clamping\<close>

text \<open>\<open>std::round\<close> rounds half away from zero; a cast of a double to an integer truncates.\<close>

definition cround :: "double \<Rightarrow> int" where
  "cround x = (if 0 \<le> x then \<lfloor>x + 1 / 2\<rfloor> else - \<lfloor>- x + 1 / 2\<rfloor>)"

definition ctrunc :: "double \<Rightarrow> int" where
  "ctrunc x = (if 0 \<le> x then \<lfloor>x\<rfloor> else \<lceil>x\<rceil>)"

definition clamp :: "'a::linorder \<Rightarrow> 'a \<Rightarrow> 'a \<Rightarrow> 'a" where
  "clamp x lo hi = (if x < lo then lo else if hi < x then hi else x)"

text \<open>
  \<open>std::sqrt\<close>. The equation is no code equation, so that evaluation takes the roots of zero and
  one and leaves those that it does not need alone.
\<close>

definition csqrt :: "double \<Rightarrow> double" where
  [code del]: "csqrt x = sqrt x"

definition csqrt_other :: "double \<Rightarrow> double" where
  [code del]: "csqrt_other x = sqrt x"

lemma csqrt_code [code]: "csqrt x = (if x = 0 then 0 else if x = 1 then 1 else csqrt_other x)"
  by (simp add: csqrt_def csqrt_other_def)

lemma csqrt_mono: "x \<le> y \<Longrightarrow> csqrt x \<le> csqrt y"
  by (simp add: csqrt_def)

lemma csqrt_nonneg [simp]: "0 \<le> csqrt x \<longleftrightarrow> 0 \<le> x"
  by (simp add: csqrt_def)

lemma cround_of_int [simp]: "cround (real_of_int n) = n"
proof (cases "0 \<le> n")
  case True
  have "\<lfloor>real_of_int n + 1 / 2\<rfloor> = n" by linarith
  with True show ?thesis by (simp add: cround_def)
next
  case False
  have "\<lfloor>- real_of_int n + 1 / 2\<rfloor> = - n" by linarith
  with False show ?thesis by (simp add: cround_def)
qed

lemma cround_mono: "x \<le> y \<Longrightarrow> cround x \<le> cround y"
  unfolding cround_def by (auto split: if_splits; linarith)

lemma cround_nonneg: "0 \<le> x \<Longrightarrow> 0 \<le> cround x"
  unfolding cround_def by simp

lemma cround_error: "\<bar>real_of_int (cround x) - x\<bar> \<le> 1 / 2"
  unfolding cround_def abs_le_iff by (cases "0 \<le> x"; simp; linarith)

lemma clamp_bounds: "lo \<le> hi \<Longrightarrow> lo \<le> clamp x lo hi \<and> clamp x lo hi \<le> hi"
  by (auto simp: clamp_def)

lemma clamp_id [simp]: "lo \<le> x \<Longrightarrow> x \<le> hi \<Longrightarrow> clamp x lo hi = x"
  by (auto simp: clamp_def)

lemma clamp_mono: "lo \<le> hi \<Longrightarrow> x \<le> y \<Longrightarrow> clamp x lo hi \<le> clamp y lo hi"
  by (auto simp: clamp_def)

section \<open>Searching\<close>

text \<open>\<open>std::find_if\<close> is \<^const>\<open>find\<close>; the end iterator is \<^const>\<open>None\<close>.\<close>

lemma find_SomeD: "find P xs = Some x \<Longrightarrow> x \<in> set xs \<and> P x"
  by (induction xs) (auto split: if_splits)

lemma find_None_iff_all: "find P xs = None \<longleftrightarrow> (\<forall>x \<in> set xs. \<not> P x)"
  by (induction xs) auto

text \<open>
  A chain of guards with early returns, each with the reason it returns: the first that holds.
\<close>

fun first_hit :: "(bool \<times> 'r) list \<Rightarrow> 'r option" where
  "first_hit [] = None"
| "first_hit ((bad, r) # rules) = (if bad then Some r else first_hit rules)"

section \<open>Ordered maps\<close>

text \<open>
  \<open>std::map\<close>, \<open>std::set\<close> and \<open>absl::btree_map\<close> keep their entries in the order of a
  comparator \<open>lt\<close> and iterate in that order. The model is the list of entries in iteration
  order: \<open>omap_put\<close> is \<open>insert_or_assign\<close> (and \<open>m[k] = v\<close>), \<open>omap_erase\<close> is
  \<open>erase\<close> of a key, and \<open>find\<close> is \<^const>\<open>map_of\<close>.
\<close>

type_synonym ('k, 'v) omap = "('k \<times> 'v) list"

fun omap_put :: "('k \<Rightarrow> 'k \<Rightarrow> bool) \<Rightarrow> 'k \<Rightarrow> 'v \<Rightarrow> ('k, 'v) omap \<Rightarrow> ('k, 'v) omap" where
  "omap_put lt k v [] = [(k, v)]"
| "omap_put lt k v ((a, b) # m) =
     (if k = a then (k, v) # m
      else if lt k a then (k, v) # (a, b) # m
      else (a, b) # omap_put lt k v m)"

definition omap_erase :: "'k \<Rightarrow> ('k, 'v) omap \<Rightarrow> ('k, 'v) omap" where
  "omap_erase k m = filter (\<lambda>(a, _). a \<noteq> k) m"

definition omap_keys :: "('k, 'v) omap \<Rightarrow> 'k list" where
  "omap_keys m = map fst m"

definition omap_ok :: "('k \<Rightarrow> 'k \<Rightarrow> bool) \<Rightarrow> ('k, 'v) omap \<Rightarrow> bool" where
  "omap_ok lt m \<longleftrightarrow> sorted_wrt lt (map fst m)"

lemma set_omap_erase [simp]: "set (omap_erase k m) = {e \<in> set m. fst e \<noteq> k}"
  by (auto simp: omap_erase_def)

lemma omap_erase_Nil [simp]: "omap_erase k [] = []"
  by (simp add: omap_erase_def)

lemma map_of_omap_put [simp, omap_simps]: "map_of (omap_put lt k v m) = (map_of m)(k \<mapsto> v)"
  by (induction m) (auto simp: fun_eq_iff)

lemma map_of_omap_erase [simp, omap_simps]: "map_of (omap_erase k m) = (map_of m)(k := None)"
  by (induction m) (auto simp: omap_erase_def fun_eq_iff)

lemma keys_omap_put: "fst ` set (omap_put lt k v m) = insert k (fst ` set m)"
  by (simp flip: dom_map_of_conv_image_fst)

lemma keys_omap_erase: "fst ` set (omap_erase k m) = fst ` set m - {k}"
  by auto

lemma set_omap_put: "e \<in> set (omap_put lt k v m) \<Longrightarrow> e = (k, v) \<or> e \<in> set m"
  by (induction m) (auto split: if_splits)

lemma omap_ok_Nil [simp]: "omap_ok lt []"
  by (simp add: omap_ok_def)

lemma omap_ok_Cons: "omap_ok lt (e # m) \<longleftrightarrow> (\<forall>x \<in> set m. lt (fst e) (fst x)) \<and> omap_ok lt m"
  by (simp add: omap_ok_def)

lemma omap_ok_tl: "omap_ok lt m \<Longrightarrow> omap_ok lt (tl m)"
  by (cases m) (auto simp: omap_ok_Cons)

lemma omap_ok_filter: "omap_ok lt m \<Longrightarrow> omap_ok lt (filter P m)"
  by (induction m) (auto simp: omap_ok_Cons)

lemma omap_ok_erase: "omap_ok lt m \<Longrightarrow> omap_ok lt (omap_erase k m)"
  by (simp add: omap_erase_def omap_ok_filter)

lemma omap_ok_dropWhile: "omap_ok lt m \<Longrightarrow> omap_ok lt (dropWhile P m)"
  by (induction m) (auto simp: omap_ok_Cons)

text \<open>
  What the comparator has to be: a strict total order. Every client of the ordered maps
  rests on the two instances below, the ascending order and (for the bids of an order
  book) the descending one.
\<close>

locale key_order =
  fixes lt :: "'k \<Rightarrow> 'k \<Rightarrow> bool"
  assumes lt_irrefl: "\<not> lt a a"
    and lt_trans: "lt a b \<Longrightarrow> lt b c \<Longrightarrow> lt a c"
    and lt_total: "a \<noteq> b \<Longrightarrow> lt a b \<or> lt b a"
begin

lemma omap_ok_put: "omap_ok lt m \<Longrightarrow> omap_ok lt (omap_put lt k v m)"
proof (induction m)
  case Nil
  then show ?case by (simp add: omap_ok_Cons)
next
  case (Cons e m)
  obtain a b where e: "e = (a, b)" by (cases e)
  have "\<forall>x \<in> set (omap_put lt k v m). lt a (fst x)" if "k \<noteq> a" "\<not> lt k a"
    using Cons.prems that lt_total [of k a] set_omap_put [of _ lt k v m]
    by (fastforce simp: omap_ok_Cons e)
  with Cons show ?case by (auto simp: omap_ok_Cons e intro: lt_trans)
qed

lemma omap_ok_distinct: "omap_ok lt m \<Longrightarrow> distinct (map fst m)"
  by (induction m) (auto simp: omap_ok_Cons lt_irrefl)

lemma omap_head_least: "omap_ok lt (e # m) \<Longrightarrow> x \<in> set (e # m) \<Longrightarrow> x = e \<or> lt (fst e) (fst x)"
  by (auto simp: omap_ok_Cons)

lemma omap_eqI:
  assumes "omap_ok lt m" "omap_ok lt n" "map_of m = map_of n"
  shows "m = n"
  using assms
proof (induction m arbitrary: n)
  case Nil
  then show ?case by (cases n) (auto simp: fun_eq_iff split: if_splits)
next
  case (Cons e m)
  obtain a b where e: "e = (a, b)" by (cases e)
  obtain f n' where n: "n = f # n'"
    using Cons.prems(3) e by (cases n) (auto simp: fun_eq_iff split: if_splits)
  obtain c d where f: "f = (c, d)" by (cases f)
  have dm: "distinct (map fst (e # m))" and dn: "distinct (map fst n)"
    using Cons.prems omap_ok_distinct by blast+
  have "set (e # m) = set n"
    using Cons.prems(3) dm dn by (metis map_of_eq_Some_iff set_eqI surj_pair)
  then have ac: "a = c"
    using Cons.prems(1,2) omap_head_least [of e m "(c, d)"] omap_head_least [of f n' "(a, b)"]
      lt_irrefl lt_trans e f n by (metis fst_conv list.set_intros(1))
  have "map_of m = map_of n'"
  proof
    fix k
    show "map_of m k = map_of n' k"
    proof (cases "k = a")
      case True
      have "map_of m a = None" "map_of n' a = None"
        using dm dn e f n ac by (auto simp: map_of_eq_None_iff)
      with True show ?thesis by simp
    next
      case False
      with Cons.prems(3) e f n ac show ?thesis by (auto simp: fun_eq_iff split: if_splits)
    qed
  qed
  moreover have "b = d" using Cons.prems(3) e f n ac by (auto simp: fun_eq_iff split: if_splits)
  ultimately show ?case
    using Cons.IH [of n'] Cons.prems e f n ac by (simp add: omap_ok_Cons)
qed

end

interpretation asc: key_order "(<) :: 'k::linorder \<Rightarrow> 'k \<Rightarrow> bool"
  by unfold_locales auto

interpretation desc: key_order "(>) :: 'k::linorder \<Rightarrow> 'k \<Rightarrow> bool"
  by unfold_locales auto

lemmas omap_ok_intros [inv_intros] =
  omap_ok_Nil omap_ok_tl omap_ok_filter omap_ok_erase omap_ok_dropWhile
  asc.omap_ok_put desc.omap_ok_put

text \<open>\<open>std::set\<close> as an ordered list without values.\<close>

fun oset_insert :: "'k::linorder \<Rightarrow> 'k list \<Rightarrow> 'k list" where
  "oset_insert k [] = [k]"
| "oset_insert k (a # s) =
     (if k = a then a # s else if k < a then k # a # s else a # oset_insert k s)"

definition oset_erase :: "'k \<Rightarrow> 'k list \<Rightarrow> 'k list" where
  "oset_erase k s = filter (\<lambda>a. a \<noteq> k) s"

lemma set_oset_insert [simp]: "set (oset_insert k s) = insert k (set s)"
  by (induction s) auto

lemma set_oset_erase [simp]: "set (oset_erase k s) = set s - {k}"
  by (auto simp: oset_erase_def)

lemma sorted_oset_insert: "sorted_wrt (<) s \<Longrightarrow> sorted_wrt (<) (oset_insert k s)"
  by (induction s) auto

lemma sorted_oset_erase: "sorted_wrt (<) s \<Longrightarrow> sorted_wrt (<) (oset_erase k s)"
  by (simp add: oset_erase_def sorted_wrt_filter)

lemma distinct_sorted_wrt_less: "sorted_wrt (<) (s :: 'k::linorder list) \<Longrightarrow> distinct s"
  by (induction s) auto

end
