(* ===== verification/Text.thy ===== *)
theory Text
  imports Prelude
begin

text \<open>
  The string helpers of \<open>core/src/utils\<close>: the fixed-capacity string
  (\<open>FixedString.hpp\<close>), the normalisation of instrument names (\<open>TickerSymbol.hpp\<close>) that every
  component keyed by ticker relies on, and the percent-encoder of query parameters
  (\<open>UrlEncoder.hpp\<close>). Results: capacity and idempotence of \<open>FixedString\<close>, idempotence of
  both normalisations, and a decoder that inverts the encoder.
\<close>

section \<open>FixedString\<close>

text \<open>\<open>FixedString<N>\<close> keeps at most \<open>N - 1\<close> bytes; \<open>assign\<close> copies the prefix that fits.\<close>

definition fixed_string :: "nat \<Rightarrow> string \<Rightarrow> string" where
  "fixed_string N sv = take (min (length sv) (N - 1)) sv"

lemma fixed_string_take: "fixed_string N sv = take (N - 1) sv"
  by (simp add: fixed_string_def min_def)

lemma length_fixed_string: "0 < N \<Longrightarrow> length (fixed_string N sv) < N"
  by (simp add: fixed_string_take)

lemma fixed_string_idem [simp]: "fixed_string N (fixed_string N sv) = fixed_string N sv"
  by (simp add: fixed_string_take)

lemma fixed_string_fits: "length sv < N \<Longrightarrow> fixed_string N sv = sv"
  by (simp add: fixed_string_take)

section \<open>Instrument names\<close>

text \<open>\<open>std::toupper\<close> and \<open>std::isalnum\<close> on a byte in the default locale: the ASCII letters.\<close>

definition is_lower_byte :: "char \<Rightarrow> bool" where
  "is_lower_byte c \<longleftrightarrow> 97 \<le> (of_char c :: nat) \<and> (of_char c :: nat) \<le> 122"

definition is_upper_byte :: "char \<Rightarrow> bool" where
  "is_upper_byte c \<longleftrightarrow> 65 \<le> (of_char c :: nat) \<and> (of_char c :: nat) \<le> 90"

definition is_digit_byte :: "char \<Rightarrow> bool" where
  "is_digit_byte c \<longleftrightarrow> 48 \<le> (of_char c :: nat) \<and> (of_char c :: nat) \<le> 57"

definition toupper_byte :: "char \<Rightarrow> char" where
  "toupper_byte c = (if is_lower_byte c then char_of (of_char c - 32 :: nat) else c)"

definition is_separator :: "char \<Rightarrow> bool" where
  "is_separator c \<longleftrightarrow> c = CHR ''_'' \<or> c = CHR ''-'' \<or> c = CHR ''/''"

fun to_metascalp_symbol :: "string \<Rightarrow> string" where
  "to_metascalp_symbol [] = []"
| "to_metascalp_symbol (c # cs) =
     (if is_separator c then to_metascalp_symbol cs
      else toupper_byte c # to_metascalp_symbol cs)"

definition quote_assets :: "string list" where
  "quote_assets = [''USDT'', ''USDC'', ''BTC'', ''ETH'', ''BNB'', ''BUSD'']"

definition has_quote :: "string \<Rightarrow> string \<Rightarrow> bool" where
  "has_quote normalized q \<longleftrightarrow>
     length q < length normalized \<and> drop (length normalized - length q) normalized = q"

definition to_internal_ticker :: "string \<Rightarrow> ticker" where
  "to_internal_ticker raw =
     (let normalized = to_metascalp_symbol raw in
      case find (has_quote normalized) quote_assets of
        Some q \<Rightarrow> take (length normalized - length q) normalized @ ''_'' @ q
      | None \<Rightarrow> normalized)"

lemma of_char_toupper: "is_lower_byte c \<Longrightarrow> (of_char (toupper_byte c) :: nat) = of_char c - 32"
  by (auto simp: toupper_byte_def is_lower_byte_def)

lemma not_lower_toupper: "\<not> is_lower_byte (toupper_byte c)"
proof (cases "is_lower_byte c")
  case True
  then have "(of_char (toupper_byte c) :: nat) = of_char c - 32" by (rule of_char_toupper)
  with True show ?thesis unfolding is_lower_byte_def by linarith
next
  case False
  then show ?thesis by (simp add: toupper_byte_def)
qed

lemma toupper_idem [simp]: "toupper_byte (toupper_byte c) = toupper_byte c"
  using not_lower_toupper by (simp add: toupper_byte_def)

lemma separator_codes: "is_separator c \<Longrightarrow> (of_char c :: nat) \<in> {95, 45, 47}"
  by (auto simp: is_separator_def)

lemma separator_toupper [simp]: "is_separator (toupper_byte c) \<longleftrightarrow> is_separator c"
proof (cases "is_lower_byte c")
  case True
  then have "(of_char (toupper_byte c) :: nat) = of_char c - 32" by (rule of_char_toupper)
  moreover have "97 \<le> (of_char c :: nat)" "(of_char c :: nat) \<le> 122"
    using True by (simp_all add: is_lower_byte_def)
  ultimately have "\<not> is_separator (toupper_byte c)" "\<not> is_separator c"
    using separator_codes [of c] separator_codes [of "toupper_byte c"] by auto
  then show ?thesis by simp
next
  case False
  then show ?thesis by (simp add: toupper_byte_def)
qed

lemma to_metascalp_symbol_append [simp]:
  "to_metascalp_symbol (xs @ ys) = to_metascalp_symbol xs @ to_metascalp_symbol ys"
  by (induction xs) auto

lemma to_metascalp_symbol_clean:
  "c \<in> set (to_metascalp_symbol s) \<Longrightarrow> \<not> is_separator c \<and> \<not> is_lower_byte c"
  by (induction s) (auto split: if_splits simp: not_lower_toupper)

lemma to_metascalp_symbol_fixed:
  "(\<And>c. c \<in> set s \<Longrightarrow> \<not> is_separator c \<and> \<not> is_lower_byte c) \<Longrightarrow> to_metascalp_symbol s = s"
  by (induction s) (auto simp: toupper_byte_def)

lemma to_metascalp_symbol_idem [simp]:
  "to_metascalp_symbol (to_metascalp_symbol s) = to_metascalp_symbol s"
  by (rule to_metascalp_symbol_fixed) (rule to_metascalp_symbol_clean)

text \<open>Normalising to the internal name loses nothing of the wire name.\<close>

lemma to_metascalp_internal [simp]:
  "to_metascalp_symbol (to_internal_ticker s) = to_metascalp_symbol s"
proof (cases "find (has_quote (to_metascalp_symbol s)) quote_assets")
  case None
  then show ?thesis by (simp add: to_internal_ticker_def)
next
  case (Some q)
  let ?n = "to_metascalp_symbol s"
  have "has_quote ?n q" using Some by (auto simp: find_Some_iff)
  then have split: "?n = take (length ?n - length q) ?n @ q"
    unfolding has_quote_def by (metis append_take_drop_id)
  have "to_metascalp_symbol (to_internal_ticker s)
      = to_metascalp_symbol (take (length ?n - length q) ?n) @ to_metascalp_symbol q"
    by (simp add: to_internal_ticker_def Let_def Some is_separator_def)
  also have "\<dots> = to_metascalp_symbol (take (length ?n - length q) ?n @ q)" by simp
  also have "\<dots> = to_metascalp_symbol ?n" by (simp add: split [symmetric])
  finally show ?thesis by simp
qed

lemma to_internal_ticker_cong:
  "to_metascalp_symbol s = to_metascalp_symbol t \<Longrightarrow> to_internal_ticker s = to_internal_ticker t"
  by (simp add: to_internal_ticker_def)

lemma to_internal_ticker_idem [simp]:
  "to_internal_ticker (to_internal_ticker s) = to_internal_ticker s"
  by (rule to_internal_ticker_cong) simp

lemma to_internal_ticker_eq_iff:
  "to_internal_ticker s = to_internal_ticker t \<longleftrightarrow> to_metascalp_symbol s = to_metascalp_symbol t"
  by (metis to_internal_ticker_cong to_metascalp_internal)

section \<open>Percent-encoding of query parameters\<close>

definition is_unreserved :: "char \<Rightarrow> bool" where
  "is_unreserved c \<longleftrightarrow>
     is_lower_byte c \<or> is_upper_byte c \<or> is_digit_byte c \<or>
     c = CHR ''-'' \<or> c = CHR ''_'' \<or> c = CHR ''.'' \<or> c = CHR ''~''"

definition hex_chars :: string where "hex_chars = ''0123456789ABCDEF''"

fun url_encode :: "string \<Rightarrow> string" where
  "url_encode [] = []"
| "url_encode (c # cs) =
     (if is_unreserved c then c # url_encode cs
      else CHR ''%'' # hex_chars ! (of_char c div 16) # hex_chars ! (of_char c mod 16)
             # url_encode cs)"

text \<open>
  The specification of the encoder: the decoder of RFC 3986 on its output. It is not part of
  the program; the round trip below says that \<open>url_encode\<close> is invertible and that its output
  holds unreserved bytes and percent triples only.
\<close>

definition hex_value :: "char \<Rightarrow> nat" where
  "hex_value c = (if is_digit_byte c then of_char c - 48 else of_char c - 55)"

fun url_decode :: "string \<Rightarrow> string" where
  "url_decode (c # h # l # cs) =
     (if c = CHR ''%'' then char_of (16 * hex_value h + hex_value l) # url_decode cs
      else c # url_decode (h # l # cs))"
| "url_decode cs = cs"

lemma hex_value_nth: "n < 16 \<Longrightarrow> hex_value (hex_chars ! n) = n"
proof -
  have "\<forall>n \<in> set [0..<16]. hex_value (hex_chars ! n) = n" by code_simp
  then show "n < 16 \<Longrightarrow> hex_value (hex_chars ! n) = n" by simp
qed

lemma of_char_less_256: "(of_char c :: nat) < 256"
  by (rule nat_of_char_less_256)

lemma url_decode_plain: "c \<noteq> CHR ''%'' \<Longrightarrow> url_decode (c # cs) = c # url_decode cs"
  by (cases cs rule: url_decode.cases) (auto split: list.splits)

text \<open>Encoding a query parameter loses nothing: decoding the escapes gives the value back, for
  every byte string.\<close>

theorem url_decode_encode: "url_decode (url_encode s) = s"
proof (induction s)
  case Nil
  then show ?case by simp
next
  case (Cons c cs)
  show ?case
  proof (cases "is_unreserved c")
    case True
    then have "c \<noteq> CHR ''%''"
      by (auto simp: is_unreserved_def is_lower_byte_def is_upper_byte_def is_digit_byte_def)
    with True Cons show ?thesis by (simp add: url_decode_plain)
  next
    case False
    have "(of_char c :: nat) div 16 < 16" "(of_char c :: nat) mod 16 < 16"
      using of_char_less_256 [of c] by (simp_all add: less_mult_imp_div_less)
    with False Cons show ?thesis by (simp add: hex_value_nth)
  qed
qed

end
