(* ===== verification/Domain.thy ===== *)
theory Domain
  imports Text
begin

text \<open>
  The data of the program: \<open>domain/Types.hpp\<close>, \<open>strategy/TradePlan.hpp\<close>,
  \<open>trading/ActiveTrade.hpp\<close>, \<open>risk/AccountState.hpp\<close> and the closed trade of
  \<open>executor/IExecutor.hpp\<close>, one record per struct and one datatype per enum, with the
  source's members in the source's order (prefixed by the struct, since Isabelle's record
  fields share a name space). The \<open>*_default\<close> constants are the member initialisers.
\<close>

section \<open>Enumerations\<close>

datatype side = NoSide | Buy | Sell

datatype order_type = Limit | Stop | StopLoss | TakeProfit | Market

datatype order_status = OrderNew | OrderOpen | OrderClosed

datatype position_status = PositionNew | PositionOpen | PositionClosed

datatype trade_state =
    PendingEntry | Open | Exiting | Closed | Cancelling | SubmitUnknown | EmergencyClosing

datatype reject_reason =
    NoReject | KillSwitchActive | DailyLossLimitHit | TooManyPositions | DuplicatePosition
  | NotInUniverse | StopTooTight | StopTooWide | InvalidStopSide | PoorRewardRisk
  | SizeBelowMinimum | InsufficientMargin | TradeRateLimitHit | LossStreakCircuitBreaker
  | NewsBlackout | FundingBlackout | SinglePositionLossExceeded | EntrySlippageExceeded
  | InternalError

text \<open>The side that closes a position: \<open>side == Side::Buy ? Side::Sell : Side::Buy\<close>.\<close>

definition opposite :: "side \<Rightarrow> side" where
  "opposite s = (if s = Buy then Sell else Buy)"

lemma opposite_simps [simp]: "opposite Buy = Sell" "opposite Sell = Buy"
  by (simp_all add: opposite_def)

section \<open>Market data\<close>

record price_level =
  pl_price :: double
  pl_size :: double
  pl_side :: side

record trade =
  tr_price :: double
  tr_size :: double
  tr_side :: side
  tr_timestamp :: time_point

record order_book_snapshot =
  snap_ticker :: ticker
  snap_asks :: "price_level list"
  snap_bids :: "price_level list"
  snap_ts :: time_point

record order_book_update =
  upd_ticker :: ticker
  upd_changes :: "price_level list"
  upd_ts :: time_point

record orderbook_settings =
  obs_ticker :: ticker
  obs_large_amount_usd :: double
  obs_large_amount_usd2 :: double

record connection_info =
  conn_id :: int
  conn_name :: string
  conn_state :: string
  conn_view_mode :: bool

section \<open>Orders and positions\<close>

record order_update =
  ou_order_id :: int
  ou_ticker :: ticker
  ou_side :: side
  ou_type :: order_type
  ou_price :: double
  ou_filled_price :: double
  ou_size :: double
  ou_filled_size :: double
  ou_fee :: double
  ou_fee_currency :: string
  ou_status :: order_status
  ou_time :: time_point
  ou_client_order_id :: string

record rest_order =
  ro_id :: int
  ro_client_id :: "string option"
  ro_ticker :: ticker
  ro_side :: side
  ro_type :: order_type
  ro_price :: double
  ro_size :: double
  ro_filled_size :: double
  ro_filled_price :: double
  ro_remaining_size :: double
  ro_status :: order_status
  ro_trigger_price :: "double option"
  ro_create_date :: time_point

record position_update =
  pu_connection_id :: int
  pu_position_id :: int
  pu_ticker :: ticker
  pu_side :: side
  pu_size :: double
  pu_avg_price :: double
  pu_avg_price_fix :: double
  pu_avg_price_dyn :: double
  pu_price_increment :: double
  pu_status :: position_status

record place_order_request =
  req_ticker :: ticker
  req_side :: side
  req_price :: double
  req_size :: double
  req_type :: order_type
  req_reduce_only :: bool
  req_client_order_id :: string

section \<open>Trade plans\<close>

text \<open>
  Of \<open>TradePlan\<close> the model keeps every member the risk manager and the executors read. The
  evidence signals, the feature frame and the trace id are attached for the journal and the
  latency histogram only; no modelled decision reads them.
\<close>

record trade_plan =
  plan_ticker :: ticker
  plan_side :: side
  plan_entry_type :: order_type
  plan_entry_price :: double
  plan_stop_price :: double
  plan_tp1_price :: double
  plan_tp2_price :: "double option"
  plan_tp1_size_ratio :: double
  plan_size_coin :: double
  plan_risk_usd :: double
  plan_strategy_name :: string
  plan_reason :: string
  plan_valid_until :: time_point
  plan_no_progress_timeout_sec :: double
  plan_post_entry_grace_sec :: double
  plan_min_follow_through_bps :: double
  plan_entry_correlation :: double
  plan_leader_entry_lag_pct :: double
  plan_correlation_exit_threshold :: double
  plan_leader_exit_reversal_bps :: double
  plan_density_price_for_stop :: double
  plan_approach_count :: int

definition trade_plan_default :: trade_plan where
  "trade_plan_default =
     \<lparr>plan_ticker = '''', plan_side = NoSide, plan_entry_type = Limit,
      plan_entry_price = 0, plan_stop_price = 0, plan_tp1_price = 0, plan_tp2_price = None,
      plan_tp1_size_ratio = 0, plan_size_coin = 0, plan_risk_usd = 0,
      plan_strategy_name = '''', plan_reason = '''', plan_valid_until = 0,
      plan_no_progress_timeout_sec = 120, plan_post_entry_grace_sec = 0,
      plan_min_follow_through_bps = 0, plan_entry_correlation = 0,
      plan_leader_entry_lag_pct = 0, plan_correlation_exit_threshold = 0,
      plan_leader_exit_reversal_bps = 0, plan_density_price_for_stop = 0,
      plan_approach_count = 0\<rparr>"

section \<open>Trades\<close>

record active_trade =
  at_plan :: trade_plan
  at_entry_order_id :: int
  at_stop_order_id :: int
  at_entry_client_order_id :: string
  at_tp1_order_id :: int
  at_tp2_order_id :: int
  at_state :: trade_state
  at_executed_size :: double
  at_avg_entry_price :: double
  at_avg_price_fix :: double
  at_tp1_filled :: bool
  at_opened_at :: time_point
  at_unrealized_pnl :: double

definition active_trade_default :: active_trade where
  "active_trade_default =
     \<lparr>at_plan = trade_plan_default, at_entry_order_id = 0, at_stop_order_id = 0,
      at_entry_client_order_id = '''', at_tp1_order_id = 0, at_tp2_order_id = 0,
      at_state = PendingEntry, at_executed_size = 0, at_avg_entry_price = 0,
      at_avg_price_fix = 0, at_tp1_filled = False, at_opened_at = 0,
      at_unrealized_pnl = 0\<rparr>"

record closed_trade =
  ct_plan :: trade_plan
  ct_entry_price :: double
  ct_exit_price :: double
  ct_size_filled :: double
  ct_pnl_usd :: double
  ct_reason :: string

text \<open>
  The profit of a move from \<open>entry\<close> to \<open>exit\<close>: every executor computes it with
  \<open>side == Side::Buy ? (exit - entry) * size : (entry - exit) * size\<close>.
\<close>

definition side_pnl :: "side \<Rightarrow> double \<Rightarrow> double \<Rightarrow> double \<Rightarrow> double" where
  "side_pnl s entry exit_price sz =
     (if s = Buy then (exit_price - entry) * sz else (entry - exit_price) * sz)"

lemma side_pnl_flat [simp]: "side_pnl s p p sz = 0"
  by (simp add: side_pnl_def)

section \<open>Risk\<close>

record account_state =
  acc_equity_usd :: double
  acc_starting_equity_usd :: double
  acc_realized_pnl_today_usd :: double
  acc_finres_day_start_result_usd :: double
  acc_unrealized_pnl_usd :: double
  acc_free_balance_usd :: double
  acc_mark_price :: double
  acc_active_positions :: int
  acc_active_tickers :: "ticker list"
  acc_trading_day_start :: time_point
  acc_kill_switch_triggered :: bool

text \<open>
  A decision without its \<open>details\<close> member, which is a formatted message for the log.
\<close>

record risk_decision =
  rd_accepted :: bool
  rd_reason :: reject_reason
  rd_adjusted_size_coin :: double
  rd_risk_usd :: double

definition risk_decision_default :: risk_decision where
  "risk_decision_default =
     \<lparr>rd_accepted = False, rd_reason = NoReject, rd_adjusted_size_coin = 0, rd_risk_usd = 0\<rparr>"

end
