(* ===== verification/FixedPoint.thy ===== *)
theory FixedPoint
  imports Domain
begin

text \<open>
  Prices and sizes as scaled 64-bit integers (\<open>numeric/FixedPoint.hpp\<close>) and rounding to a
  price tick (\<open>numeric/PriceUtils.hpp\<close>). Results: the conversions land in
  \<open>[0, 10^15]\<close> (so they fit \<open>int64_t\<close>), they are monotone, and a representable price
  survives the round trip.
\<close>

section \<open>Scaled integers\<close>

text \<open>
  \<open>PriceTick\<close> and \<open>SizeFix\<close> wrap an \<open>int64_t\<close>; the conversions clamp to
  \<open>[0, 1e15]\<close>, so the model reads the wrapped value as an \<^typ>\<open>int\<close>.
  In \<open>from_price\<close> a zero increment gives \<open>price / 0 = +inf\<close>, which \<open>std::clamp\<close>
  takes to \<open>1e15\<close>.
\<close>

type_synonym price_tick = int
type_synonym size_fix = int

definition max_fix :: int where "max_fix = 1000000000000000"

definition from_price :: "double \<Rightarrow> double \<Rightarrow> price_tick" where
  "from_price price increment =
     (if price \<le> 0 then 0
      else if increment = 0 then max_fix
      else clamp (cround (price / increment)) 0 max_fix)"

definition from_price_inv :: "double \<Rightarrow> double \<Rightarrow> price_tick" where
  "from_price_inv price inv_increment =
     (if price \<le> 0 then 0
      else if price * inv_increment > 9223372036854775807 then max_fix
      else clamp (cround (price * inv_increment)) 0 max_fix)"

definition to_price :: "price_tick \<Rightarrow> double \<Rightarrow> double" where
  "to_price ticks increment = real_of_int ticks * increment"

definition from_double :: "double \<Rightarrow> double \<Rightarrow> size_fix" where
  "from_double sz increment =
     (if sz \<le> 0 then 0
      else if increment = 0 then max_fix
      else clamp (cround (sz / increment)) 0 max_fix)"

definition from_double_inv :: "double \<Rightarrow> double \<Rightarrow> size_fix" where
  "from_double_inv sz inv_increment =
     (if sz \<le> 0 then 0 else clamp (cround (sz * inv_increment)) 0 max_fix)"

definition to_double :: "size_fix \<Rightarrow> double \<Rightarrow> double" where
  "to_double raw increment = real_of_int raw * increment"

section \<open>Rounding to a tick\<close>

definition round_to_tick :: "double \<Rightarrow> double \<Rightarrow> double" where
  "round_to_tick val tick =
     (if tick \<le> 0 then val else real_of_int (cround (val / tick)) * tick)"

definition floor_to_tick :: "double \<Rightarrow> double \<Rightarrow> double" where
  "floor_to_tick val tick =
     (if tick \<le> 0 then val
      else real_of_int \<lfloor>(val + tick * (1 / 1000000000)) / tick\<rfloor> * tick)"

definition ceil_to_tick :: "double \<Rightarrow> double \<Rightarrow> double" where
  "ceil_to_tick val tick =
     (if tick \<le> 0 then val
      else real_of_int \<lceil>(val - tick * (1 / 1000000000)) / tick\<rceil> * tick)"

section \<open>Bounds, monotonicity, round trips\<close>

lemma max_fix_pos [simp]: "0 \<le> max_fix" "0 < max_fix"
  by (simp_all add: max_fix_def)

lemma from_price_inv_bounds: "0 \<le> from_price_inv p ri \<and> from_price_inv p ri \<le> max_fix"
  using clamp_bounds [of 0 max_fix "cround (p * ri)"] by (simp add: from_price_inv_def)

lemma from_double_inv_bounds: "0 \<le> from_double_inv s ri \<and> from_double_inv s ri \<le> max_fix"
  using clamp_bounds [of 0 max_fix "cround (s * ri)"] by (simp add: from_double_inv_def)

lemma from_double_inv_nonpos [simp]: "s \<le> 0 \<Longrightarrow> from_double_inv s ri = 0"
  by (simp add: from_double_inv_def)

lemma from_price_inv_mono:
  assumes "p \<le> q" "0 \<le> ri"
  shows "from_price_inv p ri \<le> from_price_inv q ri"
proof -
  have "p * ri \<le> q * ri" using assms by (simp add: mult_right_mono)
  then have "clamp (cround (p * ri)) 0 max_fix \<le> clamp (cround (q * ri)) 0 max_fix"
    by (intro clamp_mono cround_mono) simp_all
  then show ?thesis
    using assms \<open>p * ri \<le> q * ri\<close> from_price_inv_bounds [of q ri]
      clamp_bounds [of 0 max_fix "cround (p * ri)"]
    by (auto simp: from_price_inv_def)
qed

text \<open>A tick in range, turned into a price and back, is the same tick.\<close>

lemma from_price_inv_to_price:
  assumes "0 < increment" "0 \<le> t" "t \<le> max_fix"
  shows "from_price_inv (to_price t increment) (1 / increment) = t"
proof -
  have eq: "to_price t increment * (1 / increment) = real_of_int t"
    using assms by (simp add: to_price_def)
  have "real_of_int t \<le> 9223372036854775807"
    using assms by (simp add: max_fix_def)
  moreover have "to_price t increment \<le> 0 \<longleftrightarrow> t \<le> 0"
    using assms by (simp add: to_price_def mult_le_0_iff)
  ultimately show ?thesis
    using assms unfolding from_price_inv_def eq by (cases "t = 0") auto
qed

lemma to_price_mono: "0 \<le> increment \<Longrightarrow> s \<le> t \<Longrightarrow> to_price s increment \<le> to_price t increment"
  by (simp add: to_price_def mult_right_mono)

lemma to_price_less_iff: "0 < increment \<Longrightarrow> to_price s increment < to_price t increment \<longleftrightarrow> s < t"
  by (simp add: to_price_def)

lemma to_price_nonneg: "0 \<le> increment \<Longrightarrow> 0 \<le> t \<Longrightarrow> 0 \<le> to_price t increment"
  by (simp add: to_price_def)

lemma round_to_tick_error:
  assumes "0 < tick"
  shows "\<bar>round_to_tick val tick - val\<bar> \<le> tick / 2"
proof -
  have "round_to_tick val tick - val = (real_of_int (cround (val / tick)) - val / tick) * tick"
    using assms by (simp add: round_to_tick_def field_simps)
  also have "\<bar>\<dots>\<bar> = \<bar>real_of_int (cround (val / tick)) - val / tick\<bar> * tick"
    using assms by (simp add: abs_mult)
  also have "\<dots> \<le> 1 / 2 * tick"
    using assms cround_error by (intro mult_right_mono) auto
  finally show ?thesis by simp
qed

lemma round_to_tick_idem: "round_to_tick (round_to_tick val tick) tick = round_to_tick val tick"
  by (simp add: round_to_tick_def)

lemma floor_to_tick_le:
  assumes "0 < tick"
  shows "floor_to_tick val tick \<le> val + tick / 1000000000"
proof -
  have "real_of_int \<lfloor>(val + tick * (1 / 1000000000)) / tick\<rfloor> * tick
      \<le> (val + tick * (1 / 1000000000)) / tick * tick"
    using assms by (intro mult_right_mono) auto
  then show ?thesis using assms by (simp add: floor_to_tick_def)
qed

end
