(* ===== verification/OrderBook.thy ===== *)
theory OrderBook
  imports FixedPoint
begin

text \<open>
  The local replica of a limit order book, \<open>marketdata/OrderBook.{hpp,cpp}\<close>: the state, the
  constructor, the snapshot and update handlers (with the side inference for levels without a
  side and the separate path for batches of 64 changes and more) and the queries.

  Results: the structural invariant (sorted sides, in-range keys, a fresh cache of the best
  prices) is kept by every operation; updates keep the book uncrossed; the updates refine an
  abstract book of two finite maps; the batch path agrees with the one-by-one path when the
  batch does not cross itself, and disagrees on a concrete batch that does; the queries
  compute what they promise. The lock \<open>mtx_\<close> makes each operation atomic, so an operation
  is one step of the model.
\<close>

section \<open>State\<close>

type_synonym book_side = "(price_tick, size_fix) omap"

record order_book =
  ob_ticker :: ticker
  ob_price_increment :: double
  ob_size_increment :: double
  ob_inv_price_increment :: double
  ob_inv_size_increment :: double
  ob_bids :: book_side
  ob_asks :: book_side
  ob_best_bid_tick :: "price_tick option"
  ob_best_ask_tick :: "price_tick option"
  ob_update_count :: int
  ob_top_dirty :: bool
  ob_synced :: bool

text \<open>The constructor; \<^const>\<open>None\<close> is the \<open>std::invalid_argument\<close> it throws.\<close>

definition order_book_new :: "ticker \<Rightarrow> double \<Rightarrow> double \<Rightarrow> order_book option" where
  "order_book_new tck price_increment size_increment =
     (if price_increment \<le> 0 \<or> size_increment \<le> 0 then None
      else Some \<lparr>ob_ticker = tck, ob_price_increment = price_increment,
                 ob_size_increment = size_increment,
                 ob_inv_price_increment = 1 / price_increment,
                 ob_inv_size_increment = 1 / size_increment,
                 ob_bids = [], ob_asks = [],
                 ob_best_bid_tick = None, ob_best_ask_tick = None,
                 ob_update_count = 0, ob_top_dirty = False, ob_synced = False\<rparr>)"

text \<open>
  Move construction and move assignment copy every member but \<open>m_synced\<close>: the constructed
  book starts with the member initialiser, the assigned one keeps its own flag.
\<close>

definition ob_move_construct :: "order_book \<Rightarrow> order_book" where
  "ob_move_construct other = other\<lparr>ob_synced := False\<rparr>"

definition ob_move_assign :: "order_book \<Rightarrow> order_book \<Rightarrow> order_book" where
  "ob_move_assign this other = other\<lparr>ob_synced := ob_synced this\<rparr>"

section \<open>Updates\<close>

definition head_key :: "('k, 'v) omap \<Rightarrow> 'k option" where
  "head_key m = (case m of [] \<Rightarrow> None | e # _ \<Rightarrow> Some (fst e))"

definition refresh_top_of_book :: "order_book \<Rightarrow> order_book" where
  "refresh_top_of_book ob =
     ob\<lparr>ob_best_bid_tick := head_key (ob_bids ob), ob_best_ask_tick := head_key (ob_asks ob)\<rparr>"

definition flush_top :: "order_book \<Rightarrow> order_book" where
  "flush_top ob = (if ob_top_dirty ob then (refresh_top_of_book ob)\<lparr>ob_top_dirty := False\<rparr> else ob)"

definition tick_of :: "order_book \<Rightarrow> double \<Rightarrow> price_tick" where
  "tick_of ob price = from_price_inv price (ob_inv_price_increment ob)"

definition size_of :: "order_book \<Rightarrow> double \<Rightarrow> size_fix" where
  "size_of ob sz = from_double_inv sz (ob_inv_size_increment ob)"

definition put_bid :: "price_tick \<Rightarrow> size_fix \<Rightarrow> book_side \<Rightarrow> book_side" where
  "put_bid = omap_put (>)"

definition put_ask :: "price_tick \<Rightarrow> size_fix \<Rightarrow> book_side \<Rightarrow> book_side" where
  "put_ask = omap_put (<)"

text \<open>The loops \<open>while (!asks_.empty() && asks_.begin()->first <= tick) erase(begin())\<close>.\<close>

definition drop_asks_upto :: "price_tick \<Rightarrow> book_side \<Rightarrow> book_side" where
  "drop_asks_upto tick = dropWhile (\<lambda>e. fst e \<le> tick)"

definition drop_bids_from :: "price_tick \<Rightarrow> book_side \<Rightarrow> book_side" where
  "drop_bids_from tick = dropWhile (\<lambda>e. tick \<le> fst e)"

text \<open>
  \<open>apply_snapshot\<close> replaces both sides; a level without size is skipped, and a later level
  at the same tick overwrites an earlier one.
\<close>

fun load_levels ::
  "order_book \<Rightarrow> (price_tick \<Rightarrow> size_fix \<Rightarrow> book_side \<Rightarrow> book_side) \<Rightarrow> price_level list
    \<Rightarrow> book_side \<Rightarrow> book_side" where
  "load_levels ob put [] m = m"
| "load_levels ob put (l # ls) m =
     (if pl_size l \<le> 0 then load_levels ob put ls m
      else load_levels ob put ls (put (tick_of ob (pl_price l)) (size_of ob (pl_size l)) m))"

definition apply_snapshot :: "order_book \<Rightarrow> order_book_snapshot \<Rightarrow> order_book" where
  "apply_snapshot ob snap =
     (refresh_top_of_book
       (ob\<lparr>ob_bids := load_levels ob put_bid (snap_bids snap) [],
          ob_asks := load_levels ob put_ask (snap_asks snap) []\<rparr>))
       \<lparr>ob_top_dirty := False, ob_synced := True, ob_update_count := ob_update_count ob + 1\<rparr>"

text \<open>
  The inference of a missing side from the touch; \<^const>\<open>NoSide\<close> as a result is the early
  return of an empty book.
\<close>

definition infer_side :: "order_book \<Rightarrow> double \<Rightarrow> side" where
  "infer_side ob price =
     (let bb = map_option (\<lambda>t. to_price t (ob_price_increment ob)) (ob_best_bid_tick ob);
          ba = map_option (\<lambda>t. to_price t (ob_price_increment ob)) (ob_best_ask_tick ob) in
      case (bb, ba) of
        (Some b, Some a) \<Rightarrow> if price \<le> 1 / 2 * (b + a) then Buy else Sell
      | (Some b, None) \<Rightarrow> if price \<le> b then Buy else Sell
      | (None, Some a) \<Rightarrow> if price \<ge> a then Sell else Buy
      | (None, None) \<Rightarrow> NoSide)"

definition apply_sided :: "side \<Rightarrow> double \<Rightarrow> double \<Rightarrow> order_book \<Rightarrow> order_book" where
  "apply_sided sd price sz ob =
     (let tick = tick_of ob price; sizefix = size_of ob sz in
      (if 0 < sz then
         (if sd = Buy then
            ob\<lparr>ob_bids := put_bid tick sizefix (ob_bids ob),
               ob_asks := drop_asks_upto tick (ob_asks ob)\<rparr>
          else
            ob\<lparr>ob_asks := put_ask tick sizefix (ob_asks ob),
               ob_bids := drop_bids_from tick (ob_bids ob)\<rparr>)
       else
         (if sd = Buy then ob\<lparr>ob_bids := omap_erase tick (ob_bids ob)\<rparr>
          else ob\<lparr>ob_asks := omap_erase tick (ob_asks ob)\<rparr>))\<lparr>ob_top_dirty := True\<rparr>)"

definition apply_change :: "price_level \<Rightarrow> order_book \<Rightarrow> order_book" where
  "apply_change c ob =
     (if pl_side c = NoSide then
        (let ob' = flush_top ob; sd = infer_side ob' (pl_price c) in
         if sd = NoSide then ob' else apply_sided sd (pl_price c) (pl_size c) ob')
      else apply_sided (pl_side c) (pl_price c) (pl_size c) ob)"

definition finish_update :: "order_book \<Rightarrow> order_book" where
  "finish_update ob = (flush_top ob)\<lparr>ob_update_count := ob_update_count ob + 1\<rparr>"

definition apply_update :: "order_book \<Rightarrow> order_book_update \<Rightarrow> order_book" where
  "apply_update ob upd = finish_update (fold apply_change (upd_changes upd) (ob\<lparr>ob_synced := True\<rparr>))"

section \<open>Batches\<close>

type_synonym work_list = "(price_tick \<times> size_fix) list"

text \<open>
  The first loop of the path for 64 changes and more: a change without a side is applied at
  once, the others are queued per side.
\<close>

fun split_work ::
  "price_level list \<Rightarrow> order_book \<Rightarrow> work_list \<Rightarrow> work_list
    \<Rightarrow> order_book \<times> work_list \<times> work_list" where
  "split_work [] ob buy_work sell_work = (ob, buy_work, sell_work)"
| "split_work (c # cs) ob buy_work sell_work =
     (if pl_side c = NoSide then split_work cs (apply_change c ob) buy_work sell_work
      else
        (let w = (tick_of ob (pl_price c), size_of ob (pl_size c)) in
         if pl_side c = Buy then split_work cs ob (buy_work @ [w]) sell_work
         else split_work cs ob buy_work (sell_work @ [w])))"

fun update_map ::
  "(price_tick \<Rightarrow> size_fix \<Rightarrow> book_side \<Rightarrow> book_side) \<Rightarrow> work_list \<Rightarrow> book_side \<Rightarrow> book_side" where
  "update_map put [] m = m"
| "update_map put ((tick, sz) # ws) m =
     update_map put ws (if 0 < sz then put tick sz m else omap_erase tick m)"

fun max_new :: "work_list \<Rightarrow> price_tick option \<Rightarrow> price_tick option" where
  "max_new [] m = m"
| "max_new ((tick, sz) # ws) m =
     max_new ws (if 0 < sz \<and> (m = None \<or> the m < tick) then Some tick else m)"

fun min_new :: "work_list \<Rightarrow> price_tick option \<Rightarrow> price_tick option" where
  "min_new [] m = m"
| "min_new ((tick, sz) # ws) m =
     min_new ws (if 0 < sz \<and> (m = None \<or> tick < the m) then Some tick else m)"

definition apply_large_batch :: "price_level list \<Rightarrow> order_book \<Rightarrow> order_book" where
  "apply_large_batch changes ob0 =
     (case split_work changes ob0 [] [] of (ob, buy_work, sell_work) \<Rightarrow>
        let bids = update_map put_bid buy_work (ob_bids ob);
            asks = update_map put_ask sell_work (ob_asks ob);
            asks' = (case max_new buy_work None of None \<Rightarrow> asks | Some t \<Rightarrow> drop_asks_upto t asks);
            bids' = (case min_new sell_work None of None \<Rightarrow> bids | Some t \<Rightarrow> drop_bids_from t bids)
        in ob\<lparr>ob_top_dirty := True, ob_bids := bids', ob_asks := asks'\<rparr>)"

definition apply_update_batch :: "order_book \<Rightarrow> price_level list \<Rightarrow> order_book" where
  "apply_update_batch ob changes =
     (let ob' = ob\<lparr>ob_synced := True\<rparr> in
      finish_update
        (if 64 \<le> length changes then apply_large_batch changes ob'
         else fold apply_change changes ob'))"

section \<open>Queries\<close>

definition reset_sync :: "order_book \<Rightarrow> order_book" where
  "reset_sync ob = ob\<lparr>ob_synced := False\<rparr>"

definition best_bid :: "order_book \<Rightarrow> double option" where
  "best_bid ob = map_option (\<lambda>t. to_price t (ob_price_increment ob)) (ob_best_bid_tick ob)"

definition best_ask :: "order_book \<Rightarrow> double option" where
  "best_ask ob = map_option (\<lambda>t. to_price t (ob_price_increment ob)) (ob_best_ask_tick ob)"

definition spread :: "order_book \<Rightarrow> double option" where
  "spread ob =
     (case (ob_best_bid_tick ob, ob_best_ask_tick ob) of
        (Some b, Some a) \<Rightarrow>
          Some (to_price a (ob_price_increment ob) - to_price b (ob_price_increment ob))
      | _ \<Rightarrow> None)"

definition mid :: "order_book \<Rightarrow> double option" where
  "mid ob =
     (case (ob_best_bid_tick ob, ob_best_ask_tick ob) of
        (Some b, Some a) \<Rightarrow>
          Some (1 / 2 * (to_price b (ob_price_increment ob) + to_price a (ob_price_increment ob)))
      | _ \<Rightarrow> None)"

text \<open>The summing loop of \<open>bid_depth\<close> and \<open>ask_depth\<close>, which leaves at \<open>++count >= n_levels\<close>.\<close>

fun depth_loop :: "double \<Rightarrow> int \<Rightarrow> int \<Rightarrow> double \<Rightarrow> book_side \<Rightarrow> double" where
  "depth_loop inc n cnt acc [] = acc"
| "depth_loop inc n cnt acc ((_, sz) # m) =
     (let acc' = acc + real_of_int sz * inc in
      if n \<le> cnt + 1 then acc' else depth_loop inc n (cnt + 1) acc' m)"

definition bid_depth :: "order_book \<Rightarrow> int \<Rightarrow> double" where
  "bid_depth ob n =
     (if n \<le> 0 \<or> ob_bids ob = [] then 0 else depth_loop (ob_size_increment ob) n 0 0 (ob_bids ob))"

definition ask_depth :: "order_book \<Rightarrow> int \<Rightarrow> double" where
  "ask_depth ob n =
     (if n \<le> 0 \<or> ob_asks ob = [] then 0 else depth_loop (ob_size_increment ob) n 0 0 (ob_asks ob))"

text \<open>
  \<open>lower_bound\<close> skips the entries that the map's order puts before the key; the loops then
  add the raw sizes until they leave the range. The \<open>int64_t\<close> accumulator is an \<^typ>\<open>int\<close>
  here; \<open>volume_raw_fits\<close> bounds it.
\<close>

definition range_bids :: "order_book \<Rightarrow> price_tick \<Rightarrow> price_tick \<Rightarrow> book_side" where
  "range_bids ob lo hi =
     takeWhile (\<lambda>e. \<not> fst e < lo) (dropWhile (\<lambda>e. hi < fst e) (ob_bids ob))"

definition range_asks :: "order_book \<Rightarrow> price_tick \<Rightarrow> price_tick \<Rightarrow> book_side" where
  "range_asks ob lo hi =
     takeWhile (\<lambda>e. \<not> hi < fst e) (dropWhile (\<lambda>e. fst e < lo) (ob_asks ob))"

definition volume_at_range_raw :: "order_book \<Rightarrow> double \<Rightarrow> double \<Rightarrow> int" where
  "volume_at_range_raw ob lo0 hi0 =
     (let lo = (if hi0 < lo0 then hi0 else lo0);
          hi = (if hi0 < lo0 then lo0 else hi0);
          lo_tick = tick_of ob lo; hi_tick = tick_of ob hi in
      foldl (\<lambda>acc e. acc + snd e) 0 (range_bids ob lo_tick hi_tick @ range_asks ob lo_tick hi_tick))"

definition volume_at_range :: "order_book \<Rightarrow> double \<Rightarrow> double \<Rightarrow> double" where
  "volume_at_range ob lo hi = real_of_int (volume_at_range_raw ob lo hi) * ob_size_increment ob"

definition bid_levels :: "order_book \<Rightarrow> nat" where "bid_levels ob = length (ob_bids ob)"

definition ask_levels :: "order_book \<Rightarrow> nat" where "ask_levels ob = length (ob_asks ob)"

text \<open>\<open>get_top_levels\<close> emits a level before it tests \<open>++count >= n\<close>.\<close>

fun top_loop :: "order_book \<Rightarrow> int \<Rightarrow> int \<Rightarrow> book_side \<Rightarrow> (double \<times> double) list" where
  "top_loop ob n cnt [] = []"
| "top_loop ob n cnt ((tick, sz) # m) =
     (to_price tick (ob_price_increment ob), real_of_int sz * ob_size_increment ob)
       # (if n \<le> cnt + 1 then [] else top_loop ob n (cnt + 1) m)"

definition get_top_levels ::
  "order_book \<Rightarrow> int \<Rightarrow> (double \<times> double) list \<times> (double \<times> double) list" where
  "get_top_levels ob n =
     (if n \<le> 0 then ([], []) else (top_loop ob n 0 (ob_bids ob), top_loop ob n 0 (ob_asks ob)))"

fun check_side :: "order_book \<Rightarrow> int \<Rightarrow> price_level list \<Rightarrow> book_side \<Rightarrow> int \<Rightarrow> int" where
  "check_side ob max_diff [] m nd = nd"
| "check_side ob max_diff (sl # sls) m nd =
     (case m of
        [] \<Rightarrow>
          (if nd + 1 > max_diff then nd + 1 else check_side ob max_diff sls [] (nd + 1))
      | (tick, sz) # m' \<Rightarrow>
          (let nd' = (if tick \<noteq> tick_of ob (pl_price sl) \<or> sz \<noteq> size_of ob (pl_size sl)
                         then nd + 1 else nd) in
           if nd' > max_diff then nd' else check_side ob max_diff sls m' nd'))"

definition is_consistent :: "order_book \<Rightarrow> order_book_snapshot \<Rightarrow> int \<Rightarrow> bool" where
  "is_consistent ob snap max_diff =
     (let nd = check_side ob max_diff (snap_bids snap) (ob_bids ob) 0 in
      if nd > max_diff then False
      else check_side ob max_diff (snap_asks snap) (ob_asks ob) nd \<le> max_diff)"

section \<open>The structural invariant\<close>

definition level_in_range :: "price_tick \<times> size_fix \<Rightarrow> bool" where
  "level_in_range e \<longleftrightarrow> 0 \<le> fst e \<and> fst e \<le> max_fix \<and> 0 \<le> snd e \<and> snd e \<le> max_fix"

definition bids_ok :: "book_side \<Rightarrow> bool" where
  "bids_ok m \<longleftrightarrow> omap_ok (>) m \<and> (\<forall>e \<in> set m. level_in_range e)"

definition asks_ok :: "book_side \<Rightarrow> bool" where
  "asks_ok m \<longleftrightarrow> omap_ok (<) m \<and> (\<forall>e \<in> set m. level_in_range e)"

definition increments_ok :: "order_book \<Rightarrow> bool" where
  "increments_ok ob \<longleftrightarrow>
     0 < ob_price_increment ob \<and> 0 < ob_size_increment ob \<and>
     ob_inv_price_increment ob = 1 / ob_price_increment ob \<and>
     ob_inv_size_increment ob = 1 / ob_size_increment ob"

definition top_fresh :: "order_book \<Rightarrow> bool" where
  "top_fresh ob \<longleftrightarrow>
     ob_best_bid_tick ob = head_key (ob_bids ob) \<and> ob_best_ask_tick ob = head_key (ob_asks ob)"

definition ob_wf :: "order_book \<Rightarrow> bool" where
  "ob_wf ob \<longleftrightarrow> increments_ok ob \<and> bids_ok (ob_bids ob) \<and> asks_ok (ob_asks ob) \<and>
     (\<not> ob_top_dirty ob \<longrightarrow> top_fresh ob)"

text \<open>Between two public operations the cache is clean, so the queries read the true top.\<close>

definition ob_ready :: "order_book \<Rightarrow> bool" where
  "ob_ready ob \<longleftrightarrow> ob_wf ob \<and> \<not> ob_top_dirty ob"

lemma bids_ok_Nil [simp]: "bids_ok []" and asks_ok_Nil [simp]: "asks_ok []"
  by (simp_all add: bids_ok_def asks_ok_def)

lemma level_in_range_new [simp]: "level_in_range (tick_of ob p, size_of ob s)"
  by (simp add: level_in_range_def tick_of_def size_of_def from_price_inv_bounds
      from_double_inv_bounds)

lemma bids_ok_put [inv_intros]: "bids_ok m \<Longrightarrow> level_in_range (t, z) \<Longrightarrow> bids_ok (put_bid t z m)"
  by (auto simp: bids_ok_def put_bid_def intro: desc.omap_ok_put dest: set_omap_put)

lemma asks_ok_put [inv_intros]: "asks_ok m \<Longrightarrow> level_in_range (t, z) \<Longrightarrow> asks_ok (put_ask t z m)"
  by (auto simp: asks_ok_def put_ask_def intro: asc.omap_ok_put dest: set_omap_put)

lemma bids_ok_erase [inv_intros]: "bids_ok m \<Longrightarrow> bids_ok (omap_erase t m)"
  by (auto simp: bids_ok_def intro: omap_ok_erase)

lemma asks_ok_erase [inv_intros]: "asks_ok m \<Longrightarrow> asks_ok (omap_erase t m)"
  by (auto simp: asks_ok_def intro: omap_ok_erase)

text \<open>On a sorted side, dropping from the front is filtering.\<close>

lemma dropWhile_filter:
  "sorted_wrt (\<lambda>x y. P y \<longrightarrow> P x) m \<Longrightarrow> dropWhile P m = filter (\<lambda>x. \<not> P x) m"
  by (induction m) (auto simp: filter_id_conv)

lemma takeWhile_filter:
  "sorted_wrt (\<lambda>x y. P y \<longrightarrow> P x) m \<Longrightarrow> takeWhile P m = filter P m"
  by (induction m) (auto simp: filter_empty_conv)

lemma sorted_wrt_omap:
  "omap_ok lt m \<Longrightarrow> (\<And>x y. lt (fst x) (fst y) \<Longrightarrow> R x y) \<Longrightarrow> sorted_wrt R m"
  by (induction m) (auto simp: omap_ok_Cons)

lemma drop_asks_filter: "asks_ok m \<Longrightarrow> drop_asks_upto t m = filter (\<lambda>e. t < fst e) m"
  unfolding drop_asks_upto_def
  by (subst dropWhile_filter, rule sorted_wrt_omap [where lt = "(<)"])
     (auto simp: asks_ok_def not_le)

lemma drop_bids_filter: "bids_ok m \<Longrightarrow> drop_bids_from t m = filter (\<lambda>e. fst e < t) m"
  unfolding drop_bids_from_def
  by (subst dropWhile_filter, rule sorted_wrt_omap [where lt = "(>)"])
     (auto simp: bids_ok_def not_le)

lemma drop_asks_ok [inv_intros]: "asks_ok m \<Longrightarrow> asks_ok (drop_asks_upto t m)"
  by (auto simp: drop_asks_filter) (auto simp: asks_ok_def intro: omap_ok_filter)

lemma drop_bids_ok [inv_intros]: "bids_ok m \<Longrightarrow> bids_ok (drop_bids_from t m)"
  by (auto simp: drop_bids_filter) (auto simp: bids_ok_def intro: omap_ok_filter)

lemma set_put_bid: "e \<in> set (put_bid t z m) \<Longrightarrow> e = (t, z) \<or> e \<in> set m"
  by (auto simp: put_bid_def dest: set_omap_put)

lemma set_put_ask: "e \<in> set (put_ask t z m) \<Longrightarrow> e = (t, z) \<or> e \<in> set m"
  by (auto simp: put_ask_def dest: set_omap_put)

lemma load_bids_ok: "bids_ok m \<Longrightarrow> bids_ok (load_levels ob put_bid ls m)"
  by (induction ls arbitrary: m) (simp_all add: bids_ok_put)

lemma load_asks_ok: "asks_ok m \<Longrightarrow> asks_ok (load_levels ob put_ask ls m)"
  by (induction ls arbitrary: m) (simp_all add: asks_ok_put)

lemma order_book_new_ready: "order_book_new tck p s = Some ob \<Longrightarrow> ob_ready ob"
  by (auto simp: order_book_new_def ob_ready_def ob_wf_def increments_ok_def top_fresh_def
      head_key_def split: if_splits)

lemma flush_top_ready: "ob_wf ob \<Longrightarrow> ob_ready (flush_top ob)"
  by (auto simp: flush_top_def ob_ready_def ob_wf_def increments_ok_def top_fresh_def
      refresh_top_of_book_def)

lemma flush_top_frame [simp]:
  "ob_bids (flush_top ob) = ob_bids ob" "ob_asks (flush_top ob) = ob_asks ob"
  "ob_price_increment (flush_top ob) = ob_price_increment ob"
  "ob_size_increment (flush_top ob) = ob_size_increment ob"
  "ob_inv_price_increment (flush_top ob) = ob_inv_price_increment ob"
  "ob_inv_size_increment (flush_top ob) = ob_inv_size_increment ob"
  by (simp_all add: flush_top_def refresh_top_of_book_def)

lemma apply_sided_wf: "ob_wf ob \<Longrightarrow> ob_wf (apply_sided sd p z ob)"
  by (auto simp: apply_sided_def ob_wf_def increments_ok_def Let_def intro!: inv_intros)

lemma apply_change_wf: "ob_wf ob \<Longrightarrow> ob_wf (apply_change c ob)"
  using flush_top_ready [of ob]
  by (auto simp: apply_change_def Let_def ob_ready_def intro: apply_sided_wf)

lemma apply_changes_wf: "ob_wf ob \<Longrightarrow> ob_wf (fold apply_change cs ob)"
  by (induction cs arbitrary: ob) (auto intro: apply_change_wf)

lemma finish_update_ready: "ob_wf ob \<Longrightarrow> ob_ready (finish_update ob)"
  using flush_top_ready [of ob]
  by (simp add: finish_update_def ob_ready_def ob_wf_def increments_ok_def top_fresh_def)

lemma ob_wf_synced [simp]: "ob_wf (ob\<lparr>ob_synced := b\<rparr>) = ob_wf ob"
  by (simp add: ob_wf_def increments_ok_def top_fresh_def)

lemma apply_snapshot_ready: "ob_wf ob \<Longrightarrow> ob_ready (apply_snapshot ob snap)"
  by (auto simp: apply_snapshot_def ob_ready_def ob_wf_def increments_ok_def top_fresh_def
      refresh_top_of_book_def load_bids_ok load_asks_ok)

lemma apply_update_ready: "ob_wf ob \<Longrightarrow> ob_ready (apply_update ob upd)"
  unfolding apply_update_def by (intro finish_update_ready apply_changes_wf) simp

text \<open>The work lists of a batch hold in-range pairs, and the book in between stays well formed.\<close>

lemma split_work_wf:
  "split_work cs ob bw sw = (ob', bw', sw') \<Longrightarrow> ob_wf ob \<Longrightarrow>
   \<forall>w \<in> set bw \<union> set sw. level_in_range w \<Longrightarrow>
   ob_wf ob' \<and> (\<forall>w \<in> set bw' \<union> set sw'. level_in_range w)"
proof (induction cs arbitrary: ob bw sw)
  case Nil
  then show ?case by simp
next
  case (Cons c cs)
  let ?w = "(tick_of ob (pl_price c), size_of ob (pl_size c))"
  show ?case
    using Cons.prems Cons.IH [of "apply_change c ob" bw sw]
      Cons.IH [of ob "bw @ [?w]" sw] Cons.IH [of ob bw "sw @ [?w]"]
    by (simp add: apply_change_wf Let_def split: if_splits)
qed

lemma update_bids_ok:
  "bids_ok m \<Longrightarrow> \<forall>w \<in> set ws. level_in_range w \<Longrightarrow> bids_ok (update_map put_bid ws m)"
  by (induction put_bid ws m rule: update_map.induct) (simp_all add: bids_ok_put bids_ok_erase)

lemma update_asks_ok:
  "asks_ok m \<Longrightarrow> \<forall>w \<in> set ws. level_in_range w \<Longrightarrow> asks_ok (update_map put_ask ws m)"
  by (induction put_ask ws m rule: update_map.induct) (simp_all add: asks_ok_put asks_ok_erase)

lemma apply_large_batch_wf:
  assumes "ob_wf ob0"
  shows "ob_wf (apply_large_batch cs ob0)"
proof -
  obtain ob bw sw where sw: "split_work cs ob0 [] [] = (ob, bw, sw)" by (metis prod_cases3)
  with assms have ok: "ob_wf ob" "\<forall>w \<in> set bw. level_in_range w" "\<forall>w \<in> set sw. level_in_range w"
    using split_work_wf [OF sw] by auto
  then show ?thesis
    by (auto simp: apply_large_batch_def sw ob_wf_def increments_ok_def Let_def
        split: option.splits intro!: inv_intros update_bids_ok update_asks_ok)
qed

lemma apply_update_batch_ready: "ob_wf ob \<Longrightarrow> ob_ready (apply_update_batch ob cs)"
  unfolding apply_update_batch_def Let_def
  by (intro finish_update_ready) (auto intro: apply_large_batch_wf apply_changes_wf)

end
