(* ===== verification/OrderBookSpec.thy ===== *)
theory OrderBookSpec
  imports OrderBook
begin

text \<open>
  The abstract specification of the order book, two finite maps from ticks to sizes, and
  what the operations of \<open>OrderBook.thy\<close> promise about it: the refinement of the updates, the
  uncrossed invariant, the agreement of the two update paths, and the meaning of the queries.
\<close>

section \<open>Abstract books\<close>

type_synonym abs_book = "(price_tick \<rightharpoonup> size_fix) \<times> (price_tick \<rightharpoonup> size_fix)"

definition book_view :: "order_book \<Rightarrow> abs_book" where
  "book_view ob = (map_of (ob_bids ob), map_of (ob_asks ob))"

definition abs_best_bid :: "(price_tick \<rightharpoonup> size_fix) \<Rightarrow> price_tick option" where
  "abs_best_bid B = (if dom B = {} then None else Some (Max (dom B)))"

definition abs_best_ask :: "(price_tick \<rightharpoonup> size_fix) \<Rightarrow> price_tick option" where
  "abs_best_ask A = (if dom A = {} then None else Some (Min (dom A)))"

text \<open>
  A positive size at a tick sets the level and removes what it crosses on the other side; any
  other size removes the level.
\<close>

definition abs_sided :: "side \<Rightarrow> price_tick \<Rightarrow> size_fix option \<Rightarrow> abs_book \<Rightarrow> abs_book" where
  "abs_sided sd t zo BA = (case BA of (B, A) \<Rightarrow>
     (if sd = Buy then (B(t := zo), if zo = None then A else A |` {x. t < x})
      else (if zo = None then B else B |` {x. x < t}, A(t := zo))))"

text \<open>A level without a side goes to the side of the touch it lies on.\<close>

definition abs_infer :: "double \<Rightarrow> double \<Rightarrow> abs_book \<Rightarrow> side" where
  "abs_infer inc price BA =
     (case (abs_best_bid (fst BA), abs_best_ask (snd BA)) of
        (Some b, Some a) \<Rightarrow> if price \<le> (to_price b inc + to_price a inc) / 2 then Buy else Sell
      | (Some b, None) \<Rightarrow> if price \<le> to_price b inc then Buy else Sell
      | (None, Some a) \<Rightarrow> if to_price a inc \<le> price then Sell else Buy
      | (None, None) \<Rightarrow> NoSide)"

definition abs_change :: "double \<Rightarrow> double \<Rightarrow> price_level \<Rightarrow> abs_book \<Rightarrow> abs_book" where
  "abs_change pinc sinc c BA =
     (let sd = (if pl_side c = NoSide then abs_infer pinc (pl_price c) BA else pl_side c);
          zo = (if 0 < pl_size c then Some (from_double_inv (pl_size c) (1 / sinc)) else None) in
      if sd = NoSide then BA else abs_sided sd (from_price_inv (pl_price c) (1 / pinc)) zo BA)"

definition abs_load ::
  "double \<Rightarrow> double \<Rightarrow> price_level list \<Rightarrow> (price_tick \<rightharpoonup> size_fix) \<Rightarrow> (price_tick \<rightharpoonup> size_fix)" where
  "abs_load pinc sinc = fold (\<lambda>l m.
     if pl_size l \<le> 0 then m
     else m(from_price_inv (pl_price l) (1 / pinc) \<mapsto> from_double_inv (pl_size l) (1 / sinc)))"

section \<open>The sides as maps\<close>

lemma map_of_filter_key: "map_of (filter (\<lambda>e. P (fst e)) m) = map_of m |` {k. P k}"
  by (induction m) (auto simp: fun_eq_iff restrict_map_def)

lemma map_of_put_bid [simp]: "map_of (put_bid t z m) = (map_of m)(t \<mapsto> z)"
  by (simp add: put_bid_def)

lemma map_of_put_ask [simp]: "map_of (put_ask t z m) = (map_of m)(t \<mapsto> z)"
  by (simp add: put_ask_def)

lemma map_of_drop_asks: "asks_ok m \<Longrightarrow> map_of (drop_asks_upto t m) = map_of m |` {x. t < x}"
  by (simp add: drop_asks_filter map_of_filter_key)

lemma map_of_drop_bids: "bids_ok m \<Longrightarrow> map_of (drop_bids_from t m) = map_of m |` {x. x < t}"
  by (simp add: drop_bids_filter map_of_filter_key [where P = "\<lambda>k. k < t"])

lemma dom_map_of_keys: "dom (map_of m) = fst ` set m"
  by (rule dom_map_of_conv_image_fst)

lemma head_key_bids: "bids_ok m \<Longrightarrow> head_key m = abs_best_bid (map_of m)"
proof (cases m)
  case Nil
  then show ?thesis by (simp add: head_key_def abs_best_bid_def)
next
  case (Cons e m')
  assume "bids_ok m"
  then have "Max (fst ` set m) = fst e"
    using Cons by (intro Max_eqI) (auto simp: bids_ok_def omap_ok_Cons less_imp_le)
  with Cons show ?thesis by (simp add: head_key_def abs_best_bid_def dom_map_of_keys del: map_of.simps)
qed

lemma head_key_asks: "asks_ok m \<Longrightarrow> head_key m = abs_best_ask (map_of m)"
proof (cases m)
  case Nil
  then show ?thesis by (simp add: head_key_def abs_best_ask_def)
next
  case (Cons e m')
  assume "asks_ok m"
  then have "Min (fst ` set m) = fst e"
    using Cons by (intro Min_eqI) (auto simp: asks_ok_def omap_ok_Cons less_imp_le)
  with Cons show ?thesis by (simp add: head_key_def abs_best_ask_def dom_map_of_keys del: map_of.simps)
qed

lemma ready_top:
  assumes "ob_ready ob"
  shows "ob_best_bid_tick ob = abs_best_bid (fst (book_view ob))"
    and "ob_best_ask_tick ob = abs_best_ask (snd (book_view ob))"
  using assms
  by (auto simp: ob_ready_def ob_wf_def top_fresh_def book_view_def head_key_bids head_key_asks)

section \<open>Refinement\<close>

lemma increments_frame [simp]:
  "ob_price_increment (apply_change c ob) = ob_price_increment ob"
  "ob_size_increment (apply_change c ob) = ob_size_increment ob"
  "ob_inv_price_increment (apply_change c ob) = ob_inv_price_increment ob"
  "ob_inv_size_increment (apply_change c ob) = ob_inv_size_increment ob"
  by (simp_all add: apply_change_def apply_sided_def Let_def)

lemma book_view_flush [simp]: "book_view (flush_top ob) = book_view ob"
  by (simp add: book_view_def)

lemma book_view_finish [simp]: "book_view (finish_update ob) = book_view ob"
  by (simp add: book_view_def finish_update_def)

lemma book_view_synced [simp]: "book_view (ob\<lparr>ob_synced := b\<rparr>) = book_view ob"
  by (simp add: book_view_def)

lemma tick_of_wf: "ob_wf ob \<Longrightarrow> tick_of ob p = from_price_inv p (1 / ob_price_increment ob)"
  by (simp add: tick_of_def ob_wf_def increments_ok_def)

lemma size_of_wf: "ob_wf ob \<Longrightarrow> size_of ob z = from_double_inv z (1 / ob_size_increment ob)"
  by (simp add: size_of_def ob_wf_def increments_ok_def)

lemma apply_sided_view:
  assumes "ob_wf ob"
  shows "book_view (apply_sided sd p z ob) =
    abs_sided sd (tick_of ob p) (if 0 < z then Some (size_of ob z) else None) (book_view ob)"
  using assms
  by (auto simp: apply_sided_def abs_sided_def book_view_def Let_def map_of_drop_asks
      map_of_drop_bids ob_wf_def)

lemma infer_side_view:
  assumes "ob_ready ob"
  shows "infer_side ob p = abs_infer (ob_price_increment ob) p (book_view ob)"
  using ready_top [OF assms]
  by (auto simp: infer_side_def abs_infer_def Let_def split: option.splits)

lemma apply_change_view:
  assumes "ob_wf ob"
  shows "book_view (apply_change c ob) =
    abs_change (ob_price_increment ob) (ob_size_increment ob) c (book_view ob)"
proof (cases "pl_side c = NoSide")
  case True
  have r: "ob_ready (flush_top ob)" by (rule flush_top_ready [OF assms])
  then have w: "ob_wf (flush_top ob)" by (simp add: ob_ready_def)
  show ?thesis
    using True by (simp add: apply_change_def abs_change_def Let_def infer_side_view [OF r]
        apply_sided_view [OF w] tick_of_wf [OF w] size_of_wf [OF w])
next
  case False
  then show ?thesis
    using assms by (simp add: apply_change_def abs_change_def Let_def apply_sided_view
        tick_of_wf size_of_wf)
qed

lemma apply_changes_view:
  "ob_wf ob \<Longrightarrow> book_view (fold apply_change cs ob) =
     fold (abs_change (ob_price_increment ob) (ob_size_increment ob)) cs (book_view ob)"
  by (induction cs arbitrary: ob) (simp_all add: apply_change_view apply_change_wf)

lemma load_levels_view:
  assumes "ob_wf ob" "\<And>t z m. map_of (put t z m) = (map_of m)(t \<mapsto> z)"
  shows "map_of (load_levels ob put ls m) =
    abs_load (ob_price_increment ob) (ob_size_increment ob) ls (map_of m)"
  using assms
  by (induction ls arbitrary: m) (simp_all add: abs_load_def tick_of_wf size_of_wf)

lemma apply_snapshot_view:
  assumes "ob_wf ob"
  shows "book_view (apply_snapshot ob snap) =
    (abs_load (ob_price_increment ob) (ob_size_increment ob) (snap_bids snap) Map.empty,
     abs_load (ob_price_increment ob) (ob_size_increment ob) (snap_asks snap) Map.empty)"
  using assms
  by (simp add: apply_snapshot_def book_view_def refresh_top_of_book_def
      load_levels_view [where put = put_bid] load_levels_view [where put = put_ask])

text \<open>C5. The sequential update path implements the abstract book: after \<open>apply_update\<close> the two
  sides are the result of folding the abstract change over the message's levels, levels without
  a side included, and the new state is again well formed with a fresh top of book.\<close>

theorem apply_update_refines:
  assumes "ob_wf ob"
  shows "book_view (apply_update ob upd) =
      fold (abs_change (ob_price_increment ob) (ob_size_increment ob)) (upd_changes upd) (book_view ob)
    \<and> ob_ready (apply_update ob upd)"
  using assms apply_changes_view [of "ob\<lparr>ob_synced := True\<rparr>" "upd_changes upd"]
  by (simp add: apply_update_ready) (simp add: apply_update_def)

section \<open>The uncrossed invariant\<close>

definition abs_uncrossed :: "abs_book \<Rightarrow> bool" where
  "abs_uncrossed BA \<longleftrightarrow> (\<forall>b \<in> dom (fst BA). \<forall>a \<in> dom (snd BA). b < a)"

definition uncrossed :: "order_book \<Rightarrow> bool" where
  "uncrossed ob \<longleftrightarrow> (\<forall>b \<in> set (ob_bids ob). \<forall>a \<in> set (ob_asks ob). fst b < fst a)"

lemma uncrossed_view: "uncrossed ob \<longleftrightarrow> abs_uncrossed (book_view ob)"
  by (simp add: uncrossed_def abs_uncrossed_def book_view_def dom_map_of_keys)

lemma abs_change_uncrossed: "abs_uncrossed BA \<Longrightarrow> abs_uncrossed (abs_change pinc sinc c BA)"
  by (cases BA) (auto simp: abs_change_def abs_sided_def abs_uncrossed_def Let_def
      restrict_map_def dom_def split: if_splits)

lemma fold_abs_change_uncrossed:
  "abs_uncrossed BA \<Longrightarrow> abs_uncrossed (fold (abs_change pinc sinc) cs BA)"
  by (induction cs arbitrary: BA) (simp_all add: abs_change_uncrossed)

lemma apply_change_uncrossed: "ob_wf ob \<Longrightarrow> uncrossed ob \<Longrightarrow> uncrossed (apply_change c ob)"
  by (simp add: uncrossed_view apply_change_view abs_change_uncrossed)

lemma split_work_uncrossed:
  "split_work cs ob bw sw = (ob', bw', sw') \<Longrightarrow> ob_wf ob \<Longrightarrow> uncrossed ob \<Longrightarrow> uncrossed ob'"
proof (induction cs arbitrary: ob bw sw)
  case Nil
  then show ?case by simp
next
  case (Cons c cs)
  let ?w = "(tick_of ob (pl_price c), size_of ob (pl_size c))"
  show ?case
    using Cons.prems Cons.IH [of "apply_change c ob" bw sw]
      Cons.IH [of ob "bw @ [?w]" sw] Cons.IH [of ob bw "sw @ [?w]"]
    by (simp add: apply_change_wf apply_change_uncrossed Let_def split: if_splits)
qed

text \<open>The largest new bid and the smallest new ask bound the positive entries of the work lists.\<close>

lemma max_new_ge: "max_new ws (Some m0) = r \<Longrightarrow> \<exists>m. r = Some m \<and> m0 \<le> m"
  by (induction ws arbitrary: m0) (auto split: if_splits, force)

lemma max_new_bound: "(t, z) \<in> set ws \<Longrightarrow> 0 < z \<Longrightarrow> \<exists>m. max_new ws m0 = Some m \<and> t \<le> m"
proof (induction ws arbitrary: m0)
  case Nil
  then show ?case by simp
next
  case (Cons w ws)
  obtain u y where w: "w = (u, y)" by (cases w)
  show ?case
  proof (cases "(t, z) = w")
    case True
    then have "\<exists>m1. max_new (w # ws) m0 = max_new ws (Some m1) \<and> t \<le> m1"
      using Cons.prems w by (cases m0) (auto simp: not_less)
    then obtain m1 where m1: "max_new (w # ws) m0 = max_new ws (Some m1)" "t \<le> m1" by blast
    obtain m where "max_new ws (Some m1) = Some m" "m1 \<le> m"
      using max_new_ge [of ws m1] by blast
    with m1 show ?thesis by auto
  next
    case False
    with Cons.prems have "(t, z) \<in> set ws" by auto
    from Cons.IH [OF this Cons.prems(2)] show ?thesis by (simp add: w)
  qed
qed

lemma min_new_le: "min_new ws (Some m0) = r \<Longrightarrow> \<exists>m. r = Some m \<and> m \<le> m0"
  by (induction ws arbitrary: m0) (auto split: if_splits, force)

lemma min_new_bound: "(t, z) \<in> set ws \<Longrightarrow> 0 < z \<Longrightarrow> \<exists>m. min_new ws m0 = Some m \<and> m \<le> t"
proof (induction ws arbitrary: m0)
  case Nil
  then show ?case by simp
next
  case (Cons w ws)
  obtain u y where w: "w = (u, y)" by (cases w)
  show ?case
  proof (cases "(t, z) = w")
    case True
    then have "\<exists>m1. min_new (w # ws) m0 = min_new ws (Some m1) \<and> m1 \<le> t"
      using Cons.prems w by (cases m0) (auto simp: not_less)
    then obtain m1 where m1: "min_new (w # ws) m0 = min_new ws (Some m1)" "m1 \<le> t" by blast
    obtain m where "min_new ws (Some m1) = Some m" "m \<le> m1"
      using min_new_le [of ws m1] by blast
    with m1 show ?thesis by auto
  next
    case False
    with Cons.prems have "(t, z) \<in> set ws" by auto
    from Cons.IH [OF this Cons.prems(2)] show ?thesis by (simp add: w)
  qed
qed

lemma max_new_mem:
  "max_new ws m0 = Some m \<Longrightarrow> m0 = Some m \<or> (\<exists>z. (m, z) \<in> set ws \<and> 0 < z)"
  by (induction ws m0 rule: max_new.induct) (auto split: if_splits)

lemma min_new_mem:
  "min_new ws m0 = Some m \<Longrightarrow> m0 = Some m \<or> (\<exists>z. (m, z) \<in> set ws \<and> 0 < z)"
  by (induction ws m0 rule: min_new.induct) (auto split: if_splits)

lemma update_map_keys:
  "e \<in> set (update_map put ws m) \<Longrightarrow> (\<And>e t z m. e \<in> set (put t z m) \<Longrightarrow> e = (t, z) \<or> e \<in> set m) \<Longrightarrow>
   e \<in> set m \<or> (e \<in> set ws \<and> 0 < snd e)"
proof (induction put ws m rule: update_map.induct)
  case (1 put m)
  then show ?case by simp
next
  case (2 put t z ws m)
  have "e \<in> set (if 0 < z then put t z m else omap_erase t m) \<or> e \<in> set ws \<and> 0 < snd e"
    by (rule "2.IH") (use "2.prems" in \<open>simp_all\<close>)
  then show ?case using "2.prems"(2) [of e t z m] by (auto split: if_splits)
qed

lemma large_batch_sides:
  assumes "split_work cs ob0 [] [] = (ob, bw, sw)" "ob_wf ob0"
  shows "set (ob_bids (apply_large_batch cs ob0)) =
      {e \<in> set (update_map put_bid bw (ob_bids ob)). \<forall>(a, z) \<in> set sw. 0 < z \<longrightarrow> fst e < a}"
    and "set (ob_asks (apply_large_batch cs ob0)) =
      {e \<in> set (update_map put_ask sw (ob_asks ob)). \<forall>(b, z) \<in> set bw. 0 < z \<longrightarrow> b < fst e}"
proof -
  have ok: "ob_wf ob" "\<forall>w \<in> set bw. level_in_range w" "\<forall>w \<in> set sw. level_in_range w"
    using split_work_wf [OF assms] by auto
  have b: "bids_ok (update_map put_bid bw (ob_bids ob))" and a: "asks_ok (update_map put_ask sw (ob_asks ob))"
    using ok by (auto simp: ob_wf_def intro: update_bids_ok update_asks_ok)
  have mn: "(\<forall>(u, z) \<in> set sw. 0 < z \<longrightarrow> x < u) \<longleftrightarrow>
      (case min_new sw None of None \<Rightarrow> True | Some m \<Rightarrow> x < m)" for x
    using min_new_bound [of _ _ sw None] min_new_mem [of sw None]
    by (fastforce split: option.splits)
  have mx: "(\<forall>(u, z) \<in> set bw. 0 < z \<longrightarrow> u < x) \<longleftrightarrow>
      (case max_new bw None of None \<Rightarrow> True | Some m \<Rightarrow> m < x)" for x
    using max_new_bound [of _ _ bw None] max_new_mem [of bw None]
    by (fastforce split: option.splits)
  show "set (ob_bids (apply_large_batch cs ob0)) =
      {e \<in> set (update_map put_bid bw (ob_bids ob)). \<forall>(a, z) \<in> set sw. 0 < z \<longrightarrow> fst e < a}"
    unfolding mn by (auto simp: apply_large_batch_def assms(1) Let_def drop_bids_filter [OF b]
        split: option.splits)
  show "set (ob_asks (apply_large_batch cs ob0)) =
      {e \<in> set (update_map put_ask sw (ob_asks ob)). \<forall>(b, z) \<in> set bw. 0 < z \<longrightarrow> b < fst e}"
    unfolding mx by (auto simp: apply_large_batch_def assms(1) Let_def drop_asks_filter [OF a]
        split: option.splits)
qed

lemma large_batch_uncrossed:
  assumes "ob_wf ob0" "uncrossed ob0"
  shows "uncrossed (apply_large_batch cs ob0)"
proof -
  obtain ob bw sw where sw: "split_work cs ob0 [] [] = (ob, bw, sw)" by (metis prod_cases3)
  have u: "uncrossed ob" by (rule split_work_uncrossed [OF sw assms])
  show ?thesis
    unfolding uncrossed_def large_batch_sides [OF sw assms(1)]
  proof (intro ballI)
    fix b a
    assume b: "b \<in> {e \<in> set (update_map put_bid bw (ob_bids ob)). \<forall>(a, z) \<in> set sw. 0 < z \<longrightarrow> fst e < a}"
      and a: "a \<in> {e \<in> set (update_map put_ask sw (ob_asks ob)). \<forall>(b, z) \<in> set bw. 0 < z \<longrightarrow> b < fst e}"
    then have "b \<in> set (ob_bids ob) \<or> b \<in> set bw \<and> 0 < snd b"
      "a \<in> set (ob_asks ob) \<or> a \<in> set sw \<and> 0 < snd a"
      by (auto dest: update_map_keys set_put_bid set_put_ask)
    with a b u show "fst b < fst a" by (auto simp: uncrossed_def)
  qed
qed

lemma uncrossed_finish [simp]: "uncrossed (finish_update ob) = uncrossed ob"
  by (simp add: uncrossed_def finish_update_def)

text \<open>C6. Every incremental update keeps the book uncrossed: if the best bid is below the best
  ask before, then after \<open>apply_update\<close> and after \<open>apply_update_batch\<close> (either of its paths,
  levels without a side included) every bid is below every ask.\<close>

theorem updates_keep_uncrossed:
  assumes "ob_wf ob" "uncrossed ob"
  shows "uncrossed (apply_update ob upd) \<and> uncrossed (apply_update_batch ob changes)"
proof -
  have u: "ob_wf (ob\<lparr>ob_synced := True\<rparr>)" "uncrossed (ob\<lparr>ob_synced := True\<rparr>)"
    using assms by (simp_all add: uncrossed_view)
  have "uncrossed (fold apply_change cs (ob\<lparr>ob_synced := True\<rparr>))" for cs
    using u by (simp add: uncrossed_view apply_changes_view [OF u(1)] fold_abs_change_uncrossed)
  then show ?thesis
    using large_batch_uncrossed [OF u, of changes]
    by (simp add: apply_update_def apply_update_batch_def Let_def)
qed

section \<open>The two update paths\<close>

definition sided :: "price_level list \<Rightarrow> bool" where
  "sided cs \<longleftrightarrow> (\<forall>c \<in> set cs. pl_side c \<noteq> NoSide)"

text \<open>Every positive size is at least half a size increment, so its raw value is positive.\<close>

definition definite :: "order_book \<Rightarrow> price_level list \<Rightarrow> bool" where
  "definite ob cs \<longleftrightarrow> (\<forall>c \<in> set cs. 0 < pl_size c \<longrightarrow> 0 < size_of ob (pl_size c))"

definition non_crossing :: "order_book \<Rightarrow> price_level list \<Rightarrow> bool" where
  "non_crossing ob cs \<longleftrightarrow> (\<forall>b \<in> set cs. \<forall>a \<in> set cs.
     pl_side b = Buy \<and> 0 < pl_size b \<and> pl_side a = Sell \<and> 0 < pl_size a \<longrightarrow>
     tick_of ob (pl_price b) < tick_of ob (pl_price a))"

definition side_work :: "order_book \<Rightarrow> bool \<Rightarrow> price_level list \<Rightarrow> work_list" where
  "side_work ob buy cs =
     map (\<lambda>c. (tick_of ob (pl_price c), size_of ob (pl_size c)))
       (filter (\<lambda>c. (pl_side c = Buy) = buy) cs)"

definition abs_upd :: "work_list \<Rightarrow> (price_tick \<rightharpoonup> size_fix) \<Rightarrow> (price_tick \<rightharpoonup> size_fix)" where
  "abs_upd = fold (\<lambda>w B. B(fst w := if 0 < snd w then Some (snd w) else None))"

lemma split_work_sided:
  "sided cs \<Longrightarrow> split_work cs ob bw sw = (ob, bw @ side_work ob True cs, sw @ side_work ob False cs)"
  by (induction cs arbitrary: bw sw) (auto simp: sided_def side_work_def Let_def)

lemma update_map_view:
  "(\<And>t z m. map_of (put t z m) = (map_of m)(t \<mapsto> z)) \<Longrightarrow>
   map_of (update_map put ws m) = abs_upd ws (map_of m)"
  by (induction put ws m rule: update_map.induct) (auto simp: abs_upd_def)

lemma side_work_snoc:
  "side_work ob buy (cs @ [c]) = side_work ob buy cs @
     (if (pl_side c = Buy) = buy then [(tick_of ob (pl_price c), size_of ob (pl_size c))] else [])"
  by (simp add: side_work_def)

lemma size_of_nonpos [simp]: "z \<le> 0 \<Longrightarrow> size_of ob z = 0"
  by (simp add: size_of_def)

text \<open>The one-by-one path in closed form, for a sided batch that does not cross itself.\<close>

lemma seq_closed_form:
  assumes "ob_wf ob" "sided cs" "definite ob cs" "non_crossing ob cs"
  shows "fold (abs_change (ob_price_increment ob) (ob_size_increment ob)) cs (B, A) =
    (abs_upd (side_work ob True cs) B |` {t. \<forall>(a, z) \<in> set (side_work ob False cs). 0 < z \<longrightarrow> t < a},
     abs_upd (side_work ob False cs) A |` {t. \<forall>(b, z) \<in> set (side_work ob True cs). 0 < z \<longrightarrow> b < t})"
  using assms(2-)
proof (induction cs rule: rev_induct)
  case Nil
  then show ?case by (simp add: side_work_def abs_upd_def)
next
  case (snoc c cs)
  let ?t = "tick_of ob (pl_price c)" and ?z = "size_of ob (pl_size c)"
  have IH: "fold (abs_change (ob_price_increment ob) (ob_size_increment ob)) cs (B, A) =
    (abs_upd (side_work ob True cs) B |` {t. \<forall>(a, z) \<in> set (side_work ob False cs). 0 < z \<longrightarrow> t < a},
     abs_upd (side_work ob False cs) A |` {t. \<forall>(b, z) \<in> set (side_work ob True cs). 0 < z \<longrightarrow> b < t})"
    using snoc by (auto simp: sided_def definite_def non_crossing_def)
  have step: "abs_change (ob_price_increment ob) (ob_size_increment ob) c BA =
      abs_sided (pl_side c) ?t (if 0 < pl_size c then Some ?z else None) BA" for BA
    using snoc.prems assms(1)
    by (simp add: abs_change_def sided_def Let_def tick_of_wf size_of_wf)
  have pos: "0 < pl_size c \<longleftrightarrow> 0 < ?z" and zero: "\<not> 0 < pl_size c \<Longrightarrow> ?z = 0"
    using snoc.prems by (cases "0 < pl_size c"; auto simp: definite_def not_less)+
  show ?case
  proof (cases "pl_side c = Buy")
    case True
    have "\<forall>(a, z) \<in> set (side_work ob False cs). 0 < z \<longrightarrow> ?t < a" if "0 < ?z"
      using snoc.prems True pos that
      by (auto simp: side_work_def non_crossing_def sided_def)
         (metis less_irrefl not_less side.exhaust size_of_nonpos)
    with True show ?thesis
      by (auto simp: IH step side_work_snoc abs_sided_def abs_upd_def pos fun_eq_iff restrict_map_def)
  next
    case False
    then have s: "pl_side c = Sell" using snoc.prems by (auto simp: sided_def intro: side.exhaust)
    have "\<forall>(b, z) \<in> set (side_work ob True cs). 0 < z \<longrightarrow> b < ?t" if "0 < ?z"
      using snoc.prems s pos that
      by (auto simp: side_work_def non_crossing_def)
         (metis less_irrefl not_less size_of_nonpos)
    with s show ?thesis
      by (auto simp: IH step side_work_snoc abs_sided_def abs_upd_def pos fun_eq_iff restrict_map_def)
  qed
qed

text \<open>What a sided change leaves alone.\<close>

definition ob_frame :: "order_book \<Rightarrow> order_book" where
  "ob_frame ob = ob\<lparr>ob_bids := [], ob_asks := [], ob_top_dirty := False\<rparr>"

lemma ob_frame_eqI:
  "ob_frame a = ob_frame b \<Longrightarrow> ob_bids a = ob_bids b \<Longrightarrow> ob_asks a = ob_asks b \<Longrightarrow>
   ob_top_dirty a = ob_top_dirty b \<Longrightarrow> a = b"
  by (cases a, cases b) (simp add: ob_frame_def)

lemma apply_change_frame:
  "pl_side c \<noteq> NoSide \<Longrightarrow> ob_frame (apply_change c ob) = ob_frame ob \<and> ob_top_dirty (apply_change c ob)"
  by (simp add: apply_change_def apply_sided_def ob_frame_def Let_def)

lemma fold_sided_frame:
  "sided cs \<Longrightarrow> ob_frame (fold apply_change cs ob) = ob_frame ob \<and>
     (cs \<noteq> [] \<longrightarrow> ob_top_dirty (fold apply_change cs ob))"
  by (induction cs rule: rev_induct) (auto simp: sided_def apply_change_frame)

text \<open>C21. The two update paths agree where they should: for a batch whose levels all carry a
  side, whose positive sizes do not round to zero and whose bids all lie below its asks,
  \<open>apply_update_batch\<close> (including its path for 64 changes and more) leaves the book exactly as
  \<open>apply_update\<close> does, whatever book it starts from.\<close>

theorem batch_equals_sequential:
  assumes "ob_wf ob" "sided cs" "definite ob cs" "non_crossing ob cs"
  shows "apply_update_batch ob cs = apply_update ob \<lparr>upd_ticker = t, upd_changes = cs, upd_ts = ts\<rparr>"
proof (cases "64 \<le> length cs")
  case False
  then show ?thesis by (simp add: apply_update_batch_def apply_update_def Let_def)
next
  case True
  let ?o = "ob\<lparr>ob_synced := True\<rparr>"
  let ?L = "apply_large_batch cs ?o" and ?S = "fold apply_change cs ?o"
  have w: "ob_wf ?o" "definite ?o cs" "non_crossing ?o cs" "side_work ?o = side_work ob"
    using assms by (simp_all add: definite_def non_crossing_def side_work_def size_of_def tick_of_def fun_eq_iff)
  have wL: "ob_wf ?L" and wS: "ob_wf ?S"
    using w(1) by (auto intro: apply_large_batch_wf apply_changes_wf)
  have sw: "split_work cs ?o [] [] = (?o, side_work ?o True cs, side_work ?o False cs)"
    using split_work_sided [OF assms(2), of ?o "[]" "[]"] by simp
  have ok: "bids_ok (update_map put_bid (side_work ?o True cs) (ob_bids ?o))"
    "asks_ok (update_map put_ask (side_work ?o False cs) (ob_asks ?o))"
    using split_work_wf [OF sw w(1)] w(1)
    by (auto simp: ob_wf_def intro: update_bids_ok update_asks_ok)
  have mn: "{x. case min_new sw None of None \<Rightarrow> True | Some m \<Rightarrow> x < m}
      = {x. \<forall>(u, z) \<in> set sw. 0 < z \<longrightarrow> x < u}" for sw
    using min_new_bound [of _ _ sw None] min_new_mem [of sw None]
    by (fastforce split: option.splits)
  have mx: "{x. case max_new bw None of None \<Rightarrow> True | Some m \<Rightarrow> m < x}
      = {x. \<forall>(u, z) \<in> set bw. 0 < z \<longrightarrow> u < x}" for bw
    using max_new_bound [of _ _ bw None] max_new_mem [of bw None]
    by (fastforce split: option.splits)
  have vL: "book_view ?L =
    (abs_upd (side_work ?o True cs) (map_of (ob_bids ?o))
       |` {x. case min_new (side_work ?o False cs) None of None \<Rightarrow> True | Some m \<Rightarrow> x < m},
     abs_upd (side_work ?o False cs) (map_of (ob_asks ?o))
       |` {x. case max_new (side_work ?o True cs) None of None \<Rightarrow> True | Some m \<Rightarrow> m < x})"
    by (auto simp: apply_large_batch_def sw book_view_def Let_def update_map_view
        map_of_drop_bids [OF ok(1) [simplified]] map_of_drop_asks [OF ok(2) [simplified]] split: option.splits)
  have "book_view ?L = book_view ?S"
    unfolding vL mn mx apply_changes_view [OF w(1)]
    by (simp only: book_view_def seq_closed_form [OF w(1) assms(2) w(2,3)])
  then have "ob_bids ?L = ob_bids ?S" "ob_asks ?L = ob_asks ?S"
    using wL wS desc.omap_eqI asc.omap_eqI
    by (auto simp: book_view_def ob_wf_def bids_ok_def asks_ok_def)
  moreover have "ob_frame ?S = ob_frame ?o" "ob_top_dirty ?S"
    using True fold_sided_frame [OF assms(2), of ?o] by auto
  moreover have "ob_frame ?L = ob_frame ?o" "ob_top_dirty ?L"
    by (simp_all add: apply_large_batch_def sw Let_def ob_frame_def)
  ultimately have "?L = ?S" by - (rule ob_frame_eqI, simp_all)
  with True show ?thesis by (simp add: apply_update_batch_def apply_update_def Let_def)
qed

section \<open>Queries\<close>

lemma depth_loop_sum:
  "cnt < n \<Longrightarrow> depth_loop inc n cnt acc m =
     acc + real_of_int (sum_list (map snd (take (nat (n - cnt)) m))) * inc"
proof (induction inc n cnt acc m rule: depth_loop.induct)
  case (1 inc n cnt acc)
  then show ?case by simp
next
  case (2 inc n cnt acc t z m)
  show ?case
  proof (cases "n \<le> cnt + 1")
    case True
    with 2 have "nat (n - cnt) = 1" by simp
    with True show ?thesis by (simp add: Let_def)
  next
    case False
    then have "nat (n - cnt) = Suc (nat (n - (cnt + 1)))" by linarith
    with 2 False show ?thesis by (simp add: Let_def algebra_simps)
  qed
qed

lemma bid_depth_sum:
  "bid_depth ob n = real_of_int (sum_list (map snd (take (nat n) (ob_bids ob)))) * ob_size_increment ob"
  by (cases "0 < n") (auto simp: bid_depth_def depth_loop_sum)

lemma ask_depth_sum:
  "ask_depth ob n = real_of_int (sum_list (map snd (take (nat n) (ob_asks ob)))) * ob_size_increment ob"
  by (cases "0 < n") (auto simp: ask_depth_def depth_loop_sum)

lemma top_loop_take:
  "cnt < n \<Longrightarrow> top_loop ob n cnt m =
     map (\<lambda>(t, z). (to_price t (ob_price_increment ob), real_of_int z * ob_size_increment ob))
       (take (nat (n - cnt)) m)"
proof (induction ob n cnt m rule: top_loop.induct)
  case (1 ob n cnt)
  then show ?case by simp
next
  case (2 ob n cnt t z m)
  show ?case
  proof (cases "n \<le> cnt + 1")
    case True
    with 2 have "nat (n - cnt) = 1" by simp
    with True show ?thesis by simp
  next
    case False
    then have "nat (n - cnt) = Suc (nat (n - (cnt + 1)))" by linarith
    with 2 False show ?thesis by simp
  qed
qed

lemma range_bids_filter:
  assumes "bids_ok (ob_bids ob)"
  shows "range_bids ob lo hi = filter (\<lambda>e. lo \<le> fst e \<and> fst e \<le> hi) (ob_bids ob)"
proof -
  have o: "omap_ok (>) (ob_bids ob)" using assms by (simp add: bids_ok_def)
  have d: "dropWhile (\<lambda>e. hi < fst e) (ob_bids ob) = filter (\<lambda>e. fst e \<le> hi) (ob_bids ob)"
    by (subst dropWhile_filter, rule sorted_wrt_omap [OF o]) (auto simp: not_less)
  have o': "omap_ok (>) (filter (\<lambda>e. fst e \<le> hi) (ob_bids ob))"
    by (rule omap_ok_filter [OF o])
  have t: "takeWhile (\<lambda>e. \<not> fst e < lo) (filter (\<lambda>e. fst e \<le> hi) (ob_bids ob))
      = filter (\<lambda>e. \<not> fst e < lo) (filter (\<lambda>e. fst e \<le> hi) (ob_bids ob))"
    by (rule takeWhile_filter, rule sorted_wrt_omap [OF o']) auto
  show ?thesis
    unfolding range_bids_def d t by (auto simp: not_less intro: filter_cong)
qed

lemma range_asks_filter:
  assumes "asks_ok (ob_asks ob)"
  shows "range_asks ob lo hi = filter (\<lambda>e. lo \<le> fst e \<and> fst e \<le> hi) (ob_asks ob)"
proof -
  have o: "omap_ok (<) (ob_asks ob)" using assms by (simp add: asks_ok_def)
  have d: "dropWhile (\<lambda>e. fst e < lo) (ob_asks ob) = filter (\<lambda>e. lo \<le> fst e) (ob_asks ob)"
    by (subst dropWhile_filter, rule sorted_wrt_omap [OF o]) (auto simp: not_less)
  have o': "omap_ok (<) (filter (\<lambda>e. lo \<le> fst e) (ob_asks ob))"
    by (rule omap_ok_filter [OF o])
  have t: "takeWhile (\<lambda>e. \<not> hi < fst e) (filter (\<lambda>e. lo \<le> fst e) (ob_asks ob))
      = filter (\<lambda>e. \<not> hi < fst e) (filter (\<lambda>e. lo \<le> fst e) (ob_asks ob))"
    by (rule takeWhile_filter, rule sorted_wrt_omap [OF o']) auto
  show ?thesis
    unfolding range_asks_def d t by (auto simp: not_less intro: filter_cong)
qed

lemma foldl_snd_sum: "foldl (\<lambda>acc e. acc + snd e) a xs = a + sum_list (map snd (xs :: ('k \<times> int) list))"
  by (induction xs arbitrary: a) simp_all

lemma volume_raw_sum:
  assumes "ob_wf ob"
  defines "lo \<equiv> \<lambda>p q. tick_of ob (min p q)" and "hi \<equiv> \<lambda>p q. tick_of ob (max p q)"
  shows "volume_at_range_raw ob p q =
    (\<Sum>e\<leftarrow>ob_bids ob @ ob_asks ob. if lo p q \<le> fst e \<and> fst e \<le> hi p q then snd e else 0)"
proof -
  have "(\<Sum>e\<leftarrow>filter P xs. snd e) = (\<Sum>e\<leftarrow>xs. if P e then snd e else 0)"
    for P and xs :: book_side
    by (induction xs) auto
  then show ?thesis
    using assms(1)
    by (simp add: volume_at_range_raw_def foldl_snd_sum ob_wf_def range_bids_filter range_asks_filter
        Let_def lo_def hi_def min_def max_def)
qed

lemma sum_list_level_bound:
  "\<forall>e \<in> set xs. level_in_range e \<Longrightarrow>
   0 \<le> (\<Sum>e\<leftarrow>xs. if P e then snd e else 0) \<and>
   (\<Sum>e\<leftarrow>xs. if P e then snd e else 0) \<le> int (length xs) * max_fix"
  by (induction xs) (auto simp: level_in_range_def algebra_simps)

lemma omap_put_last: "(\<forall>e \<in> set m. lt (fst e) k \<and> \<not> lt k (fst e) \<and> fst e \<noteq> k) \<Longrightarrow>
   omap_put lt k v m = m @ [(k, v)]"
  by (induction m) auto

text \<open>A side of a snapshot in the order of its map, with positive sizes.\<close>

definition levels_ordered :: "(price_tick \<Rightarrow> price_tick \<Rightarrow> bool) \<Rightarrow> order_book \<Rightarrow> price_level list \<Rightarrow> bool" where
  "levels_ordered lt ob ls \<longleftrightarrow>
     sorted_wrt (\<lambda>x y. lt (tick_of ob (pl_price x)) (tick_of ob (pl_price y))) ls \<and>
     (\<forall>l \<in> set ls. 0 < pl_size l)"

definition levels_of :: "order_book \<Rightarrow> price_level list \<Rightarrow> book_side" where
  "levels_of ob ls = map (\<lambda>l. (tick_of ob (pl_price l), size_of ob (pl_size l))) ls"

lemma load_levels_ordered:
  assumes "\<And>a b. lt a b \<Longrightarrow> \<not> lt b a \<and> a \<noteq> b"
  shows "levels_ordered lt ob ls \<Longrightarrow>
    \<forall>e \<in> set m. \<forall>l \<in> set ls. lt (fst e) (tick_of ob (pl_price l)) \<Longrightarrow>
    load_levels ob (omap_put lt) ls m = m @ levels_of ob ls"
proof (induction ls arbitrary: m)
  case Nil
  then show ?case by (simp add: levels_of_def)
next
  case (Cons l ls)
  have "omap_put lt (tick_of ob (pl_price l)) (size_of ob (pl_size l)) m
      = m @ [(tick_of ob (pl_price l), size_of ob (pl_size l))]"
    using Cons.prems(2) assms by (intro omap_put_last) auto
  with Cons show ?case
    by (auto simp: levels_ordered_def levels_of_def)
qed

lemma check_side_self:
  "0 \<le> max_diff \<Longrightarrow> check_side ob max_diff ls (levels_of ob' ls) 0 = 0"
  if "tick_of ob = tick_of ob'" "size_of ob = size_of ob'"
  using that by (induction ls) (auto simp: levels_of_def)

lemma tick_of_apply_snapshot [simp]:
  "tick_of (apply_snapshot ob snap) = tick_of ob" "size_of (apply_snapshot ob snap) = size_of ob"
  by (simp_all add: apply_snapshot_def refresh_top_of_book_def tick_of_def size_of_def fun_eq_iff)

lemma apply_snapshot_sides:
  "ob_bids (apply_snapshot ob snap) = load_levels ob put_bid (snap_bids snap) []"
  "ob_asks (apply_snapshot ob snap) = load_levels ob put_ask (snap_asks snap) []"
  by (simp_all add: apply_snapshot_def refresh_top_of_book_def)


text \<open>C23. The volume query sums, over both sides, the sizes of exactly the levels whose tick lies
  between the ticks of the two prices, given in either order; and its \<open>int64_t\<close> accumulator
  cannot overflow while the book holds at most 9223 levels.\<close>

theorem volume_at_range_exact:
  assumes "ob_wf ob"
  shows "volume_at_range_raw ob p q =
      (\<Sum>e\<leftarrow>ob_bids ob @ ob_asks ob.
         if tick_of ob (min p q) \<le> fst e \<and> fst e \<le> tick_of ob (max p q) then snd e else 0)
    \<and> (bid_levels ob + ask_levels ob \<le> 9223 \<longrightarrow>
         0 \<le> volume_at_range_raw ob p q \<and> volume_at_range_raw ob p q < 2 ^ 63)"
proof (intro conjI impI)
  let ?s = "\<Sum>e\<leftarrow>ob_bids ob @ ob_asks ob.
         if tick_of ob (min p q) \<le> fst e \<and> fst e \<le> tick_of ob (max p q) then snd e else 0"
  show eq: "volume_at_range_raw ob p q = ?s"
    by (rule volume_raw_sum [OF assms])
  assume n: "bid_levels ob + ask_levels ob \<le> 9223"
  have "\<forall>e \<in> set (ob_bids ob @ ob_asks ob). level_in_range e"
    using assms by (auto simp: ob_wf_def bids_ok_def asks_ok_def)
  note b = sum_list_level_bound [OF this, of "\<lambda>e. tick_of ob (min p q) \<le> fst e \<and> fst e \<le> tick_of ob (max p q)"]
  then show "0 \<le> volume_at_range_raw ob p q" unfolding eq by simp
  have "int (length (ob_bids ob @ ob_asks ob)) * max_fix \<le> 9223 * max_fix"
    using n by (intro mult_right_mono) (auto simp: bid_levels_def ask_levels_def)
  also have "\<dots> < 2 ^ 63" by (simp add: max_fix_def)
  finally show "volume_at_range_raw ob p q < 2 ^ 63" using b unfolding eq by linarith
qed

lemma mid_between: "(x :: double) < y \<Longrightarrow> x < 1 / 2 * (x + y) \<and> 1 / 2 * (x + y) < y \<and> 0 < y - x"
  by simp

text \<open>In a ready, uncrossed book with both sides present, \<open>best_bid\<close> and \<open>best_ask\<close> are the
  prices of the highest bid and the lowest ask, and the mid price lies strictly between them
  with a positive spread.\<close>

theorem top_of_book_correct:
  assumes "ob_ready ob" "uncrossed ob" "ob_bids ob \<noteq> []" "ob_asks ob \<noteq> []"
  shows "\<exists>b a. best_bid ob = Some (to_price b (ob_price_increment ob))
      \<and> best_ask ob = Some (to_price a (ob_price_increment ob))
      \<and> b = Max (fst ` set (ob_bids ob)) \<and> a = Min (fst ` set (ob_asks ob))
      \<and> (\<exists>m s. mid ob = Some m \<and> spread ob = Some s \<and> 0 < s
           \<and> to_price b (ob_price_increment ob) < m \<and> m < to_price a (ob_price_increment ob))"
proof -
  let ?b = "Max (fst ` set (ob_bids ob))" and ?a = "Min (fst ` set (ob_asks ob))"
  have t: "ob_best_bid_tick ob = Some ?b" "ob_best_ask_tick ob = Some ?a"
    using ready_top [OF assms(1)] assms(3,4)
    by (simp_all add: book_view_def abs_best_bid_def abs_best_ask_def dom_map_of_keys)
  have "?b \<in> fst ` set (ob_bids ob)" "?a \<in> fst ` set (ob_asks ob)"
    using assms(3,4) by simp_all
  then have "?b < ?a" using assms(2) by (fastforce simp: uncrossed_def)
  moreover have "0 < ob_price_increment ob"
    using assms(1) by (simp add: ob_ready_def ob_wf_def increments_ok_def)
  ultimately have "to_price ?b (ob_price_increment ob) < to_price ?a (ob_price_increment ob)"
    by (simp add: to_price_less_iff)
  note m = mid_between [OF this]
  show ?thesis
    by (intro exI [of _ ?b] exI [of _ ?a] conjI refl)
       (use m in \<open>auto simp only: t best_bid_def best_ask_def mid_def spread_def option.map
          prod.case option.case\<close>)
qed

section \<open>Concrete books\<close>

text \<open>Inputs for the witnesses: a book with unit increments, and levels on it.\<close>

definition demo_book :: order_book where
  "demo_book = \<lparr>ob_ticker = ''T'', ob_price_increment = 1, ob_size_increment = 1,
     ob_inv_price_increment = 1, ob_inv_size_increment = 1, ob_bids = [], ob_asks = [],
     ob_best_bid_tick = None, ob_best_ask_tick = None, ob_update_count = 0,
     ob_top_dirty = False, ob_synced = False\<rparr>"

definition demo_level :: "side \<Rightarrow> double \<Rightarrow> double \<Rightarrow> price_level" where
  "demo_level s p z = \<lparr>pl_price = p, pl_size = z, pl_side = s\<rparr>"

definition demo_update :: "price_level list \<Rightarrow> order_book_update" where
  "demo_update cs = \<lparr>upd_ticker = ''T'', upd_changes = cs, upd_ts = 0\<rparr>"

definition demo_snapshot :: "price_level list \<Rightarrow> price_level list \<Rightarrow> order_book_snapshot" where
  "demo_snapshot asks bids =
     \<lparr>snap_ticker = ''T'', snap_asks = asks, snap_bids = bids, snap_ts = 0\<rparr>"

lemmas demo_defs = demo_book_def demo_level_def demo_update_def demo_snapshot_def

lemmas book_eval =
  demo_defs apply_update_def apply_update_batch_def apply_change_def apply_sided_def
  apply_large_batch_def finish_update_def flush_top_def refresh_top_of_book_def head_key_def
  infer_side_def tick_of_def size_of_def from_price_inv_def from_double_inv_def cround_def
  clamp_def max_fix_def put_bid_def put_ask_def drop_asks_upto_def drop_bids_from_def
  omap_erase_def to_price_def

lemma demo_book_ready: "ob_ready demo_book"
  by (simp add: demo_book_def ob_ready_def ob_wf_def increments_ok_def top_fresh_def head_key_def)

lemma demo_book_uncrossed: "uncrossed demo_book"
  by (simp add: demo_book_def uncrossed_def)

definition demo_batch :: "price_level list" where
  "demo_batch = replicate 62 (demo_level Buy 99 1) @ [demo_level Buy 100 2, demo_level Sell 101 3]"

definition crossing_batch :: "price_level list" where
  "crossing_batch = replicate 62 (demo_level Buy 99 1) @ [demo_level Buy 101 1, demo_level Sell 100 1]"

definition demo_full :: order_book where
  "demo_full = demo_book\<lparr>ob_bids := [(99, 2), (98, 1)], ob_asks := [(101, 3), (103, 4)],
     ob_best_bid_tick := Some 99, ob_best_ask_tick := Some 101, ob_synced := True\<rparr>"

lemma demo_full_ready: "ob_ready demo_full"
  by (simp add: demo_full_def demo_book_def ob_ready_def ob_wf_def increments_ok_def top_fresh_def
      head_key_def bids_ok_def asks_ok_def omap_ok_def level_in_range_def max_fix_def)

lemma demo_full_uncrossed: "uncrossed demo_full"
  by (simp add: demo_full_def uncrossed_def)

lemma demo_full_wf: "ob_wf demo_full"
  using demo_full_ready by (simp add: ob_ready_def)

theorem apply_update_refines_witness:
  "ob_ready (apply_update demo_full (demo_update [demo_level NoSide 102 5]))
   \<and> ob_asks (apply_update demo_full (demo_update [demo_level NoSide 102 5])) = [(101, 3), (102, 5), (103, 4)]"
  using apply_update_refines [OF demo_full_wf, of "demo_update [demo_level NoSide 102 5]"]
  by (simp add: demo_full_def book_eval)

theorem updates_keep_uncrossed_witness:
  "uncrossed (apply_update demo_full (demo_update [demo_level Buy 102 1]))
   \<and> uncrossed (apply_update_batch demo_full crossing_batch)
   \<and> ob_asks (apply_update demo_full (demo_update [demo_level Buy 102 1])) = [(103, 4)]"
  using updates_keep_uncrossed [OF demo_full_wf demo_full_uncrossed,
      of "demo_update [demo_level Buy 102 1]" crossing_batch]
  by (simp add: demo_full_def book_eval)

theorem batch_equals_sequential_witness:
  "64 \<le> length demo_batch
   \<and> apply_update_batch demo_full demo_batch = apply_update demo_full (demo_update demo_batch)"
proof -
  have "sided demo_batch" "definite demo_full demo_batch" "non_crossing demo_full demo_batch"
    by (simp_all add: sided_def definite_def non_crossing_def demo_batch_def demo_full_def book_eval)
  from batch_equals_sequential [OF demo_full_wf this, of "''T''" 0]
  show ?thesis by (simp add: demo_update_def demo_batch_def)
qed


theorem volume_at_range_exact_witness:
  "volume_at_range_raw demo_full 101 99 = 5 \<and> volume_at_range_raw demo_full 101 99 < 2 ^ 63"
  using volume_at_range_exact [OF demo_full_wf, of 101 99]
  by (simp add: demo_full_def book_eval bid_levels_def ask_levels_def)

theorem top_of_book_correct_witness:
  "best_bid demo_full = Some 99 \<and> best_ask demo_full = Some 101 \<and> mid demo_full = Some 100"
proof -
  have "ob_bids demo_full \<noteq> []" "ob_asks demo_full \<noteq> []" by (simp_all add: demo_full_def)
  from top_of_book_correct [OF demo_full_ready demo_full_uncrossed this]
  show ?thesis by (auto simp: demo_full_def demo_book_def mid_def to_price_def)
qed

section \<open>Where the paths differ\<close>

text \<open>The path for 64 changes and more is not the one-by-one path. On a batch whose last two
  changes cross each other (a bid at 101, then an ask at 100) the one-by-one path keeps the
  newest level, the ask; the batch path removes both, and leaves the book without an ask.\<close>

lemma large_batch_drops_both_sides:
  "64 \<le> length crossing_batch \<and> sided crossing_batch \<and> definite demo_book crossing_batch
   \<and> ob_asks (apply_update demo_book (demo_update crossing_batch)) = [(100, 1)]
   \<and> ob_asks (apply_update_batch demo_book crossing_batch) = []
   \<and> ob_bids (apply_update_batch demo_book crossing_batch) = [(99, 1)]"
  by code_simp

text \<open>A positive size below half a size increment rounds to zero, and the one-by-one path
  still stores it: the book then shows a best bid whose size is zero, where a size of zero
  removes a level.\<close>

lemma rounded_size_leaves_empty_level:
  "ob_bids (apply_update demo_book (demo_update [demo_level Buy 99 (1 / 4)])) = [(99, 0)]
   \<and> best_bid (apply_update demo_book (demo_update [demo_level Buy 99 (1 / 4)])) = Some 99
   \<and> ob_bids (apply_update demo_book (demo_update [demo_level Buy 99 0])) = []"
  by (simp add: book_eval best_bid_def)

text \<open>A snapshot is stored as it comes: one whose best bid is not below its best ask gives a
  crossed book, with a negative spread.\<close>

lemma snapshot_can_cross:
  "\<not> uncrossed (apply_snapshot demo_book (demo_snapshot [demo_level Sell 100 1] [demo_level Buy 101 1]))
   \<and> spread (apply_snapshot demo_book (demo_snapshot [demo_level Sell 100 1] [demo_level Buy 101 1])) = Some (- 1)"
  by (simp add: apply_snapshot_def uncrossed_def spread_def book_eval)

end
