(* ===== verification/Reconciliator.thy ===== *)
theory Reconciliator
  imports Domain
begin

text \<open>
  \<open>trading/OrderReconciliator.{hpp,cpp}\<close>: the tracker of orders whose submission may or may
  not have reached the exchange. An intent enters as submit-unknown, is polled with exponential
  backoff, and leaves as resolved (a server order matches it), as timed out, or because the
  caller resolved it. \<open>poll_open_orders\<close> releases its lock while it fetches, so its two critical
  sections are separate definitions: \<open>poll_begin\<close> before the fetch and \<open>poll_end\<close> after it, on
  whatever state the tracker is in by then.

  The fetcher is a \<open>std::function\<close> the owner injects: a parameter, from the ticker to an error
  or to the open orders.
\<close>

section \<open>State\<close>

record order_intent =
  oi_local_order_id :: int
  oi_ticker :: ticker
  oi_side :: side
  oi_type :: order_type
  oi_price :: double
  oi_size :: double

datatype reconcile_outcome = Pending | Resolved | NotFoundTimeout

record reconcile_result =
  rr_outcome :: reconcile_outcome
  rr_local_order_id :: int
  rr_server_order_id :: "int option"
  rr_intent :: "order_intent option"
  rr_note :: "string option"

text \<open>The durations of the configuration are in milliseconds, as in the source.\<close>

record recon_config =
  rcfg_initial_backoff :: int
  rcfg_max_backoff :: int
  rcfg_total_timeout :: int
  rcfg_backoff_multiplier :: double
  rcfg_price_tolerance_bps :: double
  rcfg_size_tolerance_pct :: double

definition recon_config_default :: recon_config where
  "recon_config_default =
     \<lparr>rcfg_initial_backoff = 500, rcfg_max_backoff = 8000, rcfg_total_timeout = 30000,
      rcfg_backoff_multiplier = 2, rcfg_price_tolerance_bps = 2, rcfg_size_tolerance_pct = 1 / 2\<rparr>"

record pending_intent =
  pi_intent :: order_intent
  pi_started_at :: time_point
  pi_next_poll_at :: time_point
  pi_current_backoff :: int

record reconciliator =
  rc_cfg :: recon_config
  rc_pending :: "(int, pending_intent) omap"
  rc_by_ticker :: "(ticker, int list) omap"

type_synonym fetcher = "ticker \<Rightarrow> string + rest_order list"

definition reconciliator_new :: "recon_config \<Rightarrow> reconciliator" where
  "reconciliator_new cfg = \<lparr>rc_cfg = cfg, rc_pending = [], rc_by_ticker = []\<rparr>"

section \<open>Registration and removal\<close>

definition tracked :: "reconciliator \<Rightarrow> ticker \<Rightarrow> int list" where
  "tracked rc key = (case map_of (rc_by_ticker rc) key of None \<Rightarrow> [] | Some ids \<Rightarrow> ids)"

definition enter_submit_unknown ::
  "order_intent \<Rightarrow> time_point \<Rightarrow> reconciliator \<Rightarrow> bool \<times> reconciliator" where
  "enter_submit_unknown intent now rc =
     (case map_of (rc_pending rc) (oi_local_order_id intent) of
        Some _ \<Rightarrow> (False, rc)
      | None \<Rightarrow>
          let normalized = intent\<lparr>oi_ticker := to_internal_ticker (oi_ticker intent)\<rparr>;
              p = \<lparr>pi_intent = normalized, pi_started_at = now, pi_next_poll_at = now,
                   pi_current_backoff = rcfg_initial_backoff (rc_cfg rc)\<rparr>
          in (True,
              rc\<lparr>rc_pending := omap_put (<) (oi_local_order_id intent) p (rc_pending rc),
                 rc_by_ticker := omap_put (<) (oi_ticker normalized)
                   (oset_insert (oi_local_order_id intent) (tracked rc (oi_ticker normalized)))
                   (rc_by_ticker rc)\<rparr>))"

text \<open>
  Erasing an intent from both indexes, as \<open>resolve_order\<close> and the removal loops of
  \<open>poll_open_orders\<close> do.
\<close>

definition remove_intent :: "int \<Rightarrow> reconciliator \<Rightarrow> reconciliator" where
  "remove_intent local_id rc =
     (case map_of (rc_pending rc) local_id of
        None \<Rightarrow> rc
      | Some p \<Rightarrow>
          let tkr = oi_ticker (pi_intent p) in
          rc\<lparr>rc_pending := omap_erase local_id (rc_pending rc),
             rc_by_ticker :=
               (case map_of (rc_by_ticker rc) tkr of
                  None \<Rightarrow> rc_by_ticker rc
                | Some ids \<Rightarrow>
                    let ids' = oset_erase local_id ids in
                    if ids' = [] then omap_erase tkr (rc_by_ticker rc)
                    else omap_put (<) tkr ids' (rc_by_ticker rc))\<rparr>)"

definition resolve_order :: "int \<Rightarrow> reconciliator \<Rightarrow> bool \<times> reconciliator" where
  "resolve_order local_id rc =
     (if map_of (rc_pending rc) local_id = None then (False, rc) else (True, remove_intent local_id rc))"

definition has_pending :: "reconciliator \<Rightarrow> ticker \<Rightarrow> bool" where
  "has_pending rc tck \<longleftrightarrow> tracked rc (to_internal_ticker tck) \<noteq> []"

definition pending_count :: "reconciliator \<Rightarrow> nat" where
  "pending_count rc = length (rc_pending rc)"

section \<open>Matching\<close>

definition matches_intent :: "recon_config \<Rightarrow> order_intent \<Rightarrow> rest_order \<Rightarrow> bool" where
  "matches_intent cfg intent server \<longleftrightarrow>
     to_internal_ticker (ro_ticker server) = to_internal_ticker (oi_ticker intent) \<and>
     ro_side server = oi_side intent \<and>
     ro_type server = oi_type intent \<and>
     (oi_type intent \<noteq> Market \<longrightarrow>
        \<bar>ro_price server - oi_price intent\<bar>
          \<le> max (1 / 100000000) (\<bar>oi_price intent\<bar> * (rcfg_price_tolerance_bps cfg / 10000))) \<and>
     \<bar>ro_size server - oi_size intent\<bar>
       \<le> max (1 / 100000000) (\<bar>oi_size intent\<bar> * (rcfg_size_tolerance_pct cfg / 100))"

definition find_server_order :: "recon_config \<Rightarrow> rest_order list \<Rightarrow> order_intent \<Rightarrow> int option" where
  "find_server_order cfg server_orders intent =
     map_option ro_id (find (matches_intent cfg intent) server_orders)"

section \<open>Polling\<close>

definition pending_result :: "int \<Rightarrow> pending_intent \<Rightarrow> reconcile_result" where
  "pending_result local_id p =
     \<lparr>rr_outcome = Pending, rr_local_order_id = local_id, rr_server_order_id = None,
      rr_intent = Some (pi_intent p), rr_note = None\<rparr>"

definition resolved_result :: "int \<Rightarrow> int \<Rightarrow> pending_intent \<Rightarrow> reconcile_result" where
  "resolved_result local_id server_id p =
     \<lparr>rr_outcome = Resolved, rr_local_order_id = local_id, rr_server_order_id = Some server_id,
      rr_intent = Some (pi_intent p), rr_note = None\<rparr>"

definition timeout_result :: "int \<Rightarrow> string \<Rightarrow> pending_intent \<Rightarrow> reconcile_result" where
  "timeout_result local_id note p =
     \<lparr>rr_outcome = NotFoundTimeout, rr_local_order_id = local_id, rr_server_order_id = None,
      rr_intent = Some (pi_intent p), rr_note = Some note\<rparr>"

text \<open>The first loop: which tracked intents are due, and a result for each that is not.\<close>

definition is_due :: "recon_config \<Rightarrow> time_point \<Rightarrow> pending_intent \<Rightarrow> bool" where
  "is_due cfg now p \<longleftrightarrow>
     \<not> (now < pi_next_poll_at p \<and> now - pi_started_at p < milliseconds (rcfg_total_timeout cfg))"

fun select_due ::
  "reconciliator \<Rightarrow> time_point \<Rightarrow> int list \<Rightarrow> reconcile_result list \<times> int list" where
  "select_due rc now [] = ([], [])"
| "select_due rc now (local_id # ids) =
     (let (out, due) = select_due rc now ids in
      case map_of (rc_pending rc) local_id of
        None \<Rightarrow> (out, due)
      | Some p \<Rightarrow>
          if is_due (rc_cfg rc) now p then (out, local_id # due)
          else (pending_result local_id p # out, due))"

text \<open>
  \<open>next_backoff\<close> is the capped product, cast to whole milliseconds; \<open>back_off\<close> stores it and
  the next poll time in the intent's entry.
\<close>

definition next_backoff :: "recon_config \<Rightarrow> int \<Rightarrow> int" where
  "next_backoff cfg b = min (rcfg_max_backoff cfg) (ctrunc (real_of_int b * rcfg_backoff_multiplier cfg))"

definition back_off :: "recon_config \<Rightarrow> time_point \<Rightarrow> pending_intent \<Rightarrow> pending_intent" where
  "back_off cfg now p =
     (let b = next_backoff cfg (pi_current_backoff p) in
      p\<lparr>pi_current_backoff := b, pi_next_poll_at := now + milliseconds b\<rparr>)"

text \<open>
  The loop over the due intents. After a failed fetch it runs with no server order to find
  (\<open>find_order\<close> constantly \<^const>\<open>None\<close>) and its own note; after a fetch, with the orders.
  It returns the state, the results and the ids to remove.
\<close>

fun settle_due ::
  "(order_intent \<Rightarrow> int option) \<Rightarrow> string \<Rightarrow> time_point \<Rightarrow> int list \<Rightarrow> reconciliator
    \<Rightarrow> reconciliator \<times> reconcile_result list \<times> int list" where
  "settle_due find_order note now [] rc = (rc, [], [])"
| "settle_due find_order note now (local_id # ids) rc =
     (case map_of (rc_pending rc) local_id of
        None \<Rightarrow> settle_due find_order note now ids rc
      | Some p \<Rightarrow>
          (case find_order (pi_intent p) of
             Some server_id \<Rightarrow>
               (let (rc', out, rm) = settle_due find_order note now ids rc in
                (rc', resolved_result local_id server_id p # out, local_id # rm))
           | None \<Rightarrow>
               if milliseconds (rcfg_total_timeout (rc_cfg rc)) \<le> now - pi_started_at p then
                 (let (rc', out, rm) = settle_due find_order note now ids rc in
                  (rc', timeout_result local_id note p # out, local_id # rm))
               else
                 (let p' = back_off (rc_cfg rc) now p;
                      (rc', out, rm) = settle_due find_order note now ids
                        (rc\<lparr>rc_pending := omap_put (<) local_id p' (rc_pending rc)\<rparr>) in
                  (rc', pending_result local_id p' # out, rm))))"

datatype poll_plan = Done "reconcile_result list" | Fetch "reconcile_result list" "int list"

text \<open>Everything before the fetch: \<open>Done\<close> is an early return.\<close>

definition poll_begin :: "fetcher option \<Rightarrow> ticker \<Rightarrow> time_point \<Rightarrow> reconciliator \<Rightarrow> poll_plan" where
  "poll_begin fetch tck now rc =
     (let key = to_internal_ticker tck in
      if fetch = None then Done []
      else if tracked rc key = [] then Done []
      else
        (let (out, due) = select_due rc now (tracked rc key) in
         if due = [] then Done out else Fetch out due))"

definition timeout_note_failed :: string where
  "timeout_note_failed = ''deadline exceeded during open-order polling''"

definition timeout_note_polled :: string where
  "timeout_note_polled = ''deadline exceeded; manual intervention required''"

text \<open>
  Everything after the fetch. The two branches test the index again: after a failed fetch only
  for the ticker's entry, otherwise also for an empty entry.
\<close>

definition poll_end ::
  "string + rest_order list \<Rightarrow> ticker \<Rightarrow> time_point \<Rightarrow> reconcile_result list \<Rightarrow> int list
    \<Rightarrow> reconciliator \<Rightarrow> reconcile_result list \<times> reconciliator" where
  "poll_end fetched tck now out due rc =
     (let key = to_internal_ticker tck in
      case fetched of
        Inl _ \<Rightarrow>
          if map_of (rc_by_ticker rc) key = None then (out, rc)
          else
            (let (rc', out', rm) = settle_due (\<lambda>_. None) timeout_note_failed now due rc in
             (out @ out', fold remove_intent rm rc'))
      | Inr server_orders \<Rightarrow>
          if tracked rc key = [] then (out, rc)
          else
            (let (rc', out', rm) =
               settle_due (find_server_order (rc_cfg rc) server_orders) timeout_note_polled now due rc in
             (out @ out', fold remove_intent rm rc')))"

definition poll_open_orders ::
  "fetcher option \<Rightarrow> ticker \<Rightarrow> time_point \<Rightarrow> reconciliator \<Rightarrow> reconcile_result list \<times> reconciliator" where
  "poll_open_orders fetch tck now rc =
     (case poll_begin fetch tck now rc of
        Done out \<Rightarrow> (out, rc)
      | Fetch out due \<Rightarrow> poll_end (the fetch (to_internal_ticker tck)) tck now out due rc)"

section \<open>The tracker invariant\<close>

text \<open>
  The two indexes agree: an id is tracked under a ticker exactly when the pending map holds an
  intent for that ticker under the id; no ticker has an empty set of ids.
\<close>

definition rc_inv :: "reconciliator \<Rightarrow> bool" where
  "rc_inv rc \<longleftrightarrow>
     omap_ok (<) (rc_pending rc) \<and> omap_ok (<) (rc_by_ticker rc) \<and>
     (\<forall>key ids. map_of (rc_by_ticker rc) key = Some ids \<longrightarrow> ids \<noteq> [] \<and> sorted_wrt (<) ids) \<and>
     (\<forall>key i. i \<in> set (tracked rc key) \<longleftrightarrow>
        (\<exists>p. map_of (rc_pending rc) i = Some p \<and> oi_ticker (pi_intent p) = key)) \<and>
     (\<forall>i p. map_of (rc_pending rc) i = Some p \<longrightarrow>
        oi_local_order_id (pi_intent p) = i \<and>
        to_internal_ticker (oi_ticker (pi_intent p)) = oi_ticker (pi_intent p))"

lemma rc_invD:
  assumes "rc_inv rc"
  shows "omap_ok (<) (rc_pending rc)" "omap_ok (<) (rc_by_ticker rc)"
    "map_of (rc_by_ticker rc) key = Some ids \<Longrightarrow> ids \<noteq> [] \<and> sorted_wrt (<) ids"
    "i \<in> set (tracked rc key) \<longleftrightarrow>
       (\<exists>p. map_of (rc_pending rc) i = Some p \<and> oi_ticker (pi_intent p) = key)"
    "map_of (rc_pending rc) i = Some p \<Longrightarrow> oi_local_order_id (pi_intent p) = i"
    "map_of (rc_pending rc) i = Some p \<Longrightarrow>
       to_internal_ticker (oi_ticker (pi_intent p)) = oi_ticker (pi_intent p)"
  using assms unfolding rc_inv_def by blast+

lemma rc_inv_new: "rc_inv (reconciliator_new cfg)"
  by (simp add: rc_inv_def reconciliator_new_def tracked_def)

lemma tracked_put: "tracked (rc\<lparr>rc_pending := m, rc_by_ticker := omap_put (<) k ids (rc_by_ticker rc)\<rparr>) key
    = (if key = k then ids else tracked rc key)"
  by (simp add: tracked_def)

lemma sorted_tracked: "rc_inv rc \<Longrightarrow> sorted_wrt (<) (tracked rc key)"
  using rc_invD(3) by (auto simp: tracked_def split: option.splits)

lemma enter_inv: "rc_inv rc \<Longrightarrow> rc_inv (snd (enter_submit_unknown intent now rc))"
proof (cases "map_of (rc_pending rc) (oi_local_order_id intent)")
  case None
  assume inv: "rc_inv rc"
  let ?k = "to_internal_ticker (oi_ticker intent)"
  have "sorted_wrt (<) (oset_insert (oi_local_order_id intent) (tracked rc ?k))"
    by (intro sorted_oset_insert sorted_tracked inv)
  moreover have "oset_insert (oi_local_order_id intent) (tracked rc ?k) \<noteq> []"
    by (metis empty_iff insert_not_empty list.set(1) set_oset_insert)
  ultimately show ?thesis
    using inv None
    unfolding rc_inv_def enter_submit_unknown_def Let_def
    by (auto simp: tracked_put asc.omap_ok_put)
next
  case (Some p)
  then show "rc_inv rc \<Longrightarrow> ?thesis" by (simp add: enter_submit_unknown_def)
qed

lemma tracked_remove:
  assumes "rc_inv rc"
  shows "set (tracked (remove_intent i rc) key) = set (tracked rc key) - {i}"
proof (cases "map_of (rc_pending rc) i")
  case None
  then have "i \<notin> set (tracked rc key)" using rc_invD(4) [OF assms, of i key] by simp
  with None show ?thesis by (simp add: remove_intent_def)
next
  case (Some p)
  show ?thesis
  proof (cases "oi_ticker (pi_intent p) = key")
    case True
    then have "i \<in> set (tracked rc key)" using Some rc_invD(4) [OF assms, of i key] by simp
    then obtain ids where "map_of (rc_by_ticker rc) key = Some ids" "tracked rc key = ids"
      by (cases "map_of (rc_by_ticker rc) key") (auto simp: tracked_def)
    with Some True show ?thesis
      by (auto simp: remove_intent_def tracked_def Let_def oset_erase_def filter_empty_conv
          split: option.splits)
  next
    case False
    then have "i \<notin> set (tracked rc key)" using Some rc_invD(4) [OF assms, of i key] by simp
    with Some False show ?thesis
      by (auto simp: remove_intent_def tracked_def Let_def split: option.splits)
  qed
qed

lemma pending_remove [simp]:
  "map_of (rc_pending (remove_intent i rc)) = (map_of (rc_pending rc))(i := None)"
  by (auto simp: remove_intent_def fun_eq_iff Let_def split: option.splits)

lemma cfg_remove [simp]: "rc_cfg (remove_intent i rc) = rc_cfg rc"
  by (simp add: remove_intent_def Let_def split: option.splits)

lemma remove_inv: "rc_inv rc \<Longrightarrow> rc_inv (remove_intent i rc)"
proof -
  assume inv: "rc_inv rc"
  note D = rc_invD [OF inv]
  have sorted: "omap_ok (<) (rc_pending (remove_intent i rc))"
    "omap_ok (<) (rc_by_ticker (remove_intent i rc))"
    using D(1,2) by (auto simp: remove_intent_def Let_def asc.omap_ok_put omap_ok_erase
        split: option.splits)
  have ids: "ids \<noteq> [] \<and> sorted_wrt (<) ids"
    if "map_of (rc_by_ticker (remove_intent i rc)) key = Some ids" for key ids
    using that D(3) by (fastforce simp: remove_intent_def Let_def sorted_oset_erase
        split: option.splits if_splits)
  have mem: "j \<in> set (tracked (remove_intent i rc) key) \<longleftrightarrow>
      (\<exists>p. map_of (rc_pending (remove_intent i rc)) j = Some p \<and> oi_ticker (pi_intent p) = key)" for j key
    using D(4) [of j key] by (auto simp: tracked_remove [OF inv])
  show ?thesis
    unfolding rc_inv_def using sorted ids mem D(5,6) by auto
qed

lemma fold_remove_inv: "rc_inv rc \<Longrightarrow> rc_inv (fold remove_intent rm rc)"
  by (induction rm arbitrary: rc) (auto intro: remove_inv)

lemma pending_fold_remove:
  "map_of (rc_pending (fold remove_intent rm rc)) i =
     (if i \<in> set rm then None else map_of (rc_pending rc) i)"
  by (induction rm arbitrary: rc) auto

lemma resolve_inv: "rc_inv rc \<Longrightarrow> rc_inv (snd (resolve_order i rc))"
  by (auto simp: resolve_order_def intro: remove_inv)

text \<open>Backing off changes the schedule of an entry, not its intent.\<close>

lemma back_off_intent [simp]:
  "pi_intent (back_off cfg now p) = pi_intent p" "pi_started_at (back_off cfg now p) = pi_started_at p"
  by (simp_all add: back_off_def Let_def)

lemma update_pending_inv:
  assumes "rc_inv rc" "map_of (rc_pending rc) i = Some p" "pi_intent p' = pi_intent p"
  shows "rc_inv (rc\<lparr>rc_pending := omap_put (<) i p' (rc_pending rc)\<rparr>)"
  using assms rc_invD [OF assms(1)] unfolding rc_inv_def
  by (auto simp: asc.omap_ok_put tracked_def split: option.splits)

lemma settle_inv:
  "settle_due f note now due rc = (rc', out, rm) \<Longrightarrow> rc_inv rc \<Longrightarrow> rc_inv rc'"
proof (induction due arbitrary: rc rc' out rm)
  case Nil
  then show ?case by simp
next
  case (Cons i due)
  show ?case
  proof (cases "map_of (rc_pending rc) i")
    case None
    with Cons show ?thesis by simp
  next
    case (Some p)
    have "rc_inv (rc\<lparr>rc_pending := omap_put (<) i (back_off (rc_cfg rc) now p) (rc_pending rc)\<rparr>)"
      by (rule update_pending_inv [OF Cons.prems(2) Some]) simp
    with Some Cons show ?thesis
      by (auto simp: Let_def split: option.splits prod.splits if_splits)
  qed
qed

lemma poll_end_inv: "rc_inv rc \<Longrightarrow> rc_inv (snd (poll_end fetched tck now out due rc))"
  by (auto simp: poll_end_def Let_def intro: fold_remove_inv settle_inv
      split: sum.splits prod.splits)

text \<open>C10. Every operation keeps the tracker's two indexes consistent: registration, manual
  resolution, and both critical sections of a poll, whatever the fetch returned and whatever
  happened to the tracker while the lock was released for it.\<close>

theorem reconciliator_invariant:
  assumes "rc_inv rc"
  shows "rc_inv (snd (enter_submit_unknown intent now rc)) \<and> rc_inv (snd (resolve_order i rc))
    \<and> rc_inv (snd (poll_end fetched tck now out due rc))
    \<and> rc_inv (snd (poll_open_orders fetch tck now rc))"
  using assms
  by (auto simp: poll_open_orders_def intro: enter_inv resolve_inv poll_end_inv split: poll_plan.splits)

section \<open>What a poll reports\<close>

lemma select_due_spec:
  "(\<And>i. i \<in> set ids \<Longrightarrow> map_of (rc_pending rc) i = Some (e i)) \<Longrightarrow>
   select_due rc now ids =
     (map (\<lambda>i. pending_result i (e i)) (filter (\<lambda>i. \<not> is_due (rc_cfg rc) now (e i)) ids),
      filter (\<lambda>i. is_due (rc_cfg rc) now (e i)) ids)"
  by (induction ids) auto

text \<open>The second loop in closed form: each due intent is settled by its own entry.\<close>

definition settled ::
  "(order_intent \<Rightarrow> int option) \<Rightarrow> recon_config \<Rightarrow> time_point \<Rightarrow> pending_intent \<Rightarrow> reconcile_outcome" where
  "settled f cfg now p =
     (if f (pi_intent p) \<noteq> None then Resolved
      else if milliseconds (rcfg_total_timeout cfg) \<le> now - pi_started_at p then NotFoundTimeout
      else Pending)"

definition settled_result ::
  "(order_intent \<Rightarrow> int option) \<Rightarrow> string \<Rightarrow> recon_config \<Rightarrow> time_point \<Rightarrow> int \<Rightarrow> pending_intent
    \<Rightarrow> reconcile_result" where
  "settled_result f note cfg now i p =
     \<lparr>rr_outcome = settled f cfg now p, rr_local_order_id = i, rr_server_order_id = f (pi_intent p),
      rr_intent = Some (pi_intent p),
      rr_note = (if settled f cfg now p = NotFoundTimeout then Some note else None)\<rparr>"

lemma result_simps [simp]:
  "rr_outcome (pending_result i p) = Pending" "rr_local_order_id (pending_result i p) = i"
  "rr_outcome (settled_result f note cfg now i p) = settled f cfg now p"
  "rr_local_order_id (settled_result f note cfg now i p) = i"
  "rr_server_order_id (settled_result f note cfg now i p) = f (pi_intent p)"
  "rr_intent (settled_result f note cfg now i p) = Some (pi_intent p)"
  by (simp_all add: pending_result_def settled_result_def)

definition settled_entry ::
  "(order_intent \<Rightarrow> int option) \<Rightarrow> recon_config \<Rightarrow> time_point \<Rightarrow> pending_intent \<Rightarrow> pending_intent" where
  "settled_entry f cfg now p = (if settled f cfg now p = Pending then back_off cfg now p else p)"

lemma settle_due_spec:
  "settle_due f note now due rc = (rc', out, rm) \<Longrightarrow> distinct due \<Longrightarrow>
   (\<And>i. i \<in> set due \<Longrightarrow> map_of (rc_pending rc) i = Some (e i)) \<Longrightarrow>
   out = map (\<lambda>i. settled_result f note (rc_cfg rc) now i (e i)) due \<and>
   rm = filter (\<lambda>i. settled f (rc_cfg rc) now (e i) \<noteq> Pending) due \<and>
   rc_cfg rc' = rc_cfg rc \<and> rc_by_ticker rc' = rc_by_ticker rc \<and>
   (\<forall>i. map_of (rc_pending rc') i =
      (if i \<in> set due then Some (settled_entry f (rc_cfg rc) now (e i)) else map_of (rc_pending rc) i))"
proof (induction due arbitrary: rc rc' out rm)
  case Nil
  then show ?case by simp
next
  case (Cons i due)
  let ?rc = "if settled f (rc_cfg rc) now (e i) = Pending
    then rc\<lparr>rc_pending := omap_put (<) i (back_off (rc_cfg rc) now (e i)) (rc_pending rc)\<rparr> else rc"
  obtain rc1 out1 rm1 where s: "settle_due f note now due ?rc = (rc1, out1, rm1)"
    by (metis prod_cases3)
  have p: "map_of (rc_pending rc) i = Some (e i)" using Cons.prems(3) [of i] by simp
  have IH: "out1 = map (\<lambda>i. settled_result f note (rc_cfg ?rc) now i (e i)) due \<and>
   rm1 = filter (\<lambda>i. settled f (rc_cfg ?rc) now (e i) \<noteq> Pending) due \<and>
   rc_cfg rc1 = rc_cfg ?rc \<and> rc_by_ticker rc1 = rc_by_ticker ?rc \<and>
   (\<forall>i. map_of (rc_pending rc1) i =
      (if i \<in> set due then Some (settled_entry f (rc_cfg ?rc) now (e i)) else map_of (rc_pending ?rc) i))"
    by (rule Cons.IH [OF s]) (use Cons.prems in auto)
  have "rc' = rc1 \<and> out = settled_result f note (rc_cfg rc) now i (e i) # out1 \<and>
      rm = (if settled f (rc_cfg rc) now (e i) \<noteq> Pending then i # rm1 else rm1)"
    using Cons.prems(1) s p
    by (auto simp: settled_def settled_result_def resolved_result_def timeout_result_def
        pending_result_def Let_def split: option.splits if_splits)
  with IH Cons.prems(2) p show ?case
    by (auto simp: settled_entry_def split: if_splits)
qed

text \<open>A sequential poll of a ticker, from a consistent tracker, in closed form.\<close>

definition order_finder :: "recon_config \<Rightarrow> string + rest_order list \<Rightarrow> order_intent \<Rightarrow> int option" where
  "order_finder cfg fetched =
     (case fetched of Inl _ \<Rightarrow> (\<lambda>_. None) | Inr server_orders \<Rightarrow> find_server_order cfg server_orders)"

definition poll_note :: "string + rest_order list \<Rightarrow> string" where
  "poll_note fetched = (case fetched of Inl _ \<Rightarrow> timeout_note_failed | Inr _ \<Rightarrow> timeout_note_polled)"

lemma poll_spec:
  assumes inv: "rc_inv rc"
    and key: "key = to_internal_ticker tck"
    and poll: "poll_open_orders (Some ft) tck now rc = (out, rc')"
  defines "e \<equiv> \<lambda>i. the (map_of (rc_pending rc) i)"
  defines "due \<equiv> \<lambda>i. is_due (rc_cfg rc) now (e i)"
    and "fo \<equiv> order_finder (rc_cfg rc) (ft key)"
  shows "out = map (\<lambda>i. pending_result i (e i)) (filter (\<lambda>i. \<not> due i) (tracked rc key)) @
      map (\<lambda>i. settled_result fo (poll_note (ft key)) (rc_cfg rc) now i (e i))
        (filter due (tracked rc key)) \<and>
    (\<forall>i. map_of (rc_pending rc') i =
      (if i \<in> set (tracked rc key) \<and> due i then
         (if settled fo (rc_cfg rc) now (e i) = Pending then Some (back_off (rc_cfg rc) now (e i))
          else None)
       else map_of (rc_pending rc) i))"
proof -
  let ?ids = "tracked rc key"
  have pend: "map_of (rc_pending rc) i = Some (e i)" if "i \<in> set ?ids" for i
    using that rc_invD(4) [OF inv, of i key] by (auto simp: e_def)
  have dist: "distinct (filter due ?ids)"
    using sorted_tracked [OF inv] by (intro distinct_filter) (rule distinct_sorted_wrt_less)
  have sel: "select_due rc now ?ids =
     (map (\<lambda>i. pending_result i (e i)) (filter (\<lambda>i. \<not> due i) ?ids), filter due ?ids)"
    unfolding due_def by (rule select_due_spec [OF pend])
  show ?thesis
  proof (cases "filter due ?ids = []")
    case True
    then have "\<forall>i \<in> set ?ids. \<not> due i" by (simp add: filter_empty_conv)
    with True poll sel key show ?thesis
      by (auto simp: poll_open_orders_def poll_begin_def Let_def split: if_splits)
  next
    case False
    then have ne: "?ids \<noteq> []" by auto
    then have idx: "map_of (rc_by_ticker rc) key \<noteq> None" by (auto simp: tracked_def split: option.splits)
    obtain rc1 out1 rm where st: "settle_due fo (poll_note (ft key)) now (filter due ?ids) rc = (rc1, out1, rm)"
      by (metis prod_cases3)
    have "out = map (\<lambda>i. pending_result i (e i)) (filter (\<lambda>i. \<not> due i) ?ids) @ out1 \<and>
        rc' = fold remove_intent rm rc1"
      using poll sel key False ne idx st
      by (auto simp: poll_open_orders_def poll_begin_def poll_end_def Let_def fo_def order_finder_def
          poll_note_def split: sum.splits)
    moreover note settle_due_spec [OF st dist, of e]
    ultimately show ?thesis
      using pend by (auto simp: pending_fold_remove settled_entry_def)
  qed
qed

text \<open>C24. A poll reports each tracked intent of the ticker exactly once; an intent leaves the
  tracker exactly when its result is resolved or timed out, and the other intents, of this ticker
  and of every other, stay.\<close>

theorem poll_reports_each_once:
  assumes "rc_inv rc" "poll_open_orders (Some ft) tck now rc = (out, rc')"
  shows "distinct (map rr_local_order_id out)
    \<and> set (map rr_local_order_id out) = set (tracked rc (to_internal_ticker tck))
    \<and> (\<forall>i. map_of (rc_pending rc') i = None \<longleftrightarrow>
          map_of (rc_pending rc) i = None \<or> (\<exists>r \<in> set out. rr_local_order_id r = i \<and> rr_outcome r \<noteq> Pending))"
proof -
  let ?e = "\<lambda>i. the (map_of (rc_pending rc) i)"
  let ?key = "to_internal_ticker tck" and ?due = "\<lambda>i. is_due (rc_cfg rc) now (?e i)"
  let ?fo = "order_finder (rc_cfg rc) (ft ?key)"
  note sp = poll_spec [OF assms(1) refl assms(2)]
  have dist: "distinct (tracked rc ?key)"
    using sorted_tracked [OF assms(1)] by (rule distinct_sorted_wrt_less)
  have ids: "map rr_local_order_id out =
      filter (\<lambda>i. \<not> ?due i) (tracked rc ?key) @ filter ?due (tracked rc ?key)"
    using sp by (simp add: comp_def)
  have pend: "map_of (rc_pending rc) i \<noteq> None" if "i \<in> set (tracked rc ?key)" for i
    using that rc_invD(4) [OF assms(1), of i ?key] by auto
  have gone: "(\<exists>r \<in> set out. rr_local_order_id r = i \<and> rr_outcome r \<noteq> Pending) \<longleftrightarrow>
      i \<in> set (tracked rc ?key) \<and> ?due i \<and> settled ?fo (rc_cfg rc) now (?e i) \<noteq> Pending" for i
    unfolding sp [THEN conjunct1] by (auto simp: bex_Un)
  show ?thesis
    unfolding gone using sp ids dist pend by auto
qed

text \<open>C25. A resolved result names an order the exchange returned that matches the intent within
  the tolerances; and once an intent is older than the total timeout, the next poll takes it out
  of the tracker, even when the fetch fails, so no intent is tracked for ever.\<close>

theorem poll_resolves_or_expires:
  assumes "rc_inv rc" "poll_open_orders (Some ft) tck now rc = (out, rc')"
  shows "(\<forall>r \<in> set out. rr_outcome r = Resolved \<longrightarrow>
        (\<exists>orders s intent. ft (to_internal_ticker tck) = Inr orders \<and> s \<in> set orders \<and>
           rr_server_order_id r = Some (ro_id s) \<and> rr_intent r = Some intent \<and>
           matches_intent (rc_cfg rc) intent s))
    \<and> (\<forall>i \<in> set (tracked rc (to_internal_ticker tck)). \<forall>p.
          map_of (rc_pending rc) i = Some p \<and>
          milliseconds (rcfg_total_timeout (rc_cfg rc)) \<le> now - pi_started_at p \<longrightarrow>
          map_of (rc_pending rc') i = None)"
proof -
  note sp = poll_spec [OF assms(1) refl assms(2)]
  show ?thesis
  proof (intro conjI ballI allI impI)
    fix r
    assume "r \<in> set out" "rr_outcome r = Resolved"
    then obtain i where r: "r = settled_result (order_finder (rc_cfg rc) (ft (to_internal_ticker tck)))
        (poll_note (ft (to_internal_ticker tck))) (rc_cfg rc) now i (the (map_of (rc_pending rc) i))"
      and "settled (order_finder (rc_cfg rc) (ft (to_internal_ticker tck))) (rc_cfg rc) now
        (the (map_of (rc_pending rc) i)) = Resolved"
      using sp by auto
    then obtain orders where o: "ft (to_internal_ticker tck) = Inr orders"
      and "find_server_order (rc_cfg rc) orders (pi_intent (the (map_of (rc_pending rc) i))) \<noteq> None"
      by (auto simp: settled_def order_finder_def split: if_splits sum.splits)
    then obtain s where "find (matches_intent (rc_cfg rc) (pi_intent (the (map_of (rc_pending rc) i)))) orders = Some s"
      by (auto simp: find_server_order_def)
    note s = this find_SomeD [OF this]
    with r o show "\<exists>orders s intent. ft (to_internal_ticker tck) = Inr orders \<and> s \<in> set orders \<and>
           rr_server_order_id r = Some (ro_id s) \<and> rr_intent r = Some intent \<and>
           matches_intent (rc_cfg rc) intent s"
      by (auto simp: order_finder_def find_server_order_def)
  next
    fix i p
    assume i: "i \<in> set (tracked rc (to_internal_ticker tck))"
      and p: "map_of (rc_pending rc) i = Some p \<and>
          milliseconds (rcfg_total_timeout (rc_cfg rc)) \<le> now - pi_started_at p"
    then have "is_due (rc_cfg rc) now p" by (simp add: is_due_def)
    with sp i p show "map_of (rc_pending rc') i = None"
      by (auto simp: settled_def)
  qed
qed

lemma next_backoff_le: "next_backoff cfg b \<le> rcfg_max_backoff cfg"
  by (simp add: next_backoff_def)

lemma next_backoff_ge:
  assumes "1 \<le> rcfg_backoff_multiplier cfg" "0 \<le> b" "b \<le> rcfg_max_backoff cfg"
  shows "b \<le> next_backoff cfg b"
proof -
  have "real_of_int b * 1 \<le> real_of_int b * rcfg_backoff_multiplier cfg"
    using assms by (intro mult_left_mono) auto
  then have "b \<le> ctrunc (real_of_int b * rcfg_backoff_multiplier cfg)"
    using assms(2) by (simp add: ctrunc_def le_floor_iff)
  with assms(3) show ?thesis by (simp add: next_backoff_def)
qed

text \<open>The polling schedule backs off and never stalls: an intent that a poll leaves pending
  after asking the exchange has a backoff no smaller than before and no larger than the
  configured maximum, and is due again at most that long after the poll.\<close>

theorem poll_schedule_bounded:
  assumes "rc_inv rc" "poll_open_orders (Some ft) tck now rc = (out, rc')"
    and "1 \<le> rcfg_backoff_multiplier (rc_cfg rc)"
    and "i \<in> set (tracked rc (to_internal_ticker tck))"
    and "map_of (rc_pending rc) i = Some p" "is_due (rc_cfg rc) now p"
    and "0 \<le> pi_current_backoff p" "pi_current_backoff p \<le> rcfg_max_backoff (rc_cfg rc)"
    and "map_of (rc_pending rc') i = Some p'"
  shows "pi_current_backoff p \<le> pi_current_backoff p'
    \<and> pi_current_backoff p' \<le> rcfg_max_backoff (rc_cfg rc)
    \<and> pi_next_poll_at p' = now + milliseconds (pi_current_backoff p')
    \<and> pi_started_at p' = pi_started_at p"
proof -
  have "p' = back_off (rc_cfg rc) now p"
    using poll_spec [OF assms(1) refl assms(2)] assms(4,5,6,9) by (auto split: if_splits)
  then show ?thesis
    using next_backoff_le next_backoff_ge [OF assms(3,7,8)]
    by (simp add: back_off_def Let_def)
qed

lemma settle_due_ids:
  "settle_due f note now due rc = (rc', out, rm) \<Longrightarrow> r \<in> set out \<Longrightarrow>
   rr_local_order_id r \<in> set due \<and> map_of (rc_pending rc) (rr_local_order_id r) \<noteq> None"
proof (induction due arbitrary: rc rc' out rm)
  case Nil
  then show ?case by simp
next
  case (Cons i due)
  show ?case
  proof (cases "map_of (rc_pending rc) i")
    case None
    with Cons show ?thesis by simp
  next
    case (Some p)
    let ?rc = "if f (pi_intent p) \<noteq> None \<or>
        milliseconds (rcfg_total_timeout (rc_cfg rc)) \<le> now - pi_started_at p then rc
      else rc\<lparr>rc_pending := omap_put (<) i (back_off (rc_cfg rc) now p) (rc_pending rc)\<rparr>"
    obtain r1 o1 m1 where s: "settle_due f note now due ?rc = (r1, o1, m1)" by (metis prod_cases3)
    have "rr_local_order_id r = i \<or> r \<in> set o1"
      using Cons.prems s Some
      by (auto simp: Let_def resolved_result_def timeout_result_def pending_result_def
          split: option.splits if_splits)
    with Cons.IH [OF s] Some show ?thesis by (auto split: if_splits)
  qed
qed

lemma settle_due_absent:
  "settle_due f note now due rc = (rc', out, rm) \<Longrightarrow> map_of (rc_pending rc) i = None \<Longrightarrow>
   map_of (rc_pending rc') i = None"
proof (induction due arbitrary: rc rc' out rm)
  case Nil
  then show ?case by simp
next
  case (Cons d due)
  show ?case
  proof (cases "map_of (rc_pending rc) d")
    case None
    with Cons show ?thesis by simp
  next
    case (Some p)
    then have "map_of (rc_pending (rc\<lparr>rc_pending :=
        omap_put (<) d (back_off (rc_cfg rc) now p) (rc_pending rc)\<rparr>)) i = None"
      using Cons.prems(2) by auto
    with Cons Some show ?thesis
      by (auto simp: Let_def split: option.splits prod.splits if_splits)
  qed
qed

text \<open>Interleaving with the caller: the lock is free during the fetch, and an intent that was
  resolved by hand meanwhile is not reported by the second half of the poll and does not come
  back into the tracker.\<close>

theorem resolved_during_fetch_not_reported:
  assumes "rc_inv rc" "map_of (rc_pending rc) i \<noteq> None"
    and "poll_begin (Some ft) tck now rc = Fetch out due"
    and "poll_end fetched tck now out due (snd (resolve_order i rc)) = (results, rc')"
  shows "(\<forall>r \<in> set (drop (length out) results). rr_local_order_id r \<noteq> i)
    \<and> map_of (rc_pending rc') i = None"
proof (intro conjI)
  let ?rc = "snd (resolve_order i rc)"
  have gone: "map_of (rc_pending ?rc) i = None" using assms(2) by (simp add: resolve_order_def)
  show "\<forall>r \<in> set (drop (length out) results). rr_local_order_id r \<noteq> i"
    using assms(4) gone
    by (auto simp: poll_end_def Let_def dest!: settle_due_ids split: sum.splits prod.splits if_splits)
  show "map_of (rc_pending rc') i = None"
    using assms(4) gone
    by (auto simp: poll_end_def Let_def pending_fold_remove dest: settle_due_absent split: sum.splits prod.splits if_splits)
qed

section \<open>Concrete trackers\<close>

definition demo_intent :: "int \<Rightarrow> double \<Rightarrow> order_intent" where
  "demo_intent i p = \<lparr>oi_local_order_id = i, oi_ticker = ''btc-usdt'', oi_side = Buy, oi_type = Limit,
     oi_price = p, oi_size = 1\<rparr>"

definition demo_rest :: "int \<Rightarrow> double \<Rightarrow> rest_order" where
  "demo_rest i p = \<lparr>ro_id = i, ro_client_id = None, ro_ticker = ''BTCUSDT'', ro_side = Buy,
     ro_type = Limit, ro_price = p, ro_size = 1, ro_filled_size = 0, ro_filled_price = 0,
     ro_remaining_size = 1, ro_status = OrderOpen, ro_trigger_price = None, ro_create_date = 0\<rparr>"

definition demo_tracker :: reconciliator where
  "demo_tracker = snd (enter_submit_unknown (demo_intent 2 100) 0
     (snd (enter_submit_unknown (demo_intent 1 100) 0 (reconciliator_new recon_config_default))))"

lemma demo_tracker_inv: "rc_inv demo_tracker"
  unfolding demo_tracker_def by (intro enter_inv rc_inv_new)

lemmas tracker_eval =
  demo_tracker_def demo_intent_def demo_rest_def reconciliator_new_def recon_config_default_def
  enter_submit_unknown_def resolve_order_def remove_intent_def tracked_def oset_erase_def
  omap_erase_def poll_open_orders_def poll_begin_def poll_end_def is_due_def milliseconds_def
  find_server_order_def matches_intent_def pending_result_def resolved_result_def
  timeout_result_def back_off_def next_backoff_def ctrunc_def to_internal_ticker_def
  quote_assets_def has_quote_def is_separator_def toupper_byte_def is_lower_byte_def

text \<open>A fetch that fails, and one that finds the order with id 77.\<close>

definition failing_fetch :: fetcher where "failing_fetch _ = Inl ''timeout''"

definition finding_fetch :: fetcher where "finding_fetch _ = Inr [demo_rest 77 100]"

theorem reconciliator_invariant_witness:
  "rc_inv (snd (poll_open_orders (Some finding_fetch) ''BTC_USDT'' 0 demo_tracker))"
  using reconciliator_invariant [OF demo_tracker_inv] by blast

theorem poll_reports_each_once_witness:
  "\<exists>out rc'. poll_open_orders (Some failing_fetch) ''BTC_USDT'' 0 demo_tracker = (out, rc') \<and>
     set (map rr_local_order_id out) = {1, 2} \<and> map_of (rc_pending rc') 1 \<noteq> None"
proof -
  obtain out rc' where p: "poll_open_orders (Some failing_fetch) ''BTC_USDT'' 0 demo_tracker = (out, rc')"
    by (cases "poll_open_orders (Some failing_fetch) ''BTC_USDT'' 0 demo_tracker")
  have ids: "tracked demo_tracker (to_internal_ticker ''BTC_USDT'') = [1, 2]" by code_simp
  have "\<not> (\<exists>r \<in> set out. rr_local_order_id r = 1 \<and> rr_outcome r \<noteq> Pending)"
  proof -
    have "list_all (\<lambda>r. rr_outcome r = Pending)
        (fst (poll_open_orders (Some failing_fetch) ''BTC_USDT'' 0 demo_tracker))" by code_simp
    then show ?thesis by (auto simp: p list_all_iff)
  qed
  moreover have "map_of (rc_pending demo_tracker) 1 \<noteq> None" by code_simp
  moreover note poll_reports_each_once [OF demo_tracker_inv p]
  ultimately have "set (map rr_local_order_id out) = {1, 2}" "map_of (rc_pending rc') 1 \<noteq> None"
    using ids by auto
  with p show ?thesis by blast
qed

theorem poll_resolves_or_expires_witness:
  "map_of (rc_pending (snd (poll_open_orders (Some failing_fetch) ''BTC_USDT'' (milliseconds 30000) demo_tracker))) 1
     = None"
proof -
  obtain out rc' where p: "poll_open_orders (Some failing_fetch) ''BTC_USDT'' (milliseconds 30000) demo_tracker
      = (out, rc')" by (cases "poll_open_orders (Some failing_fetch) ''BTC_USDT'' (milliseconds 30000) demo_tracker")
  have ids: "tracked demo_tracker (to_internal_ticker ''BTC_USDT'') = [1, 2]" by code_simp
  have e: "map_option pi_started_at (map_of (rc_pending demo_tracker) 1) = Some 0"
    "rcfg_total_timeout (rc_cfg demo_tracker) = 30000" by code_simp+
  then obtain q where "map_of (rc_pending demo_tracker) 1 = Some q" "pi_started_at q = 0" by auto
  with poll_resolves_or_expires [OF demo_tracker_inv p] ids e p show ?thesis by auto
qed

theorem poll_schedule_bounded_witness:
  "\<exists>p'. map_of (rc_pending (snd (poll_open_orders (Some failing_fetch) ''BTC_USDT'' 0 demo_tracker))) 1 = Some p'
     \<and> pi_current_backoff p' \<le> 8000 \<and> pi_next_poll_at p' = milliseconds (pi_current_backoff p')"
proof -
  obtain out rc' where p: "poll_open_orders (Some failing_fetch) ''BTC_USDT'' 0 demo_tracker = (out, rc')"
    by (cases "poll_open_orders (Some failing_fetch) ''BTC_USDT'' 0 demo_tracker")
  have ids: "1 \<in> set (tracked demo_tracker (to_internal_ticker ''BTC_USDT''))"
    and m: "1 \<le> rcfg_backoff_multiplier (rc_cfg demo_tracker)"
    and c: "rcfg_max_backoff (rc_cfg demo_tracker) = 8000" by code_simp+
  have q: "map_option (\<lambda>q. (is_due (rc_cfg demo_tracker) 0 q, pi_current_backoff q))
      (map_of (rc_pending demo_tracker) 1) = Some (True, 500)" by code_simp
  then obtain q where q: "map_of (rc_pending demo_tracker) 1 = Some q" "is_due (rc_cfg demo_tracker) 0 q"
    "pi_current_backoff q = 500" by auto
  have "map_of (rc_pending (snd (poll_open_orders (Some failing_fetch) ''BTC_USDT'' 0 demo_tracker))) 1 \<noteq> None"
    by code_simp
  then obtain p' where p': "map_of (rc_pending rc') 1 = Some p'" by (auto simp: p)
  show ?thesis
    using poll_schedule_bounded [OF demo_tracker_inv p m ids q(1,2) _ _ p'] q(3) c p p' by simp
qed

theorem resolved_during_fetch_not_reported_witness:
  "\<exists>out due results rc'. poll_begin (Some finding_fetch) ''BTC_USDT'' 0 demo_tracker = Fetch out due \<and>
     due = [1, 2] \<and>
     poll_end (finding_fetch ''BTC_USDT'') ''BTC_USDT'' 0 out due (snd (resolve_order 1 demo_tracker))
       = (results, rc') \<and> map_of (rc_pending rc') 1 = None"
proof -
  have b: "poll_begin (Some finding_fetch) ''BTC_USDT'' 0 demo_tracker = Fetch [] [1, 2]" by code_simp
  obtain results rc' where e: "poll_end (finding_fetch ''BTC_USDT'') ''BTC_USDT'' 0 [] [1, 2]
      (snd (resolve_order 1 demo_tracker)) = (results, rc')"
    by (cases "poll_end (finding_fetch ''BTC_USDT'') ''BTC_USDT'' 0 [] [1, 2] (snd (resolve_order 1 demo_tracker))")
  have t: "map_of (rc_pending demo_tracker) 1 \<noteq> None" by code_simp
  from resolved_during_fetch_not_reported [OF demo_tracker_inv t b e] b e show ?thesis by auto
qed

text \<open>Matching does not consume the server order: two pending intents with the same
  parameters are both resolved to one and the same exchange order.\<close>

lemma one_server_order_resolves_two_intents:
  "map (\<lambda>r. (rr_local_order_id r, rr_outcome r, rr_server_order_id r))
     (fst (poll_open_orders (Some finding_fetch) ''BTC_USDT'' 0 demo_tracker))
   = [(1, Resolved, Some 77), (2, Resolved, Some 77)]
   \<and> pending_count (snd (poll_open_orders (Some finding_fetch) ''BTC_USDT'' 0 demo_tracker)) = 0"
  by code_simp

end
