(* ===== verification/Filters.thy ===== *)
theory Filters
  imports Domain
begin

text \<open>
  The static ticker filter, \<open>universe/UniverseFilters.{hpp,cpp}\<close>, with its iterative glob
  matcher, and the choice of the trading connection, \<open>universe/ConnectionSelector.cpp\<close>.
\<close>

section \<open>Glob matching\<close>

text \<open>
  \<open>UniverseFilters::glob_match\<close>: indices \<open>pi\<close> and \<open>si\<close> into the pattern and the string, the
  index of the last star seen (\<^const>\<open>None\<close> for \<open>npos\<close>) and the position in the string at
  which that star was last resumed. The loop backtracks to the star, so that its return is
  a claim of its own: \<^const>\<open>None\<close> would be a loop that never ends.
\<close>

partial_function (option) glob_loop ::
  "string \<Rightarrow> string \<Rightarrow> nat \<Rightarrow> nat \<Rightarrow> nat option \<Rightarrow> nat \<Rightarrow> bool option" where
  "glob_loop p s i j star ss =
     (if j < length s then
        if i < length p \<and> p ! i = CHR ''*'' then glob_loop p s (i + 1) j (Some i) j
        else if i < length p \<and> p ! i = s ! j then glob_loop p s (i + 1) (j + 1) star ss
        else (case star of
                Some sp \<Rightarrow> glob_loop p s (sp + 1) (ss + 1) (Some sp) (ss + 1)
              | None \<Rightarrow> Some False)
      else Some (dropWhile (\<lambda>c. c = CHR ''*'') (drop i p) = []))"

definition glob_match :: "string \<Rightarrow> string \<Rightarrow> bool option" where
  "glob_match p s = glob_loop p s 0 0 None 0"

text \<open>What a pattern means: a star stands for any substring, any other byte for itself.\<close>

fun glob_sem :: "string \<Rightarrow> string \<Rightarrow> bool" where
  "glob_sem [] s \<longleftrightarrow> s = []"
| "glob_sem (c # p) s \<longleftrightarrow>
     (if c = CHR ''*'' then \<exists>k \<le> length s. glob_sem p (drop k s)
      else s \<noteq> [] \<and> hd s = c \<and> glob_sem p (tl s))"

lemma glob_sem_literal:
  "CHR ''*'' \<notin> set q \<Longrightarrow> glob_sem (q @ r) t \<longleftrightarrow> (\<exists>u. t = q @ u \<and> glob_sem r u)"
proof (induction q arbitrary: t)
  case Nil
  then show ?case by simp
next
  case (Cons c q)
  then show ?case by (cases t) auto
qed

lemma glob_sem_empty: "glob_sem r [] \<longleftrightarrow> dropWhile (\<lambda>c. c = CHR ''*'') r = []"
  by (induction r) auto

lemma glob_sem_star_suffix:
  assumes "glob_sem (CHR ''*'' # r) (drop m s)" "n \<le> m" "m \<le> length s"
  shows "glob_sem (CHR ''*'' # r) (drop n s)"
proof -
  obtain k where k: "k \<le> length s - m" "glob_sem r (drop (m + k) s)"
    using assms(1) by (auto simp: add.commute)
  then have "m - n + k \<le> length (drop n s)" "drop (m - n + k) (drop n s) = drop (m + k) s"
    using assms(2,3) by auto
  then show ?thesis using k(2) by (metis glob_sem.simps(2))
qed

text \<open>
  The loop invariant. Between the last star at \<open>sp\<close> and \<open>i\<close> the pattern is a literal \<open>q\<close>
  that the string has from \<open>ss\<close> to \<open>j\<close>.
\<close>

definition glob_seg :: "string \<Rightarrow> string \<Rightarrow> nat \<Rightarrow> nat \<Rightarrow> nat \<Rightarrow> nat \<Rightarrow> string \<Rightarrow> bool" where
  "glob_seg p s i j sp ss q \<longleftrightarrow>
     sp < i \<and> i \<le> length p \<and> ss \<le> j \<and> j \<le> length s \<and> CHR ''*'' \<notin> set q \<and>
     drop (sp + 1) p = q @ drop i p \<and> drop ss s = q @ drop j s"

definition glob_from :: "string \<Rightarrow> string \<Rightarrow> nat \<Rightarrow> nat \<Rightarrow> bool" where
  "glob_from p s sp ss \<longleftrightarrow> (\<exists>k. ss \<le> k \<and> k \<le> length s \<and> glob_sem (drop (sp + 1) p) (drop k s))"

definition glob_inv :: "string \<Rightarrow> string \<Rightarrow> nat \<Rightarrow> nat \<Rightarrow> nat option \<Rightarrow> nat \<Rightarrow> bool" where
  "glob_inv p s i j star ss \<longleftrightarrow> i \<le> length p \<and> j \<le> length s \<and>
     (\<forall>sp. star = Some sp \<longrightarrow> (\<exists>q. glob_seg p s i j sp ss q))"

definition glob_goal :: "string \<Rightarrow> string \<Rightarrow> nat \<Rightarrow> nat \<Rightarrow> nat option \<Rightarrow> nat \<Rightarrow> bool" where
  "glob_goal p s i j star ss =
     (case star of None \<Rightarrow> glob_sem (drop i p) (drop j s) | Some sp \<Rightarrow> glob_from p s sp ss)"

lemma glob_seg_lengths:
  assumes "glob_seg p s i j sp ss q" shows "j = ss + length q"
proof -
  have "length (drop ss s) = length q + length (drop j s)"
    using assms by (metis glob_seg_def length_append)
  then show ?thesis using assms by (simp add: glob_seg_def) arith
qed

lemma glob_from_new_star:
  assumes seg: "glob_seg p s i j sp ss q" and i: "i < length p" "p ! i = CHR ''*''"
  shows "glob_from p s sp ss \<longleftrightarrow> glob_from p s i j"
proof -
  have star: "drop i p = CHR ''*'' # drop (i + 1) p"
    using i by (metis Cons_nth_drop_Suc Suc_eq_plus1)
  have j: "j = ss + length q" by (rule glob_seg_lengths [OF seg])
  have here: "glob_from p s i j \<longleftrightarrow> glob_sem (drop i p) (drop j s)"
  proof
    assume "glob_from p s i j"
    then obtain k where k: "j \<le> k" "k \<le> length s" "glob_sem (drop (i + 1) p) (drop k s)"
      by (auto simp: glob_from_def)
    then have "glob_sem (drop i p) (drop k s)" unfolding star by (metis drop0 glob_sem.simps(2) le0)
    then show "glob_sem (drop i p) (drop j s)"
      using glob_sem_star_suffix [of "drop (i + 1) p" k s j] k star by simp
  next
    assume "glob_sem (drop i p) (drop j s)"
    then obtain k where "k \<le> length s - j" "glob_sem (drop (i + 1) p) (drop (k + j) s)"
      unfolding star by auto
    then show "glob_from p s i j"
      unfolding glob_from_def using seg
      by (intro exI [of _ "k + j"]) (auto simp: glob_seg_def)
  qed
  have "glob_from p s sp ss \<longleftrightarrow> glob_sem (drop i p) (drop j s)"
  proof
    assume "glob_from p s sp ss"
    then obtain k where k: "ss \<le> k" "k \<le> length s" "glob_sem (q @ drop i p) (drop k s)"
      using seg by (auto simp: glob_from_def glob_seg_def)
    then obtain u where u: "drop k s = q @ u" "glob_sem (drop i p) u"
      using seg glob_sem_literal by (auto simp: glob_seg_def)
    then have "u = drop (k + length q) s"
      by (metis add.commute append_eq_conv_conj drop_drop)
    moreover have "k + length q \<le> length s"
      using u(1) k(2) by (metis add.commute le_diff_conv2 length_append length_drop le_add1)
    ultimately show "glob_sem (drop i p) (drop j s)"
      using glob_sem_star_suffix [of "drop (i + 1) p" "k + length q" s j] u k j star by simp
  next
    assume "glob_sem (drop i p) (drop j s)"
    then have "glob_sem (drop (sp + 1) p) (drop ss s)"
      using seg glob_sem_literal by (auto simp: glob_seg_def)
    then show "glob_from p s sp ss"
      unfolding glob_from_def using seg by (intro exI [of _ ss]) (auto simp: glob_seg_def)
  qed
  with here show ?thesis by simp
qed

lemma glob_from_mismatch:
  assumes seg: "glob_seg p s i j sp ss q" and j: "j < length s"
    and bad: "\<not> (i < length p \<and> p ! i = CHR ''*'')" "\<not> (i < length p \<and> p ! i = s ! j)"
  shows "glob_from p s sp ss \<longleftrightarrow> glob_from p s sp (ss + 1)"
proof -
  have "\<not> glob_sem (drop i p) (drop j s)"
  proof (cases "i < length p")
    case True
    then have "drop i p = p ! i # drop (i + 1) p" "drop j s = s ! j # drop (j + 1) s"
      using j by (metis Cons_nth_drop_Suc Suc_eq_plus1)+
    then show ?thesis using bad True by simp
  next
    case False
    then show ?thesis using j by simp
  qed
  then have "\<not> glob_sem (drop (sp + 1) p) (drop ss s)"
    using seg by (auto simp: glob_seg_def glob_sem_literal)
  then show ?thesis
    unfolding glob_from_def by (metis Suc_eq_plus1 not_less_eq_eq le_SucI le_antisym)
qed

lemma glob_from_end:
  assumes seg: "glob_seg p s i j sp ss q" and j: "j = length s"
  shows "glob_from p s sp ss \<longleftrightarrow> glob_sem (drop i p) []"
proof
  assume "glob_from p s sp ss"
  then obtain k where k: "ss \<le> k" "k \<le> length s" "glob_sem (q @ drop i p) (drop k s)"
    using seg by (auto simp: glob_from_def glob_seg_def)
  then obtain u where u: "drop k s = q @ u" "glob_sem (drop i p) u"
    using seg glob_sem_literal by (auto simp: glob_seg_def)
  have "length s - k = length q + length u" using u(1) by (metis length_append length_drop)
  then have "length u = 0" using glob_seg_lengths [OF seg] j k(1,2) by arith
  then have "u = []" by simp
  then show "glob_sem (drop i p) []" using u by simp
next
  assume "glob_sem (drop i p) []"
  then show "glob_from p s sp ss"
    unfolding glob_from_def using seg j glob_sem_literal [of q "drop i p" q]
    by (intro exI [of _ ss]) (auto simp: glob_seg_def)
qed

lemma glob_seg_match:
  assumes "glob_seg p s i j sp ss q" "i < length p" "j < length s" "p ! i = s ! j" "p ! i \<noteq> CHR ''*''"
  shows "glob_seg p s (i + 1) (j + 1) sp ss (q @ [p ! i])"
proof -
  have "drop i p = p ! i # drop (i + 1) p" "drop j s = s ! j # drop (j + 1) s"
    using assms by (metis Cons_nth_drop_Suc Suc_eq_plus1)+
  then show ?thesis using assms by (auto simp: glob_seg_def)
qed

lemma glob_seg_start:
  assumes "sp < length p" "ss \<le> length s" shows "glob_seg p s (sp + 1) ss sp ss []"
  using assms by (simp add: glob_seg_def)

lemma glob_loop_correct:
  "glob_inv p s i j star ss \<Longrightarrow> glob_loop p s i j star ss = Some (glob_goal p s i j star ss)"
proof (induction "(i, j, star, ss)" arbitrary: i j star ss
    rule: wf_induct_rule [OF wf_measures [of
      "[\<lambda>(i, j, star, ss). length p - (case star of None \<Rightarrow> 0 | Some sp \<Rightarrow> sp + 1),
        \<lambda>(i, j, star, ss). length s - ss,
        \<lambda>(i, j, star, ss). (length p - i) + (length s - j)]"]])
  case (1 i j star ss)
  show ?case
  proof (cases "j < length s")
    case False
    then have end_s: "j = length s" using "1.prems" by (simp add: glob_inv_def)
    have "glob_loop p s i j star ss = Some (glob_sem (drop i p) [])"
      using False by (subst glob_loop.simps) (simp add: glob_sem_empty)
    moreover have "glob_goal p s i j star ss = glob_sem (drop i p) []"
    proof (cases star)
      case None
      then show ?thesis using end_s by (simp add: glob_goal_def)
    next
      case (Some sp)
      then obtain q where "glob_seg p s i j sp ss q" using "1.prems" by (auto simp: glob_inv_def)
      then show ?thesis using Some glob_from_end end_s by (simp add: glob_goal_def)
    qed
    ultimately show ?thesis by simp
  next
    case j: True
    show ?thesis
    proof (cases "i < length p \<and> p ! i = CHR ''*''")
      case star: True
      have "glob_loop p s (i + 1) j (Some i) j = Some (glob_goal p s (i + 1) j (Some i) j)"
      proof (rule "1.hyps")
        show "glob_inv p s (i + 1) j (Some i) j"
          using star j glob_seg_start [of i p j s] by (auto simp: glob_inv_def)
      qed (use star "1.prems" in \<open>auto simp: glob_inv_def glob_seg_def split: option.splits\<close>)
      moreover have "glob_goal p s (i + 1) j (Some i) j = glob_goal p s i j star ss"
      proof (cases star)
        case None
        have "drop i p = CHR ''*'' # drop (i + 1) p" using star by (metis Cons_nth_drop_Suc Suc_eq_plus1)
        moreover have "(\<exists>k \<ge> j. k \<le> length s \<and> Q (drop k s)) \<longleftrightarrow> (\<exists>k \<le> length s - j. Q (drop (k + j) s))"
          for Q using j by (metis add.commute le_add2 le_add_diff_inverse le_diff_conv2 less_imp_le_nat nat_le_iff_add)
        ultimately show ?thesis using None by (simp add: glob_goal_def glob_from_def)
      next
        case (Some sp)
        then show ?thesis
          using "1.prems" star glob_from_new_star by (auto simp: glob_goal_def glob_inv_def)
      qed
      ultimately show ?thesis using j star by (subst glob_loop.simps) simp
    next
      case nostar: False
      show ?thesis
      proof (cases "i < length p \<and> p ! i = s ! j")
        case match: True
        have "glob_loop p s (i + 1) (j + 1) star ss = Some (glob_goal p s (i + 1) (j + 1) star ss)"
        proof (rule "1.hyps")
          show "glob_inv p s (i + 1) (j + 1) star ss"
            using "1.prems" match nostar j glob_seg_match by (fastforce simp: glob_inv_def)
        qed (use match j in auto)
        moreover have "glob_goal p s (i + 1) (j + 1) star ss = glob_goal p s i j star ss"
        proof -
          have "drop i p = p ! i # drop (i + 1) p" "drop j s = s ! j # drop (j + 1) s"
            using match j by (metis Cons_nth_drop_Suc Suc_eq_plus1)+
          then show ?thesis using match nostar by (auto simp: glob_goal_def split: option.splits)
        qed
        ultimately show ?thesis using j match nostar by (subst glob_loop.simps) simp
      next
        case mis: False
        show ?thesis
        proof (cases star)
          case None
          have "\<not> glob_sem (drop i p) (drop j s)"
          proof (cases "i < length p")
            case True
            then have "drop i p = p ! i # drop (i + 1) p" "drop j s = s ! j # drop (j + 1) s"
              using j by (metis Cons_nth_drop_Suc Suc_eq_plus1)+
            then show ?thesis using mis nostar True by simp
          qed (use j in simp)
          then show ?thesis
            using None j mis nostar by (subst glob_loop.simps) (auto simp: glob_goal_def)
        next
          case (Some sp)
          then obtain q where seg: "glob_seg p s i j sp ss q"
            using "1.prems" by (auto simp: glob_inv_def)
          then have b: "sp < length p" "ss < length s" using j by (auto simp: glob_seg_def)
          have "glob_loop p s (sp + 1) (ss + 1) (Some sp) (ss + 1) =
              Some (glob_goal p s (sp + 1) (ss + 1) (Some sp) (ss + 1))"
          proof (rule "1.hyps")
            show "glob_inv p s (sp + 1) (ss + 1) (Some sp) (ss + 1)"
              using b glob_seg_start [of sp p "ss + 1" s] by (auto simp: glob_inv_def)
          qed (use b Some in auto)
          moreover have "glob_from p s sp ss = glob_from p s sp (ss + 1)"
            using glob_from_mismatch [OF seg j] nostar mis by blast
          ultimately show ?thesis
            using Some j mis nostar by (subst glob_loop.simps) (auto simp: glob_goal_def)
        qed
      qed
    qed
  qed
qed

text \<open>C26. The iterative glob matcher always returns, and what it returns is whether the
  pattern, each of whose stars stands for any substring, matches the whole string.\<close>

theorem glob_match_correct: "glob_match p s = Some (glob_sem p s)"
  using glob_loop_correct [of p s 0 0 None 0]
  by (simp add: glob_match_def glob_inv_def glob_goal_def)

section \<open>The filter\<close>

record filters_config =
  fc_allow_patterns :: "string list"
  fc_deny_patterns :: "string list"
  fc_manual_allow :: "ticker list"
  fc_manual_deny :: "ticker list"

definition filters_config_default :: filters_config where
  "filters_config_default =
     \<lparr>fc_allow_patterns = [], fc_deny_patterns = [], fc_manual_allow = [], fc_manual_deny = []\<rparr>"

record universe_filters =
  uf_cfg :: filters_config
  uf_manual_allow :: "ticker list"
  uf_manual_deny :: "ticker list"

definition universe_filters_new :: "filters_config \<Rightarrow> universe_filters" where
  "universe_filters_new cfg =
     \<lparr>uf_cfg = cfg,
      uf_manual_allow = fold (\<lambda>t s. oset_insert (to_internal_ticker t) s) (fc_manual_allow cfg) [],
      uf_manual_deny = fold (\<lambda>t s. oset_insert (to_internal_ticker t) s) (fc_manual_deny cfg) []\<rparr>"

definition pattern_matches :: "string \<Rightarrow> string \<Rightarrow> string \<Rightarrow> bool" where
  "pattern_matches key wire pattern \<longleftrightarrow>
     glob_match pattern key = Some True \<or> glob_match pattern wire = Some True"

definition accepts :: "universe_filters \<Rightarrow> ticker \<Rightarrow> bool" where
  "accepts f t =
     (let key = to_internal_ticker t; wire = to_metascalp_symbol t in
      if key \<in> set (uf_manual_deny f) then False
      else if key \<in> set (uf_manual_allow f) then True
      else if list_ex (pattern_matches key wire) (fc_deny_patterns (uf_cfg f)) then False
      else if fc_allow_patterns (uf_cfg f) = [] then True
      else list_ex (pattern_matches key wire) (fc_allow_patterns (uf_cfg f)))"

lemma set_fold_oset_insert: "set (fold (\<lambda>t s. oset_insert (g t) s) ts s) = g ` set ts \<union> set s"
  by (induction ts arbitrary: s) auto

text \<open>The documented chain: manual deny, manual allow, deny patterns, allow patterns.\<close>

definition pattern_sem :: "ticker \<Rightarrow> string \<Rightarrow> bool" where
  "pattern_sem t p \<longleftrightarrow> glob_sem p (to_internal_ticker t) \<or> glob_sem p (to_metascalp_symbol t)"

definition filter_spec :: "filters_config \<Rightarrow> ticker \<Rightarrow> bool" where
  "filter_spec c t \<longleftrightarrow>
     to_internal_ticker t \<notin> to_internal_ticker ` set (fc_manual_deny c) \<and>
     (to_internal_ticker t \<in> to_internal_ticker ` set (fc_manual_allow c) \<or>
      (\<forall>p \<in> set (fc_deny_patterns c). \<not> pattern_sem t p) \<and>
      (fc_allow_patterns c = [] \<or> (\<exists>p \<in> set (fc_allow_patterns c). pattern_sem t p)))"

text \<open>The filter built from a configuration accepts exactly the tickers the documented chain
  accepts: a manual denial wins over everything, then a manual allowance, then a matching deny
  pattern, and an empty allow list allows the rest.\<close>

theorem accepts_correct: "accepts (universe_filters_new cfg) t = filter_spec cfg t"
  by (auto simp: accepts_def universe_filters_new_def set_fold_oset_insert filter_spec_def
      pattern_matches_def pattern_sem_def list_ex_iff glob_match_correct Let_def)

section \<open>The trading connection\<close>

definition eligible :: "connection_info \<Rightarrow> bool" where
  "eligible c \<longleftrightarrow> conn_state c = ''Connected'' \<and> \<not> conn_view_mode c"

definition select_connection :: "connection_info list \<Rightarrow> int option" where
  "select_connection conns = map_option conn_id (find eligible conns)"

lemma select_connection_Some:
  "select_connection conns = Some i \<Longrightarrow>
     \<exists>c \<in> set conns. conn_id c = i \<and> conn_state c = ''Connected'' \<and> \<not> conn_view_mode c"
  using find_SomeD [of eligible conns] by (auto simp: select_connection_def eligible_def)

lemma select_connection_None:
  "select_connection conns = None \<longleftrightarrow>
     (\<forall>c \<in> set conns. conn_state c = ''Connected'' \<longrightarrow> conn_view_mode c)"
  by (auto simp: select_connection_def eligible_def find_None_iff_all)

end
