(* ===== verification/Universe.thy ===== *)
theory Universe
  imports Filters
begin

text \<open>
  The ticker universe, \<open>universe/TickerUniverse.{hpp,cpp}\<close>: the pool of tickers, the affinity
  of each strategy to each ticker, boosts, and the thresholds scaled by volume. The
  statistics lookup, the affinity scores and the change handler are closures the application
  installs: the state holds the functions they compute, and an operation that calls the
  handler returns the list of its calls. Each operation holds the universe's lock over its
  state change, and is one step here.
\<close>

section \<open>State\<close>

record ticker_stats =
  ts_volume_24h_usd :: double
  ts_avg_spread_bps :: double
  ts_funding_rate_bps :: double
  ts_volatility_1min_bps :: double

record ticker_meta =
  tm_price_increment :: double
  tm_size_increment :: double
  tm_min_size :: double
  tm_max_size :: double

record universe_config =
  uc_filters :: filters_config
  uc_max_pool_size :: nat
  uc_min_volume_24h_usd :: double
  uc_max_avg_spread_bps :: double
  uc_boost_ttl :: duration
  uc_exchange_volume_multiplier :: double
  uc_dynamic_thresholds_enabled :: bool
  uc_reference_volume :: double
  uc_min_scale :: double
  uc_max_scale :: double
  uc_floor_ratio :: double
  uc_tier_thresholds_enabled :: bool
  uc_tier_volume_boundaries :: "double list"

definition universe_config_default :: universe_config where
  "universe_config_default =
     \<lparr>uc_filters = filters_config_default, uc_max_pool_size = 30,
      uc_min_volume_24h_usd = 1000000, uc_max_avg_spread_bps = 20, uc_boost_ttl = seconds 300,
      uc_exchange_volume_multiplier = 1, uc_dynamic_thresholds_enabled = True,
      uc_reference_volume = 500000000, uc_min_scale = 15 / 100, uc_max_scale = 5,
      uc_floor_ratio = 1 / 10, uc_tier_thresholds_enabled = False,
      uc_tier_volume_boundaries = [1000000000, 100000000, 0]\<rparr>"

type_synonym stats_lookup = "ticker \<Rightarrow> ticker_stats option"
type_synonym affinity_score = "ticker \<Rightarrow> bool"
type_synonym affinity_change = "ticker \<times> string \<times> bool"

record universe =
  tu_cfg :: universe_config
  tu_filters :: universe_filters
  tu_stats_lookup :: "stats_lookup option"
  tu_on_change :: bool
  tu_strategies :: "(string, affinity_score option) omap"
  tu_active :: "ticker list"
  tu_affinity :: "(ticker, (string, bool) omap) omap"
  tu_boosts :: "(ticker, time_point) omap"
  tu_active_since :: "(ticker, time_point) omap"
  tu_large_amounts :: "(ticker, double) omap"
  tu_meta_cache :: "(ticker, ticker_meta) omap"
  tu_screener_approved :: "ticker list"
  tu_all_candidates :: "ticker list"
  tu_scale_factors :: "(ticker, double) omap"

definition universe_new :: "universe_config \<Rightarrow> universe" where
  "universe_new cfg =
     \<lparr>tu_cfg = cfg, tu_filters = universe_filters_new (uc_filters cfg),
      tu_stats_lookup = None, tu_on_change = False, tu_strategies = [], tu_active = [],
      tu_affinity = [], tu_boosts = [], tu_active_since = [], tu_large_amounts = [],
      tu_meta_cache = [], tu_screener_approved = [], tu_all_candidates = [],
      tu_scale_factors = []\<rparr>"

definition update_config :: "universe_config \<Rightarrow> universe \<Rightarrow> universe" where
  "update_config cfg u =
     u\<lparr>tu_cfg := cfg, tu_filters := universe_filters_new (uc_filters cfg)\<rparr>"

definition set_stats_lookup :: "stats_lookup option \<Rightarrow> universe \<Rightarrow> universe" where
  "set_stats_lookup fn u = u\<lparr>tu_stats_lookup := fn\<rparr>"

definition set_affinity_change_handler :: "bool \<Rightarrow> universe \<Rightarrow> universe" where
  "set_affinity_change_handler present u = u\<lparr>tu_on_change := present\<rparr>"

definition register_strategy :: "string \<Rightarrow> affinity_score option \<Rightarrow> universe \<Rightarrow> universe" where
  "register_strategy name fn u = u\<lparr>tu_strategies := omap_put (<) name fn (tu_strategies u)\<rparr>"

definition lookup_stats :: "universe \<Rightarrow> ticker \<Rightarrow> ticker_stats option" where
  "lookup_stats u t = (case tu_stats_lookup u of None \<Rightarrow> None | Some f \<Rightarrow> f t)"

definition get_stats :: "universe \<Rightarrow> ticker \<Rightarrow> ticker_stats option" where
  "get_stats u t = lookup_stats u (to_internal_ticker t)"

section \<open>The pool\<close>

type_synonym stats_map = "ticker \<Rightarrow> ticker_stats option"

definition stats_of :: "universe \<Rightarrow> stats_map \<Rightarrow> ticker \<Rightarrow> ticker_stats option" where
  "stats_of u temp t = (case temp t of Some s \<Rightarrow> Some s | None \<Rightarrow> lookup_stats u t)"

text \<open>\<open>passes_filter_locked\<close>: \<^const>\<open>None\<close> when rejected, otherwise the volume to order by.\<close>

definition passes_filter :: "universe \<Rightarrow> stats_map \<Rightarrow> ticker \<Rightarrow> double option" where
  "passes_filter u temp t =
     (if \<not> accepts (tu_filters u) t then None
      else let s = stats_of u temp t;
               vol_threshold = uc_min_volume_24h_usd (tu_cfg u) * uc_exchange_volume_multiplier (tu_cfg u)
           in
        if t \<in> set (tu_screener_approved u)
        then Some (case s of Some st \<Rightarrow> ts_volume_24h_usd st | None \<Rightarrow> 0)
        else (case s of
                None \<Rightarrow> Some 0
              | Some st \<Rightarrow>
                  if ts_volume_24h_usd st < vol_threshold then None
                  else if uc_max_avg_spread_bps (tu_cfg u) < ts_avg_spread_bps st then None
                  else Some (ts_volume_24h_usd st)))"

definition raw_scale :: "universe_config \<Rightarrow> ticker_stats option \<Rightarrow> double" where
  "raw_scale c s =
     (case s of
        None \<Rightarrow> 1
      | Some st \<Rightarrow>
          if ts_volume_24h_usd st \<le> 0 then 1
          else clamp (csqrt (ts_volume_24h_usd st / uc_reference_volume c))
                     (uc_min_scale c) (uc_max_scale c))"

definition volume_scale_factor_locked :: "universe \<Rightarrow> stats_map \<Rightarrow> ticker \<Rightarrow> double" where
  "volume_scale_factor_locked u temp t =
     (if \<not> uc_dynamic_thresholds_enabled (tu_cfg u) then 1
      else if uc_reference_volume (tu_cfg u) \<le> 0 then 1
      else (case map_of (tu_scale_factors u) t of
              Some sf \<Rightarrow> sf
            | None \<Rightarrow> raw_scale (tu_cfg u) (stats_of u temp t)))"

definition cache_scale :: "stats_map \<Rightarrow> ticker \<Rightarrow> universe \<Rightarrow> universe" where
  "cache_scale temp t u =
     u\<lparr>tu_scale_factors := omap_put (<) t (volume_scale_factor_locked u temp t) (tu_scale_factors u)\<rparr>"

definition cache_scale_missing :: "stats_map \<Rightarrow> ticker \<Rightarrow> universe \<Rightarrow> universe" where
  "cache_scale_missing temp t u =
     (if map_of (tu_scale_factors u) t = None then cache_scale temp t u else u)"

definition refresh_scale_factors_locked :: "stats_map \<Rightarrow> universe \<Rightarrow> universe" where
  "refresh_scale_factors_locked temp u =
     (let u = u\<lparr>tu_scale_factors := []\<rparr> in
      if \<not> uc_dynamic_thresholds_enabled (tu_cfg u) then u
      else fold (cache_scale_missing temp) (tu_screener_approved u)
             (fold (cache_scale temp) (tu_active u) u))"

definition refresh_scale_factors :: "universe \<Rightarrow> universe" where
  "refresh_scale_factors u = refresh_scale_factors_locked Map.empty u"

text \<open>
  The survivors of the filter, by decreasing volume. The order of equal volumes is the input's
  here; \<open>std::sort\<close> leaves it open.
\<close>

definition survivors :: "universe \<Rightarrow> stats_map \<Rightarrow> ticker list \<Rightarrow> (ticker \<times> double) list" where
  "survivors u temp available =
     List.map_filter (\<lambda>t. let key = to_internal_ticker t in
       case passes_filter u temp key of None \<Rightarrow> None | Some vol \<Rightarrow> Some (key, vol)) available"

definition select_pool :: "universe \<Rightarrow> stats_map \<Rightarrow> ticker list \<Rightarrow> ticker list" where
  "select_pool u temp available =
     map fst (take (uc_max_pool_size (tu_cfg u))
       (sort_key (\<lambda>(_, vol). - vol) (survivors u temp available)))"

definition omap_emplace :: "('k \<Rightarrow> 'k \<Rightarrow> bool) \<Rightarrow> 'k \<Rightarrow> 'v \<Rightarrow> ('k, 'v) omap \<Rightarrow> ('k, 'v) omap" where
  "omap_emplace lt k v m = (if map_of m k = None then omap_put lt k v m else m)"

definition refresh_pool_locked :: "ticker list \<Rightarrow> time_point \<Rightarrow> stats_map \<Rightarrow> universe \<Rightarrow> universe" where
  "refresh_pool_locked available now temp u =
     (let pool = select_pool u temp available;
          u = u\<lparr>tu_active := pool\<rparr>;
          u = u\<lparr>tu_affinity := filter (\<lambda>(t, _). t \<in> set pool) (tu_affinity u)\<rparr>;
          u = u\<lparr>tu_active_since := fold (\<lambda>t. omap_emplace (<) t now) pool
                   (filter (\<lambda>(t, _). t \<in> set pool) (tu_active_since u))\<rparr>
      in refresh_scale_factors_locked temp u)"

definition add_stats :: "universe \<Rightarrow> ticker \<Rightarrow> stats_map \<Rightarrow> stats_map" where
  "add_stats u t temp = (case lookup_stats u t of Some s \<Rightarrow> temp(t \<mapsto> s) | None \<Rightarrow> temp)"

definition add_missing_stats :: "universe \<Rightarrow> ticker \<Rightarrow> stats_map \<Rightarrow> stats_map" where
  "add_missing_stats u t temp = (if temp t = None then add_stats u t temp else temp)"

definition prefetch_stats :: "universe \<Rightarrow> ticker list \<Rightarrow> stats_map" where
  "prefetch_stats u ts =
     fold (add_missing_stats u) (tu_screener_approved u) (fold (add_stats u) ts Map.empty)"

definition refresh_pool :: "ticker list \<Rightarrow> time_point \<Rightarrow> universe \<Rightarrow> universe" where
  "refresh_pool available now u =
     (let normalized = map to_internal_ticker available in
      refresh_pool_locked normalized now (prefetch_stats u normalized) u)"

section \<open>Affinity\<close>

fun strategy_changes ::
  "ticker \<Rightarrow> (string, affinity_score option) omap \<Rightarrow> (string, bool) omap
     \<Rightarrow> (string, bool) omap \<times> affinity_change list" where
  "strategy_changes t [] tm = (tm, [])"
| "strategy_changes t ((name, fn) # strategies) tm =
     (let enabled = (case fn of Some f \<Rightarrow> f t | None \<Rightarrow> False);
          it = map_of tm name;
          prev = (case it of Some b \<Rightarrow> b | None \<Rightarrow> False)
      in if it = None \<or> prev \<noteq> enabled then
           (case strategy_changes t strategies (omap_put (<) name enabled tm) of
              (tm', changes) \<Rightarrow>
                (tm', (if (if it = None then enabled else True)
                       then (t, name, enabled) # changes else changes)))
         else strategy_changes t strategies tm)"

definition affinity_row :: "(ticker, (string, bool) omap) omap \<Rightarrow> ticker \<Rightarrow> (string, bool) omap" where
  "affinity_row aff t = (case map_of aff t of Some tm \<Rightarrow> tm | None \<Rightarrow> [])"

fun collect_changes ::
  "(string, affinity_score option) omap \<Rightarrow> ticker list \<Rightarrow> (ticker, (string, bool) omap) omap
     \<Rightarrow> (ticker, (string, bool) omap) omap \<times> affinity_change list" where
  "collect_changes strategies [] aff = (aff, [])"
| "collect_changes strategies (t # ts) aff =
     (case strategy_changes t strategies (affinity_row aff t) of
        (tm, cs) \<Rightarrow>
          (case collect_changes strategies ts (omap_put (<) t tm aff) of
             (aff', cs') \<Rightarrow> (aff', cs @ cs')))"

definition collect_affinity_changes :: "universe \<Rightarrow> universe \<times> affinity_change list" where
  "collect_affinity_changes u =
     (case collect_changes (tu_strategies u) (tu_active u) (tu_affinity u) of
        (aff, changes) \<Rightarrow> (u\<lparr>tu_affinity := aff\<rparr>, changes))"

text \<open>The calls of the change handler, if one is installed.\<close>

definition fire_affinity_changes :: "universe \<Rightarrow> affinity_change list \<Rightarrow> affinity_change list" where
  "fire_affinity_changes u changes = (if tu_on_change u then changes else [])"

definition collect_and_fire :: "universe \<Rightarrow> universe \<times> affinity_change list" where
  "collect_and_fire u =
     (case collect_affinity_changes u of (u', changes) \<Rightarrow> (u', fire_affinity_changes u' changes))"

definition refresh_affinity :: "universe \<Rightarrow> universe \<times> affinity_change list" where
  "refresh_affinity u = collect_and_fire u"

definition override_affinity ::
  "ticker \<Rightarrow> string \<Rightarrow> bool \<Rightarrow> universe \<Rightarrow> universe \<times> affinity_change list" where
  "override_affinity t strategy enabled u =
     (let key = to_internal_ticker t;
          row = affinity_row (tu_affinity u) key;
          prev = (case map_of row strategy of Some b \<Rightarrow> b | None \<Rightarrow> False);
          u' = u\<lparr>tu_affinity := omap_put (<) key (omap_put (<) strategy enabled row) (tu_affinity u)\<rparr>
      in (u', if prev \<noteq> enabled \<and> tu_on_change u then [(key, strategy, enabled)] else []))"

definition pool_size :: "universe \<Rightarrow> nat" where "pool_size u = length (tu_active u)"

definition is_in_pool :: "universe \<Rightarrow> ticker \<Rightarrow> bool" where
  "is_in_pool u t \<longleftrightarrow> map_of (tu_affinity u) (to_internal_ticker t) \<noteq> None"

definition is_strategy_enabled :: "universe \<Rightarrow> ticker \<Rightarrow> string \<Rightarrow> bool" where
  "is_strategy_enabled u t strategy =
     (case map_of (tu_affinity u) (to_internal_ticker t) of
        None \<Rightarrow> False
      | Some row \<Rightarrow> (case map_of row strategy of Some b \<Rightarrow> b | None \<Rightarrow> False))"

definition enabled_strategies :: "universe \<Rightarrow> ticker \<Rightarrow> string list" where
  "enabled_strategies u t =
     (case map_of (tu_affinity u) (to_internal_ticker t) of
        None \<Rightarrow> []
      | Some row \<Rightarrow> map fst (filter snd row))"

definition is_affinity_stable :: "universe \<Rightarrow> ticker \<Rightarrow> duration \<Rightarrow> time_point \<Rightarrow> bool" where
  "is_affinity_stable u t min_stable now =
     (case map_of (tu_active_since u) (to_internal_ticker t) of
        None \<Rightarrow> False
      | Some since \<Rightarrow> min_stable \<le> now - since)"

section \<open>Boosts\<close>

definition on_big_event_locked :: "ticker \<Rightarrow> time_point \<Rightarrow> universe \<Rightarrow> universe" where
  "on_big_event_locked t now u =
     u\<lparr>tu_boosts := omap_put (<) t now
        (filter (\<lambda>(_, since). \<not> uc_boost_ttl (tu_cfg u) < now - since) (tu_boosts u))\<rparr>"

definition on_big_event :: "ticker \<Rightarrow> time_point \<Rightarrow> universe \<Rightarrow> universe \<times> affinity_change list" where
  "on_big_event t now u = collect_and_fire (on_big_event_locked (to_internal_ticker t) now u)"

definition on_big_tick :: "ticker \<Rightarrow> double \<Rightarrow> time_point \<Rightarrow> universe \<Rightarrow> universe \<times> affinity_change list" where
  "on_big_tick t size_usd now u = collect_and_fire (on_big_event_locked (to_internal_ticker t) now u)"

definition on_big_amount :: "ticker \<Rightarrow> double \<Rightarrow> time_point \<Rightarrow> universe \<Rightarrow> universe \<times> affinity_change list" where
  "on_big_amount t size_usd now u = collect_and_fire (on_big_event_locked (to_internal_ticker t) now u)"

definition is_boosted :: "universe \<Rightarrow> ticker \<Rightarrow> time_point \<Rightarrow> bool" where
  "is_boosted u t now =
     (case map_of (tu_boosts u) (to_internal_ticker t) of
        None \<Rightarrow> False
      | Some since \<Rightarrow> now - since \<le> uc_boost_ttl (tu_cfg u))"

section \<open>The screener\<close>

definition seed_candidates :: "ticker list \<Rightarrow> universe \<Rightarrow> universe" where
  "seed_candidates cs u = u\<lparr>tu_all_candidates := map to_internal_ticker cs\<rparr>"

definition screener_candidates :: "universe \<Rightarrow> ticker \<Rightarrow> ticker list" where
  "screener_candidates u key =
     (let known = filter (\<lambda>t. t \<in> set (tu_screener_approved u) \<or> t = key) (tu_all_candidates u)
      in known @ filter (\<lambda>t. t \<notin> set known) (tu_screener_approved u)
           @ (if key \<in> set known then [] else [key]))"

definition on_screener_new_coin ::
  "ticker \<Rightarrow> time_point \<Rightarrow> universe \<Rightarrow> universe \<times> affinity_change list" where
  "on_screener_new_coin t now u =
     (let key = to_internal_ticker t in
      if \<not> accepts (tu_filters u) key then (u, [])
      else if key \<in> set (tu_screener_approved u) then (u, [])
      else let cands = screener_candidates u key;
               temp = prefetch_stats u cands;
               u' = u\<lparr>tu_screener_approved := oset_insert key (tu_screener_approved u)\<rparr>
           in collect_and_fire (refresh_pool_locked cands now temp u'))"

section \<open>Settings, precision and thresholds\<close>

definition update_orderbook_settings :: "orderbook_settings \<Rightarrow> universe \<Rightarrow> universe" where
  "update_orderbook_settings s u =
     u\<lparr>tu_large_amounts :=
         omap_put (<) (to_internal_ticker (obs_ticker s)) (obs_large_amount_usd s) (tu_large_amounts u)\<rparr>"

definition cache_meta :: "ticker \<Rightarrow> ticker_meta \<Rightarrow> universe \<Rightarrow> universe" where
  "cache_meta t m u = u\<lparr>tu_meta_cache := omap_put (<) (to_internal_ticker t) m (tu_meta_cache u)\<rparr>"

definition meta :: "universe \<Rightarrow> ticker \<Rightarrow> ticker_meta option" where
  "meta u t = map_of (tu_meta_cache u) (to_internal_ticker t)"

definition volume_scale_factor :: "universe \<Rightarrow> ticker \<Rightarrow> double" where
  "volume_scale_factor u t = volume_scale_factor_locked u Map.empty (to_internal_ticker t)"

definition calibrated_min_size_usd_locked :: "universe \<Rightarrow> ticker \<Rightarrow> double \<Rightarrow> double" where
  "calibrated_min_size_usd_locked u t config_default =
     (let scale = volume_scale_factor_locked u Map.empty t;
          calibrated = config_default * scale * uc_exchange_volume_multiplier (tu_cfg u)
      in max calibrated (config_default * uc_floor_ratio (tu_cfg u)))"

definition calibrated_min_size_usd :: "universe \<Rightarrow> ticker \<Rightarrow> double \<Rightarrow> double" where
  "calibrated_min_size_usd u t config_default =
     calibrated_min_size_usd_locked u (to_internal_ticker t) config_default"

definition density_min_size_usd :: "universe \<Rightarrow> ticker \<Rightarrow> double \<Rightarrow> double" where
  "density_min_size_usd u t config_default =
     (let key = to_internal_ticker t;
          base = calibrated_min_size_usd_locked u key config_default
      in case map_of (tu_large_amounts u) key of
           Some amount \<Rightarrow> max base (amount * uc_exchange_volume_multiplier (tu_cfg u))
         | None \<Rightarrow> base)"

text \<open>The first boundary the volume reaches, or their number.\<close>

fun tier_index :: "double \<Rightarrow> double list \<Rightarrow> nat" where
  "tier_index vol [] = 0"
| "tier_index vol (b # bs) = (if b \<le> vol then 0 else Suc (tier_index vol bs))"

definition get_tier_locked :: "universe \<Rightarrow> ticker \<Rightarrow> nat" where
  "get_tier_locked u t =
     (if \<not> uc_tier_thresholds_enabled (tu_cfg u) then 0
      else if uc_tier_volume_boundaries (tu_cfg u) = [] then 0
      else (case lookup_stats u t of
              None \<Rightarrow> 0
            | Some s \<Rightarrow> if ts_volume_24h_usd s \<le> 0 then 0
                        else tier_index (ts_volume_24h_usd s) (uc_tier_volume_boundaries (tu_cfg u))))"

definition get_tier :: "universe \<Rightarrow> ticker \<Rightarrow> nat" where
  "get_tier u t = get_tier_locked u (to_internal_ticker t)"

definition get_tiered_threshold :: "universe \<Rightarrow> ticker \<Rightarrow> double list \<Rightarrow> double" where
  "get_tiered_threshold u t tier_values =
     (if \<not> uc_tier_thresholds_enabled (tu_cfg u) \<or> tier_values = []
      then (if tier_values = [] then 0 else tier_values ! 0)
      else tier_values ! (min (get_tier_locked u (to_internal_ticker t)) (length tier_values - 1)))"

end
