(* ===== verification/UniverseSpec.thy ===== *)
theory UniverseSpec
  imports Universe
begin

text \<open>
  What the ticker universe promises: the pool is the top of the filtered tickers, the affinity
  events are exactly the transitions, an affinity counts as stable only when the ticker was in
  the pool all the time, and the derived thresholds stay in their bounds.
\<close>

section \<open>Statistics\<close>

lemma stats_of_empty [simp]: "stats_of u Map.empty t = lookup_stats u t"
  by (simp add: stats_of_def)

text \<open>A prefetched map answers only what the lookup answers.\<close>

definition stats_sound :: "universe \<Rightarrow> stats_map \<Rightarrow> bool" where
  "stats_sound u temp \<longleftrightarrow> (\<forall>t s. temp t = Some s \<longrightarrow> lookup_stats u t = Some s)"

lemma stats_sound_add: "stats_sound u temp \<Longrightarrow> stats_sound u (add_stats u t temp)"
  by (auto simp: stats_sound_def add_stats_def split: option.splits)

lemma stats_sound_fold_add:
  "stats_sound u temp \<Longrightarrow> stats_sound u (fold (add_stats u) ts temp)"
  by (induction ts arbitrary: temp) (simp_all add: stats_sound_add)

lemma stats_sound_fold_missing:
  "stats_sound u temp \<Longrightarrow> stats_sound u (fold (add_missing_stats u) ts temp)"
  by (induction ts arbitrary: temp) (simp_all add: stats_sound_add add_missing_stats_def)

lemma stats_sound_prefetch: "stats_sound u (prefetch_stats u ts)"
  unfolding prefetch_stats_def
  by (intro stats_sound_fold_missing stats_sound_fold_add) (simp add: stats_sound_def)

lemma stats_of_prefetch: "stats_sound u temp \<Longrightarrow> stats_of u temp t = lookup_stats u t"
  by (auto simp: stats_sound_def stats_of_def split: option.splits)

lemma passes_filter_prefetch:
  "stats_sound u temp \<Longrightarrow> passes_filter u temp t = passes_filter u Map.empty t"
  by (simp add: passes_filter_def stats_of_prefetch)

section \<open>The pool\<close>

lemma set_survivors:
  "set (survivors u temp av) =
     {(k, v). \<exists>t \<in> set av. k = to_internal_ticker t \<and> passes_filter u temp k = Some v}"
  by (induction av)
    (auto simp: survivors_def List.map_filter_simps Let_def split: option.splits)

lemma scale_frame:
  assumes "\<And>w s. f (w\<lparr>tu_scale_factors := s\<rparr>) = f w"
  shows "f (refresh_scale_factors_locked temp u) = f u"
proof -
  have "f (fold (cache_scale temp) ts w) = f w" for ts w
    by (induction ts arbitrary: w) (simp_all add: cache_scale_def assms)
  moreover have "f (fold (cache_scale_missing temp) ts w) = f w" for ts w
    by (induction ts arbitrary: w) (simp_all add: cache_scale_missing_def cache_scale_def assms)
  ultimately show ?thesis by (simp add: refresh_scale_factors_locked_def Let_def assms)
qed

lemma refresh_scale_factors_locked_frame [simp]:
  "tu_active (refresh_scale_factors_locked temp u) = tu_active u"
  "tu_active_since (refresh_scale_factors_locked temp u) = tu_active_since u"
  "tu_affinity (refresh_scale_factors_locked temp u) = tu_affinity u"
  "tu_filters (refresh_scale_factors_locked temp u) = tu_filters u"
  "tu_cfg (refresh_scale_factors_locked temp u) = tu_cfg u"
  "tu_stats_lookup (refresh_scale_factors_locked temp u) = tu_stats_lookup u"
  "tu_screener_approved (refresh_scale_factors_locked temp u) = tu_screener_approved u"
  "tu_strategies (refresh_scale_factors_locked temp u) = tu_strategies u"
  "tu_boosts (refresh_scale_factors_locked temp u) = tu_boosts u"
  "tu_large_amounts (refresh_scale_factors_locked temp u) = tu_large_amounts u"
  "tu_meta_cache (refresh_scale_factors_locked temp u) = tu_meta_cache u"
  "tu_on_change (refresh_scale_factors_locked temp u) = tu_on_change u"
  by (rule scale_frame, simp)+

lemma refresh_pool_locked_sel [simp]:
  "tu_active (refresh_pool_locked av now temp u) = select_pool u temp av"
  "tu_affinity (refresh_pool_locked av now temp u) =
     filter (\<lambda>(t, _). t \<in> set (select_pool u temp av)) (tu_affinity u)"
  "tu_active_since (refresh_pool_locked av now temp u) =
     fold (\<lambda>t. omap_emplace (<) t now) (select_pool u temp av)
       (filter (\<lambda>(t, _). t \<in> set (select_pool u temp av)) (tu_active_since u))"
  "tu_filters (refresh_pool_locked av now temp u) = tu_filters u"
  "tu_cfg (refresh_pool_locked av now temp u) = tu_cfg u"
  "tu_stats_lookup (refresh_pool_locked av now temp u) = tu_stats_lookup u"
  "tu_screener_approved (refresh_pool_locked av now temp u) = tu_screener_approved u"
  "tu_strategies (refresh_pool_locked av now temp u) = tu_strategies u"
  "tu_boosts (refresh_pool_locked av now temp u) = tu_boosts u"
  "tu_large_amounts (refresh_pool_locked av now temp u) = tu_large_amounts u"
  "tu_meta_cache (refresh_pool_locked av now temp u) = tu_meta_cache u"
  "tu_on_change (refresh_pool_locked av now temp u) = tu_on_change u"
  by (simp_all add: refresh_pool_locked_def Let_def)

lemma sorted_take_drop:
  assumes "sorted (map f xs)" "x \<in> set (take n xs)" "y \<in> set (drop n xs)"
  shows "f x \<le> f y"
proof -
  have "sorted (map f (take n xs) @ map f (drop n xs))" by (metis append_take_drop_id assms(1) map_append)
  then show ?thesis using assms(2,3) by (auto simp: sorted_append)
qed

text \<open>The entries kept: at most the configured number, each a survivor, none beaten.\<close>

definition pool_entries :: "universe \<Rightarrow> stats_map \<Rightarrow> ticker list \<Rightarrow> (ticker \<times> double) list" where
  "pool_entries u temp av =
     take (uc_max_pool_size (tu_cfg u)) (sort_key (\<lambda>(_, vol). - vol) (survivors u temp av))"

lemma select_pool_entries: "select_pool u temp av = map fst (pool_entries u temp av)"
  by (simp add: select_pool_def pool_entries_def)

lemma select_pool_length: "length (select_pool u temp av) \<le> uc_max_pool_size (tu_cfg u)"
  by (simp add: select_pool_def)

lemma pool_entries_survive: "set (pool_entries u temp av) \<subseteq> set (survivors u temp av)"
  by (metis pool_entries_def set_sort set_take_subset)

lemma select_pool_mem:
  assumes "t \<in> set (select_pool u temp av)"
  obtains v a where "passes_filter u temp t = Some v" "a \<in> set av" "t = to_internal_ticker a"
  using assms pool_entries_survive [of u temp av] by (force simp: select_pool_entries set_survivors)

lemma pool_entries_best:
  assumes "(t, v) \<in> set (pool_entries u temp av)" "(s, w) \<in> set (survivors u temp av)"
    and "s \<notin> set (select_pool u temp av)"
  shows "w \<le> v"
proof -
  let ?xs = "sort_key (\<lambda>(_, vol). - vol) (survivors u temp av)"
  let ?n = "uc_max_pool_size (tu_cfg u)"
  have "(s, w) \<in> set ?xs" using assms(2) by simp
  moreover have "(s, w) \<notin> set (take ?n ?xs)"
    using assms(3) by (force simp: select_pool_entries pool_entries_def)
  ultimately have "(s, w) \<in> set (drop ?n ?xs)"
    by (metis Un_iff append_take_drop_id set_append)
  moreover have "sorted (map (\<lambda>(_, vol). - vol) ?xs)" by (rule sorted_sort_key)
  ultimately show ?thesis
    using sorted_take_drop [of "\<lambda>(_, vol). - vol" ?xs "(t, v)" ?n "(s, w)"] assms(1)
    by (simp add: pool_entries_def)
qed

lemma pool_sorted:
  "sorted (map (\<lambda>(_, vol). - vol) (pool_entries u temp av))"
  unfolding pool_entries_def by (metis sorted_sort_key sorted_wrt_take take_map)

lemma select_pool_all:
  assumes "length av \<le> uc_max_pool_size (tu_cfg u)"
  shows "set (select_pool u temp av) = fst ` set (survivors u temp av)"
proof -
  have "length (survivors u temp av) \<le> length av"
    by (induction av) (auto simp: survivors_def List.map_filter_simps Let_def split: option.splits)
  then show ?thesis using assms by (simp add: select_pool_def)
qed

definition volume_rank :: "universe \<Rightarrow> ticker \<Rightarrow> double option" where
  "volume_rank u t = passes_filter u Map.empty t"

text \<open>C27. After a pool refresh the pool is the top of the tickers that pass the filters: it has at
  most the configured number of tickers, each of them available and passing, in order of
  decreasing volume, and no available ticker that passes and is left out has a larger volume
  than one that is in; if the available tickers fit, every one that passes is in.\<close>

theorem refresh_pool_top:
  assumes "u' = refresh_pool av now u"
  shows "length (tu_active u') \<le> uc_max_pool_size (tu_cfg u)
    \<and> (\<forall>t \<in> set (tu_active u'). t \<in> to_internal_ticker ` set av \<and> volume_rank u t \<noteq> None)
    \<and> sorted (map (\<lambda>t. - the (volume_rank u t)) (tu_active u'))
    \<and> (\<forall>t \<in> set (tu_active u'). \<forall>a \<in> set av. \<forall>w.
         to_internal_ticker a \<notin> set (tu_active u') \<longrightarrow>
         volume_rank u (to_internal_ticker a) = Some w \<longrightarrow> w \<le> the (volume_rank u t))
    \<and> (length av \<le> uc_max_pool_size (tu_cfg u) \<longrightarrow>
         (\<forall>a \<in> set av. volume_rank u (to_internal_ticker a) \<noteq> None \<longrightarrow>
            to_internal_ticker a \<in> set (tu_active u')))"
proof -
  let ?av = "map to_internal_ticker av"
  let ?temp = "prefetch_stats u ?av"
  have pf: "passes_filter u ?temp t = volume_rank u t" for t
    by (simp add: volume_rank_def passes_filter_prefetch [OF stats_sound_prefetch])
  have act: "tu_active u' = select_pool u ?temp ?av"
    by (simp add: assms refresh_pool_def Let_def)
  have entry: "volume_rank u t = Some v \<and> t \<in> to_internal_ticker ` set av"
    if "(t, v) \<in> set (pool_entries u ?temp ?av)" for t v
    using subsetD [OF pool_entries_survive that] by (auto simp: set_survivors pf)
  have surv: "(to_internal_ticker a, w) \<in> set (survivors u ?temp ?av)"
    if "a \<in> set av" "volume_rank u (to_internal_ticker a) = Some w" for a w
    using that by (auto simp: set_survivors pf)
  have A: "t \<in> to_internal_ticker ` set av \<and> volume_rank u t \<noteq> None" if "t \<in> set (tu_active u')" for t
    using that entry by (fastforce simp: act select_pool_entries)
  have "map (\<lambda>t. - the (volume_rank u t)) (tu_active u') =
      map (\<lambda>(_, vol). - vol) (pool_entries u ?temp ?av)"
    using entry by (fastforce simp: act select_pool_entries)
  then have B: "sorted (map (\<lambda>t. - the (volume_rank u t)) (tu_active u'))"
    by (simp add: pool_sorted)
  have C: "w \<le> the (volume_rank u t)"
    if h: "t \<in> set (tu_active u')" "a \<in> set av" "to_internal_ticker a \<notin> set (tu_active u')"
      "volume_rank u (to_internal_ticker a) = Some w" for t a w
  proof -
    obtain v where v: "(t, v) \<in> set (pool_entries u ?temp ?av)"
      using h(1) by (auto simp: act select_pool_entries)
    have "w \<le> v"
      by (rule pool_entries_best [OF v surv [OF h(2,4)]]) (use h(3) in \<open>simp add: act\<close>)
    then show ?thesis using entry [OF v] by simp
  qed
  have D: "to_internal_ticker a \<in> set (tu_active u')"
    if "length av \<le> uc_max_pool_size (tu_cfg u)" "a \<in> set av" "volume_rank u (to_internal_ticker a) \<noteq> None" for a
    using select_pool_all [of ?av u ?temp] surv [OF that(2)] that by (force simp: act)
  show ?thesis using A B C D select_pool_length [of u ?temp ?av] by (simp add: act)
qed

section \<open>Affinity events\<close>

definition switched_on :: "(string, bool) omap \<Rightarrow> string \<Rightarrow> bool" where
  "switched_on row n \<longleftrightarrow> map_of row n = Some True"

definition fn_value :: "ticker \<Rightarrow> affinity_score option \<Rightarrow> bool" where
  "fn_value t fn = (case fn of Some f \<Rightarrow> f t | None \<Rightarrow> False)"

definition score :: "(string, affinity_score option) omap \<Rightarrow> ticker \<Rightarrow> string \<Rightarrow> bool option" where
  "score strategies t n =
     map_option (fn_value t) (map_of strategies n)"

lemma strategy_changes_Cons:
  assumes "strategy_changes t strategies
      (if map_of row name = Some (fn_value t fn) then row else omap_put (<) name (fn_value t fn) row)
    = (row', cs)"
  shows "strategy_changes t ((name, fn) # strategies) row =
    (row', if switched_on row name \<noteq> fn_value t fn then (t, name, fn_value t fn) # cs else cs)"
  using assms
  by (cases "map_of row name")
    (auto simp: Let_def switched_on_def fn_value_def [symmetric] split: if_splits)

lemma strategy_changes_row:
  assumes "strategy_changes t strategies row = (row', cs)" "distinct (map fst strategies)"
  shows "map_of row' n = (case score strategies t n of Some b \<Rightarrow> Some b | None \<Rightarrow> map_of row n)"
  using assms
proof (induction strategies arbitrary: row row' cs)
  case Nil
  then show ?case by (simp add: score_def)
next
  case (Cons e strategies)
  obtain name fn where e: "e = (name, fn)" by fastforce
  define row1 where
    "row1 = (if map_of row name = Some (fn_value t fn) then row else omap_put (<) name (fn_value t fn) row)"
  obtain row2 cs2 where rec: "strategy_changes t strategies row1 = (row2, cs2)" by fastforce
  have "row' = row2" using Cons.prems(1) strategy_changes_Cons [OF rec [unfolded row1_def]] by (simp add: e)
  moreover have "map_of row2 n = (case score strategies t n of Some b \<Rightarrow> Some b | None \<Rightarrow> map_of row1 n)"
    using Cons.IH [OF rec] Cons.prems(2) by simp
  moreover have "map_of row1 n = (if n = name then Some (fn_value t fn) else map_of row n)"
    by (simp add: row1_def)
  moreover have "map_of strategies name = None" using Cons.prems(2) by (auto simp: e map_of_eq_None_iff)
  ultimately show ?case by (cases "n = name") (simp_all add: e score_def split: option.splits)
qed

lemma strategy_changes_events:
  assumes "strategy_changes t strategies row = (row', cs)" "distinct (map fst strategies)"
  shows "distinct cs \<and> (\<forall>s n e. (s, n, e) \<in> set cs \<longleftrightarrow>
           s = t \<and> switched_on row n \<noteq> switched_on row' n \<and> e = switched_on row' n)"
  using assms
proof (induction strategies arbitrary: row row' cs)
  case Nil
  then show ?case by simp
next
  case (Cons x strategies)
  obtain name fn where x: "x = (name, fn)" by fastforce
  define row1 where
    "row1 = (if map_of row name = Some (fn_value t fn) then row else omap_put (<) name (fn_value t fn) row)"
  obtain row2 cs2 where rec: "strategy_changes t strategies row1 = (row2, cs2)" by fastforce
  have d: "distinct (map fst strategies)" "map_of strategies name = None"
    using Cons.prems(2) by (auto simp: x map_of_eq_None_iff)
  have "map_of row2 name = Some (fn_value t fn)"
    using strategy_changes_row [OF rec d(1), of name] d(2) by (simp add: score_def row1_def)
  then have sw: "switched_on row2 name = fn_value t fn"
      "switched_on row1 n = (if n = name then fn_value t fn else switched_on row n)" for n
    by (simp_all add: switched_on_def row1_def)
  have eqs: "row' = row2"
      "cs = (if switched_on row name \<noteq> fn_value t fn then (t, name, fn_value t fn) # cs2 else cs2)"
    using Cons.prems(1) strategy_changes_Cons [OF rec [unfolded row1_def]] by (simp_all add: x)
  show ?case unfolding eqs using Cons.IH [OF rec d(1)] sw by auto
qed

definition aff_on :: "(ticker, (string, bool) omap) omap \<Rightarrow> ticker \<Rightarrow> string \<Rightarrow> bool" where
  "aff_on aff t n \<longleftrightarrow> switched_on (affinity_row aff t) n"

lemma affinity_row_put [simp]:
  "affinity_row (omap_put lt t row aff) s = (if s = t then row else affinity_row aff s)"
  by (simp add: affinity_row_def)

lemma collect_changes_on:
  assumes "collect_changes strategies ts aff = (aff', cs)" "distinct (map fst strategies)"
  shows "aff_on aff' t n =
    (if t \<in> set ts then (case score strategies t n of Some b \<Rightarrow> b | None \<Rightarrow> aff_on aff t n)
     else aff_on aff t n)"
  using assms
proof (induction strategies ts aff arbitrary: aff' cs rule: collect_changes.induct)
  case (1 strategies aff)
  then show ?case by simp
next
  case (2 strategies t' ts aff)
  obtain row cs1 where 1: "strategy_changes t' strategies (affinity_row aff t') = (row, cs1)" by fastforce
  obtain aff2 cs2 where 2: "collect_changes strategies ts (omap_put (<) t' row aff) = (aff2, cs2)" by fastforce
  have "aff_on aff2 t n = (if t \<in> set ts then (case score strategies t n of Some b \<Rightarrow> b
      | None \<Rightarrow> aff_on (omap_put (<) t' row aff) t n) else aff_on (omap_put (<) t' row aff) t n)"
    using "2.IH" [OF 1 [symmetric]] 2 "2.prems"(2) by blast
  moreover have "aff_on (omap_put (<) t' row aff) t' n =
      (case score strategies t' n of Some b \<Rightarrow> b | None \<Rightarrow> aff_on aff t' n)"
    using strategy_changes_row [OF 1 "2.prems"(2), of n]
    by (simp add: aff_on_def switched_on_def split: option.splits)
  moreover have "t \<noteq> t' \<Longrightarrow> aff_on (omap_put (<) t' row aff) t n = aff_on aff t n"
    by (simp add: aff_on_def)
  ultimately show ?case
    using "2.prems"(1) 1 2 by (cases "t = t'") (auto split: option.splits)
qed

lemma collect_changes_events:
  assumes "collect_changes strategies ts aff = (aff', cs)" "distinct (map fst strategies)"
  shows "distinct cs \<and> (\<forall>t n e. (t, n, e) \<in> set cs \<longleftrightarrow>
           aff_on aff t n \<noteq> aff_on aff' t n \<and> e = aff_on aff' t n)"
  using assms
proof (induction strategies ts aff arbitrary: aff' cs rule: collect_changes.induct)
  case (1 strategies aff)
  then show ?case by simp
next
  case (2 strategies t' ts aff)
  obtain row cs1 where 1: "strategy_changes t' strategies (affinity_row aff t') = (row, cs1)" by fastforce
  let ?aff1 = "omap_put (<) t' row aff"
  obtain aff2 cs2 where 2: "collect_changes strategies ts ?aff1 = (aff2, cs2)" by fastforce
  have eqs: "aff' = aff2" "cs = cs1 @ cs2" using "2.prems"(1) 1 2 by auto
  have IH: "distinct cs2 \<and> (\<forall>t n e. (t, n, e) \<in> set cs2 \<longleftrightarrow>
       aff_on ?aff1 t n \<noteq> aff_on aff2 t n \<and> e = aff_on aff2 t n)"
    using "2.IH" [OF 1 [symmetric]] 2 "2.prems"(2) by blast
  have ev: "distinct cs1 \<and> (\<forall>s n e. (s, n, e) \<in> set cs1 \<longleftrightarrow>
       s = t' \<and> aff_on aff t' n \<noteq> aff_on ?aff1 t' n \<and> e = aff_on ?aff1 t' n)"
    using strategy_changes_events [OF 1 "2.prems"(2)] by (simp add: aff_on_def)
  have settled: "aff_on aff2 t' n = aff_on ?aff1 t' n" for n
    using collect_changes_on [OF 2 "2.prems"(2), of t' n] strategy_changes_row [OF 1 "2.prems"(2), of n]
    by (auto simp: aff_on_def switched_on_def split: option.splits)
  have other: "t \<noteq> t' \<Longrightarrow> aff_on ?aff1 t n = aff_on aff t n" for t n
    by (simp add: aff_on_def)
  have "(t, n, e) \<in> set cs1 \<union> set cs2 \<longleftrightarrow> aff_on aff t n \<noteq> aff_on aff2 t n \<and> e = aff_on aff2 t n" for t n e
    using IH ev settled other by (cases "t = t'") auto
  moreover have "set cs1 \<inter> set cs2 = {}" using IH ev settled by auto
  ultimately show ?case unfolding eqs using IH ev by simp
qed

lemma is_strategy_enabled_on:
  "is_strategy_enabled u t n = aff_on (tu_affinity u) (to_internal_ticker t) n"
  by (auto simp: is_strategy_enabled_def aff_on_def affinity_row_def switched_on_def split: option.splits)

definition enabled_in :: "universe \<Rightarrow> ticker \<Rightarrow> string \<Rightarrow> bool" where
  "enabled_in u t n \<longleftrightarrow> aff_on (tu_affinity u) t n"

text \<open>Recomputing the affinity reports each transition exactly once and nothing else: the calls
  of the change handler are the pairs of ticker and strategy whose enablement changed, with the
  new value, and afterwards every strategy registered is enabled on a pool ticker exactly when
  its score says so.\<close>

theorem affinity_events_exact:
  assumes "omap_ok (<) (tu_strategies u)" "tu_on_change u" "refresh_affinity u = (u', events)"
  shows "distinct events
    \<and> (\<forall>t n e. (t, n, e) \<in> set events \<longleftrightarrow>
         enabled_in u t n \<noteq> enabled_in u' t n \<and> e = enabled_in u' t n)
    \<and> (\<forall>t \<in> set (tu_active u). \<forall>n fn. map_of (tu_strategies u) n = Some fn \<longrightarrow>
         enabled_in u' t n = (case fn of Some f \<Rightarrow> f t | None \<Rightarrow> False))
    \<and> (\<forall>t n. t \<notin> set (tu_active u) \<longrightarrow> enabled_in u' t n = enabled_in u t n)"
proof -
  obtain aff cs where c: "collect_changes (tu_strategies u) (tu_active u) (tu_affinity u) = (aff, cs)"
    by fastforce
  have d: "distinct (map fst (tu_strategies u))" by (rule asc.omap_ok_distinct [OF assms(1)])
  have u': "tu_affinity u' = aff" "events = cs"
    using assms(2,3) c
    by (auto simp: refresh_affinity_def collect_and_fire_def collect_affinity_changes_def fire_affinity_changes_def)
  show ?thesis
    using collect_changes_events [OF c d] collect_changes_on [OF c d]
    by (simp add: u' enabled_in_def score_def fn_value_def)
qed

section \<open>Scale factors\<close>

text \<open>What the scale factor of a ticker is without any cache.\<close>

definition true_scale :: "universe \<Rightarrow> ticker \<Rightarrow> double" where
  "true_scale u t =
     (if \<not> uc_dynamic_thresholds_enabled (tu_cfg u) \<or> uc_reference_volume (tu_cfg u) \<le> 0 then 1
      else raw_scale (tu_cfg u) (lookup_stats u t))"

definition cache_coherent :: "universe \<Rightarrow> bool" where
  "cache_coherent u \<longleftrightarrow> (\<forall>t sf. map_of (tu_scale_factors u) t = Some sf \<longrightarrow> sf = true_scale u t)"

lemma scale_coherent:
  "cache_coherent u \<Longrightarrow> stats_sound u temp \<Longrightarrow> volume_scale_factor_locked u temp t = true_scale u t"
  by (auto simp: volume_scale_factor_locked_def true_scale_def cache_coherent_def stats_of_prefetch
      split: option.splits)

lemma true_scale_frame [simp]:
  "true_scale (u\<lparr>tu_scale_factors := s\<rparr>) t = true_scale u t"
  "stats_sound (u\<lparr>tu_scale_factors := s\<rparr>) temp = stats_sound u temp"
  by (simp_all add: true_scale_def stats_sound_def lookup_stats_def)

lemma cache_scale_coherent:
  assumes "cache_coherent u" "stats_sound u temp"
  shows "cache_coherent (cache_scale temp t u) \<and> stats_sound (cache_scale temp t u) temp"
  using assms by (simp add: cache_coherent_def cache_scale_def scale_coherent [unfolded cache_coherent_def])

lemma fold_cache_coherent:
  assumes "cache_coherent u" "stats_sound u temp"
  shows "cache_coherent (fold (cache_scale temp) ts u) \<and> stats_sound (fold (cache_scale temp) ts u) temp"
    and "cache_coherent (fold (cache_scale_missing temp) ts u)
      \<and> stats_sound (fold (cache_scale_missing temp) ts u) temp"
  using assms
  by (induction ts arbitrary: u) (simp_all add: cache_scale_coherent cache_scale_missing_def)

lemma refresh_scale_coherent:
  assumes "stats_sound u temp" shows "cache_coherent (refresh_scale_factors_locked temp u)"
proof -
  let ?u = "u\<lparr>tu_scale_factors := []\<rparr>"
  have "cache_coherent ?u" "stats_sound ?u temp" using assms by (simp_all add: cache_coherent_def)
  then show ?thesis by (simp add: refresh_scale_factors_locked_def Let_def fold_cache_coherent)
qed

lemma raw_scale_bounds:
  "uc_min_scale c \<le> uc_max_scale c \<Longrightarrow>
     raw_scale c s = 1 \<or> uc_min_scale c \<le> raw_scale c s \<and> raw_scale c s \<le> uc_max_scale c"
  using clamp_bounds by (auto simp: raw_scale_def split: option.splits)

lemma calibrated_le_density: "calibrated_min_size_usd u t d \<le> density_min_size_usd u t d"
proof (cases "map_of (tu_large_amounts u) (to_internal_ticker t)")
  case None
  then show ?thesis by (simp add: calibrated_min_size_usd_def density_min_size_usd_def)
next
  case (Some a)
  show ?thesis
    by (simp only: calibrated_min_size_usd_def density_min_size_usd_def Let_def Some option.case max.cobounded1)
qed

lemma calibrated_floor: "d * uc_floor_ratio (tu_cfg u) \<le> calibrated_min_size_usd u t d"
  by (simp add: calibrated_min_size_usd_def calibrated_min_size_usd_locked_def Let_def)

text \<open>After a pool refresh the cached scale factors are transparent: the factor of any ticker is
  the one computed from its statistics; it is one or within the configured bounds, and the
  calibrated minimum size is never below the configured share of the default.\<close>

theorem scale_factors_coherent:
  assumes "uc_min_scale (tu_cfg u) \<le> uc_max_scale (tu_cfg u)" "u' = refresh_pool av now u"
  shows "volume_scale_factor u' t = true_scale u (to_internal_ticker t)
    \<and> (volume_scale_factor u' t = 1 \<or>
        uc_min_scale (tu_cfg u) \<le> volume_scale_factor u' t \<and>
        volume_scale_factor u' t \<le> uc_max_scale (tu_cfg u))
    \<and> d * uc_floor_ratio (tu_cfg u) \<le> calibrated_min_size_usd u' t d
    \<and> calibrated_min_size_usd u' t d \<le> density_min_size_usd u' t d"
proof -
  let ?av = "map to_internal_ticker av"
  let ?temp = "prefetch_stats u ?av"
  have cfg: "tu_cfg u' = tu_cfg u" and look: "tu_stats_lookup u' = tu_stats_lookup u"
    by (simp_all add: assms(2) refresh_pool_def Let_def)
  have "cache_coherent u'"
    unfolding assms(2) refresh_pool_def refresh_pool_locked_def Let_def
    by (rule refresh_scale_coherent)
      (use stats_sound_prefetch in \<open>simp add: stats_sound_def lookup_stats_def\<close>)
  moreover have "stats_sound u' Map.empty" by (simp add: stats_sound_def)
  ultimately have eq: "volume_scale_factor u' t = true_scale u' (to_internal_ticker t)"
    by (simp add: volume_scale_factor_def scale_coherent)
  have true: "true_scale u' k = true_scale u k" for k
    by (simp add: true_scale_def cfg lookup_stats_def look)
  have "true_scale u k = 1 \<or> uc_min_scale (tu_cfg u) \<le> true_scale u k \<and> true_scale u k \<le> uc_max_scale (tu_cfg u)" for k
    using raw_scale_bounds [OF assms(1)] by (auto simp: true_scale_def)
  then show ?thesis
    using calibrated_floor [of d u' t] calibrated_le_density by (simp add: eq true cfg)
qed

section \<open>Runs of the universe\<close>

datatype universe_op =
    RefreshPool "ticker list" | RefreshAffinity | OverrideAffinity ticker string bool
  | BigEvent ticker | BigTick ticker double | BigAmount ticker double
  | ScreenerNewCoin ticker | SeedCandidates "ticker list"
  | UpdateOrderbookSettings orderbook_settings | CacheMeta ticker ticker_meta
  | RefreshScaleFactors | RegisterStrategy string "affinity_score option"
  | SetStatsLookup "stats_lookup option" | SetChangeHandler bool | UpdateConfig universe_config

fun universe_step ::
  "universe_op \<Rightarrow> time_point \<Rightarrow> universe \<Rightarrow> universe \<times> affinity_change list" where
  "universe_step (RefreshPool av) now u = (refresh_pool av now u, [])"
| "universe_step RefreshAffinity now u = refresh_affinity u"
| "universe_step (OverrideAffinity t s b) now u = override_affinity t s b u"
| "universe_step (BigEvent t) now u = on_big_event t now u"
| "universe_step (BigTick t x) now u = on_big_tick t x now u"
| "universe_step (BigAmount t x) now u = on_big_amount t x now u"
| "universe_step (ScreenerNewCoin t) now u = on_screener_new_coin t now u"
| "universe_step (SeedCandidates ts) now u = (seed_candidates ts u, [])"
| "universe_step (UpdateOrderbookSettings s) now u = (update_orderbook_settings s u, [])"
| "universe_step (CacheMeta t m) now u = (cache_meta t m u, [])"
| "universe_step RefreshScaleFactors now u = (refresh_scale_factors u, [])"
| "universe_step (RegisterStrategy n f) now u = (register_strategy n f u, [])"
| "universe_step (SetStatsLookup f) now u = (set_stats_lookup f u, [])"
| "universe_step (SetChangeHandler b) now u = (set_affinity_change_handler b u, [])"
| "universe_step (UpdateConfig c) now u = (update_config c u, [])"

text \<open>
  A run at increasing times, with the pool after each step. The closures may be replaced
  between any two steps, so a run covers scores and statistics that change over time.
\<close>

inductive universe_run :: "universe \<Rightarrow> (time_point \<times> ticker set) list \<Rightarrow> bool" where
  start: "universe_run (universe_new cfg) []"
| step: "universe_run u h \<Longrightarrow> \<forall>e \<in> set h. fst e \<le> now \<Longrightarrow> u' = fst (universe_step op now u) \<Longrightarrow>
           universe_run u' ((now, set (tu_active u')) # h)"

definition since_inv :: "universe \<Rightarrow> (time_point \<times> ticker set) list \<Rightarrow> bool" where
  "since_inv u h \<longleftrightarrow> (\<forall>t. map_of (tu_active_since u) t \<noteq> None \<longleftrightarrow> t \<in> set (tu_active u)) \<and>
     (\<forall>t since \<tau> P. map_of (tu_active_since u) t = Some since \<longrightarrow> (\<tau>, P) \<in> set h \<longrightarrow> since < \<tau> \<longrightarrow> t \<in> P)"

lemma map_of_fold_emplace:
  "map_of (fold (\<lambda>t. omap_emplace lt t now) ts m) k =
     (case map_of m k of Some v \<Rightarrow> Some v | None \<Rightarrow> if k \<in> set ts then Some now else None)"
  by (induction ts arbitrary: m) (auto simp: omap_emplace_def split: option.splits)

lemma map_of_filter_keys:
  "map_of (filter (\<lambda>(k, _). k \<in> S) m) k = (if k \<in> S then map_of m k else None)"
  by (induction m) auto

lemma since_inv_refresh_locked:
  assumes "since_inv u h" "\<forall>e \<in> set h. fst e \<le> now" "u' = refresh_pool_locked av now temp u"
  shows "since_inv u' ((now, set (tu_active u')) # h)"
  using assms
  by (fastforce simp: since_inv_def map_of_fold_emplace map_of_filter_keys split: option.splits if_splits)

lemma since_inv_same:
  assumes "since_inv u h" "tu_active u' = tu_active u" "tu_active_since u' = tu_active_since u"
  shows "since_inv u' ((now, set (tu_active u')) # h)"
  using assms by (auto simp: since_inv_def)

lemma collect_and_fire_frame [simp]:
  "tu_active (fst (collect_and_fire u)) = tu_active u"
  "tu_active_since (fst (collect_and_fire u)) = tu_active_since u"
  "tu_strategies (fst (collect_and_fire u)) = tu_strategies u"
  "tu_cfg (fst (collect_and_fire u)) = tu_cfg u"
  "tu_filters (fst (collect_and_fire u)) = tu_filters u"
  by (simp_all add: collect_and_fire_def collect_affinity_changes_def split: prod.splits)

lemma universe_step_frame:
  assumes "\<forall>av. op \<noteq> RefreshPool av" "\<forall>t. op \<noteq> ScreenerNewCoin t"
  shows "tu_active (fst (universe_step op now u)) = tu_active u"
    and "tu_active_since (fst (universe_step op now u)) = tu_active_since u"
  using assms
  by (cases op; simp add: refresh_affinity_def override_affinity_def Let_def on_big_event_def
      on_big_tick_def on_big_amount_def on_big_event_locked_def seed_candidates_def
      update_orderbook_settings_def cache_meta_def refresh_scale_factors_def register_strategy_def
      set_stats_lookup_def set_affinity_change_handler_def update_config_def)+

lemma since_inv_step:
  assumes "since_inv u h" "\<forall>e \<in> set h. fst e \<le> now" "u' = fst (universe_step op now u)"
  shows "since_inv u' ((now, set (tu_active u')) # h)"
proof -
  consider (pool) av where "op = RefreshPool av" | (screener) t where "op = ScreenerNewCoin t"
    | (other) "\<forall>av. op \<noteq> RefreshPool av" "\<forall>t. op \<noteq> ScreenerNewCoin t" by blast
  then show ?thesis
  proof cases
    case pool
    then show ?thesis
      using since_inv_refresh_locked [OF assms(1,2)] assms(3) by (simp add: refresh_pool_def Let_def)
  next
    case screener
    let ?k = "to_internal_ticker t"
    let ?w = "u\<lparr>tu_screener_approved := oset_insert ?k (tu_screener_approved u)\<rparr>"
    have w: "since_inv ?w h" using assms(1) by (simp add: since_inv_def)
    show ?thesis
    proof (cases "accepts (tu_filters u) ?k \<and> ?k \<notin> set (tu_screener_approved u)")
      case True
      then have "u' = fst (collect_and_fire (refresh_pool_locked (screener_candidates u ?k) now
          (prefetch_stats u (screener_candidates u ?k)) ?w))"
        using assms(3) screener by (simp add: on_screener_new_coin_def Let_def)
      then show ?thesis
        using since_inv_refresh_locked [OF w assms(2) refl]
        by (metis collect_and_fire_frame(1,2) since_inv_def)
    next
      case False
      then have "u' = u" using assms(3) screener by (auto simp: on_screener_new_coin_def Let_def)
      then show ?thesis using since_inv_same [OF assms(1)] by blast
    qed
  next
    case other
    show ?thesis
      by (rule since_inv_same [OF assms(1)]) (simp_all add: assms(3) universe_step_frame [OF other])
  qed
qed

lemma universe_run_since: "universe_run u h \<Longrightarrow> since_inv u h"
proof (induction rule: universe_run.induct)
  case (start cfg)
  then show ?case by (simp add: since_inv_def universe_new_def)
next
  case (step u h now u' op)
  then show ?case using since_inv_step by blast
qed

text \<open>C28. In every run of the universe, whatever operations it makes, a ticker whose affinity counts
  as stable for a duration was in the pool after every step made within that duration.\<close>

theorem stable_means_in_pool:
  assumes "universe_run u h" "is_affinity_stable u t d now" "(\<tau>, P) \<in> set h" "now - d < \<tau>"
  shows "to_internal_ticker t \<in> P"
  using assms universe_run_since [OF assms(1)]
  by (auto simp: is_affinity_stable_def since_inv_def split: option.splits)

section \<open>Boosts\<close>

lemma is_boosted_after_event:
  assumes "u' = fst (on_big_event t now u)" "0 \<le> uc_boost_ttl (tu_cfg u)"
  shows "is_boosted u' t now' \<longleftrightarrow> now' - now \<le> uc_boost_ttl (tu_cfg u)"
proof -
  have "tu_boosts (fst (collect_and_fire w)) = tu_boosts w" for w
    by (simp add: collect_and_fire_def collect_affinity_changes_def split: prod.splits)
  then show ?thesis
    by (simp add: assms(1) is_boosted_def on_big_event_def on_big_event_locked_def)
qed

section \<open>Tiers\<close>

lemma tier_index_bound: "tier_index v bs \<le> length bs"
  by (induction bs) auto

lemma tier_index_first:
  "tier_index v bs = i \<longleftrightarrow> i \<le> length bs \<and> (\<forall>j < i. v < bs ! j) \<and> (i < length bs \<longrightarrow> bs ! i \<le> v)"
proof (induction bs arbitrary: i)
  case Nil
  then show ?case by auto
next
  case (Cons b bs)
  then show ?case by (cases i) (auto simp: All_less_Suc2)
qed

lemma get_tiered_threshold_in: "vs \<noteq> [] \<Longrightarrow> get_tiered_threshold u t vs \<in> set vs"
proof -
  assume "vs \<noteq> []"
  then have "0 < length vs" "min n (length vs - 1) < length vs" for n
    by (cases vs; simp add: min_less_iff_disj)+
  then show ?thesis by (simp add: get_tiered_threshold_def nth_mem)
qed

section \<open>Concrete runs\<close>

definition sample_stats :: stats_lookup where
  "sample_stats t =
     (if t = ''BTC'' then Some \<lparr>ts_volume_24h_usd = 3000000, ts_avg_spread_bps = 2,
          ts_funding_rate_bps = 0, ts_volatility_1min_bps = 0\<rparr>
      else if t = ''ETH'' then Some \<lparr>ts_volume_24h_usd = 2000000, ts_avg_spread_bps = 50,
          ts_funding_rate_bps = 0, ts_volatility_1min_bps = 0\<rparr>
      else None)"

definition sample_universe :: universe where
  "sample_universe =
     register_strategy ''bounce'' (Some (\<lambda>t. t = ''BTC'')) (set_affinity_change_handler True
       (set_stats_lookup (Some sample_stats)
         (universe_new (universe_config_default\<lparr>uc_dynamic_thresholds_enabled := False\<rparr>))))"

lemma refresh_pool_top_witness:
  "tu_active (refresh_pool [''ETH'', ''SOL'', ''BTC''] 0 sample_universe) = [''BTC'', ''SOL'']
   \<and> length (tu_active (refresh_pool [''ETH'', ''SOL'', ''BTC''] 0 sample_universe)) \<le> 30"
proof -
  have "tu_active (refresh_pool [''ETH'', ''SOL'', ''BTC''] 0 sample_universe) = [''BTC'', ''SOL'']"
    by code_simp
  moreover have "uc_max_pool_size (tu_cfg sample_universe) = 30" by code_simp
  ultimately show ?thesis
    using refresh_pool_top [OF refl, of "[''ETH'', ''SOL'', ''BTC'']" 0 sample_universe] by simp
qed

lemma affinity_events_exact_witness:
  "snd (refresh_affinity (refresh_pool [''BTC'', ''SOL''] 0 sample_universe)) = [(''BTC'', ''bounce'', True)]
   \<and> enabled_in (fst (refresh_affinity (refresh_pool [''BTC'', ''SOL''] 0 sample_universe))) ''BTC'' ''bounce''"
proof -
  let ?u = "refresh_pool [''BTC'', ''SOL''] 0 sample_universe"
  have ev: "snd (refresh_affinity ?u) = [(''BTC'', ''bounce'', True)]" by code_simp
  have "omap_ok (<) (tu_strategies ?u)" "tu_on_change ?u"
    by (simp_all add: refresh_pool_def Let_def sample_universe_def register_strategy_def
        set_affinity_change_handler_def set_stats_lookup_def universe_new_def omap_ok_Cons)
  from affinity_events_exact [OF this surjective_pairing]
  have "(''BTC'', ''bounce'', True) \<in> set (snd (refresh_affinity ?u)) \<longrightarrow>
      enabled_in (fst (refresh_affinity ?u)) ''BTC'' ''bounce'' = True" by metis
  with ev show ?thesis by simp
qed

lemma scale_factors_coherent_witness:
  "volume_scale_factor (refresh_pool [''BTC''] 0 sample_universe) ''BTC'' = 1
   \<and> 100 * (1 / 10) \<le> calibrated_min_size_usd (refresh_pool [''BTC''] 0 sample_universe) ''BTC'' 100"
proof -
  have "uc_min_scale (tu_cfg sample_universe) \<le> uc_max_scale (tu_cfg sample_universe)" by code_simp
  moreover have "true_scale sample_universe (to_internal_ticker ''BTC'') = 1"
    "uc_floor_ratio (tu_cfg sample_universe) = 1 / 10" by code_simp+
  ultimately show ?thesis
    using scale_factors_coherent [OF _ refl, of sample_universe "[''BTC'']" 0 "''BTC''" 100] by simp
qed

lemma stable_means_in_pool_witness:
  "is_affinity_stable (refresh_pool [''BTC'', ''SOL''] (seconds 60) (refresh_pool [''BTC''] 0 (universe_new universe_config_default)))
     ''BTC'' (seconds 30) (seconds 60)
   \<and> to_internal_ticker ''BTC'' \<in>
       set (tu_active (refresh_pool [''BTC'', ''SOL''] (seconds 60) (refresh_pool [''BTC''] 0 (universe_new universe_config_default))))"
proof -
  let ?u0 = "universe_new universe_config_default"
  let ?u1 = "refresh_pool [''BTC''] 0 ?u0"
  let ?u2 = "refresh_pool [''BTC'', ''SOL''] (seconds 60) ?u1"
  have "universe_run ?u1 [(0, set (tu_active ?u1))]"
    by (rule universe_run.step [where op = "RefreshPool [''BTC'']", OF universe_run.start]) simp_all
  then have run: "universe_run ?u2 [(seconds 60, set (tu_active ?u2)), (0, set (tu_active ?u1))]"
    by (rule universe_run.step [where op = "RefreshPool [''BTC'', ''SOL'']"]) (simp_all add: seconds_def)
  have st: "is_affinity_stable ?u2 ''BTC'' (seconds 30) (seconds 60)"
    by code_simp
  show ?thesis
    using st stable_means_in_pool [OF run st, of "seconds 60"] by (simp add: seconds_def)
qed

text \<open>
  A ticker that leaves the pool loses its affinity without an event: the refresh of the pool drops
  the row, and the recomputation of the affinity only visits the pool.
\<close>

lemma dropped_ticker_has_no_event:
  "let u1 = fst (refresh_affinity (refresh_pool [''BTC''] 0 sample_universe));
       r2 = refresh_affinity (refresh_pool [''SOL''] 1 u1)
   in is_strategy_enabled u1 ''BTC'' ''bounce'' \<and> \<not> is_strategy_enabled (fst r2) ''BTC'' ''bounce'' \<and> snd r2 = []"
  by code_simp

text \<open>An override puts any ticker, filtered out or not, in what \<open>is_in_pool\<close> calls the pool.\<close>

lemma override_puts_in_pool: "is_in_pool (fst (override_affinity t s False u)) t"
  by (simp add: override_affinity_def is_in_pool_def Let_def)

text \<open>A screener coin reduces the pool to the screener's coins.\<close>

lemma screener_coin_empties_pool:
  "let u1 = seed_candidates [''BTC'', ''SOL''] (refresh_pool [''BTC'', ''SOL''] 0 sample_universe)
   in tu_active u1 = [''BTC'', ''SOL''] \<and> tu_active (fst (on_screener_new_coin ''XRP'' 1 u1)) = [''XRP'']"
  by code_simp

end
