(* ===== verification/News.thy ===== *)
theory News
  imports Domain
begin

text \<open>
  The calendar of scheduled news, \<open>risk/NewsCalendar.{hpp,cpp}\<close>: the timestamp parser, loading
  and reloading, and the two queries the risk manager asks. Reading the file, the JSON parser
  and the schema validator are outside the repository: the file's contents are a parameter,
  an error or the validated list of items. The watcher thread only calls \<open>reload\<close>.
\<close>

section \<open>Timestamps\<close>

text \<open>
  \<open>std::get_time\<close> with \<open>%Y-%m-%dT%H:%M:%S\<close> on a string that the schema has already required
  to have that shape, and \<open>timegm\<close>, which takes days past the end of a month into the next
  one. \<^const>\<open>None\<close> is the exception.
\<close>

definition digit_value :: "char \<Rightarrow> int" where
  "digit_value c = int (of_char c - 48)"

definition number_at :: "string \<Rightarrow> nat \<Rightarrow> nat \<Rightarrow> int option" where
  "number_at s i n =
     (let ds = take n (drop i s) in
      if length ds = n \<and> list_all is_digit_byte ds
      then Some (foldl (\<lambda>acc c. 10 * acc + digit_value c) 0 ds) else None)"

definition is_leap :: "int \<Rightarrow> bool" where
  "is_leap y \<longleftrightarrow> y mod 4 = 0 \<and> (y mod 100 \<noteq> 0 \<or> y mod 400 = 0)"

definition days_before_month :: "int \<Rightarrow> int \<Rightarrow> int" where
  "days_before_month y m =
     [0, 31, 59, 90, 120, 151, 181, 212, 243, 273, 304, 334] ! nat (m - 1)
       + (if 2 < m \<and> is_leap y then 1 else 0)"

definition days_before_year :: "int \<Rightarrow> int" where
  "days_before_year y =
     365 * (y - 1970) + ((y - 1) div 4 - 492) - ((y - 1) div 100 - 19) + ((y - 1) div 400 - 4)"

definition timegm :: "int \<Rightarrow> int \<Rightarrow> int \<Rightarrow> int \<Rightarrow> int \<Rightarrow> int \<Rightarrow> int" where
  "timegm y mo d h mi s =
     ((days_before_year y + days_before_month y mo + (d - 1)) * 24 + h) * 3600 + mi * 60 + s"

definition parse_iso8601 :: "string \<Rightarrow> time_point option" where
  "parse_iso8601 str =
     (case (number_at str 0 4, number_at str 5 2, number_at str 8 2,
            number_at str 11 2, number_at str 14 2, number_at str 17 2) of
        (Some y, Some mo, Some d, Some h, Some mi, Some s) \<Rightarrow>
          if str ! 4 = CHR ''-'' \<and> str ! 7 = CHR ''-'' \<and> str ! 10 = CHR ''T'' \<and>
             str ! 13 = CHR '':'' \<and> str ! 16 = CHR '':'' \<and>
             1 \<le> mo \<and> mo \<le> 12 \<and> 1 \<le> d \<and> d \<le> 31 \<and> h \<le> 23 \<and> mi \<le> 59 \<and> s \<le> 60 \<and>
             (length str = 19 \<or> str ! 19 = CHR ''Z'')
          then Some (seconds (timegm y mo d h mi s)) else None
      | _ \<Rightarrow> None)"

section \<open>The calendar\<close>

record news_event =
  ev_ts_utc :: time_point
  ev_importance :: int
  ev_ticker :: "ticker option"
  ev_note :: string

text \<open>A validated JSON item: timestamp, importance, optional ticker, optional note.\<close>

type_synonym news_item = "string \<times> int \<times> string option \<times> string option"
type_synonym news_reader = "string \<Rightarrow> string + news_item list"

record news_calendar =
  nc_events :: "news_event list"
  nc_path :: string

definition news_calendar_new :: news_calendar where
  "news_calendar_new = \<lparr>nc_events = [], nc_path = ''''\<rparr>"

definition parse_item :: "news_item \<Rightarrow> string + news_event" where
  "parse_item item = (case item of (ts, imp, tck, nt) \<Rightarrow>
     (case parse_iso8601 ts of
        None \<Rightarrow> Inl (''NewsCalendar: bad ts_utc value: '' @ ts)
      | Some t \<Rightarrow> Inr \<lparr>ev_ts_utc = t, ev_importance = imp, ev_ticker = map_option to_internal_ticker tck,
                       ev_note = (case nt of None \<Rightarrow> '''' | Some n \<Rightarrow> n)\<rparr>))"

fun parse_items :: "news_item list \<Rightarrow> string + news_event list" where
  "parse_items [] = Inr []"
| "parse_items (item # items) =
     (case parse_item item of
        Inl e \<Rightarrow> Inl e
      | Inr ev \<Rightarrow> (case parse_items items of Inl e \<Rightarrow> Inl e | Inr evs \<Rightarrow> Inr (ev # evs)))"

text \<open>
  \<open>std::sort\<close> by time: the order of events with equal times is not specified in the source, and
  no query below depends on it.
\<close>

definition parse_news :: "news_reader \<Rightarrow> string \<Rightarrow> string + news_event list" where
  "parse_news reader path =
     (case reader path of
        Inl e \<Rightarrow> Inl e
      | Inr items \<Rightarrow>
          (case parse_items items of Inl e \<Rightarrow> Inl e | Inr evs \<Rightarrow> Inr (sort_key ev_ts_utc evs)))"

definition load_news :: "news_reader \<Rightarrow> string \<Rightarrow> news_calendar \<Rightarrow> string + news_calendar" where
  "load_news reader path nc =
     (case parse_news reader path of
        Inl e \<Rightarrow> Inl e
      | Inr evs \<Rightarrow> Inr (nc\<lparr>nc_events := evs, nc_path := path\<rparr>))"

definition reload_news :: "news_reader \<Rightarrow> news_calendar \<Rightarrow> news_calendar" where
  "reload_news reader nc =
     (if nc_path nc = [] then nc
      else (case parse_news reader (nc_path nc) of
              Inl _ \<Rightarrow> nc
            | Inr evs \<Rightarrow> nc\<lparr>nc_events := evs\<rparr>))"

definition event_applies :: "time_point \<Rightarrow> ticker \<Rightarrow> news_event \<Rightarrow> bool" where
  "event_applies now key e \<longleftrightarrow>
     \<not> ev_ts_utc e < now \<and> (case ev_ticker e of None \<Rightarrow> True | Some t \<Rightarrow> t = key)"

definition minutes_to_next_news :: "news_calendar \<Rightarrow> time_point \<Rightarrow> ticker \<Rightarrow> int option" where
  "minutes_to_next_news nc now tck =
     (case find (event_applies now (to_internal_ticker tck)) (nc_events nc) of
        None \<Rightarrow> None
      | Some e \<Rightarrow> Some (to_minutes (ev_ts_utc e - now)))"

text \<open>\<open>std::max_element\<close>: the first event with the largest time.\<close>

fun latest_event :: "news_event \<Rightarrow> news_event list \<Rightarrow> news_event" where
  "latest_event best [] = best"
| "latest_event best (e # es) =
     latest_event (if ev_ts_utc best < ev_ts_utc e then e else best) es"

definition minutes_since_latest_event :: "news_calendar \<Rightarrow> time_point \<Rightarrow> int option" where
  "minutes_since_latest_event nc now =
     (case nc_events nc of
        [] \<Rightarrow> None
      | e # es \<Rightarrow> Some (to_minutes (now - ev_ts_utc (latest_event e es))))"

definition news_size :: "news_calendar \<Rightarrow> nat" where "news_size nc = length (nc_events nc)"

section \<open>Laws\<close>

text \<open>Events are kept sorted by time and their tickers normalised.\<close>

definition nc_inv :: "news_calendar \<Rightarrow> bool" where
  "nc_inv nc \<longleftrightarrow> sorted (map ev_ts_utc (nc_events nc)) \<and>
     (\<forall>e \<in> set (nc_events nc). \<forall>t. ev_ticker e = Some t \<longrightarrow> to_internal_ticker t = t)"

lemma parse_items_tickers:
  "parse_items items = Inr evs \<Longrightarrow> e \<in> set evs \<Longrightarrow> ev_ticker e = Some t \<Longrightarrow> to_internal_ticker t = t"
proof (induction items arbitrary: evs)
  case Nil
  then show ?case by simp
next
  case (Cons item items)
  then show ?case
    by (auto simp: parse_item_def split: sum.splits option.splits prod.splits)
qed

lemma parse_news_ok:
  "parse_news reader path = Inr evs \<Longrightarrow> sorted (map ev_ts_utc evs) \<and>
     (\<forall>e \<in> set evs. \<forall>t. ev_ticker e = Some t \<longrightarrow> to_internal_ticker t = t)"
  using parse_items_tickers by (fastforce simp: parse_news_def split: sum.splits)

lemma load_news_inv: "load_news reader path nc = Inr nc' \<Longrightarrow> nc_inv nc'"
  using parse_news_ok by (auto simp: load_news_def nc_inv_def split: sum.splits)

lemma reload_news_inv: "nc_inv nc \<Longrightarrow> nc_inv (reload_news reader nc)"
  using parse_news_ok [of reader "nc_path nc"]
  by (auto simp: reload_news_def nc_inv_def split: sum.splits)

lemma find_sorted_least:
  "sorted (map f xs) \<Longrightarrow> find P xs = Some x \<Longrightarrow> y \<in> set xs \<Longrightarrow> P y \<Longrightarrow> f x \<le> f y"
  by (induction xs) (auto split: if_splits)

text \<open>The distance to the next news is exact: for any number of minutes, the calendar says that
  news for the ticker is at most that far exactly when some event without a ticker or for this
  ticker lies between now and the end of that minute.\<close>

theorem minutes_to_next_le_iff:
  assumes "nc_inv nc"
  shows "(\<exists>m. minutes_to_next_news nc now tck = Some m \<and> m \<le> n) \<longleftrightarrow>
    (\<exists>e \<in> set (nc_events nc). event_applies now (to_internal_ticker tck) e \<and>
       ev_ts_utc e - now < minutes (n + 1))"
proof -
  let ?P = "event_applies now (to_internal_ticker tck)"
  show ?thesis
  proof (cases "find ?P (nc_events nc)")
    case None
    then have "\<forall>e \<in> set (nc_events nc). \<not> ?P e" by (simp add: find_None_iff_all)
    then show ?thesis by (auto simp: minutes_to_next_news_def None)
  next
    case (Some e)
    note e = find_SomeD [OF Some]
    then have "0 \<le> ev_ts_utc e - now" by (simp add: event_applies_def)
    then have le: "to_minutes (ev_ts_utc e - now) \<le> n \<longleftrightarrow> ev_ts_utc e - now < minutes (n + 1)"
      by (simp add: to_minutes_def cdiv_le_iff minutes_def)
    have least: "ev_ts_utc e \<le> ev_ts_utc y" if "y \<in> set (nc_events nc)" "?P y" for y
      using find_sorted_least [of ev_ts_utc, OF _ Some that] assms by (simp add: nc_inv_def)
    show ?thesis
      using e le least by (fastforce simp: minutes_to_next_news_def Some)
  qed
qed

lemma minutes_to_next_nonneg: "minutes_to_next_news nc now tck = Some m \<Longrightarrow> 0 \<le> m"
  by (auto simp: minutes_to_next_news_def to_minutes_def cdiv_nonneg event_applies_def
      dest!: find_SomeD split: option.splits)

lemma latest_event_max:
  "e \<in> set (b # es) \<Longrightarrow> ev_ts_utc e \<le> ev_ts_utc (latest_event b es)"
proof (induction es arbitrary: b e)
  case Nil
  then show ?case by simp
next
  case (Cons a es)
  let ?c = "if ev_ts_utc b < ev_ts_utc a then a else b"
  have "ev_ts_utc ?c \<le> ev_ts_utc (latest_event ?c es)" by (rule Cons.IH) simp
  moreover have "e \<in> set es \<Longrightarrow> ev_ts_utc e \<le> ev_ts_utc (latest_event ?c es)"
    by (rule Cons.IH) simp
  ultimately show ?case using Cons.prems by (auto split: if_splits)
qed

lemma latest_event_mem: "latest_event b es \<in> set (b # es)"
  by (induction es arbitrary: b) auto

text \<open>A failed load or reload leaves the calendar as it was, and a successful one keeps the
  events sorted by time with normalised tickers.\<close>

theorem reload_keeps_or_replaces:
  assumes "nc_inv nc"
  shows "nc_inv (reload_news reader nc)
    \<and> (parse_news reader (nc_path nc) = Inl err \<longrightarrow> reload_news reader nc = nc)
    \<and> (load_news reader path nc = Inr nc' \<longrightarrow> nc_inv nc' \<and> nc_path nc' = path)"
  using assms reload_news_inv load_news_inv [of reader path nc nc']
  by (auto simp: reload_news_def load_news_def split: sum.splits)

definition sample_reader :: news_reader where
  "sample_reader path =
     (if path = ''news.json''
      then Inr [(''2026-05-15T12:30:00Z'', 3, Some ''btc_usdt'', None), (''2026-05-15T08:00:00Z'', 2, None, Some ''CPI'')]
      else Inl ''cannot open'')"

definition sample_calendar :: news_calendar where
  "sample_calendar =
     (case load_news sample_reader ''news.json'' news_calendar_new of Inr nc \<Rightarrow> nc | Inl _ \<Rightarrow> news_calendar_new)"

lemma sample_calendar_loaded:
  "load_news sample_reader ''news.json'' news_calendar_new = Inr sample_calendar"
  by code_simp

lemma sample_calendar_inv: "nc_inv sample_calendar"
  by (rule load_news_inv [OF sample_calendar_loaded])

lemma minutes_to_next_le_iff_witness:
  "(\<exists>m. minutes_to_next_news sample_calendar (seconds 1778848080) ''BTC'' = Some m \<and> m \<le> 5)
   \<longleftrightarrow> (\<exists>e \<in> set (nc_events sample_calendar).
         event_applies (seconds 1778848080) (to_internal_ticker ''BTC'') e \<and>
         ev_ts_utc e - seconds 1778848080 < minutes (5 + 1))"
  by (rule minutes_to_next_le_iff [OF sample_calendar_inv])

lemma reload_keeps_or_replaces_witness:
  "nc_inv (reload_news (\<lambda>_. Inl ''bad JSON'') sample_calendar)
   \<and> reload_news (\<lambda>_. Inl ''bad JSON'') sample_calendar = sample_calendar"
proof -
  have "parse_news (\<lambda>_. Inl ''bad JSON'') (nc_path sample_calendar) = Inl ''bad JSON''"
    by (simp add: parse_news_def)
  then show ?thesis
    using reload_keeps_or_replaces [OF sample_calendar_inv, of "\<lambda>_. Inl ''bad JSON''" "''bad JSON''"] by blast
qed

lemma parse_iso8601_samples:
  "parse_iso8601 ''1970-01-01T00:00:00Z'' = Some 0"
  "parse_iso8601 ''2026-05-15T12:30:00Z'' = Some (seconds 1778848200)"
  "parse_iso8601 ''2024-02-29T23:59:59'' = Some (seconds 1709251199)"
  "parse_iso8601 ''2026-13-01T00:00:00Z'' = None"
  by code_simp+

end
