(* ===== verification/Risk.thy ===== *)
theory Risk
  imports UniverseSpec News
begin

text \<open>
  The pre-trade gate, \<open>risk/RiskManager.{hpp,cpp}\<close>: the rules R1 to R13 and R15 in the order
  the code checks them, the sizing, and the bookkeeping of accepted trades, losses and funding
  times. The universe and the news calendar are the model's own; the injected clock is an
  argument, one reading when the evaluation starts and one when the acceptance is recorded.
  Every rejection keeps the size and risk computed so far, as the code does.
\<close>

section \<open>State\<close>

record risk_config =
  rc_max_daily_loss_pct :: double
  rc_max_concurrent_positions :: int
  rc_max_positions_per_ticker :: int
  rc_allow_hedge :: bool
  rc_min_stop_bps :: double
  rc_max_stop_bps :: double
  rc_warn_stop_bps :: double
  rc_min_rr_ratio :: double
  rc_min_tp2_rr :: double
  rc_max_per_trade_risk_pct :: double
  rc_max_position_value_pct :: double
  rc_margin_safety_ratio :: double
  rc_max_leverage :: int
  rc_trades_window_min :: int
  rc_max_trades_per_window :: int
  rc_max_trade_history :: int
  rc_loss_streak_window_min :: int
  rc_max_consecutive_losses :: int
  rc_loss_streak_cooloff_min :: int
  rc_max_loss_history :: int
  rc_max_entry_slippage_bps :: double
  rc_news_blackout_min :: int
  rc_news_calendar_check_min :: int
  rc_news_calendar_require_fresh :: bool
  rc_funding_blackout_pre_sec :: int
  rc_funding_blackout_post_sec :: int
  rc_whitelist_tickers :: "string list"

definition risk_config_default :: risk_config where
  "risk_config_default =
     \<lparr>rc_max_daily_loss_pct = 3, rc_max_concurrent_positions = 3,
      rc_max_positions_per_ticker = 1, rc_allow_hedge = False,
      rc_min_stop_bps = 3, rc_max_stop_bps = 20, rc_warn_stop_bps = 15,
      rc_min_rr_ratio = 1, rc_min_tp2_rr = 2,
      rc_max_per_trade_risk_pct = 1 / 2, rc_max_position_value_pct = 10,
      rc_margin_safety_ratio = 8 / 10, rc_max_leverage = 5,
      rc_trades_window_min = 5, rc_max_trades_per_window = 6, rc_max_trade_history = 10000,
      rc_loss_streak_window_min = 15, rc_max_consecutive_losses = 3,
      rc_loss_streak_cooloff_min = 10, rc_max_loss_history = 10000,
      rc_max_entry_slippage_bps = 5,
      rc_news_blackout_min = 5, rc_news_calendar_check_min = 60,
      rc_news_calendar_require_fresh = False,
      rc_funding_blackout_pre_sec = 30, rc_funding_blackout_post_sec = 30,
      rc_whitelist_tickers = []\<rparr>"

text \<open>The deques hold the oldest entry first; the time point zero is the unset time.\<close>

record risk_manager =
  rm_cfg :: risk_config
  rm_trade_history :: "time_point list"
  rm_loss_history :: "(time_point \<times> bool) list"
  rm_last_loss_streak_ts :: time_point
  rm_funding_times :: "(ticker, time_point) omap"
  rm_prev_funding_times :: "(ticker, time_point) omap"

definition risk_manager_new :: "risk_config \<Rightarrow> risk_manager" where
  "risk_manager_new cfg =
     \<lparr>rm_cfg = cfg, rm_trade_history = [], rm_loss_history = [], rm_last_loss_streak_ts = 0,
      rm_funding_times = [], rm_prev_funding_times = []\<rparr>"

section \<open>The rules on the plan and the account\<close>

definition input_rules :: "risk_config \<Rightarrow> trade_plan \<Rightarrow> account_state \<Rightarrow> (bool \<times> reject_reason) list" where
  "input_rules c plan st =
     [(acc_starting_equity_usd st \<le> 0, InternalError),
      (plan_entry_price plan \<le> 0, InternalError),
      (rc_max_leverage c \<le> 0, InternalError)]"

definition daily_pnl_pct :: "account_state \<Rightarrow> double" where
  "daily_pnl_pct st =
     (acc_realized_pnl_today_usd st + acc_unrealized_pnl_usd st) / acc_starting_equity_usd st * 100"

definition ticker_count :: "trade_plan \<Rightarrow> account_state \<Rightarrow> int" where
  "ticker_count plan st =
     int (length (filter (\<lambda>t. to_internal_ticker t = to_internal_ticker (plan_ticker plan))
       (acc_active_tickers st)))"

definition account_rules :: "risk_config \<Rightarrow> trade_plan \<Rightarrow> account_state \<Rightarrow> (bool \<times> reject_reason) list" where
  "account_rules c plan st =
     (let already_has_ticker = list_ex
            (\<lambda>t. to_internal_ticker t = to_internal_ticker (plan_ticker plan)) (acc_active_tickers st)
      in
     [(acc_kill_switch_triggered st, KillSwitchActive),
      (daily_pnl_pct st \<le> - rc_max_daily_loss_pct c, DailyLossLimitHit),
      (rc_max_concurrent_positions c \<le> acc_active_positions st, TooManyPositions),
      (already_has_ticker \<and> \<not> rc_allow_hedge c, DuplicatePosition),
      (rc_max_positions_per_ticker c \<le> ticker_count plan st, DuplicatePosition)])"

definition whitelisted :: "risk_config \<Rightarrow> ticker \<Rightarrow> bool" where
  "whitelisted c key \<longleftrightarrow> list_ex (\<lambda>t. to_internal_ticker t = key) (rc_whitelist_tickers c)"

definition universe_rules ::
  "risk_config \<Rightarrow> universe \<Rightarrow> time_point \<Rightarrow> trade_plan \<Rightarrow> (bool \<times> reject_reason) list" where
  "universe_rules c u now plan =
     (let key = to_internal_ticker (plan_ticker plan);
          in_pool = is_in_pool u key;
          boosted = is_boosted u key now;
          listed = whitelisted c key
      in [(\<not> in_pool \<and> \<not> boosted \<and> \<not> listed, NotInUniverse),
          (\<not> boosted \<and> \<not> listed \<and> \<not> is_strategy_enabled u key (plan_strategy_name plan), NotInUniverse)])"

definition stop_dist_bps :: "trade_plan \<Rightarrow> double" where
  "stop_dist_bps plan =
     \<bar>plan_entry_price plan - plan_stop_price plan\<bar> / plan_entry_price plan * 10000"

definition stop_correct_side :: "trade_plan \<Rightarrow> bool" where
  "stop_correct_side plan \<longleftrightarrow>
     plan_side plan = Buy \<and> plan_stop_price plan < plan_entry_price plan \<or>
     plan_side plan = Sell \<and> plan_entry_price plan < plan_stop_price plan"

text \<open>
  \<open>dist > std::min(bps / std::sqrt(sf), cap)\<close>, with the values that IEEE arithmetic gives the
  comparison where the root is zero (an infinite quotient, or NaN for a zero bound) or the
  factor negative (NaN).
\<close>

definition beyond_stop_bound :: "double \<Rightarrow> double \<Rightarrow> double \<Rightarrow> double \<Rightarrow> bool" where
  "beyond_stop_bound d bps cap sf \<longleftrightarrow>
     (if 0 < sf then min (bps * (1 / csqrt sf)) cap < d
      else if sf = 0 then (if 0 < bps then cap < d else bps < 0)
      else False)"

definition stop_rules :: "risk_config \<Rightarrow> universe \<Rightarrow> trade_plan \<Rightarrow> (bool \<times> reject_reason) list" where
  "stop_rules c u plan =
     (let sf = volume_scale_factor u (to_internal_ticker (plan_ticker plan)) in
     [(plan_stop_price plan \<le> 0, InvalidStopSide),
      (stop_dist_bps plan \<le> 0, StopTooTight),
      (\<not> stop_correct_side plan, InvalidStopSide),
      (stop_dist_bps plan < rc_min_stop_bps c, StopTooTight),
      (beyond_stop_bound (stop_dist_bps plan) (rc_max_stop_bps c) 100 sf, StopTooWide)])"

definition price_correct_side :: "trade_plan \<Rightarrow> double \<Rightarrow> bool" where
  "price_correct_side plan price \<longleftrightarrow>
     plan_side plan = Buy \<and> plan_entry_price plan < price \<or>
     plan_side plan = Sell \<and> price < plan_entry_price plan"

definition take_profit_rules :: "risk_config \<Rightarrow> trade_plan \<Rightarrow> (bool \<times> reject_reason) list" where
  "take_profit_rules c plan =
     (let risk_per_coin = \<bar>plan_entry_price plan - plan_stop_price plan\<bar>;
          reward_per_coin = \<bar>plan_tp1_price plan - plan_entry_price plan\<bar>
      in
     [(plan_tp1_price plan \<le> 0, PoorRewardRisk),
      (\<not> price_correct_side plan (plan_tp1_price plan), PoorRewardRisk),
      (reward_per_coin < rc_min_rr_ratio c * risk_per_coin, PoorRewardRisk),
      ((case plan_tp2_price plan of
          Some tp2 \<Rightarrow> 0 < tp2 \<and> \<not> price_correct_side plan tp2
        | None \<Rightarrow> False), PoorRewardRisk)])"

definition plan_rules ::
  "risk_config \<Rightarrow> universe \<Rightarrow> time_point \<Rightarrow> trade_plan \<Rightarrow> account_state \<Rightarrow> (bool \<times> reject_reason) list" where
  "plan_rules c u now plan st =
     input_rules c plan st @ account_rules c plan st @ universe_rules c u now plan @
     stop_rules c u plan @ take_profit_rules c plan"

section \<open>Sizing\<close>

definition default_meta :: ticker_meta where
  "default_meta = \<lparr>tm_price_increment = 1 / 100, tm_size_increment = 1 / 1000000,
     tm_min_size = 0, tm_max_size = 0\<rparr>"

definition plan_meta :: "universe \<Rightarrow> trade_plan \<Rightarrow> ticker_meta" where
  "plan_meta u plan =
     (case meta u (to_internal_ticker (plan_ticker plan)) of Some m \<Rightarrow> m | None \<Rightarrow> default_meta)"

definition floor_size :: "double \<Rightarrow> double \<Rightarrow> double" where
  "floor_size sz inc = real_of_int \<lfloor>sz / inc + 1 / 1000000000\<rfloor> * inc"

definition risk_usd_target :: "risk_config \<Rightarrow> account_state \<Rightarrow> double" where
  "risk_usd_target c st = acc_equity_usd st * rc_max_per_trade_risk_pct c / 100"

definition max_val_usd :: "risk_config \<Rightarrow> account_state \<Rightarrow> double" where
  "max_val_usd c st = acc_equity_usd st * rc_max_position_value_pct c / 100"

definition risk_of_size :: "trade_plan \<Rightarrow> double \<Rightarrow> double" where
  "risk_of_size plan sz = sz * plan_entry_price plan * stop_dist_bps plan / 10000"

definition raw_size :: "risk_config \<Rightarrow> trade_plan \<Rightarrow> account_state \<Rightarrow> double" where
  "raw_size c plan st = risk_usd_target c st / (plan_entry_price plan * stop_dist_bps plan / 10000)"

definition size_normalised :: "ticker_meta \<Rightarrow> bool" where
  "size_normalised m \<longleftrightarrow> 0 < tm_price_increment m \<and> 0 < tm_size_increment m"

definition first_size :: "risk_config \<Rightarrow> ticker_meta \<Rightarrow> trade_plan \<Rightarrow> account_state \<Rightarrow> double" where
  "first_size c m plan st =
     (if size_normalised m then floor_size (raw_size c plan st) (tm_size_increment m)
      else raw_size c plan st)"

definition capped_size :: "risk_config \<Rightarrow> ticker_meta \<Rightarrow> trade_plan \<Rightarrow> account_state \<Rightarrow> double" where
  "capped_size c m plan st =
     (let sz = max_val_usd c st / plan_entry_price plan
      in if 0 < tm_size_increment m then floor_size sz (tm_size_increment m) else sz)"

definition final_size :: "risk_config \<Rightarrow> ticker_meta \<Rightarrow> trade_plan \<Rightarrow> account_state \<Rightarrow> double" where
  "final_size c m plan st =
     (let sz = first_size c m plan st
      in if max_val_usd c st < sz * plan_entry_price plan then capped_size c m plan st else sz)"

definition margin_bad :: "risk_config \<Rightarrow> trade_plan \<Rightarrow> account_state \<Rightarrow> double \<Rightarrow> bool" where
  "margin_bad c plan st sz \<longleftrightarrow>
     acc_free_balance_usd st * rc_margin_safety_ratio c
       < sz * plan_entry_price plan / real_of_int (rc_max_leverage c)"

section \<open>The rules on the history, the news and the funding\<close>

text \<open>\<open>while (size > cap) pop_front\<close> and \<open>while (now - front > window) pop_front\<close>.\<close>

definition pop_over :: "int \<Rightarrow> 'a list \<Rightarrow> 'a list" where
  "pop_over cap xs = drop (nat (int (length xs) - cap)) xs"

definition pop_old :: "('a \<Rightarrow> time_point) \<Rightarrow> duration \<Rightarrow> time_point \<Rightarrow> 'a list \<Rightarrow> 'a list" where
  "pop_old stamp window now xs = dropWhile (\<lambda>x. window < now - stamp x) xs"

definition trim_trade_history :: "time_point \<Rightarrow> risk_manager \<Rightarrow> risk_manager" where
  "trim_trade_history now rm =
     rm\<lparr>rm_trade_history := pop_old id (minutes (rc_trades_window_min (rm_cfg rm))) now
          (pop_over (rc_max_trade_history (rm_cfg rm)) (rm_trade_history rm))\<rparr>"

text \<open>The comparison is made in \<open>size_t\<close>: a negative limit would be a huge one.\<close>

definition size_t_of :: "int \<Rightarrow> int" where
  "size_t_of n = n mod 18446744073709551616"

definition rate_limited :: "risk_manager \<Rightarrow> bool" where
  "rate_limited rm \<longleftrightarrow> size_t_of (rc_max_trades_per_window (rm_cfg rm)) \<le> int (length (rm_trade_history rm))"

definition cooling_off :: "time_point \<Rightarrow> risk_manager \<Rightarrow> bool" where
  "cooling_off now rm \<longleftrightarrow>
     rm_last_loss_streak_ts rm \<noteq> 0 \<and>
     now - rm_last_loss_streak_ts rm < minutes (rc_loss_streak_cooloff_min (rm_cfg rm))"

definition clear_loss_streak :: "risk_manager \<Rightarrow> risk_manager" where
  "clear_loss_streak rm =
     (if rm_last_loss_streak_ts rm \<noteq> 0
      then rm\<lparr>rm_loss_history := [], rm_last_loss_streak_ts := 0\<rparr> else rm)"

definition news_near :: "risk_config \<Rightarrow> news_calendar \<Rightarrow> time_point \<Rightarrow> ticker \<Rightarrow> bool" where
  "news_near c nc now key =
     (case minutes_to_next_news nc now key of
        Some m \<Rightarrow> \<bar>m\<bar> \<le> rc_news_blackout_min c | None \<Rightarrow> False)"

definition news_stale :: "risk_config \<Rightarrow> news_calendar \<Rightarrow> time_point \<Rightarrow> bool" where
  "news_stale c nc now \<longleftrightarrow>
     (case minutes_since_latest_event nc now of
        Some m \<Rightarrow> rc_news_calendar_check_min c * 60 < m | None \<Rightarrow> False) \<or>
     (case minutes_to_next_news nc now '''' of
        Some m \<Rightarrow> rc_news_calendar_check_min c * 60 < m | None \<Rightarrow> False)"

definition funding_pre :: "risk_manager \<Rightarrow> time_point \<Rightarrow> ticker \<Rightarrow> bool" where
  "funding_pre rm now key =
     (case map_of (rm_funding_times rm) key of
        None \<Rightarrow> False
      | Some next_funding \<Rightarrow>
          (let secs = to_seconds (next_funding - now)
           in 0 < secs \<and> secs \<le> rc_funding_blackout_pre_sec (rm_cfg rm)))"

definition funding_post :: "risk_manager \<Rightarrow> time_point \<Rightarrow> ticker \<Rightarrow> bool" where
  "funding_post rm now key =
     (case map_of (rm_prev_funding_times rm) key of
        None \<Rightarrow> False
      | Some prev \<Rightarrow>
          (let secs = to_seconds (now - prev)
           in 0 \<le> secs \<and> secs \<le> rc_funding_blackout_post_sec (rm_cfg rm)))"

definition slippage_bad :: "risk_config \<Rightarrow> trade_plan \<Rightarrow> account_state \<Rightarrow> bool" where
  "slippage_bad c plan st \<longleftrightarrow>
     0 < acc_mark_price st \<and>
     rc_max_entry_slippage_bps c
       < \<bar>acc_mark_price st - plan_entry_price plan\<bar> / acc_mark_price st * 10000"

definition late_rules ::
  "risk_manager \<Rightarrow> news_calendar \<Rightarrow> time_point \<Rightarrow> trade_plan \<Rightarrow> account_state \<Rightarrow> (bool \<times> reject_reason) list" where
  "late_rules rm nc now plan st =
     (let c = rm_cfg rm; key = to_internal_ticker (plan_ticker plan) in
     [(news_near c nc now key, NewsBlackout),
      (news_stale c nc now \<and> rc_news_calendar_require_fresh c, NewsBlackout),
      (funding_pre rm now key, FundingBlackout),
      (funding_post rm now key, FundingBlackout),
      (slippage_bad c plan st, EntrySlippageExceeded)])"

section \<open>Evaluation\<close>

definition reject :: "reject_reason \<Rightarrow> double \<Rightarrow> double \<Rightarrow> risk_decision" where
  "reject r sz risk =
     \<lparr>rd_accepted = False, rd_reason = r, rd_adjusted_size_coin = sz, rd_risk_usd = risk\<rparr>"

definition evaluate ::
  "universe \<Rightarrow> news_calendar \<Rightarrow> time_point \<Rightarrow> time_point \<Rightarrow> trade_plan \<Rightarrow> account_state
     \<Rightarrow> risk_manager \<Rightarrow> risk_decision \<times> risk_manager" where
  "evaluate u nc now later plan st rm =
     (let c = rm_cfg rm; m = plan_meta u plan in
      case first_hit (plan_rules c u now plan st) of
        Some r \<Rightarrow> (reject r 0 0, rm)
      | None \<Rightarrow>
          let sz0 = first_size c m plan st in
          if size_normalised m \<and> sz0 < tm_min_size m then (reject SizeBelowMinimum sz0 0, rm)
          else
            let sz = final_size c m plan st; risk = risk_of_size plan sz in
            if margin_bad c plan st sz then (reject InsufficientMargin sz risk, rm)
            else
              let rm1 = trim_trade_history now rm in
              if rate_limited rm1 then (reject TradeRateLimitHit sz risk, rm1)
              else if cooling_off now rm1 then (reject LossStreakCircuitBreaker sz risk, rm1)
              else
                let rm2 = clear_loss_streak rm1 in
                case first_hit (late_rules rm2 nc now plan st) of
                  Some r \<Rightarrow> (reject r sz risk, rm2)
                | None \<Rightarrow>
                    (\<lparr>rd_accepted = True, rd_reason = NoReject, rd_adjusted_size_coin = sz,
                      rd_risk_usd = risk\<rparr>,
                     rm2\<lparr>rm_trade_history := rm_trade_history rm2 @ [later]\<rparr>))"

definition update_funding_time :: "ticker \<Rightarrow> time_point \<Rightarrow> time_point \<Rightarrow> risk_manager \<Rightarrow> risk_manager" where
  "update_funding_time t ts now rm =
     (let key = to_internal_ticker t;
          rm1 = (case map_of (rm_funding_times rm) key of
                   Some old \<Rightarrow> rm\<lparr>rm_prev_funding_times := omap_put (<) key old (rm_prev_funding_times rm)\<rparr>
                 | None \<Rightarrow>
                     if ts < now
                     then rm\<lparr>rm_prev_funding_times := omap_put (<) key ts (rm_prev_funding_times rm)\<rparr>
                     else rm)
      in rm1\<lparr>rm_funding_times := omap_put (<) key ts (rm_funding_times rm1)\<rparr>)"

definition consecutive_losses :: "(time_point \<times> bool) list \<Rightarrow> int" where
  "consecutive_losses h = int (length (takeWhile snd (rev h)))"

definition record_trade_end :: "bool \<Rightarrow> time_point \<Rightarrow> risk_manager \<Rightarrow> risk_manager" where
  "record_trade_end is_loss ts rm =
     (let c = rm_cfg rm;
          h = pop_old fst (minutes (rc_loss_streak_window_min c)) ts
                (pop_over (rc_max_loss_history c) (rm_loss_history rm @ [(ts, is_loss)]));
          rm1 = rm\<lparr>rm_loss_history := h\<rparr>
      in if rc_max_consecutive_losses c \<le> consecutive_losses h
         then rm1\<lparr>rm_last_loss_streak_ts := ts\<rparr> else rm1)"

end
