(* ===== verification/Executor.thy ===== *)
theory Executor
  imports Domain
begin

text \<open>
  The contract of \<open>executor/IExecutor.hpp\<close> that the application's loop relies on: an executor
  appends the trades it closes to a buffer, \<open>pop_closed_trades\<close> hands the buffer over and
  empties it, and no other operation takes anything out of it. The loop that pops once per tick
  then sees every closed trade exactly once and in order. Both executors interpret it.
\<close>

datatype 'e loop_step = Event 'e | PopClosed

locale closed_trade_source =
  fixes step :: "'e \<Rightarrow> 's \<Rightarrow> 's"
    and closed :: "'s \<Rightarrow> closed_trade list"
    and pop :: "'s \<Rightarrow> closed_trade list \<times> 's"
  assumes step_appends: "\<exists>new. closed (step e s) = closed s @ new"
    and pop_returns: "fst (pop s) = closed s"
    and pop_empties: "closed (snd (pop s)) = []"
begin

text \<open>The trades an operation closes, and the loop: what it was handed and the final state.\<close>

definition newly_closed :: "'e \<Rightarrow> 's \<Rightarrow> closed_trade list" where
  "newly_closed e s = drop (length (closed s)) (closed (step e s))"

fun loop :: "'e loop_step list \<Rightarrow> 's \<Rightarrow> closed_trade list \<times> 's" where
  "loop [] s = ([], s)"
| "loop (Event e # es) s = loop es (step e s)"
| "loop (PopClosed # es) s =
     (case pop s of (out, s') \<Rightarrow> (case loop es s' of (outs, s'') \<Rightarrow> (out @ outs, s'')))"

fun all_closed :: "'e loop_step list \<Rightarrow> 's \<Rightarrow> closed_trade list" where
  "all_closed [] s = []"
| "all_closed (Event e # es) s = newly_closed e s @ all_closed es (step e s)"
| "all_closed (PopClosed # es) s = all_closed es (snd (pop s))"

lemma step_closed: "closed (step e s) = closed s @ newly_closed e s"
  using step_appends [of e s] by (auto simp: newly_closed_def)

lemma loop_delivers: "fst (loop es s) @ closed (snd (loop es s)) = closed s @ all_closed es s"
proof (induction es arbitrary: s)
  case Nil
  then show ?case by simp
next
  case (Cons x es)
  show ?case
  proof (cases x)
    case (Event e)
    then show ?thesis using Cons.IH by (simp add: step_closed)
  next
    case PopClosed
    then show ?thesis
      using Cons.IH [of "snd (pop s)"] pop_returns [of s] pop_empties [of s]
      by (simp add: case_prod_beta)
  qed
qed

lemma loop_append: "loop (es @ fs) s =
    (case loop es s of (out, s') \<Rightarrow> (case loop fs s' of (out', s'') \<Rightarrow> (out @ out', s'')))"
proof (induction es arbitrary: s)
  case Nil
  then show ?case by (simp add: case_prod_beta)
next
  case (Cons x es)
  then show ?case by (cases x) (simp_all add: case_prod_beta)
qed

lemma loop_delivers_all: "fst (loop (es @ [PopClosed]) s) = closed s @ all_closed es s"
  using loop_delivers [of es s] pop_returns by (simp add: loop_append case_prod_beta)

end

end
