(* ===== verification/Live.thy ===== *)
theory Live
  imports Risk Reconciliator Executor
begin

text \<open>
  The live executor, \<open>executor/LiveExecutor.{hpp,cpp}\<close>: it submits plans, follows the order
  updates of the exchange, protects open positions with stops and targets, closes positions
  on timeouts and losses, and lets the reconciliator settle the submissions whose outcome is
  unknown.

  The order gateway is a parameter: for each call an answer, an error or a result, that may
  depend on all the calls before it. The calls made are part of the state. The clock and the
  generated client order id are arguments. The alert callback is represented by the alerts it
  gets. Metrics and the latency histogram are left out. The mutex makes each critical section
  one step; \<open>submit\<close> and \<open>tick\<close>, which release it around their calls to the gateway, are
  composed from the definitions of their sections.
\<close>

section \<open>The gateway\<close>

datatype gw_call =
    PlaceOrder place_order_request | CancelOrder int ticker | CancelAllOrders ticker | GetOpenOrders ticker

record gateway =
  gw_place :: "gw_call list \<Rightarrow> place_order_request \<Rightarrow> string + int"
  gw_cancel :: "gw_call list \<Rightarrow> int \<Rightarrow> ticker \<Rightarrow> string + unit"
  gw_cancel_all :: "gw_call list \<Rightarrow> ticker \<Rightarrow> string + unit"
  gw_open_orders :: "gw_call list \<Rightarrow> ticker \<Rightarrow> string + rest_order list"

section \<open>State\<close>

record live_config =
  lc_min_partial_fill_ratio :: double
  lc_exchange_error_streak_limit :: int
  lc_balance_reservation_timeout :: duration
  lc_max_entry_slippage_bps :: double
  lc_max_single_position_loss_pct :: double

definition live_config_default :: live_config where
  "live_config_default =
     \<lparr>lc_min_partial_fill_ratio = 1 / 2, lc_exchange_error_streak_limit = 5,
      lc_balance_reservation_timeout = milliseconds 1000, lc_max_entry_slippage_bps = 5,
      lc_max_single_position_loss_pct = 3 / 2\<rparr>"

datatype live_alert =
    ErrorStreak int | R15CloseFailed ticker | BEStopPlaceFailed ticker | UnknownTimedOut ticker
  | NoSizeForStops ticker | SLPlaceFailed ticker string | TP1PlaceFailed ticker string

record live =
  lx_cfg :: live_config
  lx_trades :: "(ticker, active_trade list) omap"
  lx_closed :: "closed_trade list"
  lx_marks :: "(ticker, double) omap"
  lx_snapshot :: "active_trade list"
  lx_recon :: reconciliator
  lx_error_streak :: int
  lx_reserved :: double
  lx_last_balance_update :: time_point
  lx_alert_cb :: bool
  lx_alerts :: "live_alert list"
  lx_calls :: "gw_call list"

definition live_new :: "live_config \<Rightarrow> live" where
  "live_new cfg =
     \<lparr>lx_cfg = cfg, lx_trades = [], lx_closed = [], lx_marks = [], lx_snapshot = [],
      lx_recon = reconciliator_new recon_config_default, lx_error_streak = 0, lx_reserved = 0,
      lx_last_balance_update = 0, lx_alert_cb = False, lx_alerts = [], lx_calls = []\<rparr>"

definition set_alert_callback :: "live \<Rightarrow> live" where
  "set_alert_callback lx = lx\<lparr>lx_alert_cb := True\<rparr>"

definition alert :: "live_alert \<Rightarrow> live \<Rightarrow> live" where
  "alert a lx = (if lx_alert_cb lx then lx\<lparr>lx_alerts := lx_alerts lx @ [a]\<rparr> else lx)"

definition place_order :: "gateway \<Rightarrow> place_order_request \<Rightarrow> live \<Rightarrow> (string + int) \<times> live" where
  "place_order gw req lx =
     (gw_place gw (lx_calls lx) req, lx\<lparr>lx_calls := lx_calls lx @ [PlaceOrder req]\<rparr>)"

definition cancel_order :: "gateway \<Rightarrow> int \<Rightarrow> ticker \<Rightarrow> live \<Rightarrow> (string + unit) \<times> live" where
  "cancel_order gw i t lx =
     (gw_cancel gw (lx_calls lx) i t, lx\<lparr>lx_calls := lx_calls lx @ [CancelOrder i t]\<rparr>)"

text \<open>Cancelling an order that may not be there: whether there is none left, and the state.\<close>

definition cancel_if_set :: "gateway \<Rightarrow> int \<Rightarrow> ticker \<Rightarrow> live \<Rightarrow> bool \<times> live" where
  "cancel_if_set gw i t lx =
     (if i = 0 then (True, lx)
      else (case cancel_order gw i t lx of (Inl _, lx') \<Rightarrow> (False, lx') | (Inr _, lx') \<Rightarrow> (True, lx')))"

section \<open>The snapshot\<close>

definition snapshot_trade :: "(ticker, double) omap \<Rightarrow> ticker \<Rightarrow> active_trade \<Rightarrow> active_trade" where
  "snapshot_trade marks t tr =
     (case map_of marks t of
        Some mark \<Rightarrow>
          if at_state tr = Open
          then tr\<lparr>at_unrealized_pnl :=
                    side_pnl (plan_side (at_plan tr)) (at_avg_entry_price tr) mark (at_executed_size tr)\<rparr>
          else tr
      | None \<Rightarrow> tr)"

definition active_view :: "live \<Rightarrow> active_trade list" where
  "active_view lx = concat (map (\<lambda>(t, trs). map (snapshot_trade (lx_marks lx) t) trs) (lx_trades lx))"

definition rebuild_active_snapshot :: "live \<Rightarrow> live" where
  "rebuild_active_snapshot lx = lx\<lparr>lx_snapshot := active_view lx\<rparr>"

definition get_active_trades :: "live \<Rightarrow> active_trade list" where
  "get_active_trades lx = lx_snapshot lx"

definition trades_of :: "live \<Rightarrow> ticker \<Rightarrow> active_trade list" where
  "trades_of lx t = (case map_of (lx_trades lx) t of Some trs \<Rightarrow> trs | None \<Rightarrow> [])"

definition set_trades :: "ticker \<Rightarrow> active_trade list \<Rightarrow> live \<Rightarrow> live" where
  "set_trades t trs lx = lx\<lparr>lx_trades := omap_put (<) t trs (lx_trades lx)\<rparr>"

definition push_trade :: "ticker \<Rightarrow> active_trade \<Rightarrow> live \<Rightarrow> live" where
  "push_trade t tr lx = set_trades t (trades_of lx t @ [tr]) lx"

section \<open>Submission\<close>

definition reservation :: "trade_plan \<Rightarrow> double" where
  "reservation plan = plan_size_coin plan * plan_entry_price plan"

definition release :: "trade_plan \<Rightarrow> live \<Rightarrow> live" where
  "release plan lx = lx\<lparr>lx_reserved := max 0 (lx_reserved lx - reservation plan)\<rparr>"

definition entry_request :: "string \<Rightarrow> trade_plan \<Rightarrow> place_order_request" where
  "entry_request cid plan =
     \<lparr>req_ticker = plan_ticker plan, req_side = plan_side plan, req_price = plan_entry_price plan,
      req_size = plan_size_coin plan, req_type = plan_entry_type plan, req_reduce_only = False,
      req_client_order_id = cid\<rparr>"

definition new_trade :: "string \<Rightarrow> trade_plan \<Rightarrow> trade_state \<Rightarrow> active_trade" where
  "new_trade cid plan s =
     active_trade_default\<lparr>at_plan := plan, at_state := s, at_entry_client_order_id := cid\<rparr>"

text \<open>
  The three parts of \<open>submit\<close>: the reservation, under the lock; the call to the gateway,
  without it; and the registration of the trade, under the lock again.
\<close>

definition submit_begin :: "trade_plan \<Rightarrow> live \<Rightarrow> live" where
  "submit_begin plan lx = lx\<lparr>lx_reserved := lx_reserved lx + reservation plan\<rparr>"

definition submit_end :: "string \<Rightarrow> time_point \<Rightarrow> trade_plan \<Rightarrow> string + int \<Rightarrow> live \<Rightarrow> live" where
  "submit_end cid now plan answer lx =
     (case answer of
        Inr _ \<Rightarrow>
          rebuild_active_snapshot
            ((push_trade (plan_ticker plan) (new_trade cid plan PendingEntry) lx)\<lparr>lx_error_streak := 0\<rparr>)
      | Inl _ \<Rightarrow>
          let streak = lx_error_streak lx + 1;
              lx1 = lx\<lparr>lx_error_streak := streak\<rparr>;
              lx2 = (if lc_exchange_error_streak_limit (lx_cfg lx) \<le> streak
                     then alert (ErrorStreak streak) lx1 else lx1);
              lx3 = release plan lx2;
              intent = \<lparr>oi_local_order_id = 0, oi_ticker = plan_ticker plan, oi_side = plan_side plan,
                        oi_type = plan_entry_type plan, oi_price = plan_entry_price plan,
                        oi_size = plan_size_coin plan\<rparr>;
              lx4 = lx3\<lparr>lx_recon := snd (enter_submit_unknown intent now (lx_recon lx3))\<rparr>
          in rebuild_active_snapshot
               (push_trade (plan_ticker plan) (new_trade cid plan SubmitUnknown) lx4))"

definition live_submit :: "gateway \<Rightarrow> string \<Rightarrow> time_point \<Rightarrow> trade_plan \<Rightarrow> live \<Rightarrow> live" where
  "live_submit gw cid now plan lx =
     (case place_order gw (entry_request cid plan) (submit_begin plan lx) of
        (answer, lx') \<Rightarrow> submit_end cid now plan answer lx')"

text \<open>\<open>cancel_all\<close>: an error of the gateway escapes before any trade is touched.\<close>

fun cancel_trades :: "active_trade list \<Rightarrow> live \<Rightarrow> active_trade list \<times> live" where
  "cancel_trades [] lx = ([], lx)"
| "cancel_trades (t # ts) lx =
     (if at_state t \<noteq> Closed then
        (case cancel_trades ts (if at_state t = PendingEntry then release (at_plan t) lx else lx) of
           (ts', lx') \<Rightarrow> (t\<lparr>at_state := Cancelling\<rparr> # ts', lx'))
      else (case cancel_trades ts lx of (ts', lx') \<Rightarrow> (t # ts', lx')))"

definition live_cancel_all :: "gateway \<Rightarrow> ticker \<Rightarrow> live \<Rightarrow> string option \<times> live" where
  "live_cancel_all gw t lx =
     (let lx1 = lx\<lparr>lx_calls := lx_calls lx @ [CancelAllOrders t]\<rparr> in
      case gw_cancel_all gw (lx_calls lx) t of
        Inl err \<Rightarrow> (Some err, lx1)
      | Inr _ \<Rightarrow>
          (None,
           rebuild_active_snapshot
             (case map_of (lx_trades lx1) t of
                None \<Rightarrow> lx1
              | Some trs \<Rightarrow> (case cancel_trades trs lx1 of (trs', lx2) \<Rightarrow> set_trades t trs' lx2))))"

definition live_inject :: "active_trade list \<Rightarrow> live \<Rightarrow> live" where
  "live_inject ts lx =
     rebuild_active_snapshot (fold (\<lambda>tr. push_trade (plan_ticker (at_plan tr)) tr) ts lx)"

definition live_pop_closed :: "live \<Rightarrow> closed_trade list \<times> live" where
  "live_pop_closed lx =
     (lx_closed lx,
      rebuild_active_snapshot
        (lx\<lparr>lx_closed := [],
            lx_trades := map (\<lambda>(t, trs). (t, filter (\<lambda>tr. at_state tr \<noteq> Closed) trs)) (lx_trades lx)\<rparr>))"

definition live_set_mark_prices :: "(ticker, double) omap \<Rightarrow> live \<Rightarrow> live" where
  "live_set_mark_prices marks lx = rebuild_active_snapshot (lx\<lparr>lx_marks := marks\<rparr>)"

definition live_set_mark_price :: "ticker \<Rightarrow> double \<Rightarrow> live \<Rightarrow> live" where
  "live_set_mark_price t price lx =
     rebuild_active_snapshot (lx\<lparr>lx_marks := omap_put (<) t price (lx_marks lx)\<rparr>)"

section \<open>Protecting and closing a trade\<close>

definition exit_request :: "trade_plan \<Rightarrow> order_type \<Rightarrow> double \<Rightarrow> double \<Rightarrow> place_order_request" where
  "exit_request plan ty price sz =
     \<lparr>req_ticker = plan_ticker plan, req_side = opposite (plan_side plan), req_price = price,
      req_size = sz, req_type = ty, req_reduce_only = True, req_client_order_id = ''''\<rparr>"

definition place_stop_loss :: "gateway \<Rightarrow> active_trade \<Rightarrow> live \<Rightarrow> active_trade \<times> live" where
  "place_stop_loss gw tr lx =
     (case place_order gw (exit_request (at_plan tr) StopLoss (plan_stop_price (at_plan tr)) (at_executed_size tr)) lx of
        (Inr i, lx') \<Rightarrow> (tr\<lparr>at_stop_order_id := i\<rparr>, lx')
      | (Inl err, lx') \<Rightarrow> (tr, alert (SLPlaceFailed (plan_ticker (at_plan tr)) err) lx'))"

definition live_meta :: "universe \<Rightarrow> ticker \<Rightarrow> ticker_meta" where
  "live_meta u t = (case meta u t of Some m \<Rightarrow> m | None \<Rightarrow> default_meta)"

definition tp1_size :: "universe \<Rightarrow> active_trade \<Rightarrow> double" where
  "tp1_size u tr =
     (let m = live_meta u (plan_ticker (at_plan tr));
          raw = at_executed_size tr * plan_tp1_size_ratio (at_plan tr)
      in if 0 < tm_size_increment m then floor_size raw (tm_size_increment m) else raw)"

definition place_tp1 :: "gateway \<Rightarrow> universe \<Rightarrow> active_trade \<Rightarrow> live \<Rightarrow> active_trade \<times> live" where
  "place_tp1 gw u tr lx =
     (if tm_min_size (live_meta u (plan_ticker (at_plan tr))) \<le> tp1_size u tr then
        (case place_order gw (exit_request (at_plan tr) TakeProfit (plan_tp1_price (at_plan tr)) (tp1_size u tr)) lx of
           (Inr i, lx') \<Rightarrow> (tr\<lparr>at_tp1_order_id := i\<rparr>, lx')
         | (Inl err, lx') \<Rightarrow> (tr, alert (TP1PlaceFailed (plan_ticker (at_plan tr)) err) lx'))
      else (tr, lx))"

definition place_stops :: "gateway \<Rightarrow> universe \<Rightarrow> active_trade \<Rightarrow> live \<Rightarrow> active_trade \<times> live" where
  "place_stops gw u tr lx =
     (let t = plan_ticker (at_plan tr) in
      if at_state tr \<noteq> Open then (tr, lx)
      else if at_executed_size tr \<le> 0 then (tr, alert (NoSizeForStops t) lx)
      else
        (case cancel_if_set gw (at_stop_order_id tr) t lx of
           (False, lx1) \<Rightarrow> (tr, lx1)
         | (True, lx1) \<Rightarrow>
             let tr1 = tr\<lparr>at_stop_order_id := 0\<rparr> in
             (case cancel_if_set gw (at_tp1_order_id tr1) t lx1 of
                (tp1_ok, lx2) \<Rightarrow>
                  let tr2 = (if tp1_ok then tr1\<lparr>at_tp1_order_id := 0\<rparr> else tr1) in
                  (case place_stop_loss gw tr2 lx2 of
                     (tr3, lx3) \<Rightarrow>
                       if 0 < plan_tp1_price (at_plan tr) \<and> tp1_ok then place_tp1 gw u tr3 lx3
                       else (tr3, lx3)))))"

definition estimated_exit :: "live \<Rightarrow> active_trade \<Rightarrow> double" where
  "estimated_exit lx tr =
     (case map_of (lx_marks lx) (plan_ticker (at_plan tr)) of
        Some m \<Rightarrow> if 0 < m then m else at_avg_entry_price tr
      | None \<Rightarrow> at_avg_entry_price tr)"

definition closed_at :: "active_trade \<Rightarrow> double \<Rightarrow> double \<Rightarrow> string \<Rightarrow> closed_trade" where
  "closed_at tr exit_price sz reason =
     \<lparr>ct_plan = at_plan tr, ct_entry_price = at_avg_entry_price tr, ct_exit_price = exit_price,
      ct_size_filled = sz,
      ct_pnl_usd = side_pnl (plan_side (at_plan tr)) (at_avg_entry_price tr) exit_price sz,
      ct_reason = fixed_string 32 reason\<rparr>"

definition record_closed :: "closed_trade \<Rightarrow> live \<Rightarrow> live" where
  "record_closed c lx = lx\<lparr>lx_closed := lx_closed lx @ [c]\<rparr>"

definition record_emergency_close :: "active_trade \<Rightarrow> string \<Rightarrow> live \<Rightarrow> live" where
  "record_emergency_close tr reason lx =
     record_closed (closed_at tr (estimated_exit lx tr) (at_executed_size tr) reason) lx"

definition emergency_close_trade :: "gateway \<Rightarrow> active_trade \<Rightarrow> live \<Rightarrow> active_trade \<times> live" where
  "emergency_close_trade gw tr lx =
     (let t = plan_ticker (at_plan tr);
          lx1 = snd (cancel_if_set gw (at_stop_order_id tr) t lx);
          lx2 = snd (cancel_if_set gw (at_tp1_order_id tr) t lx1);
          tr1 = tr\<lparr>at_stop_order_id := 0, at_tp1_order_id := 0\<rparr>
      in case place_order gw (exit_request (at_plan tr) Market 0 (at_executed_size tr)) lx2 of
           (Inr _, lx3) \<Rightarrow> (tr1\<lparr>at_state := Closed\<rparr>, lx3)
         | (Inl _, lx3) \<Rightarrow> (tr1, lx3))"

fun close_open_trades :: "gateway \<Rightarrow> string \<Rightarrow> active_trade list \<Rightarrow> live \<Rightarrow> active_trade list \<times> live" where
  "close_open_trades gw reason [] lx = ([], lx)"
| "close_open_trades gw reason (tr # trs) lx =
     (if at_state tr \<noteq> Open \<or> at_executed_size tr \<le> 0
      then (case close_open_trades gw reason trs lx of (trs', lx') \<Rightarrow> (tr # trs', lx'))
      else (case emergency_close_trade gw tr lx of
              (tr', lx1) \<Rightarrow>
                (case close_open_trades gw reason trs (record_emergency_close tr' reason lx1) of
                   (trs', lx') \<Rightarrow> (tr' # trs', lx'))))"

definition live_close_trade :: "gateway \<Rightarrow> ticker \<Rightarrow> string \<Rightarrow> live \<Rightarrow> live" where
  "live_close_trade gw t reason lx =
     rebuild_active_snapshot
       (case map_of (lx_trades lx) t of
          None \<Rightarrow> lx
        | Some trs \<Rightarrow> (case close_open_trades gw reason trs lx of (trs', lx') \<Rightarrow> set_trades t trs' lx'))"

end
