(* ===== verification/LiveHandlers.thy ===== *)
theory LiveHandlers
  imports Live
begin

text \<open>
  The live executor's reactions, \<open>executor/LiveExecutor.cpp\<close> from \<open>on_order_update\<close> on: matching
  an order update to a trade and acting on it, position and balance updates, the periodic
  \<open>tick\<close> with its close actions, and the results of the reconciliator.
\<close>

section \<open>Matching an order update\<close>

record order_match =
  om_entry :: bool
  om_stop :: bool
  om_tp1 :: bool
  om_tp2 :: bool

definition om_any :: "order_match \<Rightarrow> bool" where
  "om_any m \<longleftrightarrow> om_entry m \<or> om_stop m \<or> om_tp1 m \<or> om_tp2 m"

definition same_order :: "order_update \<Rightarrow> int \<Rightarrow> bool" where
  "same_order upd i \<longleftrightarrow> ou_order_id upd \<noteq> 0 \<and> ou_order_id upd = i"

definition match_by_client_id :: "order_update \<Rightarrow> active_trade \<Rightarrow> bool" where
  "match_by_client_id upd tr \<longleftrightarrow>
     ou_client_order_id upd \<noteq> [] \<and> at_entry_client_order_id tr \<noteq> [] \<and>
     ou_client_order_id upd = at_entry_client_order_id tr \<and> at_entry_order_id tr = 0"

definition size_close :: "order_update \<Rightarrow> active_trade \<Rightarrow> bool" where
  "size_close upd tr \<longleftrightarrow>
     (let max_size = max (plan_size_coin (at_plan tr)) (ou_size upd);
          epsilon = max (1 / 1000000) (max_size * (1 / 10000))
      in \<bar>plan_size_coin (at_plan tr) - ou_size upd\<bar> < epsilon)"

text \<open>
  The order ids a trade claims from the update, and what the update is to the trade: known by
  id, by client id, or the first update of an order that fits the trade.
\<close>

definition claim_ids :: "order_update \<Rightarrow> active_trade \<Rightarrow> active_trade \<times> order_match" where
  "claim_ids upd tr =
     (let by_entry = same_order upd (at_entry_order_id tr);
          by_stop = same_order upd (at_stop_order_id tr);
          by_tp1 = same_order upd (at_tp1_order_id tr);
          by_tp2 = same_order upd (at_tp2_order_id tr);
          by_client = match_by_client_id upd tr;
          tr1 = (if by_client then tr\<lparr>at_entry_order_id := ou_order_id upd\<rparr> else tr);
          fresh = \<not> by_entry \<and> \<not> by_client \<and> \<not> by_stop \<and> \<not> by_tp1 \<and> \<not> by_tp2;
          side_eq = ou_side upd = plan_side (at_plan tr);
          fresh_entry = fresh \<and> at_entry_order_id tr1 = 0 \<and>
            (ou_type upd = Limit \<or> ou_type upd = Market) \<and> side_eq \<and> size_close upd tr;
          fresh_stop = fresh \<and> at_stop_order_id tr1 = 0 \<and> ou_type upd = StopLoss \<and> \<not> side_eq;
          fresh_tp1 = fresh \<and> at_tp1_order_id tr1 = 0 \<and> ou_type upd = TakeProfit \<and> \<not> side_eq;
          tr2 = (if fresh_entry then tr1\<lparr>at_entry_order_id := ou_order_id upd\<rparr> else tr1);
          tr3 = (if fresh_stop then tr2\<lparr>at_stop_order_id := ou_order_id upd\<rparr> else tr2);
          tr4 = (if fresh_tp1 then tr3\<lparr>at_tp1_order_id := ou_order_id upd\<rparr> else tr3)
      in (tr4, \<lparr>om_entry = by_entry \<or> by_client \<or> fresh_entry, om_stop = by_stop \<or> fresh_stop,
                om_tp1 = by_tp1 \<or> fresh_tp1, om_tp2 = by_tp2\<rparr>))"

section \<open>Acting on an order update\<close>

text \<open>A partial fill of the entry, reported with the status open.\<close>

definition on_open_status ::
  "gateway \<Rightarrow> universe \<Rightarrow> order_update \<Rightarrow> order_match \<Rightarrow> active_trade \<Rightarrow> live \<Rightarrow> active_trade \<times> live" where
  "on_open_status gw u upd m tr lx =
     (if om_entry m \<and> 0 < ou_filled_size upd then
        (case (if at_state tr \<noteq> Open
               then place_stops gw u (tr\<lparr>at_state := Open, at_opened_at := ou_time upd\<rparr>) lx
               else (tr, lx)) of
           (tr1, lx1) \<Rightarrow>
             (tr1\<lparr>at_executed_size := at_executed_size tr1 + ou_filled_size upd,
                  at_avg_entry_price := ou_filled_price upd\<rparr>, lx1))
      else (tr, lx))"

text \<open>\<open>entry_slippage_bps > max\<close>, with a zero planned price giving an infinite slippage or NaN.\<close>

definition entry_slipped :: "live_config \<Rightarrow> active_trade \<Rightarrow> bool" where
  "entry_slipped c tr \<longleftrightarrow>
     (let e = plan_entry_price (at_plan tr); a = at_avg_entry_price tr in
      if e = 0 then a \<noteq> 0 else lc_max_entry_slippage_bps c < \<bar>a - e\<bar> / e * 10000)"

definition on_entry_filled ::
  "gateway \<Rightarrow> universe \<Rightarrow> order_update \<Rightarrow> active_trade \<Rightarrow> live \<Rightarrow> active_trade \<times> live" where
  "on_entry_filled gw u upd tr lx =
     (let tr1 = tr\<lparr>at_state := Open, at_executed_size := ou_filled_size upd,
                   at_avg_entry_price := ou_filled_price upd, at_opened_at := ou_time upd\<rparr> in
      if entry_slipped (lx_cfg lx) tr1 then
        (case place_order gw (exit_request (at_plan tr1) Market 0 (ou_filled_size upd)) lx of
           (Inr _, lx1) \<Rightarrow> (tr1\<lparr>at_state := EmergencyClosing\<rparr>, lx1)
         | (Inl _, lx1) \<Rightarrow> (tr1, alert (R15CloseFailed (ou_ticker upd)) lx1))
      else place_stops gw u tr1 lx)"

definition on_tp1_filled :: "gateway \<Rightarrow> order_update \<Rightarrow> active_trade \<Rightarrow> live \<Rightarrow> active_trade \<times> live" where
  "on_tp1_filled gw upd tr lx =
     (let tr1 = tr\<lparr>at_tp1_filled := True\<rparr>;
          lx1 = snd (cancel_if_set gw (at_stop_order_id tr1) (ou_ticker upd) lx);
          tr2 = tr1\<lparr>at_stop_order_id := 0\<rparr>;
          remaining = max 0 (at_executed_size tr2 - ou_filled_size upd)
      in if 1 / 1000000 < remaining \<and> 0 < at_avg_price_fix tr2 then
           (case place_order gw (exit_request (at_plan tr2) StopLoss (at_avg_price_fix tr2) remaining) lx1 of
              (Inr _, lx2) \<Rightarrow> (tr2, lx2)
            | (Inl _, lx2) \<Rightarrow>
                (case emergency_close_trade gw tr2 (alert (BEStopPlaceFailed (plan_ticker (at_plan tr2))) lx2) of
                   (tr3, lx3) \<Rightarrow> (tr3, record_emergency_close tr3 ''BEStopFailed'' lx3)))
         else (tr2, lx1))"

definition exit_reason :: "order_match \<Rightarrow> active_trade \<Rightarrow> string" where
  "exit_reason m tr =
     (if om_stop m then ''StopLoss'' else if om_tp2 m then ''TP2''
      else if at_tp1_filled tr then ''TP1_Remainder'' else ''TP1'')"

definition on_exit_filled :: "order_update \<Rightarrow> order_match \<Rightarrow> active_trade \<Rightarrow> live \<Rightarrow> active_trade \<times> live" where
  "on_exit_filled upd m tr lx =
     (tr\<lparr>at_state := Closed\<rparr>,
      record_closed (closed_at tr (ou_filled_price upd) (ou_filled_size upd) (exit_reason m tr)) lx)"

definition on_closed_status ::
  "gateway \<Rightarrow> universe \<Rightarrow> order_update \<Rightarrow> order_match \<Rightarrow> active_trade \<Rightarrow> live \<Rightarrow> active_trade \<times> live" where
  "on_closed_status gw u upd m tr lx =
     (let lx1 = (if om_entry m then release (at_plan tr) lx else lx) in
      if ou_filled_size upd \<le> 0 then
        (if om_stop m \<or> om_tp1 m \<or> om_tp2 m then (tr, lx1) else (tr\<lparr>at_state := Closed\<rparr>, lx1))
      else if om_entry m then on_entry_filled gw u upd tr lx1
      else if om_tp1 m \<and> \<not> at_tp1_filled tr then on_tp1_filled gw upd tr lx1
      else if om_stop m \<or> om_tp2 m \<or> om_tp1 m \<and> at_tp1_filled tr then on_exit_filled upd m tr lx1
      else (tr, lx1))"

definition act_on_update ::
  "gateway \<Rightarrow> universe \<Rightarrow> order_update \<Rightarrow> order_match \<Rightarrow> active_trade \<Rightarrow> live \<Rightarrow> active_trade \<times> live" where
  "act_on_update gw u upd m tr lx =
     (case ou_status upd of
        OrderOpen \<Rightarrow> on_open_status gw u upd m tr lx
      | OrderClosed \<Rightarrow> on_closed_status gw u upd m tr lx
      | OrderNew \<Rightarrow> (tr, lx))"

text \<open>The loop over the ticker's trades, which stops at the first one the update belongs to.\<close>

fun dispatch_update ::
  "gateway \<Rightarrow> universe \<Rightarrow> order_update \<Rightarrow> active_trade list \<Rightarrow> live \<Rightarrow> active_trade list \<times> live" where
  "dispatch_update gw u upd [] lx = ([], lx)"
| "dispatch_update gw u upd (tr # trs) lx =
     (let skip = (case dispatch_update gw u upd trs lx of (trs', lx') \<Rightarrow> (tr # trs', lx')) in
      if at_state tr = Closed \<or> at_state tr = EmergencyClosing then skip
      else (case claim_ids upd tr of
              (tr1, m) \<Rightarrow>
                if om_any m
                then (case act_on_update gw u upd m tr1 lx of (tr2, lx') \<Rightarrow> (tr2 # trs, lx'))
                else skip))"

definition on_order_update :: "gateway \<Rightarrow> universe \<Rightarrow> order_update \<Rightarrow> live \<Rightarrow> live" where
  "on_order_update gw u upd lx =
     rebuild_active_snapshot
       (case map_of (lx_trades lx) (ou_ticker upd) of
          None \<Rightarrow> lx
        | Some trs \<Rightarrow> (case dispatch_update gw u upd trs lx of
                        (trs', lx') \<Rightarrow> set_trades (ou_ticker upd) trs' lx'))"

definition on_position_update :: "position_update \<Rightarrow> live \<Rightarrow> live" where
  "on_position_update upd lx =
     rebuild_active_snapshot
       (case map_of (lx_trades lx) (pu_ticker upd) of
          None \<Rightarrow> lx
        | Some trs \<Rightarrow>
            set_trades (pu_ticker upd)
              (map (\<lambda>tr. if at_state tr \<noteq> Closed \<and> plan_side (at_plan tr) = pu_side upd
                         then tr\<lparr>at_avg_price_fix := pu_avg_price_fix upd\<rparr> else tr) trs) lx)"

definition on_balance_update :: "time_point \<Rightarrow> live \<Rightarrow> live" where
  "on_balance_update now lx = lx\<lparr>lx_last_balance_update := now\<rparr>"

section \<open>The periodic tick\<close>

record close_action =
  ca_trade :: active_trade
  ca_reason :: string
  ca_est_exit_price :: double

text \<open>
  Why an open position is closed at the market: no progress, no follow-through, or the loss
  limit R14. The entry price is positive where this is asked.
\<close>

definition close_reason :: "live_config \<Rightarrow> time_point \<Rightarrow> double \<Rightarrow> active_trade \<Rightarrow> string option" where
  "close_reason c now mark tr =
     (let p = at_plan tr; avg = at_avg_entry_price tr; long = plan_side p = Buy;
          elapsed = elapsed_seconds (now - at_opened_at tr);
          move_bps = (if long then (mark - avg) / avg * 10000 else (avg - mark) / avg * 10000);
          loss_pct = (if long then (avg - mark) / avg * 100 else (mark - avg) / avg * 100)
      in
      if plan_no_progress_timeout_sec p < elapsed \<and>
         (plan_side p = Buy \<and> mark \<le> avg * (10001 / 10000) \<or>
          plan_side p = Sell \<and> avg * (9999 / 10000) \<le> mark)
      then Some ''NoProgress''
      else if plan_post_entry_grace_sec p < elapsed \<and> 0 < plan_min_follow_through_bps p \<and>
              move_bps < plan_min_follow_through_bps p
      then Some ''FollowThrough''
      else if lc_max_single_position_loss_pct c < loss_pct then Some ''R14''
      else None)"

definition trade_close :: "live \<Rightarrow> time_point \<Rightarrow> ticker \<Rightarrow> active_trade \<Rightarrow> close_action option" where
  "trade_close lx now t tr =
     (if at_state tr \<noteq> Open \<or> at_executed_size tr \<le> 0 \<or> at_avg_entry_price tr \<le> 0 then None
      else (case map_of (lx_marks lx) t of
              None \<Rightarrow> None
            | Some mark \<Rightarrow>
                if mark \<le> 0 then None
                else map_option (\<lambda>r. \<lparr>ca_trade = tr, ca_reason = fixed_string 32 r,
                                      ca_est_exit_price = estimated_exit lx tr\<rparr>)
                       (close_reason (lx_cfg lx) now mark tr)))"

definition mark_closing :: "live \<Rightarrow> time_point \<Rightarrow> ticker \<Rightarrow> active_trade \<Rightarrow> active_trade" where
  "mark_closing lx now t tr =
     (if trade_close lx now t tr = None then tr else tr\<lparr>at_state := EmergencyClosing\<rparr>)"

definition close_actions :: "live \<Rightarrow> time_point \<Rightarrow> close_action list" where
  "close_actions lx now =
     concat (map (\<lambda>(t, trs). List.map_filter (trade_close lx now t) trs) (lx_trades lx))"

text \<open>The first phase, under the lock: the actions, the tickers and the state.\<close>

definition release_stale :: "time_point \<Rightarrow> live \<Rightarrow> live" where
  "release_stale now lx =
     (if 0 < lx_reserved lx \<and> lc_balance_reservation_timeout (lx_cfg lx) < now - lx_last_balance_update lx
      then lx\<lparr>lx_reserved := 0\<rparr> else lx)"

definition tick_collect :: "time_point \<Rightarrow> live \<Rightarrow> close_action list \<times> ticker list \<times> live" where
  "tick_collect now lx =
     (let lx1 = release_stale now lx;
          lx2 = lx1\<lparr>lx_trades := map (\<lambda>(t, trs). (t, map (mark_closing lx1 now t) trs)) (lx_trades lx1)\<rparr>
      in (close_actions lx1 now, map fst (lx_trades lx1), rebuild_active_snapshot lx2))"

text \<open>The second phase: one close action, without the lock; the errors are swallowed.\<close>

definition execute_close :: "gateway \<Rightarrow> close_action \<Rightarrow> live \<Rightarrow> live" where
  "execute_close gw act lx =
     (let tr = ca_trade act; t = plan_ticker (at_plan tr);
          lx1 = snd (cancel_if_set gw (at_stop_order_id tr) t lx);
          lx2 = snd (cancel_if_set gw (at_tp1_order_id tr) t lx1);
          lx3 = snd (place_order gw (exit_request (at_plan tr) Market 0 (at_executed_size tr)) lx2)
      in record_closed (closed_at tr (ca_est_exit_price act) (at_executed_size tr) (ca_reason act)) lx3)"

text \<open>The third phase, ticker by ticker: re-arming stops, or polling the reconciliator.\<close>

definition needs_stop :: "time_point \<Rightarrow> active_trade \<Rightarrow> bool" where
  "needs_stop now tr \<longleftrightarrow>
     at_state tr = Open \<and> at_stop_order_id tr = 0 \<and> seconds 5 < now - at_opened_at tr"

fun rearm_trades :: "gateway \<Rightarrow> universe \<Rightarrow> time_point \<Rightarrow> active_trade list \<Rightarrow> live \<Rightarrow> active_trade list \<times> live" where
  "rearm_trades gw u now [] lx = ([], lx)"
| "rearm_trades gw u now (tr # trs) lx =
     (case (if needs_stop now tr then place_stops gw u tr lx else (tr, lx)) of
        (tr', lx1) \<Rightarrow> (case rearm_trades gw u now trs lx1 of (trs', lx2) \<Rightarrow> (tr' # trs', lx2)))"

definition rearm_ticker :: "gateway \<Rightarrow> universe \<Rightarrow> time_point \<Rightarrow> ticker \<Rightarrow> live \<Rightarrow> live" where
  "rearm_ticker gw u now t lx =
     (case map_of (lx_trades lx) t of
        None \<Rightarrow> lx
      | Some trs \<Rightarrow>
          (case rearm_trades gw u now trs lx of
             (trs', lx') \<Rightarrow> rebuild_active_snapshot (set_trades t trs' lx')))"

definition poll_ticker :: "gateway \<Rightarrow> time_point \<Rightarrow> ticker \<Rightarrow> live \<Rightarrow> reconcile_result list \<times> live" where
  "poll_ticker gw now t lx =
     (case poll_begin (Some (gw_open_orders gw (lx_calls lx))) t now (lx_recon lx) of
        Done out \<Rightarrow> (out, lx)
      | Fetch out due \<Rightarrow>
          (let key = to_internal_ticker t;
               (results, rc) = poll_end (gw_open_orders gw (lx_calls lx) key) t now out due (lx_recon lx)
           in (results, lx\<lparr>lx_calls := lx_calls lx @ [GetOpenOrders key], lx_recon := rc\<rparr>)))"

definition result_fits :: "order_intent \<Rightarrow> active_trade \<Rightarrow> bool" where
  "result_fits intent tr \<longleftrightarrow>
     at_state tr = SubmitUnknown \<and> oi_side intent = plan_side (at_plan tr) \<and>
     \<not> max (oi_size intent) (plan_size_coin (at_plan tr)) * (1 / 10000)
         < \<bar>oi_size intent - plan_size_coin (at_plan tr)\<bar>"

definition zero_last_prices :: "live \<Rightarrow> live" where
  "zero_last_prices lx =
     (if lx_closed lx = [] then lx
      else lx\<lparr>lx_closed := butlast (lx_closed lx) @
                [(last (lx_closed lx))\<lparr>ct_entry_price := 0, ct_exit_price := 0, ct_size_filled := 0\<rparr>]\<rparr>)"

definition settle_trade :: "reconcile_result \<Rightarrow> ticker \<Rightarrow> active_trade \<Rightarrow> live \<Rightarrow> active_trade \<times> live" where
  "settle_trade res t tr lx =
     (case rr_outcome res of
        Resolved \<Rightarrow>
          (tr\<lparr>at_entry_order_id := (case rr_server_order_id res of Some i \<Rightarrow> i | None \<Rightarrow> at_entry_order_id tr),
              at_state := PendingEntry\<rparr>, lx)
      | NotFoundTimeout \<Rightarrow>
          (let tr1 = tr\<lparr>at_state := Closed\<rparr>;
               lx1 = release (at_plan tr) (alert (UnknownTimedOut t) lx)
           in (tr1, zero_last_prices (record_emergency_close tr1 ''SubmitUnknownTimeout'' lx1)))
      | Pending \<Rightarrow> (tr, lx))"

fun settle_in_list ::
  "reconcile_result \<Rightarrow> order_intent \<Rightarrow> ticker \<Rightarrow> active_trade list \<Rightarrow> live
     \<Rightarrow> (active_trade list \<times> live) option" where
  "settle_in_list res intent t [] lx = None"
| "settle_in_list res intent t (tr # trs) lx =
     (if result_fits intent tr
      then (case settle_trade res t tr lx of (tr', lx') \<Rightarrow> Some (tr' # trs, lx'))
      else map_option (\<lambda>(trs', lx'). (tr # trs', lx')) (settle_in_list res intent t trs lx))"

text \<open>The search over all tickers, in the map's order, for the first trade that fits.\<close>

fun settle_in_map ::
  "reconcile_result \<Rightarrow> order_intent \<Rightarrow> (ticker, active_trade list) omap \<Rightarrow> live
     \<Rightarrow> ((ticker, active_trade list) omap \<times> live)" where
  "settle_in_map res intent [] lx = ([], lx)"
| "settle_in_map res intent ((t, trs) # m) lx =
     (case settle_in_list res intent t trs lx of
        Some (trs', lx') \<Rightarrow> ((t, trs') # m, lx')
      | None \<Rightarrow> (case settle_in_map res intent m lx of (m', lx') \<Rightarrow> ((t, trs) # m', lx')))"

definition handle_reconciled :: "reconcile_result \<Rightarrow> live \<Rightarrow> live" where
  "handle_reconciled res lx =
     (if rr_outcome res = Pending then lx
      else (case rr_intent res of
              None \<Rightarrow> lx
            | Some intent \<Rightarrow>
                (case settle_in_map res intent (lx_trades lx) lx of
                   (m, lx') \<Rightarrow> rebuild_active_snapshot (lx'\<lparr>lx_trades := m\<rparr>))))"

definition reconcile_ticker :: "gateway \<Rightarrow> universe \<Rightarrow> time_point \<Rightarrow> ticker \<Rightarrow> live \<Rightarrow> live" where
  "reconcile_ticker gw u now t lx =
     (if \<not> has_pending (lx_recon lx) t then rearm_ticker gw u now t lx
      else (case poll_ticker gw now t lx of (results, lx') \<Rightarrow> fold handle_reconciled results lx'))"

definition live_tick :: "gateway \<Rightarrow> universe \<Rightarrow> time_point \<Rightarrow> live \<Rightarrow> live" where
  "live_tick gw u now lx =
     (case tick_collect now lx of
        (actions, tickers, lx1) \<Rightarrow>
          fold (reconcile_ticker gw u now) tickers (fold (execute_close gw) actions lx1))"

end
