(* ===== verification/LiveSpec.thy ===== *)
theory LiveSpec
  imports LiveHandlers
begin

text \<open>
  What each helper of the live executor may touch, whatever the gateway answers: the frame
  conditions of the operations on one trade and on a list of trades, how a trade may evolve,
  and the invariant of the state with the rules that carry it over the operations.
\<close>

section \<open>Frames\<close>

text \<open>
  What the operations on one trade may touch: the calls, the alerts, the closed trades and the
  reserved balance. A relation that holds for all of them is enough to have for the helpers.
\<close>

definition helper_step :: "live \<Rightarrow> live \<Rightarrow> bool" where
  "helper_step lx lx' \<longleftrightarrow>
     lx_trades lx' = lx_trades lx \<and> lx_marks lx' = lx_marks lx \<and> lx_snapshot lx' = lx_snapshot lx \<and>
     lx_cfg lx' = lx_cfg lx \<and>
     (\<exists>new. lx_closed lx' = lx_closed lx @ new) \<and> (0 \<le> lx_reserved lx \<longrightarrow> 0 \<le> lx_reserved lx')"

lemma helper_step_refl [simp]: "helper_step lx lx"
  by (simp add: helper_step_def)

lemma helper_step_trans: "helper_step a b \<Longrightarrow> helper_step b c \<Longrightarrow> helper_step a c"
  by (auto simp: helper_step_def)

definition is_entry_call :: "gw_call \<Rightarrow> bool" where
  "is_entry_call c = (case c of PlaceOrder req \<Rightarrow> \<not> req_reduce_only req | _ \<Rightarrow> False)"

definition entries :: "live \<Rightarrow> gw_call list" where
  "entries lx = filter is_entry_call (lx_calls lx)"

text \<open>The orders a state has sent, apart from entries, are reduce-only exits of these plans.\<close>

definition exit_call :: "trade_plan set \<Rightarrow> gw_call \<Rightarrow> bool" where
  "exit_call plans c =
     (case c of PlaceOrder req \<Rightarrow> \<exists>plan \<in> plans. \<exists>ty price sz. req = exit_request plan ty price sz | _ \<Rightarrow> True)"

definition adds_exits :: "trade_plan set \<Rightarrow> live \<Rightarrow> live \<Rightarrow> bool" where
  "adds_exits plans lx lx' \<longleftrightarrow> (\<exists>cs. lx_calls lx' = lx_calls lx @ cs \<and> (\<forall>c \<in> set cs. exit_call plans c))"

lemma adds_exits_refl [simp]: "adds_exits plans lx lx"
  by (simp add: adds_exits_def)

lemma adds_exits_trans: "adds_exits plans a b \<Longrightarrow> adds_exits plans b c \<Longrightarrow> adds_exits plans a c"
  by (fastforce simp: adds_exits_def)

lemma adds_exits_mono: "adds_exits plans a b \<Longrightarrow> plans \<subseteq> plans' \<Longrightarrow> adds_exits plans' a b"
  unfolding adds_exits_def exit_call_def by (fastforce split: gw_call.splits)

lemma exit_call_not_entry: "exit_call plans c \<Longrightarrow> \<not> is_entry_call c"
  by (auto simp: exit_call_def is_entry_call_def exit_request_def split: gw_call.splits)

lemma adds_exits_entries: "adds_exits plans lx lx' \<Longrightarrow> entries lx' = entries lx"
  using exit_call_not_entry by (fastforce simp: adds_exits_def entries_def filter_empty_conv)

text \<open>Both together, for an operation on a trade.\<close>

definition quiet :: "trade_plan set \<Rightarrow> live \<Rightarrow> live \<Rightarrow> bool" where
  "quiet plans lx lx' \<longleftrightarrow> helper_step lx lx' \<and> adds_exits plans lx lx'"

lemma quiet_refl [simp]: "quiet plans lx lx"
  by (simp add: quiet_def)

lemma quiet_trans: "quiet plans a b \<Longrightarrow> quiet plans b c \<Longrightarrow> quiet plans a c"
  using helper_step_trans adds_exits_trans by (auto simp: quiet_def)

lemma quiet_alert: "quiet plans lx (alert a lx)"
  by (simp add: quiet_def alert_def helper_step_def adds_exits_def)

lemma quiet_release: "quiet plans lx (release plan lx)"
  by (simp add: quiet_def release_def helper_step_def adds_exits_def)

lemma quiet_record: "quiet plans lx (record_closed c lx)"
  by (simp add: quiet_def record_closed_def helper_step_def adds_exits_def)

lemma quiet_record_emergency: "quiet plans lx (record_emergency_close tr reason lx)"
  by (simp add: record_emergency_close_def quiet_record)

lemma quiet_cancel: "quiet plans lx (snd (cancel_if_set gw i t lx))"
  by (auto simp: cancel_if_set_def cancel_order_def quiet_def helper_step_def adds_exits_def exit_call_def
      split: sum.splits)

lemma quiet_place_exit:
  "plan \<in> plans \<Longrightarrow> quiet plans lx (snd (place_order gw (exit_request plan ty price sz) lx))"
  by (auto simp: place_order_def quiet_def helper_step_def adds_exits_def exit_call_def)

section \<open>Operations on one trade\<close>

definition same_life :: "active_trade \<Rightarrow> active_trade \<Rightarrow> bool" where
  "same_life tr tr' \<longleftrightarrow> at_plan tr' = at_plan tr \<and> at_state tr' = at_state tr"

lemma place_exit_quiet:
  assumes "place_order gw (exit_request (at_plan tr) ty price sz) lx = (r, lx')" "at_plan tr \<in> plans"
  shows "quiet plans lx lx'"
  using quiet_place_exit [OF assms(2)] assms(1) by (metis snd_conv)

lemma place_stop_loss_quiet:
  assumes "place_stop_loss gw tr lx = (tr', lx')" "at_plan tr \<in> plans"
  shows "quiet plans lx lx' \<and> same_life tr tr'"
proof -
  obtain r lx1 where p: "place_order gw (exit_request (at_plan tr) StopLoss
      (plan_stop_price (at_plan tr)) (at_executed_size tr)) lx = (r, lx1)" by fastforce
  note q = place_exit_quiet [OF p assms(2)]
  show ?thesis
    using assms(1) q quiet_trans [OF q quiet_alert]
    by (cases r) (auto simp: place_stop_loss_def p same_life_def)
qed

lemma place_tp1_quiet:
  assumes "place_tp1 gw u tr lx = (tr', lx')" "at_plan tr \<in> plans"
  shows "quiet plans lx lx' \<and> same_life tr tr'"
proof -
  obtain r lx1 where p: "place_order gw (exit_request (at_plan tr) TakeProfit
      (plan_tp1_price (at_plan tr)) (tp1_size u tr)) lx = (r, lx1)" by fastforce
  note q = place_exit_quiet [OF p assms(2)]
  show ?thesis
    using assms(1) q quiet_trans [OF q quiet_alert]
    by (cases r) (auto simp: place_tp1_def p same_life_def split: if_splits)
qed

lemma cancel_quiet: "cancel_if_set gw i t lx = (ok, lx') \<Longrightarrow> quiet plans lx lx'"
  using quiet_cancel by (metis snd_conv)

lemma place_stops_quiet:
  assumes "place_stops gw u tr lx = (tr', lx')" "at_plan tr \<in> plans"
  shows "quiet plans lx lx' \<and> same_life tr tr'"
proof (cases "at_state tr \<noteq> Open \<or> at_executed_size tr \<le> 0")
  case True
  then show ?thesis
    using assms(1) quiet_alert by (auto simp: place_stops_def same_life_def Let_def split: if_splits)
next
  case False
  let ?t = "plan_ticker (at_plan tr)" and ?tr1 = "tr\<lparr>at_stop_order_id := 0\<rparr>"
  obtain ok1 lx1 where c1: "cancel_if_set gw (at_stop_order_id tr) ?t lx = (ok1, lx1)" by fastforce
  obtain ok2 lx2 where c2: "cancel_if_set gw (at_tp1_order_id ?tr1) ?t lx1 = (ok2, lx2)" by fastforce
  define tr2 where "tr2 = (if ok2 then ?tr1\<lparr>at_tp1_order_id := 0\<rparr> else ?tr1)"
  obtain tr3 lx3 where p: "place_stop_loss gw tr2 lx2 = (tr3, lx3)" by fastforce
  obtain tr4 lx4 where t: "place_tp1 gw u tr3 lx3 = (tr4, lx4)" by fastforce
  have life2: "same_life tr tr2" by (simp add: same_life_def tr2_def)
  have q1: "quiet plans lx lx1" and q2: "quiet plans lx lx2"
    using cancel_quiet [OF c1] cancel_quiet [OF c2] quiet_trans by blast+
  have p3: "quiet plans lx lx3" "same_life tr tr3"
    using place_stop_loss_quiet [OF p, of plans] q2 quiet_trans life2 assms(2) by (auto simp: same_life_def)
  have p4: "quiet plans lx lx4" "same_life tr tr4"
    using place_tp1_quiet [OF t, of plans] p3 quiet_trans assms(2) by (auto simp: same_life_def)
  have "(tr', lx') = (if ok1 then (if 0 < plan_tp1_price (at_plan tr) \<and> ok2 then (tr4, lx4) else (tr3, lx3)) else (tr, lx1))"
    using False c1 c2 p t unfolding assms(1) [symmetric] by (auto simp: place_stops_def tr2_def Let_def split: bool.splits)
  then show ?thesis
    using q1 p3 p4 by (auto simp: same_life_def split: if_splits)
qed

lemma emergency_close_quiet:
  assumes "emergency_close_trade gw tr lx = (tr', lx')" "at_plan tr \<in> plans"
  shows "quiet plans lx lx' \<and> at_plan tr' = at_plan tr \<and> (at_state tr' = Closed \<or> at_state tr' = at_state tr)"
proof -
  let ?t = "plan_ticker (at_plan tr)"
  define lx1 where "lx1 = snd (cancel_if_set gw (at_stop_order_id tr) ?t lx)"
  define lx2 where "lx2 = snd (cancel_if_set gw (at_tp1_order_id tr) ?t lx1)"
  obtain r lx3 where p: "place_order gw (exit_request (at_plan tr) Market 0 (at_executed_size tr)) lx2 = (r, lx3)"
    by fastforce
  have "quiet plans lx lx1" by (simp add: lx1_def quiet_cancel)
  moreover have "quiet plans lx1 lx2" by (simp add: lx2_def quiet_cancel)
  moreover have "quiet plans lx2 lx3" by (rule place_exit_quiet [OF p assms(2)])
  ultimately have "quiet plans lx lx3" using quiet_trans by blast
  then show ?thesis
    using assms(1) p
    by (auto simp: emergency_close_trade_def Let_def lx1_def [symmetric] lx2_def [symmetric]
        split: sum.splits)
qed

text \<open>
  How a trade may change. A closed trade does not; one that is being closed stays so; and a
  trade never goes back to waiting for its entry.
\<close>

definition evolves :: "active_trade \<Rightarrow> active_trade \<Rightarrow> bool" where
  "evolves tr tr' \<longleftrightarrow>
     at_plan tr' = at_plan tr \<and>
     (at_state tr = Closed \<longrightarrow> tr' = tr) \<and>
     (at_state tr = EmergencyClosing \<longrightarrow> at_state tr' = EmergencyClosing) \<and>
     (at_state tr' = SubmitUnknown \<longrightarrow> at_state tr = SubmitUnknown) \<and>
     (at_state tr' = PendingEntry \<longrightarrow> at_state tr = PendingEntry \<or> at_state tr = SubmitUnknown)"

lemma evolves_refl [simp]: "evolves tr tr"
  by (simp add: evolves_def)

lemma evolves_trans: "evolves a b \<Longrightarrow> evolves b c \<Longrightarrow> evolves a c"
  unfolding evolves_def by metis

lemma same_life_evolves: "same_life tr tr' \<Longrightarrow> at_state tr \<noteq> Closed \<Longrightarrow> evolves tr tr'"
  by (simp add: same_life_def evolves_def)

lemma claim_ids_life: "claim_ids upd tr = (tr', m) \<Longrightarrow> same_life tr tr'"
  by (auto simp: claim_ids_def same_life_def Let_def split: if_splits)

text \<open>An action of an update on a live trade: quiet, and the trade evolves.\<close>

definition live_trade :: "active_trade \<Rightarrow> bool" where
  "live_trade tr \<longleftrightarrow> at_state tr \<noteq> Closed \<and> at_state tr \<noteq> EmergencyClosing"

lemma live_evolvesI:
  "live_trade tr \<Longrightarrow> at_plan tr' = at_plan tr \<Longrightarrow>
     at_state tr' = at_state tr \<or> at_state tr' \<in> {Open, Closed, EmergencyClosing, Cancelling} \<Longrightarrow> evolves tr tr'"
  by (auto simp: evolves_def live_trade_def)

lemma on_open_status_quiet:
  assumes "on_open_status gw u upd m tr lx = (tr', lx')" "at_plan tr \<in> plans" "live_trade tr"
  shows "quiet plans lx lx' \<and> evolves tr tr'"
proof (cases "om_entry m \<and> 0 < ou_filled_size upd \<and> at_state tr \<noteq> Open")
  case True
  let ?tr = "tr\<lparr>at_state := Open, at_opened_at := ou_time upd\<rparr>"
  obtain tr1 lx1 where p: "place_stops gw u ?tr lx = (tr1, lx1)" by fastforce
  have "quiet plans lx lx1 \<and> same_life ?tr tr1" using place_stops_quiet [OF p] assms(2) by simp
  then show ?thesis
    using assms(1,3) True by (auto simp: on_open_status_def p same_life_def intro!: live_evolvesI)
next
  case False
  then show ?thesis
    using assms(1,3) by (auto simp: on_open_status_def intro!: live_evolvesI split: if_splits)
qed

lemma on_entry_filled_quiet:
  assumes "on_entry_filled gw u upd tr lx = (tr', lx')" "at_plan tr \<in> plans" "live_trade tr"
  shows "quiet plans lx lx' \<and> evolves tr tr'"
proof -
  let ?tr = "tr\<lparr>at_state := Open, at_executed_size := ou_filled_size upd,
       at_avg_entry_price := ou_filled_price upd, at_opened_at := ou_time upd\<rparr>"
  show ?thesis
  proof (cases "entry_slipped (lx_cfg lx) ?tr")
    case True
    obtain r lx1 where p: "place_order gw (exit_request (at_plan ?tr) Market 0 (ou_filled_size upd)) lx = (r, lx1)"
      by fastforce
    have q: "quiet plans lx lx1" by (rule place_exit_quiet [OF p]) (simp add: assms(2))
    show ?thesis
      using assms(1,3) True p q quiet_trans [OF q quiet_alert]
      by (cases r) (auto simp: on_entry_filled_def Let_def intro!: live_evolvesI)
  next
    case False
    then have p: "place_stops gw u ?tr lx = (tr', lx')" using assms(1) by (simp add: on_entry_filled_def Let_def)
    have "quiet plans lx lx' \<and> same_life ?tr tr'" by (rule place_stops_quiet [OF p]) (simp add: assms(2))
    then show ?thesis using assms(3) by (auto simp: same_life_def intro!: live_evolvesI)
  qed
qed

lemma on_tp1_filled_quiet:
  assumes "on_tp1_filled gw upd tr lx = (tr', lx')" "at_plan tr \<in> plans" "live_trade tr"
  shows "quiet plans lx lx' \<and> evolves tr tr'"
proof -
  define lx1 where "lx1 = snd (cancel_if_set gw (at_stop_order_id tr) (ou_ticker upd) lx)"
  have q1: "quiet plans lx lx1" by (simp add: lx1_def quiet_cancel)
  define tr2 where "tr2 = tr\<lparr>at_tp1_filled := True, at_stop_order_id := 0\<rparr>"
  have tr2: "at_plan tr2 = at_plan tr" "at_state tr2 = at_state tr" "live_trade tr2"
    "at_executed_size tr2 = at_executed_size tr" "at_avg_price_fix tr2 = at_avg_price_fix tr"
    using assms(3) by (simp_all add: tr2_def live_trade_def)
  let ?rem = "max 0 (at_executed_size tr2 - ou_filled_size upd)"
  obtain r lx2 where p: "place_order gw (exit_request (at_plan tr2) StopLoss (at_avg_price_fix tr2) ?rem) lx1 = (r, lx2)"
    by fastforce
  have q2: "quiet plans lx lx2"
    using quiet_trans [OF q1 place_exit_quiet [OF p]] tr2 assms(2) by simp
  obtain tr3 lx3 where e: "emergency_close_trade gw tr2 (alert (BEStopPlaceFailed (plan_ticker (at_plan tr2))) lx2) = (tr3, lx3)"
    by fastforce
  have q3: "quiet plans lx lx3 \<and> at_plan tr3 = at_plan tr \<and> (at_state tr3 = Closed \<or> at_state tr3 = at_state tr)"
    using emergency_close_quiet [OF e, of plans] quiet_trans [OF q2 quiet_alert] quiet_trans tr2 assms(2) by metis
  define must where "must \<longleftrightarrow> 1 / 1000000 < ?rem \<and> 0 < at_avg_price_fix tr2"
  have "(tr', lx') = (if must
      then (case r of Inr _ \<Rightarrow> (tr2, lx2) | Inl _ \<Rightarrow> (tr3, record_emergency_close tr3 ''BEStopFailed'' lx3))
      else (tr2, lx1))"
    using p e unfolding assms(1) [symmetric]
    by (cases r) (simp_all add: on_tp1_filled_def Let_def lx1_def tr2_def must_def)
  then have "(tr', lx') \<in> {(tr2, lx2), (tr3, record_emergency_close tr3 ''BEStopFailed'' lx3), (tr2, lx1)}"
    by (cases must; cases r) simp_all
  moreover have "quiet plans lx (record_emergency_close tr3 ''BEStopFailed'' lx3)"
    using q3 quiet_record_emergency quiet_trans by blast
  moreover have "evolves tr tr2" by (rule live_evolvesI) (simp_all add: assms(3) tr2)
  moreover have "evolves tr tr3"
    by (rule live_evolvesI [OF assms(3)]) (use q3 in auto)
  ultimately show ?thesis using q1 q2 by blast
qed

lemma on_closed_status_quiet:
  assumes "on_closed_status gw u upd m tr lx = (tr', lx')" "at_plan tr \<in> plans" "live_trade tr"
  shows "quiet plans lx lx' \<and> evolves tr tr'"
proof -
  define lx1 where "lx1 = (if om_entry m then release (at_plan tr) lx else lx)"
  have q1: "quiet plans lx lx1" by (simp add: lx1_def quiet_release)
  show ?thesis
  proof (cases "ou_filled_size upd \<le> 0")
    case True
    then have "lx' = lx1 \<and> (tr' = tr \<or> tr' = tr\<lparr>at_state := Closed\<rparr>)"
      using assms(1) by (simp add: on_closed_status_def lx1_def [symmetric] split: if_splits)
    then show ?thesis using assms(3) q1 by (auto intro!: live_evolvesI)
  next
    case pos: False
    show ?thesis
    proof (cases "om_entry m")
      case True
      then have "on_entry_filled gw u upd tr lx1 = (tr', lx')"
        using assms(1) pos by (simp add: on_closed_status_def lx1_def)
      from on_entry_filled_quiet [OF this assms(2,3)] show ?thesis using quiet_trans [OF q1] by blast
    next
      case no_entry: False
      show ?thesis
      proof (cases "om_tp1 m \<and> \<not> at_tp1_filled tr")
        case True
        then have "on_tp1_filled gw upd tr lx1 = (tr', lx')"
          using assms(1) pos no_entry by (simp add: on_closed_status_def lx1_def)
        from on_tp1_filled_quiet [OF this assms(2,3)] show ?thesis using quiet_trans [OF q1] by blast
      next
        case False
        then have "(tr', lx') = on_exit_filled upd m tr lx1 \<or> (tr', lx') = (tr, lx1)"
          using assms(1) pos no_entry by (simp add: on_closed_status_def lx1_def split: if_splits)
        then show ?thesis
          using q1 quiet_trans [OF q1 quiet_record] assms(3)
          by (auto simp: on_exit_filled_def intro!: live_evolvesI)
      qed
    qed
  qed
qed

lemma act_on_update_quiet:
  assumes "act_on_update gw u upd m tr lx = (tr', lx')" "at_plan tr \<in> plans" "live_trade tr"
  shows "quiet plans lx lx' \<and> evolves tr tr'"
  using assms on_open_status_quiet on_closed_status_quiet
  by (fastforce simp: act_on_update_def split: order_status.splits)

section \<open>Operations on the lists of trades\<close>

lemma dispatch_update_quiet:
  assumes "dispatch_update gw u upd trs lx = (trs', lx')" "\<forall>tr \<in> set trs. at_plan tr \<in> plans"
  shows "quiet plans lx lx' \<and> list_all2 evolves trs trs'"
  using assms
proof (induction trs arbitrary: trs' lx')
  case Nil
  then show ?case by simp
next
  case (Cons tr trs)
  obtain trs1 lx1 where rec: "dispatch_update gw u upd trs lx = (trs1, lx1)" by fastforce
  have IH: "quiet plans lx lx1 \<and> list_all2 evolves trs trs1" using Cons.IH [OF rec] Cons.prems(2) by simp
  obtain tr1 m where cl: "claim_ids upd tr = (tr1, m)" by fastforce
  obtain tr2 lx2 where act: "act_on_update gw u upd m tr1 lx = (tr2, lx2)" by fastforce
  show ?case
  proof (cases "live_trade tr \<and> om_any m")
    case True
    have life: "same_life tr tr1" by (rule claim_ids_life [OF cl])
    then have "quiet plans lx lx2 \<and> evolves tr1 tr2"
      using act_on_update_quiet [OF act, of plans] True Cons.prems(2) by (simp add: same_life_def live_trade_def)
    moreover have "evolves tr tr1" using life True by (simp add: same_life_evolves live_trade_def)
    moreover have "trs' = tr2 # trs" "lx' = lx2"
      using Cons.prems(1) True cl act by (auto simp: live_trade_def Let_def)
    ultimately show ?thesis using evolves_trans by (auto simp: list.rel_refl)
  next
    case False
    then have "trs' = tr # trs1 \<and> lx' = lx1"
      using Cons.prems(1) cl rec by (cases "live_trade tr") (simp_all add: live_trade_def Let_def split: if_splits)
    then show ?thesis using IH by simp
  qed
qed

lemma close_open_trades_quiet:
  assumes "close_open_trades gw reason trs lx = (trs', lx')" "\<forall>tr \<in> set trs. at_plan tr \<in> plans"
  shows "quiet plans lx lx' \<and> list_all2 evolves trs trs'"
  using assms
proof (induction trs arbitrary: lx trs' lx')
  case Nil
  then show ?case by simp
next
  case (Cons tr trs)
  show ?case
  proof (cases "at_state tr \<noteq> Open \<or> at_executed_size tr \<le> 0")
    case True
    obtain trs1 lx1 where rec: "close_open_trades gw reason trs lx = (trs1, lx1)" by fastforce
    then show ?thesis using Cons.IH [OF rec] Cons.prems True by auto
  next
    case False
    obtain tr1 lx1 where em: "emergency_close_trade gw tr lx = (tr1, lx1)" by fastforce
    let ?lx2 = "record_emergency_close tr1 reason lx1"
    obtain trs1 lx3 where rec: "close_open_trades gw reason trs ?lx2 = (trs1, lx3)" by fastforce
    have e: "quiet plans lx lx1 \<and> at_plan tr1 = at_plan tr \<and> (at_state tr1 = Closed \<or> at_state tr1 = at_state tr)"
      using emergency_close_quiet [OF em, of plans] Cons.prems(2) by simp
    then have "quiet plans lx ?lx2" using quiet_trans quiet_record_emergency by blast
    moreover have "quiet plans ?lx2 lx3 \<and> list_all2 evolves trs trs1"
      using Cons.IH [OF rec] Cons.prems(2) by simp
    moreover have "trs' = tr1 # trs1" "lx' = lx3" using Cons.prems(1) False em rec by auto
    moreover have "evolves tr tr1" using e False by (auto simp: evolves_def)
    ultimately show ?thesis using quiet_trans by auto
  qed
qed

lemma rearm_trades_quiet:
  assumes "rearm_trades gw u now trs lx = (trs', lx')" "\<forall>tr \<in> set trs. at_plan tr \<in> plans"
  shows "quiet plans lx lx' \<and> list_all2 evolves trs trs'"
  using assms
proof (induction trs arbitrary: lx trs' lx')
  case Nil
  then show ?case by simp
next
  case (Cons tr trs)
  obtain tr1 lx1 where p: "(if needs_stop now tr then place_stops gw u tr lx else (tr, lx)) = (tr1, lx1)"
    by fastforce
  obtain trs1 lx2 where rec: "rearm_trades gw u now trs lx1 = (trs1, lx2)" by fastforce
  have "quiet plans lx lx1 \<and> evolves tr tr1"
  proof (cases "needs_stop now tr")
    case True
    then have "quiet plans lx lx1 \<and> same_life tr tr1"
      using place_stops_quiet [of gw u tr lx tr1 lx1 plans] p Cons.prems(2) by simp
    then show ?thesis using True same_life_evolves by (auto simp: needs_stop_def)
  next
    case False
    then show ?thesis using p by simp
  qed
  moreover have "quiet plans lx1 lx2 \<and> list_all2 evolves trs trs1" using Cons.IH [OF rec] Cons.prems(2) by simp
  moreover have "trs' = tr1 # trs1" "lx' = lx2" using Cons.prems(1) p rec by auto
  ultimately show ?case using quiet_trans by auto
qed

lemma settle_trade_quiet:
  assumes "settle_trade res t tr lx = (tr', lx')" "at_state tr = SubmitUnknown"
  shows "quiet plans lx lx' \<and> evolves tr tr'"
proof -
  have z: "quiet plans lx (zero_last_prices (record_emergency_close tr1 reason (release p (alert a lx))))" for tr1 reason p a
    by (auto simp: zero_last_prices_def record_emergency_close_def record_closed_def release_def alert_def
        quiet_def helper_step_def adds_exits_def)
  show ?thesis
    using assms z by (auto simp: settle_trade_def evolves_def Let_def split: reconcile_outcome.splits)
qed

lemma settle_in_list_quiet:
  "settle_in_list res intent t trs lx = Some (trs', lx') \<Longrightarrow> quiet plans lx lx' \<and> list_all2 evolves trs trs'"
proof (induction trs arbitrary: trs' lx')
  case Nil
  then show ?case by simp
next
  case (Cons tr trs)
  show ?case
  proof (cases "result_fits intent tr")
    case True
    obtain tr1 lx1 where s: "settle_trade res t tr lx = (tr1, lx1)" by fastforce
    then show ?thesis
      using Cons.prems True settle_trade_quiet [OF s, of plans] by (auto simp: result_fits_def list.rel_refl)
  next
    case False
    then show ?thesis using Cons by auto
  qed
qed

definition rows_evolve ::
  "(ticker, active_trade list) omap \<Rightarrow> (ticker, active_trade list) omap \<Rightarrow> bool" where
  "rows_evolve m m' \<longleftrightarrow> list_all2 (\<lambda>e e'. fst e' = fst e \<and> list_all2 evolves (snd e) (snd e')) m m'"

lemma rows_evolve_refl [simp]: "rows_evolve m m"
  by (simp add: rows_evolve_def list.rel_refl)

lemma settle_in_map_quiet:
  "settle_in_map res intent m lx = (m', lx') \<Longrightarrow> quiet plans lx lx' \<and> rows_evolve m m'"
proof (induction m arbitrary: m' lx')
  case Nil
  then show ?case by simp
next
  case (Cons e m)
  obtain t trs where e: "e = (t, trs)" by fastforce
  show ?case
  proof (cases "settle_in_list res intent t trs lx")
    case None
    obtain m1 lx1 where rec: "settle_in_map res intent m lx = (m1, lx1)" by fastforce
    then show ?thesis
      using Cons.IH [OF rec] Cons.prems None by (auto simp: e rows_evolve_def list.rel_refl)
  next
    case (Some r)
    obtain trs1 lx1 where r: "r = (trs1, lx1)" by fastforce
    then show ?thesis
      using settle_in_list_quiet [of res intent t trs lx trs1 lx1 plans] Cons.prems Some
        rows_evolve_refl [of m, unfolded rows_evolve_def]
      by (auto simp: e rows_evolve_def)
  qed
qed

section \<open>The state invariant\<close>

definition live_ok :: "trade_plan set \<Rightarrow> live \<Rightarrow> bool" where
  "live_ok plans lx \<longleftrightarrow>
     omap_ok (<) (lx_trades lx) \<and>
     (\<forall>t. \<forall>tr \<in> set (trades_of lx t). at_plan tr \<in> plans \<and> plan_ticker (at_plan tr) = t) \<and>
     lx_snapshot lx = active_view lx"

definition trades_evolve :: "live \<Rightarrow> live \<Rightarrow> bool" where
  "trades_evolve lx lx' \<longleftrightarrow>
     (\<forall>t. \<exists>old new. trades_of lx' t = old @ new \<and> list_all2 evolves (trades_of lx t) old)"

definition reserve_kept :: "live \<Rightarrow> live \<Rightarrow> bool" where
  "reserve_kept lx lx' \<longleftrightarrow> (0 \<le> lx_reserved lx \<longrightarrow> 0 \<le> lx_reserved lx')"

definition closed_grows :: "live \<Rightarrow> live \<Rightarrow> bool" where
  "closed_grows lx lx' \<longleftrightarrow> (\<exists>new. lx_closed lx' = lx_closed lx @ new)"

definition step_ok :: "trade_plan set \<Rightarrow> live \<Rightarrow> live \<Rightarrow> bool" where
  "step_ok plans lx lx' \<longleftrightarrow>
     live_ok plans lx' \<and> adds_exits plans lx lx' \<and> trades_evolve lx lx' \<and> closed_grows lx lx' \<and>
     reserve_kept lx lx'"

lemma trades_evolveI:
  "(\<And>t. list_all2 evolves (trades_of lx t) (trades_of lx' t)) \<Longrightarrow> trades_evolve lx lx'"
  unfolding trades_evolve_def by (metis append_Nil2)

lemma trades_evolve_refl [simp]: "trades_evolve lx lx"
  by (rule trades_evolveI) (simp add: list.rel_refl)

lemma trades_evolve_trans:
  assumes "trades_evolve a b" "trades_evolve b c" shows "trades_evolve a c"
  unfolding trades_evolve_def
proof
  fix t
  obtain old1 new1 where 1: "trades_of b t = old1 @ new1" "list_all2 evolves (trades_of a t) old1"
    using assms(1) unfolding trades_evolve_def by metis
  obtain old2 new2 where 2: "trades_of c t = old2 @ new2" "list_all2 evolves (old1 @ new1) old2"
    using assms(2) 1(1) unfolding trades_evolve_def by metis
  obtain o1 o2 where 3: "old2 = o1 @ o2" "list_all2 evolves old1 o1"
    using 2(2) by (auto simp: list_all2_append1)
  have "list_all2 evolves (trades_of a t) o1"
    by (rule list_all2_trans [rotated, OF 1(2) 3(2)]) (rule evolves_trans)
  then show "\<exists>old new. trades_of c t = old @ new \<and> list_all2 evolves (trades_of a t) old"
    using 2(1) 3(1) by auto
qed

lemma closed_grows_refl [simp]: "closed_grows lx lx"
  by (simp add: closed_grows_def)

lemma step_ok_refl: "live_ok plans lx \<Longrightarrow> step_ok plans lx lx"
  by (simp add: step_ok_def reserve_kept_def)

lemma step_ok_trans: "step_ok plans a b \<Longrightarrow> step_ok plans b c \<Longrightarrow> step_ok plans a c"
  using adds_exits_trans trades_evolve_trans by (fastforce simp: step_ok_def closed_grows_def reserve_kept_def)

lemma step_ok_fold:
  assumes "\<And>x s. x \<in> set xs \<Longrightarrow> live_ok plans s \<Longrightarrow> step_ok plans s (f x s)" "live_ok plans lx"
  shows "step_ok plans lx (fold f xs lx)"
  using assms
proof (induction xs arbitrary: lx)
  case Nil
  then show ?case by (simp add: step_ok_refl)
next
  case (Cons x xs)
  have "step_ok plans lx (f x lx)" using Cons.prems by simp
  moreover have "step_ok plans (f x lx) (fold f xs (f x lx))"
    by (rule Cons.IH) (use Cons.prems calculation in \<open>auto simp: step_ok_def\<close>)
  ultimately show ?case using step_ok_trans by simp
qed

lemma active_view_cong:
  "lx_trades a = lx_trades b \<Longrightarrow> lx_marks a = lx_marks b \<Longrightarrow> active_view a = active_view b"
  by (simp add: active_view_def)

lemma rebuild_sel [simp]:
  "lx_trades (rebuild_active_snapshot lx) = lx_trades lx" "lx_calls (rebuild_active_snapshot lx) = lx_calls lx"
  "lx_closed (rebuild_active_snapshot lx) = lx_closed lx" "lx_reserved (rebuild_active_snapshot lx) = lx_reserved lx"
  "lx_marks (rebuild_active_snapshot lx) = lx_marks lx" "lx_recon (rebuild_active_snapshot lx) = lx_recon lx"
  "trades_of (rebuild_active_snapshot lx) t = trades_of lx t"
  "lx_snapshot (rebuild_active_snapshot lx) = active_view (rebuild_active_snapshot lx)"
  by (simp_all add: rebuild_active_snapshot_def trades_of_def active_view_def)

lemma quiet_step_ok:
  assumes "quiet plans lx lx'" "live_ok plans lx" shows "step_ok plans lx lx'"
proof -
  have "trades_of lx' t = trades_of lx t" for t
    using assms(1) by (simp add: quiet_def helper_step_def trades_of_def)
  moreover from this have "trades_evolve lx lx'"
    by (intro trades_evolveI) (simp add: list.rel_refl)
  ultimately show ?thesis
    using assms active_view_cong [of lx' lx]
    by (simp add: step_ok_def live_ok_def quiet_def helper_step_def closed_grows_def reserve_kept_def)
qed

text \<open>Replacing rows by evolved rows.\<close>

lemma rows_evolve_map_of:
  "rows_evolve m m' \<Longrightarrow> rel_option (list_all2 evolves) (map_of m t) (map_of m' t)"
  unfolding rows_evolve_def by (induction m m' rule: list_all2_induct) (auto simp: rel_option_iff)

lemma rows_evolve_keys: "rows_evolve m m' \<Longrightarrow> map fst m' = map fst m"
  unfolding rows_evolve_def by (induction m m' rule: list_all2_induct) auto

lemma evolves_plan: "evolves x y \<Longrightarrow> at_plan y = at_plan x"
  unfolding evolves_def by blast

lemma evolves_plans: "list_all2 evolves xs ys \<Longrightarrow> \<forall>x \<in> set xs. P (at_plan x) \<Longrightarrow> \<forall>y \<in> set ys. P (at_plan y)"
  by (induction xs ys rule: list_all2_induct) (simp_all add: evolves_plan)

lemma update_rows_ok:
  assumes ok: "live_ok plans lx" and q: "quiet plans lx lx1" and rows: "rows_evolve (lx_trades lx) m"
  shows "step_ok plans lx (rebuild_active_snapshot (lx1\<lparr>lx_trades := m\<rparr>))" (is "step_ok _ _ ?lx'")
proof -
  have ev: "list_all2 evolves (trades_of lx t) (trades_of (lx1\<lparr>lx_trades := m\<rparr>) t)" for t
    using rows_evolve_map_of [OF rows, of t] by (auto simp: trades_of_def rel_option_iff split: option.splits)
  have "omap_ok (<) m" using ok rows_evolve_keys [OF rows] by (simp add: live_ok_def omap_ok_def)
  moreover have "\<forall>tr \<in> set (trades_of (lx1\<lparr>lx_trades := m\<rparr>) t). at_plan tr \<in> plans \<and> plan_ticker (at_plan tr) = t" for t
    by (rule evolves_plans [OF ev]) (use ok in \<open>simp add: live_ok_def\<close>)
  ultimately have "live_ok plans ?lx'"
    using ok q by (simp add: live_ok_def quiet_def helper_step_def)
  moreover have "trades_evolve lx ?lx'" by (rule trades_evolveI) (simp add: ev)
  moreover have "closed_grows lx ?lx'" using q by (simp add: closed_grows_def quiet_def helper_step_def)
  moreover have "adds_exits plans lx ?lx'" using q by (simp add: quiet_def adds_exits_def)
  moreover have "reserve_kept lx ?lx'" using q by (simp add: reserve_kept_def quiet_def helper_step_def)
  ultimately show ?thesis by (simp add: step_ok_def)
qed

lemma omap_put_rows:
  assumes "omap_ok (<) m" "map_of m t = Some trs" "list_all2 evolves trs trs'"
  shows "rows_evolve m (omap_put (<) t trs' m)"
  using assms
proof (induction m)
  case Nil
  then show ?case by simp
next
  case (Cons e m)
  obtain k v where e: "e = (k, v)" by fastforce
  have "t \<noteq> k \<Longrightarrow> (t, trs) \<in> set m" using Cons.prems(2) by (auto simp: e dest: map_of_SomeD)
  then have "t \<noteq> k \<Longrightarrow> k < t" using Cons.prems(1) by (fastforce simp: e omap_ok_Cons)
  then show ?case
    using Cons rows_evolve_refl [of m, unfolded rows_evolve_def]
    by (cases "t = k") (auto simp: e rows_evolve_def omap_ok_Cons list.rel_refl)
qed

lemma update_ticker_ok:
  assumes ok: "live_ok plans lx" and q: "quiet plans lx lx1"
    and m: "map_of (lx_trades lx) t = Some trs" and ev: "list_all2 evolves trs trs'"
  shows "step_ok plans lx (rebuild_active_snapshot (set_trades t trs' lx1))"
proof -
  have "lx_trades lx1 = lx_trades lx" using q by (simp add: quiet_def helper_step_def)
  then show ?thesis
    using update_rows_ok [OF ok q omap_put_rows [OF _ m ev]] ok by (simp add: set_trades_def live_ok_def)
qed

lemma rebuild_ok: "live_ok plans lx \<Longrightarrow> step_ok plans lx (rebuild_active_snapshot lx)"
  using update_rows_ok [of plans lx lx "lx_trades lx"] by simp

end
