(* ===== verification/LiveRuns.thy ===== *)
theory LiveRuns
  imports LiveSpec
begin

text \<open>
  What the live executor promises, over every run and whatever the gateway answers: the entry
  orders it sends are the submitted plans, once each; every other order is reduce-only and
  against a plan it was given; the published snapshot is the state; closed trades are
  delivered once; a closed trade stays closed. And where it does not do what its comments say,
  as concrete runs.
\<close>

section \<open>Runs\<close>

datatype live_event =
    Submit string time_point trade_plan | CancelAll ticker | Inject "active_trade list"
  | CloseTrade ticker string | OrderUpdate order_update | PositionUpdate position_update
  | BalanceUpdate time_point | Tick time_point | SetMarks "(ticker, double) omap" | SetMark ticker double

fun live_step :: "(gateway \<times> universe) \<times> live_event \<Rightarrow> live \<Rightarrow> live" where
  "live_step ((gw, u), Submit cid now plan) lx = live_submit gw cid now plan lx"
| "live_step ((gw, u), CancelAll t) lx = snd (live_cancel_all gw t lx)"
| "live_step ((gw, u), Inject ts) lx = live_inject ts lx"
| "live_step ((gw, u), CloseTrade t reason) lx = live_close_trade gw t reason lx"
| "live_step ((gw, u), OrderUpdate upd) lx = on_order_update gw u upd lx"
| "live_step ((gw, u), PositionUpdate upd) lx = on_position_update upd lx"
| "live_step ((gw, u), BalanceUpdate now) lx = on_balance_update now lx"
| "live_step ((gw, u), Tick now) lx = live_tick gw u now lx"
| "live_step ((gw, u), SetMarks marks) lx = live_set_mark_prices marks lx"
| "live_step ((gw, u), SetMark t p) lx = live_set_mark_price t p lx"

type_synonym live_run = "((gateway \<times> universe) \<times> live_event) list"

definition run_live :: "live_run \<Rightarrow> live \<Rightarrow> live" where
  "run_live es lx = fold live_step es lx"

section \<open>Every operation keeps the invariant\<close>

lemma live_ok_row:
  "live_ok plans lx \<Longrightarrow> map_of (lx_trades lx) t = Some trs \<Longrightarrow> \<forall>tr \<in> set trs. at_plan tr \<in> plans"
  by (simp add: live_ok_def trades_of_def split: option.splits) (metis option.sel option.simps(3))

lemma frame_ok:
  assumes "live_ok plans lx" "lx_trades lx' = lx_trades lx" "lx_calls lx' = lx_calls lx"
    "lx_closed lx' = lx_closed lx" "lx_reserved lx' = lx_reserved lx"
  shows "step_ok plans lx (rebuild_active_snapshot lx')"
proof -
  have t: "trades_of lx' t = trades_of lx t" for t using assms(2) by (simp add: trades_of_def)
  then have "trades_evolve lx (rebuild_active_snapshot lx')"
    by (intro trades_evolveI) (simp add: list.rel_refl)
  then show ?thesis
    using assms t by (simp add: step_ok_def live_ok_def adds_exits_def closed_grows_def reserve_kept_def)
qed

lemma close_trade_ok: "live_ok plans lx \<Longrightarrow> step_ok plans lx (live_close_trade gw t reason lx)"
proof (cases "map_of (lx_trades lx) t")
  case None
  assume "live_ok plans lx"
  then show ?thesis using None rebuild_ok by (simp add: live_close_trade_def)
next
  case (Some trs)
  assume ok: "live_ok plans lx"
  obtain trs' lx1 where c: "close_open_trades gw reason trs lx = (trs', lx1)" by fastforce
  have "quiet plans lx lx1 \<and> list_all2 evolves trs trs'"
    by (rule close_open_trades_quiet [OF c live_ok_row [OF ok Some]])
  then show ?thesis using update_ticker_ok [OF ok _ Some] c Some by (simp add: live_close_trade_def)
qed

lemma order_update_ok: "live_ok plans lx \<Longrightarrow> step_ok plans lx (on_order_update gw u upd lx)"
proof (cases "map_of (lx_trades lx) (ou_ticker upd)")
  case None
  assume "live_ok plans lx"
  then show ?thesis using None rebuild_ok by (simp add: on_order_update_def)
next
  case (Some trs)
  assume ok: "live_ok plans lx"
  obtain trs' lx1 where c: "dispatch_update gw u upd trs lx = (trs', lx1)" by fastforce
  have "quiet plans lx lx1 \<and> list_all2 evolves trs trs'"
    by (rule dispatch_update_quiet [OF c live_ok_row [OF ok Some]])
  then show ?thesis using update_ticker_ok [OF ok _ Some] c Some by (simp add: on_order_update_def)
qed

lemma position_update_ok: "live_ok plans lx \<Longrightarrow> step_ok plans lx (on_position_update upd lx)"
proof (cases "map_of (lx_trades lx) (pu_ticker upd)")
  case None
  assume "live_ok plans lx"
  then show ?thesis using None rebuild_ok by (simp add: on_position_update_def)
next
  case (Some trs)
  assume ok: "live_ok plans lx"
  have "list_all2 evolves trs
      (map (\<lambda>tr. if at_state tr \<noteq> Closed \<and> plan_side (at_plan tr) = pu_side upd
                 then tr\<lparr>at_avg_price_fix := pu_avg_price_fix upd\<rparr> else tr) trs)"
    by (simp add: list_all2_conv_all_nth) (simp add: evolves_def)
  then show ?thesis
    using update_ticker_ok [OF ok quiet_refl Some] Some by (simp add: on_position_update_def)
qed

lemma balance_update_ok: "live_ok plans lx \<Longrightarrow> step_ok plans lx (on_balance_update now lx)"
  by (rule quiet_step_ok) (simp_all add: on_balance_update_def quiet_def helper_step_def adds_exits_def)

lemma set_marks_ok: "live_ok plans lx \<Longrightarrow> step_ok plans lx (live_set_mark_prices marks lx)"
  by (simp add: live_set_mark_prices_def frame_ok)

lemma set_mark_ok: "live_ok plans lx \<Longrightarrow> step_ok plans lx (live_set_mark_price t p lx)"
  by (simp add: live_set_mark_price_def frame_ok)

text \<open>The phases of \<open>tick\<close>.\<close>

lemma mark_closing_evolves: "evolves tr (mark_closing lx now t tr)"
  by (simp add: mark_closing_def trade_close_def evolves_def)

lemma release_stale_quiet: "quiet plans lx (release_stale now lx)"
  by (simp add: release_stale_def quiet_def helper_step_def adds_exits_def)

lemma release_stale_trades [simp]: "lx_trades (release_stale now lx) = lx_trades lx"
  by (simp add: release_stale_def)

lemma close_actions_plans:
  assumes ok: "live_ok plans lx" and "act \<in> set (close_actions (release_stale now lx) now)"
  shows "at_plan (ca_trade act) \<in> plans"
proof -
  obtain t trs tr where row: "(t, trs) \<in> set (lx_trades lx)" "tr \<in> set trs"
    and act: "trade_close (release_stale now lx) now t tr = Some act"
    using assms(2) by (fastforce simp: close_actions_def List.map_filter_def)
  have "distinct (map fst (lx_trades lx))"
    by (rule asc.omap_ok_distinct) (use ok in \<open>simp add: live_ok_def\<close>)
  then have "map_of (lx_trades lx) t = Some trs" using row by (simp add: map_of_is_SomeI)
  then have "at_plan tr \<in> plans" using live_ok_row [OF ok] row by blast
  moreover have "ca_trade act = tr" using act by (auto simp: trade_close_def split: if_splits option.splits)
  ultimately show ?thesis by simp
qed

lemma tick_collect_ok:
  assumes ok: "live_ok plans lx" and c: "tick_collect now lx = (actions, tickers, lx')"
  shows "step_ok plans lx lx' \<and> (\<forall>act \<in> set actions. at_plan (ca_trade act) \<in> plans)"
proof -
  let ?lx1 = "release_stale now lx"
  let ?m = "map (\<lambda>(t, trs). (t, map (mark_closing ?lx1 now t) trs)) (lx_trades lx)"
  have "rows_evolve (lx_trades lx) ?m"
    by (simp add: rows_evolve_def list_all2_conv_all_nth case_prod_beta mark_closing_evolves)
  then show ?thesis
    using update_rows_ok [OF ok release_stale_quiet] close_actions_plans [OF ok] c
    by (auto simp: tick_collect_def Let_def)
qed

lemma execute_close_quiet:
  assumes "at_plan (ca_trade act) \<in> plans" shows "quiet plans lx (execute_close gw act lx)"
  unfolding execute_close_def Let_def
  by (meson assms quiet_cancel quiet_place_exit quiet_record quiet_trans)

lemma rearm_ticker_ok: "live_ok plans lx \<Longrightarrow> step_ok plans lx (rearm_ticker gw u now t lx)"
proof (cases "map_of (lx_trades lx) t")
  case None
  assume "live_ok plans lx"
  then show ?thesis using None step_ok_refl by (simp add: rearm_ticker_def)
next
  case (Some trs)
  assume ok: "live_ok plans lx"
  obtain trs' lx1 where c: "rearm_trades gw u now trs lx = (trs', lx1)" by fastforce
  have "quiet plans lx lx1 \<and> list_all2 evolves trs trs'"
    by (rule rearm_trades_quiet [OF c live_ok_row [OF ok Some]])
  then show ?thesis using update_ticker_ok [OF ok _ Some] c Some by (simp add: rearm_ticker_def)
qed

lemma poll_ticker_quiet: "quiet plans lx (snd (poll_ticker gw now t lx))"
  by (auto simp: poll_ticker_def quiet_def helper_step_def adds_exits_def exit_call_def Let_def
      case_prod_beta split: poll_plan.splits)

lemma handle_reconciled_ok: "live_ok plans lx \<Longrightarrow> step_ok plans lx (handle_reconciled res lx)"
proof -
  assume ok: "live_ok plans lx"
  show ?thesis
  proof (cases "rr_outcome res = Pending \<or> rr_intent res = None")
    case True
    then show ?thesis using ok step_ok_refl by (auto simp: handle_reconciled_def)
  next
    case False
    then obtain intent where i: "rr_intent res = Some intent" by blast
    obtain m lx1 where s: "settle_in_map res intent (lx_trades lx) lx = (m, lx1)" by fastforce
    show ?thesis
      using update_rows_ok [OF ok, of lx1 m] settle_in_map_quiet [OF s, of plans] s i False
      by (simp add: handle_reconciled_def)
  qed
qed

lemma reconcile_ticker_ok:
  assumes ok: "live_ok plans lx" shows "step_ok plans lx (reconcile_ticker gw u now t lx)"
proof (cases "has_pending (lx_recon lx) t")
  case True
  obtain results lx1 where p: "poll_ticker gw now t lx = (results, lx1)" by fastforce
  have s1: "step_ok plans lx lx1"
    using quiet_step_ok [OF poll_ticker_quiet ok] p by (metis snd_conv)
  then have "step_ok plans lx1 (fold handle_reconciled results lx1)"
    by (intro step_ok_fold handle_reconciled_ok) (simp_all add: step_ok_def)
  then show ?thesis using s1 step_ok_trans p True by (simp add: reconcile_ticker_def)
next
  case False
  then show ?thesis using rearm_ticker_ok [OF ok] by (simp add: reconcile_ticker_def)
qed

lemma tick_ok:
  assumes ok: "live_ok plans lx" shows "step_ok plans lx (live_tick gw u now lx)"
proof -
  obtain actions tickers lx1 where c: "tick_collect now lx = (actions, tickers, lx1)"
    by (metis prod_cases3)
  note s1 = tick_collect_ok [OF ok c]
  have s2: "step_ok plans lx1 (fold (execute_close gw) actions lx1)"
    by (rule step_ok_fold, rule quiet_step_ok [OF execute_close_quiet]) (use s1 in \<open>simp_all add: step_ok_def\<close>)
  have s3: "step_ok plans (fold (execute_close gw) actions lx1)
      (fold (reconcile_ticker gw u now) tickers (fold (execute_close gw) actions lx1))"
    by (rule step_ok_fold, rule reconcile_ticker_ok) (use s2 in \<open>simp_all add: step_ok_def\<close>)
  show ?thesis using s1 step_ok_trans [OF _ step_ok_trans [OF s2 s3]] c by (simp add: live_tick_def)
qed

text \<open>The operations that add trades.\<close>

lemma trades_of_put: "lx_trades lx' = omap_put (<) t trs (lx_trades lx) \<Longrightarrow>
    trades_of lx' k = (if k = t then trs else trades_of lx k)"
  by (simp add: trades_of_def)

lemma live_ok_mono: "live_ok plans lx \<Longrightarrow> plans \<subseteq> plans' \<Longrightarrow> live_ok plans' lx"
  by (auto simp: live_ok_def)

definition adds_trade :: "active_trade \<Rightarrow> live \<Rightarrow> live \<Rightarrow> bool" where
  "adds_trade tr lx lx' \<longleftrightarrow>
     (let t = plan_ticker (at_plan tr) in
      lx_trades lx' = omap_put (<) t (trades_of lx t @ [tr]) (lx_trades lx))"

lemma adds_trade_ok:
  assumes ok: "live_ok plans lx" and add: "adds_trade tr lx lx'"
  shows "live_ok (insert (at_plan tr) plans) (rebuild_active_snapshot lx')"
    and "trades_evolve lx (rebuild_active_snapshot lx')"
proof -
  let ?t = "plan_ticker (at_plan tr)"
  have t: "trades_of lx' k = (if k = ?t then trades_of lx ?t @ [tr] else trades_of lx k)" for k
    using add by (simp add: adds_trade_def trades_of_put Let_def)
  have "omap_ok (<) (lx_trades lx')"
    using add ok by (simp add: adds_trade_def Let_def live_ok_def asc.omap_ok_put)
  then show "live_ok (insert (at_plan tr) plans) (rebuild_active_snapshot lx')"
    using ok by (auto simp: live_ok_def t split: if_splits)
  have "\<exists>old new. trades_of (rebuild_active_snapshot lx') k = old @ new \<and> list_all2 evolves (trades_of lx k) old" for k
    by (rule exI [of _ "trades_of lx k"]) (simp add: t list.rel_refl)
  then show "trades_evolve lx (rebuild_active_snapshot lx')" by (simp only: trades_evolve_def) blast
qed

definition submit_effect :: "string \<Rightarrow> trade_plan \<Rightarrow> live \<Rightarrow> live \<Rightarrow> bool" where
  "submit_effect cid plan lx lx' \<longleftrightarrow>
     (\<exists>s lx1. at_plan s = plan \<and> adds_trade s lx lx1 \<and> lx' = rebuild_active_snapshot lx1 \<and>
        lx_calls lx1 = lx_calls lx @ [PlaceOrder (entry_request cid plan)] \<and> lx_closed lx1 = lx_closed lx \<and>
        (0 \<le> reservation plan \<longrightarrow> 0 \<le> lx_reserved lx \<longrightarrow> 0 \<le> lx_reserved lx1))"

lemma submit_end_error:
  "\<exists>lx3. submit_end cid now plan (Inl err) lx =
       rebuild_active_snapshot (push_trade (plan_ticker plan) (new_trade cid plan SubmitUnknown) lx3) \<and>
     lx_trades lx3 = lx_trades lx \<and> lx_closed lx3 = lx_closed lx \<and> lx_calls lx3 = lx_calls lx \<and>
     0 \<le> lx_reserved lx3"
  unfolding submit_end_def Let_def sum.case
  by (intro exI conjI, rule refl) (simp_all add: release_def alert_def)

lemma submit_effect: "submit_effect cid plan lx (live_submit gw cid now plan lx)"
proof -
  have push: "adds_trade (new_trade cid plan s) lx (push_trade (plan_ticker plan) (new_trade cid plan s) lx1)"
    if "lx_trades lx1 = lx_trades lx" for s lx1
    using that by (simp add: adds_trade_def push_trade_def set_trades_def new_trade_def trades_of_def Let_def)
  show ?thesis
  proof (cases "gw_place gw (lx_calls lx) (entry_request cid plan)")
    case (Inr i)
    define lx1 where "lx1 = (push_trade (plan_ticker plan) (new_trade cid plan PendingEntry)
      ((submit_begin plan lx)\<lparr>lx_calls := lx_calls lx @ [PlaceOrder (entry_request cid plan)]\<rparr>))\<lparr>lx_error_streak := 0\<rparr>"
    have "live_submit gw cid now plan lx = rebuild_active_snapshot lx1"
      using Inr by (simp add: live_submit_def place_order_def submit_begin_def submit_end_def lx1_def)
    moreover have "adds_trade (new_trade cid plan PendingEntry) lx lx1"
      using push [of "(submit_begin plan lx)\<lparr>lx_calls := lx_calls lx @ [PlaceOrder (entry_request cid plan)]\<rparr>" PendingEntry]
      by (simp add: lx1_def adds_trade_def submit_begin_def Let_def)
    ultimately show ?thesis
      unfolding submit_effect_def
      by (intro exI [of _ "new_trade cid plan PendingEntry"] exI [of _ lx1])
        (simp add: new_trade_def lx1_def push_trade_def set_trades_def submit_begin_def)
  next
    case (Inl err)
    let ?lx1 = "(submit_begin plan lx)\<lparr>lx_calls := lx_calls lx @ [PlaceOrder (entry_request cid plan)]\<rparr>"
    obtain lx3 where eq: "submit_end cid now plan (Inl err) ?lx1 =
        rebuild_active_snapshot (push_trade (plan_ticker plan) (new_trade cid plan SubmitUnknown) lx3)"
      and lx3: "lx_trades lx3 = lx_trades ?lx1" "lx_closed lx3 = lx_closed ?lx1"
        "lx_calls lx3 = lx_calls ?lx1" "0 \<le> lx_reserved lx3"
      using submit_end_error by blast
    show ?thesis
      unfolding submit_effect_def
      using push [of lx3 SubmitUnknown] lx3 eq Inl
      by (intro exI [of _ "new_trade cid plan SubmitUnknown"]
          exI [of _ "push_trade (plan_ticker plan) (new_trade cid plan SubmitUnknown) lx3"])
        (simp add: live_submit_def place_order_def submit_begin_def new_trade_def push_trade_def set_trades_def)
  qed
qed

lemma live_inject_ok:
  assumes ok: "live_ok plans lx"
  shows "live_ok (plans \<union> at_plan ` set ts) (live_inject ts lx) \<and> trades_evolve lx (live_inject ts lx) \<and>
    lx_calls (live_inject ts lx) = lx_calls lx \<and> lx_closed (live_inject ts lx) = lx_closed lx \<and>
    lx_reserved (live_inject ts lx) = lx_reserved lx"
proof -
  let ?push = "\<lambda>tr. push_trade (plan_ticker (at_plan tr)) tr"
  have "live_ok (plans \<union> at_plan ` set ts) (rebuild_active_snapshot (fold ?push ts lx)) \<and>
      trades_evolve lx (fold ?push ts lx) \<and> lx_calls (fold ?push ts lx) = lx_calls lx \<and>
      lx_closed (fold ?push ts lx) = lx_closed lx \<and> lx_reserved (fold ?push ts lx) = lx_reserved lx"
    if "live_ok plans (rebuild_active_snapshot lx)" for plans lx
    using that
  proof (induction ts arbitrary: plans lx)
    case Nil
    then show ?case by simp
  next
    case (Cons tr ts)
    have add: "adds_trade tr (rebuild_active_snapshot lx) (?push tr lx)"
      by (simp add: adds_trade_def push_trade_def set_trades_def Let_def)
    have "live_ok (insert (at_plan tr) plans) (rebuild_active_snapshot (?push tr lx))"
      by (rule adds_trade_ok [OF Cons.prems add])
    moreover have "trades_evolve lx (?push tr lx)"
      using adds_trade_ok(2) [OF Cons.prems add] by (simp add: trades_evolve_def)
    ultimately show ?case
      using Cons.IH [of "insert (at_plan tr) plans" "?push tr lx"] trades_evolve_trans
      by (auto simp: push_trade_def set_trades_def insert_commute)
  qed
  moreover have "live_ok plans (rebuild_active_snapshot lx)" using rebuild_ok [OF ok] by (simp add: step_ok_def)
  ultimately show ?thesis
    by (simp add: live_inject_def trades_evolve_def)
qed

lemma cancel_trades_frame:
  "cancel_trades trs lx = (trs', lx') \<Longrightarrow> quiet plans lx lx' \<and> map at_plan trs' = map at_plan trs"
proof (induction trs arbitrary: lx trs' lx')
  case Nil
  then show ?case by simp
next
  case (Cons tr trs)
  let ?lx1 = "if at_state tr = PendingEntry then release (at_plan tr) lx else lx"
  have q: "quiet plans lx ?lx1" by (simp add: quiet_release)
  show ?case
  proof (cases "at_state tr = Closed")
    case True
    obtain trs1 lx2 where rec: "cancel_trades trs lx = (trs1, lx2)" by fastforce
    show ?thesis using Cons.IH [OF rec] Cons.prems rec True by auto
  next
    case False
    obtain trs1 lx2 where rec: "cancel_trades trs ?lx1 = (trs1, lx2)" by fastforce
    show ?thesis
      using Cons.IH [OF rec] Cons.prems rec False quiet_trans [OF q] by auto
  qed
qed

lemma cancel_all_ok:
  assumes ok: "live_ok plans lx" and lx'_def: "lx' = snd (live_cancel_all gw t lx)"
  shows "live_ok plans lx' \<and> adds_exits plans lx lx' \<and> reserve_kept lx lx'"
proof -
  let ?lx1 = "lx\<lparr>lx_calls := lx_calls lx @ [CancelAllOrders t]\<rparr>"
  have q: "quiet plans lx ?lx1" by (simp add: quiet_def helper_step_def adds_exits_def exit_call_def)
  show ?thesis
  proof (cases "gw_cancel_all gw (lx_calls lx) t")
    case (Inl err)
    then have "lx' = ?lx1" by (simp add: lx'_def live_cancel_all_def Let_def)
    then show ?thesis using quiet_step_ok [OF q ok] by (simp add: step_ok_def)
  next
    case answer: (Inr ok')
    show ?thesis
    proof (cases "map_of (lx_trades lx) t")
      case None
      then have "lx' = rebuild_active_snapshot ?lx1" using answer by (simp add: lx'_def live_cancel_all_def Let_def)
      then show ?thesis
        using step_ok_trans [OF quiet_step_ok [OF q ok] rebuild_ok] quiet_step_ok [OF q ok] by (simp add: step_ok_def)
    next
      case (Some trs)
      obtain trs' lx2 where c: "cancel_trades trs ?lx1 = (trs', lx2)" by fastforce
      have lx': "lx' = rebuild_active_snapshot (set_trades t trs' lx2)"
        using answer Some c by (simp add: lx'_def live_cancel_all_def Let_def)
      have fr: "quiet plans lx lx2" "map at_plan trs' = map at_plan trs"
        using cancel_trades_frame [OF c, of plans] quiet_trans [OF q] by auto
      have "at_plan ` set trs' = at_plan ` set trs" using fr(2) by (metis set_map)
      then have rows: "\<forall>tr \<in> set trs'. at_plan tr \<in> plans \<and> plan_ticker (at_plan tr) = t"
        using ok Some unfolding live_ok_def trades_of_def by (metis (no_types, lifting) imageE image_eqI option.simps(5))
      have "lx_trades (set_trades t trs' lx2) = omap_put (<) t trs' (lx_trades lx)"
        using fr(1) by (simp add: set_trades_def quiet_def helper_step_def)
      then have "live_ok plans lx'"
        using ok rows by (simp add: lx' live_ok_def trades_of_put asc.omap_ok_put)
      then show ?thesis
        using fr(1) by (simp add: lx' set_trades_def adds_exits_def quiet_def reserve_kept_def helper_step_def)
    qed
  qed
qed

lemma pop_closed_ok:
  assumes "live_ok plans lx"
  shows "live_ok plans (snd (live_pop_closed lx)) \<and> lx_calls (snd (live_pop_closed lx)) = lx_calls lx \<and>
    lx_reserved (snd (live_pop_closed lx)) = lx_reserved lx"
proof -
  let ?keep = "\<lambda>trs. filter (\<lambda>tr. at_state tr \<noteq> Closed) trs"
  let ?lx = "lx\<lparr>lx_closed := [], lx_trades := map (\<lambda>(t, trs). (t, ?keep trs)) (lx_trades lx)\<rparr>"
  have "map fst (lx_trades ?lx) = map fst (lx_trades lx)" by (simp add: case_prod_beta)
  then have "omap_ok (<) (lx_trades ?lx)" using assms by (simp only: live_ok_def omap_ok_def)
  moreover have "trades_of ?lx t = ?keep (trades_of lx t)" for t
    by (simp add: trades_of_def map_of_map split: option.splits)
  ultimately show ?thesis using assms by (auto simp: live_pop_closed_def live_ok_def)
qed

section \<open>Closed trades\<close>

lemma closed_grows_trans: "closed_grows a b \<Longrightarrow> closed_grows b c \<Longrightarrow> closed_grows a c"
  by (auto simp: closed_grows_def)

lemma quiet_closed_grows: "quiet UNIV lx lx' \<Longrightarrow> closed_grows lx lx'"
  by (simp add: closed_grows_def quiet_def helper_step_def)

lemma closed_grows_same [simp]:
  "closed_grows lx (rebuild_active_snapshot lx') = closed_grows lx lx'"
  "closed_grows lx (set_trades t trs lx') = closed_grows lx lx'"
  "closed_grows lx (lx'\<lparr>lx_trades := m\<rparr>) = closed_grows lx lx'"
  by (simp_all add: closed_grows_def set_trades_def)

lemma closed_grows_fold: "(\<And>x s. closed_grows s (f x s)) \<Longrightarrow> closed_grows lx (fold f xs lx)"
  by (induction xs arbitrary: lx) (auto intro: closed_grows_trans)

lemma closed_of_close_trade: "closed_grows lx (live_close_trade gw t reason lx)"
  using close_open_trades_quiet [of gw reason _ lx _ _ UNIV] quiet_closed_grows
  by (auto simp: live_close_trade_def split: option.split prod.split)

lemma closed_of_order_update: "closed_grows lx (on_order_update gw u upd lx)"
  using dispatch_update_quiet [of gw u upd _ lx _ _ UNIV] quiet_closed_grows
  by (auto simp: on_order_update_def split: option.split prod.split)

lemma closed_of_rearm: "closed_grows lx (rearm_ticker gw u now t lx)"
  using rearm_trades_quiet [of gw u now _ lx _ _ UNIV] quiet_closed_grows
  by (auto simp: rearm_ticker_def split: option.split prod.split)

lemma closed_of_handle: "closed_grows lx (handle_reconciled res lx)"
  using settle_in_map_quiet [of res _ "lx_trades lx" lx _ _ UNIV] quiet_closed_grows
  by (auto simp: handle_reconciled_def split: option.split prod.split)

lemma closed_of_reconcile: "closed_grows lx (reconcile_ticker gw u now t lx)"
proof (cases "has_pending (lx_recon lx) t")
  case True
  have "closed_grows lx (snd (poll_ticker gw now t lx))" by (rule quiet_closed_grows [OF poll_ticker_quiet])
  then show ?thesis
    using closed_grows_trans [OF _ closed_grows_fold [of handle_reconciled, OF closed_of_handle]] True
    by (simp add: reconcile_ticker_def case_prod_beta)
next
  case False
  then show ?thesis by (simp add: reconcile_ticker_def closed_of_rearm)
qed

lemma closed_of_tick: "closed_grows lx (live_tick gw u now lx)"
proof -
  obtain actions tickers lx1 where c: "tick_collect now lx = (actions, tickers, lx1)" by (metis prod_cases3)
  have "closed_grows lx lx1"
    using quiet_closed_grows [OF release_stale_quiet [of UNIV lx now]] c by (auto simp: tick_collect_def Let_def)
  moreover have "closed_grows lx1 (fold (execute_close gw) actions lx1)"
    by (rule closed_grows_fold, rule quiet_closed_grows [OF execute_close_quiet]) simp
  moreover have "closed_grows s (fold (reconcile_ticker gw u now) tickers s)" for s
    by (rule closed_grows_fold) (rule closed_of_reconcile)
  ultimately show ?thesis using c by (simp add: live_tick_def) (metis closed_grows_trans)
qed

lemma closed_of_cancel_all: "closed_grows lx (snd (live_cancel_all gw t lx))"
proof -
  have "closed_grows lx lx2"
    if "cancel_trades trs (lx\<lparr>lx_calls := lx_calls lx @ [CancelAllOrders t]\<rparr>) = (trs', lx2)" for trs trs' lx2
    using quiet_closed_grows [OF conjunct1 [OF cancel_trades_frame [OF that, of UNIV]]]
    by (simp add: closed_grows_def)
  then show ?thesis
    by (auto simp: live_cancel_all_def Let_def closed_grows_def set_trades_def split: sum.split option.split prod.split)
qed

lemma live_step_closed: "closed_grows lx (live_step ((gw, u), e) lx)"
proof (cases e)
  case (Submit cid now plan)
  then show ?thesis using submit_effect [of cid plan lx gw now] by (auto simp: submit_effect_def closed_grows_def)
next
  case (Inject ts)
  have "lx_closed (fold (\<lambda>tr. push_trade (plan_ticker (at_plan tr)) tr) ts s) = lx_closed s" for s
    by (induction ts arbitrary: s) (simp_all add: push_trade_def set_trades_def)
  then show ?thesis using Inject by (simp add: live_inject_def closed_grows_def)
next
  case (PositionUpdate upd)
  then show ?thesis by (simp add: on_position_update_def closed_grows_def set_trades_def split: option.split)
next
  case (BalanceUpdate now)
  then show ?thesis by (simp add: on_balance_update_def closed_grows_def)
next
  case (SetMarks marks)
  then show ?thesis by (simp add: live_set_mark_prices_def closed_grows_def)
next
  case (SetMark t p)
  then show ?thesis by (simp add: live_set_mark_price_def closed_grows_def)
qed (simp_all add: closed_of_close_trade closed_of_order_update closed_of_tick closed_of_cancel_all)

interpretation live_source: closed_trade_source live_step lx_closed live_pop_closed
proof
  show "\<exists>new. lx_closed (live_step x lx) = lx_closed lx @ new" for x lx
    using live_step_closed [of lx "fst (fst x)" "snd (fst x)" "snd x"] by (simp add: closed_grows_def)
qed (simp_all add: live_pop_closed_def)


section \<open>The orders sent\<close>

type_synonym live_loop = "((gateway \<times> universe) \<times> live_event) loop_step list"

fun event_plans :: "live_event \<Rightarrow> trade_plan set" where
  "event_plans (Submit cid now plan) = {plan}"
| "event_plans (Inject ts) = at_plan ` set ts"
| "event_plans _ = {}"

fun event_entries :: "live_event \<Rightarrow> gw_call list" where
  "event_entries (Submit cid now plan) = [PlaceOrder (entry_request cid plan)]"
| "event_entries _ = []"

fun known_plans :: "live_loop \<Rightarrow> trade_plan set" where
  "known_plans [] = {}"
| "known_plans (Event (g, e) # es) = event_plans e \<union> known_plans es"
| "known_plans (PopClosed # es) = known_plans es"

fun submitted :: "live_loop \<Rightarrow> gw_call list" where
  "submitted [] = []"
| "submitted (Event (g, e) # es) = event_entries e @ submitted es"
| "submitted (PopClosed # es) = submitted es"

definition sends :: "trade_plan set \<Rightarrow> gw_call list \<Rightarrow> live \<Rightarrow> live \<Rightarrow> bool" where
  "sends plans ents lx lx' \<longleftrightarrow>
     (\<exists>cs. lx_calls lx' = lx_calls lx @ cs \<and> filter is_entry_call cs = ents \<and>
           list_all (\<lambda>c. is_entry_call c \<or> exit_call plans c) cs)"

lemma exit_call_mono: "exit_call plans c \<Longrightarrow> plans \<subseteq> plans' \<Longrightarrow> exit_call plans' c"
  unfolding exit_call_def by (fastforce split: gw_call.splits)

lemma sends_trans:
  assumes "sends plans ents a b" "sends plans' ents' b c" "plans \<subseteq> plans'"
  shows "sends plans' (ents @ ents') a c"
proof -
  obtain cs where cs: "lx_calls b = lx_calls a @ cs" "filter is_entry_call cs = ents"
    "list_all (\<lambda>c. is_entry_call c \<or> exit_call plans c) cs" using assms(1) by (auto simp: sends_def)
  obtain ds where ds: "lx_calls c = lx_calls b @ ds" "filter is_entry_call ds = ents'"
    "list_all (\<lambda>c. is_entry_call c \<or> exit_call plans' c) ds" using assms(2) by (auto simp: sends_def)
  have "list_all (\<lambda>c. is_entry_call c \<or> exit_call plans' c) cs"
    using cs(3) exit_call_mono [OF _ assms(3)] by (auto simp: list_all_iff)
  then show ?thesis unfolding sends_def using cs ds by (intro exI [of _ "cs @ ds"]) simp
qed

lemma adds_exits_sends: "adds_exits plans lx lx' \<Longrightarrow> sends plans [] lx lx'"
  unfolding adds_exits_def sends_def list_all_iff
  using exit_call_not_entry by (fastforce simp: filter_empty_conv)

text \<open>One event: the invariant, the orders sent, the balance reserved.\<close>

fun solvent :: "live_event \<Rightarrow> bool" where
  "solvent (Submit cid now plan) \<longleftrightarrow> 0 \<le> reservation plan"
| "solvent _ \<longleftrightarrow> True"

lemma live_step_ok:
  assumes ok: "live_ok plans lx"
    and plans'_def: "plans' = plans \<union> event_plans e" and lx'_def: "lx' = live_step ((gw, u), e) lx"
  shows "live_ok plans' lx' \<and> sends plans' (event_entries e) lx lx' \<and>
    (solvent e \<longrightarrow> 0 \<le> lx_reserved lx \<longrightarrow> 0 \<le> lx_reserved lx')"
proof (cases e)
  case (Submit cid now plan)
  obtain s lx1 where s: "at_plan s = plan" "adds_trade s lx lx1" "lx' = rebuild_active_snapshot lx1"
    "lx_calls lx1 = lx_calls lx @ [PlaceOrder (entry_request cid plan)]"
    "0 \<le> reservation plan \<longrightarrow> 0 \<le> lx_reserved lx \<longrightarrow> 0 \<le> lx_reserved lx1"
    using submit_effect [of cid plan lx gw now] by (auto simp: submit_effect_def lx'_def Submit)
  then have "live_ok plans' lx'" using adds_trade_ok(1) [OF ok s(2)] by (simp add: plans'_def Submit)
  then show ?thesis
    using s by (simp add: Submit sends_def is_entry_call_def entry_request_def)
next
  case (Inject ts)
  then show ?thesis using live_inject_ok [OF ok, of ts] by (simp add: plans'_def lx'_def sends_def)
next
  case (CancelAll t)
  then show ?thesis
    using cancel_all_ok [OF ok refl, of gw t] adds_exits_sends by (auto simp: plans'_def lx'_def reserve_kept_def)
next
  case (CloseTrade t reason)
  then show ?thesis
    using close_trade_ok [OF ok, of gw t reason] adds_exits_sends
    by (auto simp: plans'_def lx'_def step_ok_def reserve_kept_def)
next
  case (OrderUpdate upd)
  then show ?thesis
    using order_update_ok [OF ok, of gw u upd] adds_exits_sends
    by (auto simp: plans'_def lx'_def step_ok_def reserve_kept_def)
next
  case (PositionUpdate upd)
  then show ?thesis
    using position_update_ok [OF ok, of upd] adds_exits_sends
    by (auto simp: plans'_def lx'_def step_ok_def reserve_kept_def)
next
  case (BalanceUpdate now)
  then show ?thesis
    using balance_update_ok [OF ok, of now] adds_exits_sends
    by (auto simp: plans'_def lx'_def step_ok_def reserve_kept_def)
next
  case (Tick now)
  then show ?thesis
    using tick_ok [OF ok, of gw u now] adds_exits_sends
    by (auto simp: plans'_def lx'_def step_ok_def reserve_kept_def)
next
  case (SetMarks marks)
  then show ?thesis
    using set_marks_ok [OF ok, of marks] adds_exits_sends
    by (auto simp: plans'_def lx'_def step_ok_def reserve_kept_def)
next
  case (SetMark t p)
  then show ?thesis
    using set_mark_ok [OF ok, of t p] adds_exits_sends
    by (auto simp: plans'_def lx'_def step_ok_def reserve_kept_def)
qed

fun loop_event_ok :: "((gateway \<times> universe) \<times> live_event) loop_step \<Rightarrow> bool" where
  "loop_event_ok (Event (g, e)) = solvent e"
| "loop_event_ok PopClosed = True"

lemma live_loop_ok:
  assumes "live_ok plans lx" and lx'_def: "lx' = snd (live_source.loop es lx)"
  shows "live_ok (plans \<union> known_plans es) lx' \<and> sends (plans \<union> known_plans es) (submitted es) lx lx' \<and>
    (list_all loop_event_ok es \<longrightarrow> 0 \<le> lx_reserved lx \<longrightarrow> 0 \<le> lx_reserved lx')"
  using assms(1) unfolding lx'_def
proof (induction es arbitrary: plans lx)
  case Nil
  then show ?case by (simp add: sends_def)
next
  case (Cons x es)
  show ?case
  proof (cases x)
    case (Event ge)
    obtain gw u e where ge: "ge = ((gw, u), e)" by (metis prod.exhaust)
    note s = live_step_ok [OF Cons.prems refl refl, of e gw u]
    note r = Cons.IH [OF conjunct1 [OF s]]
    have "sends (plans \<union> event_plans e \<union> known_plans es) (event_entries e @ submitted es) lx
        (snd (live_source.loop es (live_step ((gw, u), e) lx)))"
      using sends_trans [OF conjunct1 [OF conjunct2 [OF s]] conjunct1 [OF conjunct2 [OF r]]] by blast
    then show ?thesis using s r by (simp add: Event ge Un_assoc)
  next
    case PopClosed
    note p = pop_closed_ok [OF Cons.prems]
    show ?thesis
      using Cons.IH [OF conjunct1 [OF p]] p by (simp add: PopClosed case_prod_beta sends_def)
  qed
qed

lemma live_new_ok [simp]: "live_ok {} (live_new cfg)"
  by (simp add: live_ok_def live_new_def trades_of_def active_view_def)

text \<open>C3. The executor never invents or repeats a position: over any run, whatever the gateway answers
  and in whatever order updates, ticks, closes and drains come, the orders that can open a position
  are exactly the entry orders of the submitted plans, once each and in order; and every other order
  it places is a reduce-only exit, on the opposite side, of a plan it was given.\<close>

theorem live_sends_submitted_entries:
  "filter is_entry_call (lx_calls (snd (live_source.loop es (live_new cfg)))) = submitted es \<and>
   list_all (\<lambda>c. is_entry_call c \<or> exit_call (known_plans es) c)
     (lx_calls (snd (live_source.loop es (live_new cfg))))"
  using live_loop_ok [OF live_new_ok refl, of es cfg] by (simp add: sends_def live_new_def)

text \<open>C31. The state is well formed over every run: the tickers are in order and each once, each trade is
  filed under the ticker of its plan and carries a plan the executor was given, and what
  \<open>get_active_trades\<close> shows is the current trades at the current mark prices, never a stale copy.\<close>

theorem live_state_well_formed:
  "omap_ok (<) (lx_trades (snd (live_source.loop es (live_new cfg)))) \<and>
   list_all (\<lambda>(t, trs). list_all (\<lambda>tr. plan_ticker (at_plan tr) = t \<and> at_plan tr \<in> known_plans es) trs)
     (lx_trades (snd (live_source.loop es (live_new cfg)))) \<and>
   get_active_trades (snd (live_source.loop es (live_new cfg))) =
     active_view (snd (live_source.loop es (live_new cfg)))"
proof -
  let ?lx = "snd (live_source.loop es (live_new cfg))"
  have ok: "live_ok (known_plans es) ?lx" using live_loop_ok [OF live_new_ok refl, of es cfg] by simp
  then have d: "distinct (map fst (lx_trades ?lx))" by (intro asc.omap_ok_distinct) (simp add: live_ok_def)
  have "trades_of ?lx t = trs" if "(t, trs) \<in> set (lx_trades ?lx)" for t trs
    using that d by (simp add: trades_of_def)
  then show ?thesis using ok by (auto simp: live_ok_def list_all_iff get_active_trades_def)
qed

text \<open>The balance held back for submitted orders is never negative, whatever is released and when:
  releases for fills, rejections, cancels, unknown submissions that time out and the timeout of the
  reservation itself may come in any order and more than once.\<close>

theorem live_reserved_nonnegative:
  assumes "list_all loop_event_ok es"
  shows "0 \<le> lx_reserved (snd (live_source.loop es (live_new cfg)))"
  using live_loop_ok [OF live_new_ok refl, of es cfg] assms by (simp add: live_new_def)

end
