(* ===== verification/LiveCases.thy ===== *)
theory LiveCases
  imports LiveRuns
begin

text \<open>
  The live executor, case by case: how its trades evolve over a run, how an open position gets
  its stop, and concrete runs, some of which show where the code does not do what its comments
  say.
\<close>

section \<open>The life of a trade\<close>

definition keeps_trades :: "(gateway \<times> universe) \<times> live_event \<Rightarrow> bool" where
  "keeps_trades x = (case snd x of CancelAll t \<Rightarrow> False | _ \<Rightarrow> True)"

lemma live_step_evolves:
  assumes ok: "live_ok plans lx" and "keeps_trades ((gw, u), e)"
  shows "trades_evolve lx (live_step ((gw, u), e) lx)"
proof (cases e)
  case (Submit cid now plan)
  then show ?thesis
    using submit_effect [of cid plan lx gw now] adds_trade_ok(2) [OF ok] by (auto simp: submit_effect_def)
next
  case (Inject ts)
  then show ?thesis using live_inject_ok [OF ok] by simp
next
  case (CancelAll t)
  then show ?thesis using assms(2) by (simp add: keeps_trades_def)
next
  case (CloseTrade t reason)
  then show ?thesis using close_trade_ok [OF ok] by (simp add: step_ok_def)
next
  case (OrderUpdate upd)
  then show ?thesis using order_update_ok [OF ok] by (simp add: step_ok_def)
next
  case (PositionUpdate upd)
  then show ?thesis using position_update_ok [OF ok] by (simp add: step_ok_def)
next
  case (BalanceUpdate now)
  then show ?thesis using balance_update_ok [OF ok] by (simp add: step_ok_def)
next
  case (Tick now)
  then show ?thesis using tick_ok [OF ok] by (simp add: step_ok_def)
next
  case (SetMarks marks)
  then show ?thesis using set_marks_ok [OF ok] by (simp add: step_ok_def)
next
  case (SetMark t p)
  then show ?thesis using set_mark_ok [OF ok] by (simp add: step_ok_def)
qed

lemma run_live_evolves:
  "live_ok plans lx \<Longrightarrow> list_all keeps_trades es \<Longrightarrow> trades_evolve lx (run_live es lx)"
proof (induction es arbitrary: plans lx)
  case Nil
  then show ?case by (simp add: run_live_def)
next
  case (Cons x es)
  obtain gw u e where x: "x = ((gw, u), e)" by (metis prod.exhaust)
  have "trades_evolve lx (live_step x lx)" using live_step_evolves Cons.prems by (simp add: x)
  moreover have "trades_evolve (live_step x lx) (run_live es (live_step x lx))"
    using Cons.IH [OF conjunct1 [OF live_step_ok [OF Cons.prems(1) refl refl, of e gw u]]] Cons.prems(2)
    by (simp add: x)
  ultimately show ?case using trades_evolve_trans by (simp add: run_live_def)
qed


section \<open>Stops\<close>

definition stop_request :: "active_trade \<Rightarrow> place_order_request" where
  "stop_request tr =
     exit_request (at_plan tr) StopLoss (plan_stop_price (at_plan tr)) (at_executed_size tr)"

definition new_calls :: "live \<Rightarrow> live \<Rightarrow> gw_call list" where
  "new_calls lx lx' = drop (length (lx_calls lx)) (lx_calls lx')"

definition is_stop_call :: "gw_call \<Rightarrow> bool" where
  "is_stop_call c = (case c of PlaceOrder req \<Rightarrow> req_type req = StopLoss | _ \<Rightarrow> False)"

lemma cancel_if_set_calls:
  "cancel_if_set gw i t lx = (ok, lx') \<Longrightarrow>
     lx_calls lx' = lx_calls lx @ (if i = 0 then [] else [CancelOrder i t]) \<and>
     (ok \<longleftrightarrow> i = 0 \<or> gw_cancel gw (lx_calls lx) i t = Inr ())"
  by (auto simp: cancel_if_set_def cancel_order_def split: if_splits sum.splits)

lemma place_tp1_calls:
  "place_tp1 gw u tr lx = (tr', lx') \<Longrightarrow>
     (\<exists>cs. lx_calls lx' = lx_calls lx @ cs \<and> filter is_stop_call cs = []) \<and>
     at_stop_order_id tr' = at_stop_order_id tr"
  by (auto simp: place_tp1_def place_order_def alert_def is_stop_call_def exit_request_def
      split: if_splits sum.splits)

text \<open>C4. An open position gets its stop, and never two: the old stop order is cancelled first, and if
  the exchange does not cancel it nothing else is done and it stays on record; otherwise exactly one
  stop order goes out, reduce-only, at the plan's stop price and for the whole position, and the trade
  carries the id the exchange gave it, or none if it was refused.\<close>

theorem place_stops_protects:
  assumes "place_stops gw u tr lx = (tr', lx')" "at_state tr = Open" "0 < at_executed_size tr"
  shows "if at_stop_order_id tr \<noteq> 0 \<and>
            gw_cancel gw (lx_calls lx) (at_stop_order_id tr) (plan_ticker (at_plan tr)) \<noteq> Inr ()
    then tr' = tr \<and> new_calls lx lx' = [CancelOrder (at_stop_order_id tr) (plan_ticker (at_plan tr))]
    else \<exists>calls. filter is_stop_call (new_calls lx lx') = [PlaceOrder (stop_request tr)] \<and>
           at_stop_order_id tr' = (case gw_place gw calls (stop_request tr) of Inr i \<Rightarrow> i | Inl err \<Rightarrow> 0)"
proof -
  let ?t = "plan_ticker (at_plan tr)" and ?tr1 = "tr\<lparr>at_stop_order_id := 0\<rparr>"
  obtain ok1 lx1 where c1: "cancel_if_set gw (at_stop_order_id tr) ?t lx = (ok1, lx1)" by fastforce
  obtain ok2 lx2 where c2: "cancel_if_set gw (at_tp1_order_id ?tr1) ?t lx1 = (ok2, lx2)" by fastforce
  define tr2 where "tr2 = (if ok2 then ?tr1\<lparr>at_tp1_order_id := 0\<rparr> else ?tr1)"
  obtain tr3 lx3 where p: "place_stop_loss gw tr2 lx2 = (tr3, lx3)" by fastforce
  obtain tr4 lx4 where t: "place_tp1 gw u tr3 lx3 = (tr4, lx4)" by fastforce
  note k1 = cancel_if_set_calls [OF c1] and k2 = cancel_if_set_calls [OF c2] and k4 = place_tp1_calls [OF t]
  have r: "(tr', lx') = (if ok1 then (if 0 < plan_tp1_price (at_plan tr) \<and> ok2 then (tr4, lx4) else (tr3, lx3)) else (tr, lx1))"
    using assms(2,3) c1 c2 p t unfolding assms(1) [symmetric]
    by (auto simp: place_stops_def tr2_def Let_def split: bool.splits)
  have tr2: "stop_request tr2 = stop_request tr" "at_stop_order_id tr2 = 0"
    by (simp_all add: tr2_def stop_request_def)
  have p3: "lx_calls lx3 = lx_calls lx2 @ [PlaceOrder (stop_request tr)]"
    "at_stop_order_id tr3 = (case gw_place gw (lx_calls lx2) (stop_request tr) of Inr i \<Rightarrow> i | Inl err \<Rightarrow> 0)"
    using p tr2 by (auto simp: place_stop_loss_def place_order_def alert_def stop_request_def split: sum.splits if_splits)
  have s: "is_stop_call (PlaceOrder (stop_request tr))" "\<not> is_stop_call (CancelOrder i k)" for i k
    by (simp_all add: is_stop_call_def stop_request_def exit_request_def)
  show ?thesis
  proof (cases ok1)
    case False
    then show ?thesis using r k1 by (auto simp: new_calls_def)
  next
    case True
    obtain cs where cs: "lx_calls lx' = lx_calls lx3 @ cs" "filter is_stop_call cs = []"
      and i: "at_stop_order_id tr' = at_stop_order_id tr3"
      using r True k4 by (auto split: if_splits)
    have "filter is_stop_call (new_calls lx lx') = [PlaceOrder (stop_request tr)]"
      using cs p3(1) k1 k2 s by (simp add: new_calls_def)
    then show ?thesis using True k1 i p3(2) by auto
  qed
qed

section \<open>Concrete runs\<close>

definition gateway_accepting :: gateway where
  "gateway_accepting =
     \<lparr>gw_place = \<lambda>calls req. Inr (int (length calls) + 1), gw_cancel = \<lambda>calls i t. Inr (),
      gw_cancel_all = \<lambda>calls t. Inr (), gw_open_orders = \<lambda>calls t. Inr []\<rparr>"

definition gateway_refusing :: gateway where
  "gateway_refusing =
     \<lparr>gw_place = \<lambda>calls req. Inl ''rejected'', gw_cancel = \<lambda>calls i t. Inl ''rejected'',
      gw_cancel_all = \<lambda>calls t. Inl ''rejected'', gw_open_orders = \<lambda>calls t. Inr []\<rparr>"

definition run_universe :: universe where
  "run_universe = universe_new universe_config_default"

definition run_plan :: "ticker \<Rightarrow> trade_plan" where
  "run_plan t = trade_plan_default\<lparr>plan_ticker := t, plan_side := Buy, plan_entry_price := 100,
     plan_stop_price := 98, plan_tp1_price := 104, plan_tp1_size_ratio := 1 / 2, plan_size_coin := 4\<rparr>"

definition open_trade :: "ticker \<Rightarrow> active_trade" where
  "open_trade t = active_trade_default\<lparr>at_plan := run_plan t, at_state := Open, at_executed_size := 4,
     at_avg_entry_price := 100, at_entry_order_id := 7\<rparr>"

definition fill_update :: "int \<Rightarrow> order_status \<Rightarrow> double \<Rightarrow> order_update" where
  "fill_update i st filled =
     \<lparr>ou_order_id = i, ou_ticker = ''BTC'', ou_side = Buy, ou_type = Limit, ou_price = 100,
      ou_filled_price = 100, ou_size = 4, ou_filled_size = filled, ou_fee = 0, ou_fee_currency = '''',
      ou_status = st, ou_time = 1, ou_client_order_id = ''c1''\<rparr>"

definition run_with :: "gateway \<Rightarrow> live_event list \<Rightarrow> live \<Rightarrow> live" where
  "run_with gw es lx = run_live (map (\<lambda>e. ((gw, run_universe), e)) es) lx"

lemma live_reserved_nonnegative_witness:
  "0 \<le> lx_reserved (snd (live_source.loop
     [Event ((gateway_accepting, run_universe), Submit ''c1'' 1 (run_plan ''BTC'')), PopClosed]
     (live_new live_config_default)))"
  by (rule live_reserved_nonnegative) code_simp

lemma place_stops_protects_witness:
  "filter is_stop_call (new_calls (live_new live_config_default)
     (snd (place_stops gateway_accepting run_universe (open_trade ''BTC'') (live_new live_config_default)))) =
   [PlaceOrder (stop_request (open_trade ''BTC''))]"
proof -
  have "at_state (open_trade ''BTC'') = Open" "0 < at_executed_size (open_trade ''BTC'')"
    "at_stop_order_id (open_trade ''BTC'') = 0"
    by (simp_all add: open_trade_def active_trade_default_def)
  then show ?thesis
    using place_stops_protects [of gateway_accepting run_universe "open_trade ''BTC''" "live_new live_config_default",
        OF prod.collapse [symmetric]] by auto
qed


text \<open>
  A partial fill of the entry: the stop is asked for before the filled size is written, so no stop
  is placed although the position is open with a size.
\<close>

lemma partial_fill_gets_no_stop:
  "let lx = run_with gateway_accepting
              [Submit ''c1'' 0 (run_plan ''BTC''), OrderUpdate (fill_update 1 OrderOpen 2)] (live_new live_config_default);
       tr = hd (trades_of lx ''BTC'')
   in at_state tr = Open \<and> at_executed_size tr = 2 \<and> at_stop_order_id tr = 0 \<and>
      filter is_stop_call (lx_calls lx) = []"
  by code_simp

text \<open>
  A loss beyond the limit with an exchange that refuses every order: the tick records the close all
  the same, and the trade stays in emergency closing, where no update and no tick looks at it again.
\<close>

lemma refused_close_is_recorded:
  "let lx = run_with gateway_refusing [Inject [open_trade ''BTC''], SetMark ''BTC'' 97, Tick 1, Tick 2,
              OrderUpdate (fill_update 7 OrderClosed 4)] (live_new live_config_default)
   in map ct_reason (lx_closed lx) = [''R14''] \<and>
      map at_state (trades_of lx ''BTC'') = [EmergencyClosing]"
  by code_simp

text \<open>A manual close the exchange refuses is recorded each time it is asked for.\<close>

lemma refused_manual_close_repeats:
  "let lx = run_with gateway_refusing [Inject [open_trade ''BTC''], CloseTrade ''BTC'' ''Manual'',
              CloseTrade ''BTC'' ''Manual''] (live_new live_config_default)
   in length (lx_closed lx) = 2 \<and> map at_state (trades_of lx ''BTC'') = [Open]"
  by code_simp

text \<open>
  Two submissions with an unknown outcome: the second is not tracked, because every intent is entered
  under the local id 0; and when the order of the first one turns up on the exchange, the search goes
  over all tickers by side and size, so the trade of the other ticker gets its order id.
\<close>

definition gateway_unknown :: gateway where
  "gateway_unknown = gateway_refusing\<lparr>gw_open_orders := \<lambda>calls t.
     Inr (if t = ''BTC'' then
       [\<lparr>ro_id = 55, ro_client_id = None, ro_ticker = ''BTC'', ro_side = Buy, ro_type = Limit, ro_price = 100,
         ro_size = 4, ro_filled_size = 0, ro_filled_price = 0, ro_remaining_size = 4, ro_status = OrderOpen,
         ro_trigger_price = None, ro_create_date = 0\<rparr>] else [])\<rparr>"

lemma other_ticker_gets_the_order:
  "let lx = run_with gateway_unknown [Submit ''c1'' 0 (run_plan ''BTC''), Submit ''c2'' 0 (run_plan ''AAA''),
              Tick (seconds 1)] (live_new live_config_default)
   in map (\<lambda>tr. (at_state tr, at_entry_order_id tr)) (trades_of lx ''AAA'') = [(PendingEntry, 55)] \<and>
      map at_state (trades_of lx ''BTC'') = [SubmitUnknown] \<and>
      \<not> has_pending (lx_recon lx) ''AAA'' \<and> \<not> has_pending (lx_recon lx) ''BTC''"
  by code_simp

end
