(* ===== verification/Paper.thy ===== *)
theory Paper
  imports OrderBook Executor
begin

text \<open>
  The paper trading executor, \<open>executor/PaperExecutor.{hpp,cpp}\<close>: pending plans that fill against
  the order book, positions with stops, targets and time limits, and the buffer of closed
  trades. The map of books belongs to the pipeline and is an argument of the operations that
  read it.
\<close>

section \<open>State\<close>

type_synonym books = "(ticker, order_book) omap"

record paper_position =
  pp_plan :: trade_plan
  pp_executed_size :: double
  pp_avg_price :: double
  pp_opened_at :: time_point

record paper_executor =
  px_slippage_bps :: double
  px_pending :: "trade_plan list"
  px_positions :: "(ticker, paper_position) omap"
  px_closed :: "closed_trade list"
  px_marks :: "(ticker, double) omap"

definition paper_new :: "double \<Rightarrow> paper_executor" where
  "paper_new slippage_bps =
     \<lparr>px_slippage_bps = slippage_bps, px_pending = [], px_positions = [], px_closed = [], px_marks = []\<rparr>"

definition paper_default_slippage_bps :: double where "paper_default_slippage_bps = 1"

text \<open>The best bid and ask of a ticker's book, zero for an empty side; \<^const>\<open>None\<close> without a book.\<close>

definition value_or :: "'a option \<Rightarrow> 'a \<Rightarrow> 'a" where
  "value_or x d = (case x of Some v \<Rightarrow> v | None \<Rightarrow> d)"

definition book_top :: "books \<Rightarrow> ticker \<Rightarrow> (double \<times> double) option" where
  "book_top books t =
     (case map_of books t of
        None \<Rightarrow> None
      | Some ob \<Rightarrow> Some (value_or (best_bid ob) 0, value_or (best_ask ob) 0))"

section \<open>Requests\<close>

definition paper_submit :: "trade_plan \<Rightarrow> paper_executor \<Rightarrow> paper_executor" where
  "paper_submit plan px = px\<lparr>px_pending := px_pending px @ [plan]\<rparr>"

text \<open>Slippage against the trader, when opening and when closing a position.\<close>

definition entry_slip :: "double \<Rightarrow> side \<Rightarrow> double \<Rightarrow> double" where
  "entry_slip bps s price = price + (if s = Buy then price * (bps / 10000) else - (price * (bps / 10000)))"

definition exit_slip :: "double \<Rightarrow> side \<Rightarrow> double \<Rightarrow> double" where
  "exit_slip bps s price = price + (if s = Buy then - (price * (bps / 10000)) else price * (bps / 10000))"

definition paper_closed :: "paper_position \<Rightarrow> double \<Rightarrow> double \<Rightarrow> string \<Rightarrow> closed_trade" where
  "paper_closed pos exit_price exit_size reason =
     \<lparr>ct_plan = pp_plan pos, ct_entry_price = pp_avg_price pos, ct_exit_price = exit_price,
      ct_size_filled = exit_size,
      ct_pnl_usd = side_pnl (plan_side (pp_plan pos)) (pp_avg_price pos) exit_price exit_size,
      ct_reason = fixed_string 32 reason\<rparr>"

definition paper_close_trade :: "books \<Rightarrow> ticker \<Rightarrow> string \<Rightarrow> paper_executor \<Rightarrow> paper_executor" where
  "paper_close_trade books t reason px =
     (case map_of (px_positions px) t of
        None \<Rightarrow> px
      | Some pos \<Rightarrow>
          let s = plan_side (pp_plan pos);
              exit0 = (case book_top books t of
                         Some (bid, ask) \<Rightarrow> if 0 < bid \<and> 0 < ask then (if s = Buy then bid else ask) else 0
                       | None \<Rightarrow> 0);
              exit1 = (if exit0 = 0 then pp_avg_price pos else exit0);
              exit_price = exit_slip (px_slippage_bps px) s exit1
          in px\<lparr>px_closed := px_closed px @ [paper_closed pos exit_price (pp_executed_size pos) reason],
                px_positions := omap_erase t (px_positions px)\<rparr>)"

definition paper_cancel_all :: "ticker \<Rightarrow> paper_executor \<Rightarrow> paper_executor" where
  "paper_cancel_all t px =
     px\<lparr>px_pending := filter (\<lambda>p. plan_ticker p \<noteq> t) (px_pending px),
        px_positions := omap_erase t (px_positions px)\<rparr>"

fun inject_positions ::
  "active_trade list \<Rightarrow> (ticker, paper_position) omap \<Rightarrow> (ticker, paper_position) omap" where
  "inject_positions [] m = m"
| "inject_positions (t # ts) m =
     inject_positions ts
       (if at_state t = Open \<or> at_state t = Exiting
        then omap_put (<) (plan_ticker (at_plan t))
               \<lparr>pp_plan = at_plan t, pp_executed_size = at_executed_size t,
                pp_avg_price = at_avg_entry_price t, pp_opened_at = at_opened_at t\<rparr> m
        else m)"

definition paper_inject :: "active_trade list \<Rightarrow> paper_executor \<Rightarrow> paper_executor" where
  "paper_inject ts px = px\<lparr>px_positions := inject_positions ts (px_positions px)\<rparr>"

definition paper_set_mark_prices :: "(ticker, double) omap \<Rightarrow> paper_executor \<Rightarrow> paper_executor" where
  "paper_set_mark_prices marks px = px\<lparr>px_marks := marks\<rparr>"

definition paper_set_mark_price :: "ticker \<Rightarrow> double \<Rightarrow> paper_executor \<Rightarrow> paper_executor" where
  "paper_set_mark_price t price px = px\<lparr>px_marks := omap_put (<) t price (px_marks px)\<rparr>"

definition paper_pop_closed :: "paper_executor \<Rightarrow> closed_trade list \<times> paper_executor" where
  "paper_pop_closed px = (px_closed px, px\<lparr>px_closed := []\<rparr>)"

section \<open>Entries\<close>

text \<open>The price a pending plan fills at, before slippage.\<close>

definition entry_fill :: "trade_plan \<Rightarrow> double \<Rightarrow> double \<Rightarrow> double option" where
  "entry_fill plan bid ask =
     (if plan_entry_type plan = Market then Some (if plan_side plan = Buy then ask else bid)
      else if plan_side plan = Buy \<and> ask \<le> plan_entry_price plan then Some (min (plan_entry_price plan) ask)
      else if plan_side plan = Sell \<and> plan_entry_price plan \<le> bid then Some (max (plan_entry_price plan) bid)
      else None)"

text \<open>The plan moved with the fill.\<close>

definition shift_plan :: "trade_plan \<Rightarrow> double \<Rightarrow> trade_plan" where
  "shift_plan plan fill_price =
     (let shift = fill_price - plan_entry_price plan in
      if shift \<noteq> 0 then
        plan\<lparr>plan_entry_price := fill_price,
             plan_stop_price := plan_stop_price plan + shift,
             plan_tp1_price := (if 0 < plan_tp1_price plan then plan_tp1_price plan + shift else plan_tp1_price plan),
             plan_tp2_price := map_option (\<lambda>p. p + shift) (plan_tp2_price plan)\<rparr>
      else plan)"

definition opened_position :: "double \<Rightarrow> trade_plan \<Rightarrow> double \<Rightarrow> time_point \<Rightarrow> paper_position" where
  "opened_position bps plan fill now =
     (let price = entry_slip bps (plan_side plan) fill in
      \<lparr>pp_plan = shift_plan plan price, pp_executed_size = plan_size_coin plan,
       pp_avg_price = price, pp_opened_at = now\<rparr>)"

text \<open>The first loop of \<open>tick\<close>: which plans stay pending, and the positions opened.\<close>

fun entries_loop ::
  "books \<Rightarrow> double \<Rightarrow> time_point \<Rightarrow> ticker \<Rightarrow> trade_plan list \<Rightarrow> (ticker, paper_position) omap
     \<Rightarrow> trade_plan list \<times> (ticker, paper_position) omap" where
  "entries_loop books bps now t [] ps = ([], ps)"
| "entries_loop books bps now t (plan # plans) ps =
     (let keep = (\<lambda>ps. case entries_loop books bps now t plans ps of (rest, ps') \<Rightarrow> (plan # rest, ps'));
          remove = entries_loop books bps now t plans
      in
      if plan_ticker plan \<noteq> t then keep ps
      else if plan_valid_until plan < now then remove ps
      else (case book_top books (plan_ticker plan) of
              None \<Rightarrow> keep ps
            | Some (bid, ask) \<Rightarrow>
                if bid = 0 \<or> ask = 0 then keep ps
                else (case entry_fill plan bid ask of
                        None \<Rightarrow> keep ps
                      | Some fill \<Rightarrow>
                          if map_of ps (plan_ticker plan) \<noteq> None then remove ps
                          else remove (omap_put (<) (plan_ticker plan) (opened_position bps plan fill now) ps))))"

section \<open>Exits\<close>

definition stop_exit :: "paper_position \<Rightarrow> double \<Rightarrow> double \<Rightarrow> (string \<times> double) option" where
  "stop_exit pos bid ask =
     (let stop = plan_stop_price (pp_plan pos) in
      if plan_side (pp_plan pos) = Buy
      then (if bid \<le> stop then Some (''Stop Loss'', min stop bid) else None)
      else (if stop \<le> ask then Some (''Stop Loss'', max stop ask) else None))"

definition take_profit_exit :: "paper_position \<Rightarrow> double \<Rightarrow> double \<Rightarrow> (string \<times> double) option" where
  "take_profit_exit pos bid ask =
     (let tp = plan_tp1_price (pp_plan pos) in
      if 0 < tp then
        (if plan_side (pp_plan pos) = Buy
         then (if tp \<le> ask then Some (''Take Profit'', max tp ask) else None)
         else (if bid \<le> tp then Some (''Take Profit'', min tp bid) else None))
      else None)"

definition no_progress_exit :: "paper_position \<Rightarrow> double \<Rightarrow> double \<Rightarrow> time_point \<Rightarrow> (string \<times> double) option" where
  "no_progress_exit pos bid ask now =
     (let m = (bid + ask) * (1 / 2); s = plan_side (pp_plan pos) in
      if plan_no_progress_timeout_sec (pp_plan pos) < elapsed_seconds (now - pp_opened_at pos) \<and>
         (s = Buy \<and> m \<le> pp_avg_price pos * (10001 / 10000) \<or> s = Sell \<and> pp_avg_price pos * (9999 / 10000) \<le> m)
      then Some (''NoProgress'', if s = Buy then bid else ask) else None)"

text \<open>
  \<open>move_bps < min_follow_through_bps\<close>; with a zero average price the quotient is infinite, with
  the sign of the move, and \<open>mid\<close> is positive here.
\<close>

definition move_below :: "paper_position \<Rightarrow> double \<Rightarrow> bool" where
  "move_below pos m =
     (let avg = pp_avg_price pos; long = plan_side (pp_plan pos) = Buy in
      if avg = 0 then \<not> long
      else (if long then (m - avg) / avg * 10000 else (avg - m) / avg * 10000)
             < plan_min_follow_through_bps (pp_plan pos))"

definition follow_through_exit :: "paper_position \<Rightarrow> double \<Rightarrow> double \<Rightarrow> time_point \<Rightarrow> (string \<times> double) option" where
  "follow_through_exit pos bid ask now =
     (if plan_post_entry_grace_sec (pp_plan pos) < elapsed_seconds (now - pp_opened_at pos) \<and>
         0 < plan_min_follow_through_bps (pp_plan pos) \<and> move_below pos ((bid + ask) * (1 / 2))
      then Some (''FollowThrough'', if plan_side (pp_plan pos) = Buy then bid else ask) else None)"

fun first_exit :: "(string \<times> double) option list \<Rightarrow> (string \<times> double) option" where
  "first_exit [] = None"
| "first_exit (x # xs) = (case x of Some e \<Rightarrow> Some e | None \<Rightarrow> first_exit xs)"

definition paper_exit :: "paper_position \<Rightarrow> double \<Rightarrow> double \<Rightarrow> time_point \<Rightarrow> (string \<times> double) option" where
  "paper_exit pos bid ask now =
     first_exit [stop_exit pos bid ask, take_profit_exit pos bid ask,
                 no_progress_exit pos bid ask now, follow_through_exit pos bid ask now]"

definition tp1_partial :: "paper_position \<Rightarrow> string \<Rightarrow> bool" where
  "tp1_partial pos reason \<longleftrightarrow>
     reason = ''Take Profit'' \<and> 0 < plan_tp1_size_ratio (pp_plan pos) \<and> plan_tp1_size_ratio (pp_plan pos) < 1"

definition exit_position :: "ticker \<Rightarrow> paper_position \<Rightarrow> string \<times> double \<Rightarrow> paper_executor \<Rightarrow> paper_executor" where
  "exit_position t pos e px =
     (case e of (reason, price) \<Rightarrow>
        let exit_price = exit_slip (px_slippage_bps px) (plan_side (pp_plan pos)) price;
            partial = tp1_partial pos reason;
            exit_size = (if partial then pp_executed_size pos * plan_tp1_size_ratio (pp_plan pos)
                         else pp_executed_size pos)
        in px\<lparr>px_closed := px_closed px @ [paper_closed pos exit_price exit_size reason],
              px_positions :=
                (if partial
                 then omap_put (<) t
                        (pos\<lparr>pp_executed_size := pp_executed_size pos - exit_size,
                             pp_plan := (pp_plan pos)\<lparr>plan_stop_price := pp_avg_price pos, plan_tp1_price := 0\<rparr>\<rparr>)
                        (px_positions px)
                 else omap_erase t (px_positions px))\<rparr>)"

definition exits_step :: "books \<Rightarrow> ticker \<Rightarrow> time_point \<Rightarrow> paper_executor \<Rightarrow> paper_executor" where
  "exits_step books t now px =
     (case map_of (px_positions px) t of
        None \<Rightarrow> px
      | Some pos \<Rightarrow>
          (case book_top books (plan_ticker (pp_plan pos)) of
             None \<Rightarrow> px
           | Some (bid, ask) \<Rightarrow>
               if 0 < bid \<and> 0 < ask
               then (case paper_exit pos bid ask now of None \<Rightarrow> px | Some e \<Rightarrow> exit_position t pos e px)
               else px))"

definition paper_tick :: "books \<Rightarrow> ticker \<Rightarrow> time_point \<Rightarrow> paper_executor \<Rightarrow> paper_executor" where
  "paper_tick books t now px =
     (case entries_loop books (px_slippage_bps px) now t (px_pending px) (px_positions px) of
        (plans, ps) \<Rightarrow> exits_step books t now (px\<lparr>px_pending := plans, px_positions := ps\<rparr>))"

definition paper_active_tickers :: "paper_executor \<Rightarrow> ticker list" where
  "paper_active_tickers px =
     remdups_adj (sort (map plan_ticker (px_pending px) @ map fst (px_positions px)))"

definition paper_tick_all :: "books \<Rightarrow> time_point \<Rightarrow> paper_executor \<Rightarrow> paper_executor" where
  "paper_tick_all books now px = fold (\<lambda>t. paper_tick books t now) (paper_active_tickers px) px"

text \<open>Market data only drives \<open>tick\<close>.\<close>

definition paper_on_trade :: "books \<Rightarrow> ticker \<Rightarrow> trade \<Rightarrow> paper_executor \<Rightarrow> paper_executor" where
  "paper_on_trade books t tr = paper_tick books t (tr_timestamp tr)"

definition paper_on_snapshot :: "books \<Rightarrow> order_book_snapshot \<Rightarrow> paper_executor \<Rightarrow> paper_executor" where
  "paper_on_snapshot books snap = paper_tick books (snap_ticker snap) (snap_ts snap)"

definition paper_on_update :: "books \<Rightarrow> order_book_update \<Rightarrow> paper_executor \<Rightarrow> paper_executor" where
  "paper_on_update books upd = paper_tick books (upd_ticker upd) (upd_ts upd)"

section \<open>Queries\<close>

definition mark_or_mid :: "books \<Rightarrow> paper_executor \<Rightarrow> ticker \<Rightarrow> double option" where
  "mark_or_mid books px t =
     (case map_of (px_marks px) t of
        Some m \<Rightarrow> if 0 < m then Some m else None
      | None \<Rightarrow> None)"

definition active_price :: "books \<Rightarrow> paper_executor \<Rightarrow> ticker \<Rightarrow> double" where
  "active_price books px t =
     (case mark_or_mid books px t of
        Some m \<Rightarrow> m
      | None \<Rightarrow> (case book_top books t of
                  Some (bid, ask) \<Rightarrow> if 0 < bid \<and> 0 < ask then (bid + ask) * (1 / 2) else 0
                | None \<Rightarrow> 0))"

definition position_trade :: "books \<Rightarrow> paper_executor \<Rightarrow> ticker \<times> paper_position \<Rightarrow> active_trade" where
  "position_trade books px e =
     (case e of (t, pos) \<Rightarrow>
        let price = active_price books px t in
        active_trade_default
          \<lparr>at_plan := pp_plan pos, at_executed_size := pp_executed_size pos,
           at_avg_entry_price := pp_avg_price pos, at_state := Open,
           at_unrealized_pnl :=
             (if 0 < price then side_pnl (plan_side (pp_plan pos)) (pp_avg_price pos) price (pp_executed_size pos)
              else 0)\<rparr>)"

definition paper_active_trades :: "books \<Rightarrow> paper_executor \<Rightarrow> active_trade list" where
  "paper_active_trades books px =
     map (position_trade books px) (px_positions px) @
     map (\<lambda>plan. active_trade_default\<lparr>at_plan := plan, at_state := PendingEntry\<rparr>) (px_pending px)"

definition position_pnl :: "books \<Rightarrow> paper_executor \<Rightarrow> ticker \<times> paper_position \<Rightarrow> double" where
  "position_pnl books px e =
     (case e of (t, pos) \<Rightarrow>
        let value = (\<lambda>price. side_pnl (plan_side (pp_plan pos)) (pp_avg_price pos) price (pp_executed_size pos)) in
        case mark_or_mid books px t of
          Some m \<Rightarrow> value m
        | None \<Rightarrow> (case book_top books t of
                    None \<Rightarrow> 0
                  | Some (bid, ask) \<Rightarrow> if bid = 0 \<or> ask = 0 then 0 else value ((bid + ask) * (1 / 2))))"

definition paper_unrealized_pnl :: "books \<Rightarrow> paper_executor \<Rightarrow> double" where
  "paper_unrealized_pnl books px = sum_list (map (position_pnl books px) (px_positions px))"

end
