(* ===== verification/PaperSpec.thy ===== *)
theory PaperSpec
  imports Paper
begin

text \<open>
  What the paper executor promises: it fills only live plans at prices the book and the limit
  allow and keeps the distance to the stop and the targets, it exits at prices no better than
  the stop, no size is lost or invented between entries and exits, and the loop that drains the
  closed trades sees each of them once.
\<close>

section \<open>Operations as steps\<close>

datatype paper_event =
    Submit trade_plan | CloseTrade ticker string | CancelAll ticker | InjectTrades "active_trade list"
  | Tick ticker time_point | TickAll time_point | OnTrade ticker trade
  | OnSnapshot order_book_snapshot | OnUpdate order_book_update
  | SetMarkPrices "(ticker, double) omap" | SetMarkPrice ticker double

text \<open>Each event with the books as they are when it is handled.\<close>

fun paper_step :: "books \<times> paper_event \<Rightarrow> paper_executor \<Rightarrow> paper_executor" where
  "paper_step (books, Submit plan) px = paper_submit plan px"
| "paper_step (books, CloseTrade t reason) px = paper_close_trade books t reason px"
| "paper_step (books, CancelAll t) px = paper_cancel_all t px"
| "paper_step (books, InjectTrades ts) px = paper_inject ts px"
| "paper_step (books, Tick t now) px = paper_tick books t now px"
| "paper_step (books, TickAll now) px = paper_tick_all books now px"
| "paper_step (books, OnTrade t trade) px = paper_on_trade books t trade px"
| "paper_step (books, OnSnapshot snap) px = paper_on_snapshot books snap px"
| "paper_step (books, OnUpdate upd) px = paper_on_update books upd px"
| "paper_step (books, SetMarkPrices marks) px = paper_set_mark_prices marks px"
| "paper_step (books, SetMarkPrice t price) px = paper_set_mark_price t price px"

section \<open>What a tick closes\<close>

definition tick_entries :: "books \<Rightarrow> ticker \<Rightarrow> time_point \<Rightarrow> paper_executor \<Rightarrow> paper_executor" where
  "tick_entries books t now px =
     (case entries_loop books (px_slippage_bps px) now t (px_pending px) (px_positions px) of
        (plans, ps) \<Rightarrow> px\<lparr>px_pending := plans, px_positions := ps\<rparr>)"

lemma paper_tick_split: "paper_tick books t now px = exits_step books t now (tick_entries books t now px)"
  by (simp add: paper_tick_def tick_entries_def split: prod.splits)

lemma tick_entries_frame [simp]:
  "px_closed (tick_entries books t now px) = px_closed px"
  "px_slippage_bps (tick_entries books t now px) = px_slippage_bps px"
  "px_marks (tick_entries books t now px) = px_marks px"
  by (simp_all add: tick_entries_def split: prod.splits)

text \<open>The exit a step decides on, if any.\<close>

definition exit_decision :: "books \<Rightarrow> ticker \<Rightarrow> time_point \<Rightarrow> paper_executor \<Rightarrow> (paper_position \<times> string \<times> double) option" where
  "exit_decision books t now px =
     (case map_of (px_positions px) t of
        None \<Rightarrow> None
      | Some pos \<Rightarrow>
          (case book_top books (plan_ticker (pp_plan pos)) of
             None \<Rightarrow> None
           | Some (bid, ask) \<Rightarrow>
               if 0 < bid \<and> 0 < ask then map_option (\<lambda>e. (pos, e)) (paper_exit pos bid ask now) else None))"

lemma exits_step_decision:
  "exits_step books t now px =
     (case exit_decision books t now px of None \<Rightarrow> px | Some (pos, e) \<Rightarrow> exit_position t pos e px)"
  by (simp add: exits_step_def exit_decision_def split: option.splits prod.splits)

lemma exit_position_closed:
  "\<exists>c. px_closed (exit_position t pos e px) = px_closed px @ [c] \<and> ct_plan c = pp_plan pos"
  by (cases e) (simp add: exit_position_def Let_def paper_closed_def)

lemma paper_tick_appends: "\<exists>new. px_closed (paper_tick books t now px) = px_closed px @ new"
  unfolding paper_tick_split exits_step_decision
  using exit_position_closed [of t _ _ "tick_entries books t now px"]
  by (fastforce split: option.splits)

lemma fold_tick_appends:
  "\<exists>new. px_closed (fold (\<lambda>t. paper_tick books t now) ts px) = px_closed px @ new"
proof (induction ts arbitrary: px)
  case Nil
  then show ?case by simp
next
  case (Cons t ts)
  obtain a where "px_closed (paper_tick books t now px) = px_closed px @ a"
    using paper_tick_appends by blast
  moreover obtain b where "px_closed (fold (\<lambda>t. paper_tick books t now) ts (paper_tick books t now px)) =
      px_closed (paper_tick books t now px) @ b" using Cons.IH by blast
  ultimately show ?case by simp
qed

lemma paper_step_appends: "\<exists>new. px_closed (paper_step e px) = px_closed px @ new"
proof -
  obtain books ev where e: "e = (books, ev)" by (cases e)
  show ?thesis
    unfolding e
    by (cases ev)
      (simp_all add: paper_submit_def paper_close_trade_def paper_cancel_all_def paper_inject_def
        paper_tick_appends paper_tick_all_def fold_tick_appends paper_on_trade_def paper_on_snapshot_def
        paper_on_update_def paper_set_mark_prices_def paper_set_mark_price_def Let_def split: option.splits)
qed

interpretation paper_source: closed_trade_source paper_step px_closed paper_pop_closed
  by unfold_locales (simp_all add: paper_step_appends paper_pop_closed_def)

text \<open>No closed paper trade is lost or seen twice: whatever events an application feeds the
  executor, and wherever it drains the buffer in between, the trades handed over by all the drains
  with a last one at the end are exactly the trades closed by the events, in order.\<close>

theorem paper_trades_delivered_once:
  "fst (paper_source.loop (es @ [PopClosed]) (paper_new bps)) = paper_source.all_closed es (paper_new bps)"
  by (simp add: paper_source.loop_delivers_all) (simp add: paper_new_def)

section \<open>Entries\<close>

lemma entries_loop_other:
  "entries_loop books bps now t plans ps = (rest, ps') \<Longrightarrow> k \<noteq> t \<Longrightarrow> map_of ps' k = map_of ps k"
  by (induction plans arbitrary: ps rest ps')
    (auto simp: Let_def split: if_splits option.splits prod.splits)

lemma entries_loop_held:
  "entries_loop books bps now t plans ps = (rest, ps') \<Longrightarrow> map_of ps t = Some pos \<Longrightarrow> map_of ps' t = Some pos"
  by (induction plans arbitrary: ps rest ps')
    (auto simp: Let_def split: if_splits option.splits prod.splits)

lemma entries_loop_pending:
  "entries_loop books bps now t plans ps = (rest, ps') \<Longrightarrow>
     (\<forall>p \<in> set rest. p \<in> set plans \<and> (plan_ticker p = t \<longrightarrow> now \<le> plan_valid_until p)) \<and>
     filter (\<lambda>p. plan_ticker p \<noteq> t) rest = filter (\<lambda>p. plan_ticker p \<noteq> t) plans"
proof (induction plans arbitrary: ps rest ps')
  case Nil
  then show ?case by simp
next
  case (Cons plan plans)
  then show ?case
    by (fastforce simp: Let_def split: if_splits option.splits prod.splits)
qed

definition fill_of :: "books \<Rightarrow> trade_plan \<Rightarrow> double \<Rightarrow> bool" where
  "fill_of books plan fill \<longleftrightarrow>
     (\<exists>bid ask. book_top books (plan_ticker plan) = Some (bid, ask) \<and> bid \<noteq> 0 \<and> ask \<noteq> 0 \<and>
        entry_fill plan bid ask = Some fill)"

lemma entries_loop_opened:
  "entries_loop books bps now t plans ps = (rest, ps') \<Longrightarrow> map_of ps t = None \<Longrightarrow> map_of ps' t = Some pos \<Longrightarrow>
     \<exists>plan \<in> set plans. \<exists>fill. plan_ticker plan = t \<and> now \<le> plan_valid_until plan \<and> fill_of books plan fill \<and>
       pos = opened_position bps plan fill now"
proof (induction plans arbitrary: ps rest ps')
  case Nil
  then show ?case by simp
next
  case (Cons plan plans)
  show ?case
  proof (cases "plan_ticker plan = t \<and> now \<le> plan_valid_until plan \<and>
      (\<exists>fill. fill_of books plan fill \<and>
         entries_loop books bps now t plans (omap_put (<) t (opened_position bps plan fill now) ps) = (rest, ps'))")
    case True
    then obtain fill where f: "plan_ticker plan = t" "now \<le> plan_valid_until plan" "fill_of books plan fill"
        "entries_loop books bps now t plans (omap_put (<) t (opened_position bps plan fill now) ps) = (rest, ps')"
      by blast
    have "map_of ps' t = Some (opened_position bps plan fill now)"
      using entries_loop_held [OF f(4)] by simp
    then show ?thesis using f Cons.prems(3) by auto
  next
    case False
    then have "\<exists>rest'. entries_loop books bps now t plans ps = (rest', ps')"
      using Cons.prems(1,2)
      by (fastforce simp: Let_def fill_of_def split: if_splits option.splits prod.splits)
    then show ?thesis using Cons.IH Cons.prems(2,3) by fastforce
  qed
qed

lemma shift_plan_sel [simp]:
  "plan_ticker (shift_plan plan p) = plan_ticker plan" "plan_side (shift_plan plan p) = plan_side plan"
  "plan_entry_price (shift_plan plan p) = p"
  "plan_stop_price (shift_plan plan p) = plan_stop_price plan + (p - plan_entry_price plan)"
  "plan_tp1_price (shift_plan plan p) =
     (if 0 < plan_tp1_price plan then plan_tp1_price plan + (p - plan_entry_price plan) else plan_tp1_price plan)"
  by (simp_all add: shift_plan_def Let_def)


section \<open>Exits\<close>

text \<open>A paper exit has a cause, the stop comes first, and it is never filled better than the
  stop: a long position whose bid is at or below the stop exits as a stop loss at the worse of the
  two, symmetrically for a short one, whatever the target and the clock say; a take profit needs
  the target reached; and only a position older than its timeout or grace period exits at the
  market.\<close>

theorem paper_exit_causes:
  "(plan_side (pp_plan pos) = Buy \<and> bid \<le> plan_stop_price (pp_plan pos) \<longrightarrow>
      paper_exit pos bid ask now = Some (''Stop Loss'', min (plan_stop_price (pp_plan pos)) bid))
   \<and> (plan_side (pp_plan pos) = Sell \<and> plan_stop_price (pp_plan pos) \<le> ask \<longrightarrow>
      paper_exit pos bid ask now = Some (''Stop Loss'', max (plan_stop_price (pp_plan pos)) ask))
   \<and> (\<forall>reason price. paper_exit pos bid ask now = Some (reason, price) \<longrightarrow>
        (reason = ''Take Profit'' \<longrightarrow> 0 < plan_tp1_price (pp_plan pos) \<and>
           (if plan_side (pp_plan pos) = Buy then plan_tp1_price (pp_plan pos) \<le> price
            else price \<le> plan_tp1_price (pp_plan pos))) \<and>
        (reason \<noteq> ''Stop Loss'' \<and> reason \<noteq> ''Take Profit'' \<longrightarrow>
           price = (if plan_side (pp_plan pos) = Buy then bid else ask) \<and>
           (plan_no_progress_timeout_sec (pp_plan pos) < elapsed_seconds (now - pp_opened_at pos) \<or>
            plan_post_entry_grace_sec (pp_plan pos) < elapsed_seconds (now - pp_opened_at pos))))"
  by (auto simp: paper_exit_def stop_exit_def take_profit_exit_def no_progress_exit_def
      follow_through_exit_def Let_def split: if_splits)

section \<open>The ledger\<close>

definition open_size :: "(ticker, paper_position) omap \<Rightarrow> ticker \<Rightarrow> double" where
  "open_size ps t = (case map_of ps t of Some pos \<Rightarrow> pp_executed_size pos | None \<Rightarrow> 0)"

definition closed_volume :: "closed_trade list \<Rightarrow> ticker \<Rightarrow> double" where
  "closed_volume cs t = sum_list (map ct_size_filled (filter (\<lambda>c. plan_ticker (ct_plan c) = t) cs))"

definition keyed :: "(ticker, paper_position) omap \<Rightarrow> bool" where
  "keyed ps \<longleftrightarrow> (\<forall>t pos. map_of ps t = Some pos \<longrightarrow> plan_ticker (pp_plan pos) = t)"

lemma closed_volume_append [simp]: "closed_volume (xs @ ys) t = closed_volume xs t + closed_volume ys t"
  by (simp add: closed_volume_def)

lemma closed_volume_single:
  "closed_volume [c] t = (if plan_ticker (ct_plan c) = t then ct_size_filled c else 0)"
  by (simp add: closed_volume_def)

lemma entries_loop_keyed:
  assumes "entries_loop books bps now t plans ps = (rest, ps')" "keyed ps" shows "keyed ps'"
  unfolding keyed_def
proof (intro allI impI)
  fix k pos assume k: "map_of ps' k = Some pos"
  show "plan_ticker (pp_plan pos) = k"
  proof (cases "k = t \<and> map_of ps t = None")
    case True
    then show ?thesis
      using entries_loop_opened [OF assms(1)] k by (fastforce simp: opened_position_def Let_def)
  next
    case False
    then have "map_of ps k = Some pos"
      using entries_loop_other [OF assms(1), of k] entries_loop_held [OF assms(1)] k
      by (metis option.exhaust)
    then show ?thesis using assms(2) by (simp add: keyed_def)
  qed
qed

lemma exit_position_ledger:
  assumes "keyed (px_positions px)" "map_of (px_positions px) t = Some pos"
  shows "keyed (px_positions (exit_position t pos e px))"
    and "open_size (px_positions (exit_position t pos e px)) k + closed_volume (px_closed (exit_position t pos e px)) k
       = open_size (px_positions px) k + closed_volume (px_closed px) k"
proof -
  have t: "plan_ticker (pp_plan pos) = t" using assms by (simp add: keyed_def)
  obtain reason price where e: "e = (reason, price)" by (cases e)
  define part where "part = tp1_partial pos reason"
  define sz where "sz = (if part then pp_executed_size pos * plan_tp1_size_ratio (pp_plan pos) else pp_executed_size pos)"
  define pos' where "pos' = pos\<lparr>pp_executed_size := pp_executed_size pos - sz,
      pp_plan := (pp_plan pos)\<lparr>plan_stop_price := pp_avg_price pos, plan_tp1_price := 0\<rparr>\<rparr>"
  define c where "c = paper_closed pos (exit_slip (px_slippage_bps px) (plan_side (pp_plan pos)) price) sz reason"
  have c: "ct_size_filled c = sz" "ct_plan c = pp_plan pos"
      "px_closed (exit_position t pos e px) = px_closed px @ [c]"
      "px_positions (exit_position t pos e px) =
         (if part then omap_put (<) t pos' (px_positions px) else omap_erase t (px_positions px))"
    by (simp_all add: e exit_position_def Let_def part_def [symmetric] sz_def pos'_def c_def paper_closed_def)
  have pos': "plan_ticker (pp_plan pos') = t" "pp_executed_size pos' = pp_executed_size pos - sz"
    by (simp_all add: pos'_def t)
  show "keyed (px_positions (exit_position t pos e px))"
    using assms(1) pos'(1) by (simp add: c(4) keyed_def)
  show "open_size (px_positions (exit_position t pos e px)) k + closed_volume (px_closed (exit_position t pos e px)) k
       = open_size (px_positions px) k + closed_volume (px_closed px) k"
    unfolding c(3,4) using assms(2) pos'(2) c(1,2) t
    by (cases part; cases "t = k"; simp add: closed_volume_single open_size_def; simp add: sz_def)
qed

lemma exits_step_ledger:
  assumes "keyed (px_positions px)"
  shows "keyed (px_positions (exits_step books t now px))"
    and "open_size (px_positions (exits_step books t now px)) k + closed_volume (px_closed (exits_step books t now px)) k
       = open_size (px_positions px) k + closed_volume (px_closed px) k"
proof -
  have mem: "map_of (px_positions px) t = Some pos" if "exit_decision books t now px = Some (pos, e)" for pos e
    using that by (auto simp: exit_decision_def split: option.splits prod.splits if_splits)
  show "keyed (px_positions (exits_step books t now px))"
    using exit_position_ledger(1) [OF assms mem] assms
    by (simp add: exits_step_decision split: option.splits prod.splits)
  show "open_size (px_positions (exits_step books t now px)) k + closed_volume (px_closed (exits_step books t now px)) k
       = open_size (px_positions px) k + closed_volume (px_closed px) k"
    using exit_position_ledger(2) [OF assms mem]
    by (simp add: exits_step_decision split: option.splits prod.splits)
qed

text \<open>The size a tick's entries open.\<close>

definition opened_size :: "books \<Rightarrow> ticker \<Rightarrow> time_point \<Rightarrow> paper_executor \<Rightarrow> ticker \<Rightarrow> double" where
  "opened_size books t now px k =
     open_size (px_positions (tick_entries books t now px)) k - open_size (px_positions px) k"

lemma opened_size_is_plan:
  "opened_size books t now px k \<noteq> 0 \<Longrightarrow> \<exists>plan \<in> set (px_pending px).
     plan_ticker plan = k \<and> k = t \<and> opened_size books t now px k = plan_size_coin plan"
proof -
  assume o: "opened_size books t now px k \<noteq> 0"
  obtain rest ps' where e: "entries_loop books (px_slippage_bps px) now t (px_pending px) (px_positions px) = (rest, ps')"
    by fastforce
  have d: "opened_size books t now px k = open_size ps' k - open_size (px_positions px) k"
    by (simp add: opened_size_def tick_entries_def e)
  have k: "k = t"
  proof (rule ccontr)
    assume "k \<noteq> t"
    then show False using o d entries_loop_other [OF e, of k] by (simp add: open_size_def)
  qed
  have n: "map_of (px_positions px) t = None"
  proof (rule ccontr)
    assume "map_of (px_positions px) t \<noteq> None"
    then obtain pos where "map_of (px_positions px) t = Some pos" by blast
    then show False using o d k entries_loop_held [OF e] by (simp add: open_size_def)
  qed
  then obtain pos where pos: "map_of ps' t = Some pos" using o d k by (auto simp: open_size_def split: option.splits)
  from entries_loop_opened [OF e n pos] show ?thesis
    using d k n pos by (auto simp: open_size_def opened_position_def Let_def)
qed

text \<open>
  Trading runs: submissions, ticks (market data and timers are ticks), closings, marks and drains, with
  the volume opened and closed so far in each ticker.
\<close>

inductive paper_trading :: "paper_executor \<Rightarrow> (ticker \<Rightarrow> double) \<Rightarrow> (ticker \<Rightarrow> double) \<Rightarrow> bool" where
  start: "paper_trading (paper_new bps) (\<lambda>_. 0) (\<lambda>_. 0)"
| submit: "paper_trading px vo vc \<Longrightarrow> paper_trading (paper_submit plan px) vo vc"
| mark: "paper_trading px vo vc \<Longrightarrow> paper_trading (paper_set_mark_price t p px) vo vc"
| tick: "paper_trading px vo vc \<Longrightarrow> px' = paper_tick books t now px \<Longrightarrow>
     new = drop (length (px_closed px)) (px_closed px') \<Longrightarrow>
     paper_trading px' (\<lambda>k. vo k + opened_size books t now px k) (\<lambda>k. vc k + closed_volume new k)"
| close: "paper_trading px vo vc \<Longrightarrow> px' = paper_close_trade books t reason px \<Longrightarrow>
     new = drop (length (px_closed px)) (px_closed px') \<Longrightarrow>
     paper_trading px' vo (\<lambda>k. vc k + closed_volume new k)"
| drain: "paper_trading px vo vc \<Longrightarrow> paper_trading (snd (paper_pop_closed px)) vo vc"

definition balanced :: "paper_executor \<Rightarrow> (ticker \<Rightarrow> double) \<Rightarrow> (ticker \<Rightarrow> double) \<Rightarrow> bool" where
  "balanced px vo vc \<longleftrightarrow>
     keyed (px_positions px) \<and> (\<forall>k. vo k = open_size (px_positions px) k + vc k)"

lemma balanced_tick:
  assumes "balanced px vo vc" "px' = paper_tick books t now px"
    and "new = drop (length (px_closed px)) (px_closed px')"
  shows "balanced px' (\<lambda>k. vo k + opened_size books t now px k) (\<lambda>k. vc k + closed_volume new k)"
proof -
  let ?mid = "tick_entries books t now px"
  obtain n where n: "px_closed px' = px_closed px @ n" using paper_tick_appends assms(2) by blast
  have keyed: "keyed (px_positions ?mid)"
    using assms(1) entries_loop_keyed
    by (simp add: balanced_def tick_entries_def split: prod.splits)
  have px': "px' = exits_step books t now ?mid" by (simp add: assms(2) paper_tick_split)
  have "open_size (px_positions px') k + closed_volume n k = open_size (px_positions ?mid) k" for k
    using exits_step_ledger(2) [OF keyed, of books t now k] n by (simp add: px' [symmetric])
  then show ?thesis
    using assms(1,3) exits_step_ledger(1) [OF keyed, of books t now]
    by (simp add: balanced_def n opened_size_def px' [symmetric])
qed

lemma balanced_close:
  assumes "balanced px vo vc" "px' = paper_close_trade books t reason px"
    and "new = drop (length (px_closed px)) (px_closed px')"
  shows "balanced px' vo (\<lambda>k. vc k + closed_volume new k)"
proof (cases "map_of (px_positions px) t")
  case None
  then show ?thesis using assms by (simp add: paper_close_trade_def closed_volume_def)
next
  case (Some pos)
  then have "plan_ticker (pp_plan pos) = t" using assms(1) by (simp add: balanced_def keyed_def)
  then show ?thesis
    using assms Some
    by (auto simp: paper_close_trade_def Let_def balanced_def keyed_def open_size_def
        closed_volume_single paper_closed_def)
qed


section \<open>Concrete runs\<close>

definition sample_book :: "double \<Rightarrow> double \<Rightarrow> order_book" where
  "sample_book bid ask =
     apply_snapshot (the (order_book_new ''BTC'' (1 / 10) (1 / 1000)))
       \<lparr>snap_ticker = ''BTC'', snap_asks = [\<lparr>pl_price = ask, pl_size = 1, pl_side = Sell\<rparr>],
        snap_bids = [\<lparr>pl_price = bid, pl_size = 1, pl_side = Buy\<rparr>], snap_ts = 0\<rparr>"

definition sample_books :: "double \<Rightarrow> double \<Rightarrow> books" where
  "sample_books bid ask = [(''BTC'', sample_book bid ask)]"

definition paper_plan :: trade_plan where
  "paper_plan = trade_plan_default\<lparr>plan_ticker := ''BTC'', plan_side := Buy, plan_entry_price := 100,
     plan_stop_price := 99, plan_tp1_price := 102, plan_tp1_size_ratio := 1 / 2, plan_size_coin := 4,
     plan_valid_until := seconds 60\<rparr>"

definition paper_filled :: paper_executor where
  "paper_filled = paper_tick (sample_books (999 / 10) 100) ''BTC'' (seconds 1) (paper_submit paper_plan (paper_new 0))"

lemma paper_filled_position:
  "map_option pp_executed_size (map_of (px_positions paper_filled) ''BTC'') = Some 4"
  "px_pending paper_filled = []" "px_closed paper_filled = []"
  by code_simp+



lemma paper_exit_causes_witness:
  "paper_exit \<lparr>pp_plan = paper_plan, pp_executed_size = 4, pp_avg_price = 100, pp_opened_at = 0\<rparr> 97 98 0 =
     Some (''Stop Loss'', 97)"
proof -
  have p: "plan_side paper_plan = Buy" "plan_stop_price paper_plan = 99" by code_simp+
  show ?thesis
    using paper_exit_causes [of "\<lparr>pp_plan = paper_plan, pp_executed_size = 4, pp_avg_price = 100, pp_opened_at = 0\<rparr>"
        97 98 0] p by simp
qed

text \<open>
  Two deviations from the exchange. A long target fills at the ask although the bid has not
  reached it, and cancelling drops an open position without a closed trade.
\<close>

lemma take_profit_at_ask:
  "paper_exit \<lparr>pp_plan = paper_plan, pp_executed_size = 4, pp_avg_price = 100, pp_opened_at = 0\<rparr>
     100 102 0 = Some (''Take Profit'', 102)"
  by code_simp

lemma cancel_drops_position:
  "let px = paper_cancel_all ''BTC'' paper_filled
   in px_positions px = [] \<and> px_closed px = [] \<and> px_positions paper_filled \<noteq> []"
  by code_simp

end
