(* ===== verification/Signals.thy ===== *)
theory Signals
  imports Universe FixedPoint
begin

text \<open>
  What the strategies see: the feature frames of \<open>features/FeatureFrame.hpp\<close>, the signals of
  \<open>signals/Signal.hpp\<close>, the trade plan with its provenance (\<open>strategy/TradePlan.hpp\<close>), and
  \<open>strategy/StrategyContext.hpp\<close>, the ring of recent frames and the history of signals each
  strategy keeps.
\<close>

section \<open>Frames and signals\<close>

record feature_frame =
  ff_timestamp :: time_point
  ff_ticker :: ticker
  ff_best_bid :: double
  ff_best_ask :: double
  ff_mid :: double
  ff_spread_abs :: double
  ff_spread_bps :: double
  ff_bid_depth_10 :: double
  ff_ask_depth_10 :: double
  ff_imbalance :: double
  ff_buy_vol_1s :: double
  ff_buy_vol_5s :: double
  ff_buy_vol_30s :: double
  ff_sell_vol_1s :: double
  ff_sell_vol_5s :: double
  ff_sell_vol_30s :: double
  ff_prints_per_sec :: double
  ff_avg_print_size :: double
  ff_max_print_size_5s :: double
  ff_tape_aggression :: double
  ff_price_change_1s :: double
  ff_price_change_2s :: double
  ff_price_change_5s :: double
  ff_price_change_30s :: double
  ff_volatility_1min :: double
  ff_volatility_1min_bps :: double
  ff_leader_change_1s :: double
  ff_leader_change_5s :: double
  ff_leader_correlation :: double
  ff_leader_lag_ms :: double
  ff_nearest_support :: "double option"
  ff_nearest_resistance :: "double option"
  ff_dist_to_support_bps :: double
  ff_dist_to_resistance_bps :: double
  ff_funding_rate :: double
  ff_mark_price :: double
  ff_valid :: bool
  ff_derived_from :: nat

definition feature_frame_default :: feature_frame where
  "feature_frame_default =
     \<lparr>ff_timestamp = 0, ff_ticker = '''', ff_best_bid = 0, ff_best_ask = 0, ff_mid = 0,
      ff_spread_abs = 0, ff_spread_bps = 0, ff_bid_depth_10 = 0, ff_ask_depth_10 = 0,
      ff_imbalance = 0, ff_buy_vol_1s = 0, ff_buy_vol_5s = 0, ff_buy_vol_30s = 0,
      ff_sell_vol_1s = 0, ff_sell_vol_5s = 0, ff_sell_vol_30s = 0, ff_prints_per_sec = 0,
      ff_avg_print_size = 0, ff_max_print_size_5s = 0, ff_tape_aggression = 0,
      ff_price_change_1s = 0, ff_price_change_2s = 0, ff_price_change_5s = 0,
      ff_price_change_30s = 0, ff_volatility_1min = 0, ff_volatility_1min_bps = 0,
      ff_leader_change_1s = 0, ff_leader_change_5s = 0, ff_leader_correlation = 0,
      ff_leader_lag_ms = 0, ff_nearest_support = None, ff_nearest_resistance = None,
      ff_dist_to_support_bps = 0, ff_dist_to_resistance_bps = 0, ff_funding_rate = 0,
      ff_mark_price = 0, ff_valid = False, ff_derived_from = 0\<rparr>"

datatype signal_kind =
    DensityDetected | DensityRemoved | DensityEating | IcebergSuspected | TapeBurst | TapeFade
  | TapeFlush | TapeDistribution | LevelFormed | LevelApproach | LevelRejection | LevelBreak
  | LeaderMove | DensityStack

record signal_payload =
  sp_side :: string
  sp_size :: double
  sp_size_usd :: double
  sp_total_eaten_usd :: double
  sp_original_size :: double
  sp_remaining_size :: double
  sp_eaten_ratio :: double
  sp_remaining_ratio :: double
  sp_first_price :: double
  sp_last_price :: double
  sp_width_bps :: double
  sp_total_size_usd :: double
  sp_stop_anchor_price :: double
  sp_lag_pct :: double
  sp_correlation :: double
  sp_dist_bps :: double
  sp_delta_bps :: double
  sp_leader_move_pct :: double
  sp_our_move_pct :: double
  sp_expected_move_pct :: double
  sp_lag_ms :: double
  sp_ratio :: double
  sp_intensity :: double
  sp_peak_rate :: double
  sp_current_rate :: double
  sp_cusum :: double
  sp_volatility_bps :: double
  sp_volume_usd_30s :: double
  sp_max_range_bps :: double
  sp_speed_bps :: double
  sp_approach_type :: string
  sp_touches :: int
  sp_prints :: int
  sp_age_ms :: int
  sp_refill_events :: int
  sp_fake :: bool
  sp_id :: string
  sp_source :: string

definition signal_payload_default :: signal_payload where
  "signal_payload_default =
     \<lparr>sp_side = '''', sp_size = 0, sp_size_usd = 0, sp_total_eaten_usd = 0,
      sp_original_size = 0, sp_remaining_size = 0, sp_eaten_ratio = 0, sp_remaining_ratio = 0,
      sp_first_price = 0, sp_last_price = 0, sp_width_bps = 0, sp_total_size_usd = 0,
      sp_stop_anchor_price = 0, sp_lag_pct = 0, sp_correlation = 0, sp_dist_bps = 0,
      sp_delta_bps = 0, sp_leader_move_pct = 0, sp_our_move_pct = 0, sp_expected_move_pct = 0,
      sp_lag_ms = 0, sp_ratio = 0, sp_intensity = 0, sp_peak_rate = 0, sp_current_rate = 0,
      sp_cusum = 0, sp_volatility_bps = 0, sp_volume_usd_30s = 0, sp_max_range_bps = 0,
      sp_speed_bps = 0, sp_approach_type = '''', sp_touches = 0, sp_prints = 0, sp_age_ms = 0,
      sp_refill_events = 0, sp_fake = False, sp_id = '''', sp_source = ''''\<rparr>"

record signal =
  sg_kind :: signal_kind
  sg_timestamp :: time_point
  sg_ticker :: ticker
  sg_price :: double
  sg_confidence :: double
  sg_payload :: signal_payload
  sg_trigger_trace_id :: nat

text \<open>A plan with the members that record where it comes from.\<close>

record traced_plan = trade_plan +
  tp_evidence :: "signal list"
  tp_frame_at_entry :: feature_frame
  tp_trace_id :: nat

definition traced :: "trade_plan \<Rightarrow> signal list \<Rightarrow> feature_frame \<Rightarrow> nat \<Rightarrow> traced_plan" where
  "traced plan evidence frame trace_id =
     trade_plan.extend plan (traced_plan.fields evidence frame trace_id)"

lemma traced_sel [simp]:
  "trade_plan.truncate (traced plan ev fr i) = plan"
  "tp_evidence (traced plan ev fr i) = ev" "tp_frame_at_entry (traced plan ev fr i) = fr"
  "tp_trace_id (traced plan ev fr i) = i"
  by (simp_all add: traced_def traced_plan.defs trade_plan.defs)

lemma traced_plan_sel [simp]:
  "plan_ticker (traced plan ev fr i) = plan_ticker plan"
  "plan_side (traced plan ev fr i) = plan_side plan"
  "plan_entry_price (traced plan ev fr i) = plan_entry_price plan"
  "plan_stop_price (traced plan ev fr i) = plan_stop_price plan"
  "plan_tp1_price (traced plan ev fr i) = plan_tp1_price plan"
  "plan_strategy_name (traced plan ev fr i) = plan_strategy_name plan"
  "plan_valid_until (traced plan ev fr i) = plan_valid_until plan"
  by (simp_all add: traced_def traced_plan.defs trade_plan.defs)

section \<open>The context of a strategy\<close>

definition frame_history_size :: nat where "frame_history_size = 16"

definition max_history_size :: nat where "max_history_size = 1024"

record strategy_context =
  sc_last_frame :: feature_frame
  sc_recent :: "signal_kind \<Rightarrow> signal option"
  sc_history :: "signal list"
  sc_frames :: "feature_frame list"
  sc_frame_idx :: nat
  sc_frame_count :: nat
  sc_head :: nat

definition context_new :: strategy_context where
  "context_new =
     \<lparr>sc_last_frame = feature_frame_default, sc_recent = (\<lambda>_. None), sc_history = [],
      sc_frames = replicate frame_history_size feature_frame_default, sc_frame_idx = 0,
      sc_frame_count = 0, sc_head = 0\<rparr>"

definition update_frame :: "feature_frame \<Rightarrow> strategy_context \<Rightarrow> strategy_context" where
  "update_frame f c =
     c\<lparr>sc_last_frame := f, sc_frames := (sc_frames c)[sc_frame_idx c := f],
       sc_frame_idx := (sc_frame_idx c + 1) mod frame_history_size,
       sc_frame_count := (if sc_frame_count c < frame_history_size then sc_frame_count c + 1
                          else sc_frame_count c)\<rparr>"

text \<open>The frame \<open>i\<close> places before the newest, and the search from the newest on.\<close>

definition frame_back :: "strategy_context \<Rightarrow> nat \<Rightarrow> feature_frame" where
  "frame_back c i = sc_frames c ! ((sc_frame_idx c + frame_history_size - 1 - i) mod frame_history_size)"

definition get_frame_by_trace_id :: "nat \<Rightarrow> strategy_context \<Rightarrow> feature_frame option" where
  "get_frame_by_trace_id i c =
     find (\<lambda>f. ff_derived_from f = i) (map (frame_back c) [0..<sc_frame_count c])"

text \<open>
  The history of signals: stale ones are passed over by the head offset, and dropped when they
  take more than half of it, or when it grows beyond its maximum.
\<close>

definition advance_head :: "time_point \<Rightarrow> signal list \<Rightarrow> nat \<Rightarrow> nat" where
  "advance_head cutoff hist head =
     head + length (takeWhile (\<lambda>s. sg_timestamp s \<le> cutoff) (drop head hist))"

definition compact :: "signal list \<times> nat \<Rightarrow> signal list \<times> nat" where
  "compact = (\<lambda>(hist, head). if 32 < head \<and> length hist div 2 < head then (drop head hist, 0) else (hist, head))"

definition trim_history :: "signal list \<times> nat \<Rightarrow> signal list \<times> nat" where
  "trim_history =
     (\<lambda>(hist, head). if max_history_size < length hist
                     then (drop (length hist - max_history_size div 2) hist, 0) else (hist, head))"

definition update_signal :: "signal \<Rightarrow> strategy_context \<Rightarrow> strategy_context" where
  "update_signal s c =
     (let hist = sc_history c @ [s];
          head = advance_head (sg_timestamp s - seconds 180) hist (sc_head c);
          (hist', head') = trim_history (compact (hist, head))
      in c\<lparr>sc_recent := (sc_recent c)(sg_kind s := Some s), sc_history := hist', sc_head := head'\<rparr>)"

definition recent_signal_count :: "time_point \<Rightarrow> duration \<Rightarrow> strategy_context \<Rightarrow> nat" where
  "recent_signal_count now window c =
     length (filter (\<lambda>s. now - window \<le> sg_timestamp s) (drop (sc_head c) (sc_history c)))"

definition has_recent_signal :: "signal_kind \<Rightarrow> duration \<Rightarrow> time_point \<Rightarrow> strategy_context \<Rightarrow> bool" where
  "has_recent_signal k max_age now c =
     (case sc_recent c k of None \<Rightarrow> False | Some s \<Rightarrow> now - sg_timestamp s \<le> max_age)"

section \<open>What strategies share\<close>

text \<open>
  The latest signal of a kind when it is not older than an age; the distance of a price from a
  reference in basis points compared with a limit, where a zero reference makes it infinite or
  NaN; and the clock of the replay, which replaces the caller's time when it is injected.
\<close>

definition recent_within :: "strategy_context \<Rightarrow> signal_kind \<Rightarrow> time_point \<Rightarrow> duration \<Rightarrow> signal option" where
  "recent_within c k now max_age =
     (case sc_recent c k of None \<Rightarrow> None | Some s \<Rightarrow> if now - sg_timestamp s \<le> max_age then Some s else None)"

definition within_bps :: "double \<Rightarrow> double \<Rightarrow> double \<Rightarrow> bool" where
  "within_bps price ref limit \<longleftrightarrow> ref \<noteq> 0 \<and> \<bar>price - ref\<bar> / ref * 10000 \<le> limit"

text \<open>The scan of the history from the newest on that stops at the first stale signal it cares for.\<close>

fun scan_back ::
  "(signal \<Rightarrow> bool) \<Rightarrow> (signal \<Rightarrow> bool) \<Rightarrow> (signal \<Rightarrow> bool) \<Rightarrow> signal list \<Rightarrow> signal option" where
  "scan_back relevant stale hit [] = None"
| "scan_back relevant stale hit (s # ss) =
     (if \<not> relevant s then scan_back relevant stale hit ss
      else if stale s then None
      else if hit s then Some s
      else scan_back relevant stale hit ss)"

definition to_milliseconds :: "duration \<Rightarrow> int" where "to_milliseconds d = cdiv d 1000000"

definition clock_or :: "time_point option \<Rightarrow> time_point \<Rightarrow> time_point" where
  "clock_or clock now = (case clock of Some t \<Rightarrow> t | None \<Rightarrow> now)"

definition tiered :: "universe option \<Rightarrow> ticker \<Rightarrow> double list \<Rightarrow> double \<Rightarrow> double" where
  "tiered u t tiers flat = (case u of Some un \<Rightarrow> get_tiered_threshold un t tiers | None \<Rightarrow> flat)"

text \<open>
  The end of every strategy's planning: the trace of the last evidence, and the frame that
  belongs to it, or the current one.
\<close>

definition trace_of :: "signal list \<Rightarrow> nat" where
  "trace_of evidence = (if evidence = [] then 0 else sg_trigger_trace_id (last evidence))"

definition entry_frame :: "nat \<Rightarrow> strategy_context \<Rightarrow> feature_frame" where
  "entry_frame i c =
     (if i \<noteq> 0 then (case get_frame_by_trace_id i c of Some f \<Rightarrow> f | None \<Rightarrow> sc_last_frame c)
      else sc_last_frame c)"

definition finish_plan :: "trade_plan \<Rightarrow> signal list \<Rightarrow> strategy_context \<Rightarrow> traced_plan" where
  "finish_plan plan evidence c = traced plan evidence (entry_frame (trace_of evidence) c) (trace_of evidence)"

lemma finish_plan_sel [simp]:
  "plan_ticker (finish_plan plan ev c) = plan_ticker plan"
  "plan_side (finish_plan plan ev c) = plan_side plan"
  "plan_entry_price (finish_plan plan ev c) = plan_entry_price plan"
  "plan_stop_price (finish_plan plan ev c) = plan_stop_price plan"
  "plan_tp1_price (finish_plan plan ev c) = plan_tp1_price plan"
  "plan_strategy_name (finish_plan plan ev c) = plan_strategy_name plan"
  "plan_valid_until (finish_plan plan ev c) = plan_valid_until plan"
  by (simp_all add: finish_plan_def)

datatype ready_state = Cold | Warming | Ready | Planning | Trading | Cooldown

record strategy_condition =
  cond_name :: string
  cond_current :: double
  cond_target :: double
  cond_met :: bool
  cond_unit :: string

record strategy_state =
  ss_ticker :: ticker
  ss_strategy_name :: string
  ss_ready_state :: ready_state
  ss_readiness_pct :: double
  ss_conditions :: "strategy_condition list"
  ss_last_reject_reason :: string
  ss_seconds_since_last_reject :: double
  ss_signals_last_60s :: nat

definition strategy_state_default :: "ticker \<Rightarrow> string \<Rightarrow> strategy_state" where
  "strategy_state_default t nm =
     \<lparr>ss_ticker = t, ss_strategy_name = nm, ss_ready_state = Cold, ss_readiness_pct = 0,
      ss_conditions = [], ss_last_reject_reason = '''', ss_seconds_since_last_reject = 0,
      ss_signals_last_60s = 0\<rparr>"

text \<open>The common tail of \<open>get_state\<close>: the readiness from the conditions.\<close>

definition met_count :: "strategy_condition list \<Rightarrow> nat" where
  "met_count conds = length (filter cond_met conds)"

definition with_conditions :: "strategy_condition list \<Rightarrow> strategy_state \<Rightarrow> strategy_state" where
  "with_conditions conds st =
     st\<lparr>ss_conditions := conds,
        ss_readiness_pct := (if conds = [] then 0 else real (met_count conds) / real (length conds) * 100),
        ss_ready_state := (if met_count conds = length conds then Ready else Warming)\<rparr>"

text \<open>The shapes of condition the strategies build.\<close>

definition presence_condition :: "string \<Rightarrow> bool \<Rightarrow> strategy_condition" where
  "presence_condition nm met =
     \<lparr>cond_name = nm, cond_current = (if met then 1 else 0), cond_target = 1, cond_met = met,
      cond_unit = ''count''\<rparr>"

definition at_most_condition :: "string \<Rightarrow> string \<Rightarrow> double \<Rightarrow> double \<Rightarrow> strategy_condition" where
  "at_most_condition nm un current target =
     \<lparr>cond_name = nm, cond_current = current, cond_target = target, cond_met = (current \<le> target), cond_unit = un\<rparr>"

definition at_least_condition :: "string \<Rightarrow> string \<Rightarrow> double \<Rightarrow> double \<Rightarrow> strategy_condition" where
  "at_least_condition nm un current target =
     \<lparr>cond_name = nm, cond_current = current, cond_target = target, cond_met = (target \<le> current), cond_unit = un\<rparr>"

text \<open>The count over the whole history that three of the strategies write out.\<close>

definition signals_last_60s :: "time_point \<Rightarrow> strategy_context \<Rightarrow> nat" where
  "signals_last_60s now c = length (filter (\<lambda>s. now - sg_timestamp s \<le> seconds 60) (sc_history c))"

record ticker_info =
  ti_name :: ticker
  ti_base_asset :: string
  ti_quote_asset :: string
  ti_is_trading_allowed :: bool
  ti_price_increment :: double
  ti_size_increment :: double
  ti_min_size :: double
  ti_max_size :: double

end
