(* ===== verification/Flush.thy ===== *)
theory Flush
  imports Signals
begin

text \<open>
  The strategy that trades failed breakouts, \<open>strategy/FlushReversal.{hpp,cpp}\<close>: its
  configuration and state, the gates C1 to C8 of its entry, the prices of its plan, its
  post-entry checks, and the conditions it shows on the dashboard. Each gate is a definition;
  a rejection only logs, so a plan is made exactly when all of them hold.
\<close>

record flush_config =
  flc_max_spread_bps :: double
  flc_entry_offset_bps :: double
  flc_stop_buffer_bps :: double
  flc_tp1_r :: double
  flc_tp1_size_ratio :: double
  flc_flush_max_age :: duration
  flc_tape_flush_max_age :: duration
  flc_min_flush_dist_bps :: double
  flc_min_level_touches :: int
  flc_min_flush_count :: int
  flc_flush_count_window :: duration
  flc_max_vol_fade_ratio :: double
  flc_min_price_reversal_bps :: double
  flc_tier_min_flush_dist_bps :: "double list"
  flc_tier_min_price_reversal_bps :: "double list"
  flc_tier_entry_offset_bps :: "double list"
  flc_entry_timeout :: duration
  flc_no_progress_timeout_sec :: double
  flc_post_entry_grace_sec :: double
  flc_min_follow_through_bps :: double

definition flush_config_default :: flush_config where
  "flush_config_default =
     \<lparr>flc_max_spread_bps = 4, flc_entry_offset_bps = 2, flc_stop_buffer_bps = 8, flc_tp1_r = 2,
      flc_tp1_size_ratio = 6 / 10, flc_flush_max_age = seconds 15, flc_tape_flush_max_age = seconds 8,
      flc_min_flush_dist_bps = 3, flc_min_level_touches = 2, flc_min_flush_count = 2,
      flc_flush_count_window = seconds 120, flc_max_vol_fade_ratio = 1 / 2,
      flc_min_price_reversal_bps = 3 / 2, flc_tier_min_flush_dist_bps = [25, 15, 10],
      flc_tier_min_price_reversal_bps = [8, 5, 3], flc_tier_entry_offset_bps = [5, 3, 2],
      flc_entry_timeout = seconds 8, flc_no_progress_timeout_sec = 30, flc_post_entry_grace_sec = 3,
      flc_min_follow_through_bps = 5\<rparr>"

record flush =
  fl_ticker :: ticker
  fl_info :: ticker_info
  fl_cfg :: flush_config
  fl_ctx :: strategy_context
  fl_active_plan :: "traced_plan option"
  fl_active_trade :: "traced_plan option"
  fl_universe :: "universe option"

definition flush_name :: string where "flush_name = ''FlushReversal''"

definition flush_new :: "ticker \<Rightarrow> ticker_info \<Rightarrow> flush_config \<Rightarrow> flush" where
  "flush_new t info cfg =
     \<lparr>fl_ticker = t, fl_info = info, fl_cfg = cfg, fl_ctx = context_new, fl_active_plan = None,
      fl_active_trade = None, fl_universe = None\<rparr>"

definition flush_set_universe :: "universe \<Rightarrow> flush \<Rightarrow> flush" where
  "flush_set_universe u st = st\<lparr>fl_universe := Some u\<rparr>"

text \<open>\<open>live_gate_satisfied\<close>: no plan of this strategy may go live.\<close>

definition flush_live_gate :: "trade_plan \<Rightarrow> flush_config \<Rightarrow> bool" where
  "flush_live_gate plan cfg = False"

definition flush_on_frame :: "feature_frame \<Rightarrow> flush \<Rightarrow> flush" where
  "flush_on_frame f st = (if ff_ticker f = fl_ticker st then st\<lparr>fl_ctx := update_frame f (fl_ctx st)\<rparr> else st)"

section \<open>The gates of the entry\<close>

definition flushed_down :: "signal \<Rightarrow> bool" where
  "flushed_down brk \<longleftrightarrow> sp_dist_bps (sg_payload brk) < 0"

definition flush_side :: "signal \<Rightarrow> side" where
  "flush_side brk = (if flushed_down brk then Buy else Sell)"

definition flush_tiered :: "flush \<Rightarrow> (flush_config \<Rightarrow> double list) \<Rightarrow> (flush_config \<Rightarrow> double) \<Rightarrow> double" where
  "flush_tiered st tiers flat = tiered (fl_universe st) (fl_ticker st) (tiers (fl_cfg st)) (flat (fl_cfg st))"

text \<open>C1 to C3: the spread, the penetration of the level, its strength.\<close>

definition flush_level_ok :: "flush \<Rightarrow> signal \<Rightarrow> bool" where
  "flush_level_ok st brk \<longleftrightarrow>
     ff_ticker (sc_last_frame (fl_ctx st)) \<noteq> '''' \<and>
     ff_spread_bps (sc_last_frame (fl_ctx st)) \<le> flc_max_spread_bps (fl_cfg st) \<and>
     flush_tiered st flc_tier_min_flush_dist_bps flc_min_flush_dist_bps \<le> \<bar>sp_dist_bps (sg_payload brk)\<bar> \<and>
     flc_min_level_touches (fl_cfg st) \<le> sp_touches (sg_payload brk)"

text \<open>C4: a recent flush of the tape that does not predate the break, and enough of them.\<close>

definition flush_count :: "flush \<Rightarrow> time_point \<Rightarrow> int" where
  "flush_count st now =
     int (length (filter (\<lambda>s. now - flc_flush_count_window (fl_cfg st) \<le> sg_timestamp s \<and> sg_kind s = TapeFlush)
       (sc_history (fl_ctx st))))"

definition flush_tape :: "flush \<Rightarrow> time_point \<Rightarrow> signal \<Rightarrow> signal option" where
  "flush_tape st now brk =
     (case recent_within (fl_ctx st) TapeFlush now (flc_tape_flush_max_age (fl_cfg st)) of
        None \<Rightarrow> None
      | Some s \<Rightarrow>
          if sg_timestamp s < sg_timestamp brk - seconds 3 then None
          else if 1 < flc_min_flush_count (fl_cfg st) \<and> flush_count st now < flc_min_flush_count (fl_cfg st) then None
          else Some s)"

text \<open>C5 and C6: the volume has faded, the price has turned.\<close>

definition vol_fade_ratio :: "feature_frame \<Rightarrow> bool \<Rightarrow> double" where
  "vol_fade_ratio f down =
     (let v1 = (if down then ff_sell_vol_1s f else ff_buy_vol_1s f);
          v5 = (if down then ff_sell_vol_5s f else ff_buy_vol_5s f);
          avg = (if 0 < v5 then v5 / 5 else 1)
      in v1 / max 1 avg)"

definition reversal_bps :: "feature_frame \<Rightarrow> bool \<Rightarrow> double" where
  "reversal_bps f down = (if down then ff_price_change_1s f else - ff_price_change_1s f) * 100"

definition flush_turned :: "flush \<Rightarrow> signal \<Rightarrow> bool" where
  "flush_turned st brk \<longleftrightarrow>
     vol_fade_ratio (sc_last_frame (fl_ctx st)) (flushed_down brk) < flc_max_vol_fade_ratio (fl_cfg st) \<and>
     flush_tiered st flc_tier_min_price_reversal_bps flc_min_price_reversal_bps
       \<le> reversal_bps (sc_last_frame (fl_ctx st)) (flushed_down brk)"

text \<open>C7 and C8: no burst and no eating that the code takes for a continuation.\<close>

definition flush_burst_against :: "flush \<Rightarrow> time_point \<Rightarrow> signal \<Rightarrow> bool" where
  "flush_burst_against st now brk =
     (case recent_within (fl_ctx st) TapeBurst now (seconds 5) of
        None \<Rightarrow> False
      | Some s \<Rightarrow> sp_side (sg_payload s) = (if flushed_down brk then ''Sell'' else ''Buy''))"

definition flush_eating_against :: "flush \<Rightarrow> time_point \<Rightarrow> signal \<Rightarrow> bool" where
  "flush_eating_against st now brk =
     (case recent_within (fl_ctx st) DensityEating now (seconds 5) of
        None \<Rightarrow> False
      | Some s \<Rightarrow> sp_side (sg_payload s) = (if flushed_down brk then ''Ask'' else ''Bid''))"

section \<open>The plan\<close>

definition flush_entry :: "flush \<Rightarrow> signal \<Rightarrow> double" where
  "flush_entry st brk =
     (let offset = sg_price brk * (flush_tiered st flc_tier_entry_offset_bps flc_entry_offset_bps / 10000)
      in if flushed_down brk then sg_price brk - offset else sg_price brk + offset)"

definition flush_stop :: "flush \<Rightarrow> signal \<Rightarrow> double" where
  "flush_stop st brk =
     (let buffer = sg_price brk * (flc_stop_buffer_bps (fl_cfg st) / 10000)
      in if flushed_down brk then sg_price brk - buffer else sg_price brk + buffer)"

definition flush_tp1 :: "flush \<Rightarrow> signal \<Rightarrow> double" where
  "flush_tp1 st brk =
     (if flushed_down brk
      then flush_entry st brk + flc_tp1_r (fl_cfg st) * (flush_entry st brk - flush_stop st brk)
      else flush_entry st brk - flc_tp1_r (fl_cfg st) * (flush_stop st brk - flush_entry st brk))"

definition flush_plan :: "flush \<Rightarrow> time_point \<Rightarrow> signal \<Rightarrow> trade_plan" where
  "flush_plan st now brk =
     (let tick = ti_price_increment (fl_info st) in
      trade_plan_default\<lparr>
        plan_ticker := fl_ticker st, plan_side := flush_side brk, plan_entry_type := Limit,
        plan_entry_price := round_to_tick (flush_entry st brk) tick,
        plan_stop_price := round_to_tick (flush_stop st brk) tick,
        plan_tp1_price := round_to_tick (flush_tp1 st brk) tick,
        plan_tp1_size_ratio := flc_tp1_size_ratio (fl_cfg st),
        plan_strategy_name := flush_name,
        plan_reason := ''Flush %s at %.4f (fade=%.2f, rev=%.1fbps)'',
        plan_valid_until := now + flc_entry_timeout (fl_cfg st),
        plan_no_progress_timeout_sec := flc_no_progress_timeout_sec (fl_cfg st),
        plan_post_entry_grace_sec := flc_post_entry_grace_sec (fl_cfg st),
        plan_min_follow_through_bps := flc_min_follow_through_bps (fl_cfg st)\<rparr>)"

text \<open>The entry decision on a break, with the plan of the strategy free.\<close>

definition flush_decide :: "flush \<Rightarrow> time_point \<Rightarrow> signal \<Rightarrow> traced_plan option" where
  "flush_decide st now brk =
     (if \<not> flush_level_ok st brk then None
      else (case flush_tape st now brk of
              None \<Rightarrow> None
            | Some tape \<Rightarrow>
                if \<not> flush_turned st brk \<or> flush_burst_against st now brk \<or> flush_eating_against st now brk then None
                else
                  let plan = flush_plan st now brk in
                  if plan_entry_price plan = plan_stop_price plan then None
                  else Some (finish_plan plan [brk, tape] (fl_ctx st))))"

definition flush_on_signal ::
  "signal \<Rightarrow> time_point option \<Rightarrow> time_point \<Rightarrow> flush \<Rightarrow> traced_plan option \<times> flush" where
  "flush_on_signal s clock now st =
     (if sg_ticker s \<noteq> fl_ticker st then (None, st)
      else
        let st1 = st\<lparr>fl_ctx := update_signal s (fl_ctx st)\<rparr> in
        if sg_kind s \<noteq> LevelBreak \<or> fl_active_plan st1 \<noteq> None then (None, st1)
        else (case sc_recent (fl_ctx st1) LevelBreak of
                None \<Rightarrow> (None, st1)
              | Some brk \<Rightarrow>
                  (case flush_decide st1 (clock_or clock now) brk of
                     None \<Rightarrow> (None, st1)
                   | Some plan \<Rightarrow> (Some plan, st1\<lparr>fl_active_plan := Some plan\<rparr>))))"

section \<open>The life of a plan\<close>

definition flush_tick :: "time_point option \<Rightarrow> time_point \<Rightarrow> flush \<Rightarrow> traced_plan option \<times> flush" where
  "flush_tick clock now st =
     (None,
      case fl_active_plan st of
        Some plan \<Rightarrow> if plan_valid_until plan < clock_or clock now then st\<lparr>fl_active_plan := None\<rparr> else st
      | None \<Rightarrow> st)"

definition flush_on_plan_accepted :: "traced_plan \<Rightarrow> flush \<Rightarrow> flush" where
  "flush_on_plan_accepted plan st =
     (if plan_strategy_name plan = flush_name then st\<lparr>fl_active_trade := Some plan\<rparr> else st)"

definition flush_reset :: "flush \<Rightarrow> flush" where
  "flush_reset st = st\<lparr>fl_active_plan := None, fl_active_trade := None\<rparr>"

definition flush_check_close ::
  "feature_frame \<Rightarrow> time_point option \<Rightarrow> time_point \<Rightarrow> flush \<Rightarrow> string option \<times> flush" where
  "flush_check_close f clock now st =
     (case fl_active_trade st of
        None \<Rightarrow> (None, st)
      | Some plan \<Rightarrow>
          let now = clock_or clock now in
          if recent_within (fl_ctx st) TapeFlush now (seconds 5) \<noteq> None
          then (Some (fixed_string 32 ''SecondFlushPostEntry''), st\<lparr>fl_active_trade := None\<rparr>)
          else (case recent_within (fl_ctx st) TapeBurst now (seconds 5) of
                  Some s \<Rightarrow>
                    if plan_side plan = Buy \<and> sp_side (sg_payload s) = ''Sell'' \<or>
                       plan_side plan = Sell \<and> sp_side (sg_payload s) = ''Buy''
                    then (Some (fixed_string 32 ''BurstContraPostEntry''), st\<lparr>fl_active_trade := None\<rparr>)
                    else (None, st)
                | None \<Rightarrow> (None, st)))"

section \<open>The dashboard\<close>

definition fade_of :: "double \<Rightarrow> double \<Rightarrow> double" where
  "fade_of v1 v5 = (if 0 < v5 then v1 / max 1 (v5 / 5) else 1)"

definition flush_conditions :: "flush \<Rightarrow> time_point \<Rightarrow> strategy_condition list" where
  "flush_conditions st now =
     (let f = sc_last_frame (fl_ctx st); cfg = fl_cfg st;
          fade = min (fade_of (ff_sell_vol_1s f) (ff_sell_vol_5s f)) (fade_of (ff_buy_vol_1s f) (ff_buy_vol_5s f))
      in [at_most_condition ''Spread'' ''bps'' (ff_spread_bps f) (flc_max_spread_bps cfg),
          presence_condition ''LevelBreak'' (has_recent_signal LevelBreak (flc_flush_max_age cfg) now (fl_ctx st)),
          presence_condition ''TapeFlush'' (has_recent_signal TapeFlush (flc_tape_flush_max_age cfg) now (fl_ctx st)),
          \<lparr>cond_name = ''Vol fade'', cond_current = fade, cond_target = flc_max_vol_fade_ratio cfg,
           cond_met = (fade < flc_max_vol_fade_ratio cfg), cond_unit = ''ratio''\<rparr>,
          at_least_condition ''Reversal'' ''bps'' (\<bar>ff_price_change_1s f\<bar> * 100) (flc_min_price_reversal_bps cfg)])"

definition flush_get_state :: "time_point option \<Rightarrow> time_point \<Rightarrow> flush \<Rightarrow> strategy_state" where
  "flush_get_state clock now st =
     (let s0 = strategy_state_default (fl_ticker st) flush_name; now = clock_or clock now in
      if fl_active_plan st \<noteq> None then s0\<lparr>ss_ready_state := Planning, ss_readiness_pct := 100\<rparr>
      else if ff_ticker (sc_last_frame (fl_ctx st)) = '''' then s0\<lparr>ss_ready_state := Cold\<rparr>
      else with_conditions (flush_conditions st now)
             (s0\<lparr>ss_signals_last_60s := signals_last_60s now (fl_ctx st)\<rparr>))"

end
