(* ===== verification/Ring.thy ===== *)
theory Ring
  imports Prelude
begin

text \<open>
  \<open>utils/CircularBuffer.hpp\<close>: a buffer of fixed capacity that overwrites its oldest element, as
  the array with its two cursors, and the proof that it is the list of the last elements pushed.
\<close>

record 'a ring =
  rg_data :: "'a list"
  rg_head :: nat
  rg_tail :: nat
  rg_size :: nat

definition ring_new :: "nat \<Rightarrow> 'a \<Rightarrow> 'a ring" where
  "ring_new N d = \<lparr>rg_data = replicate N d, rg_head = 0, rg_tail = 0, rg_size = 0\<rparr>"

definition ring_capacity :: "'a ring \<Rightarrow> nat" where
  "ring_capacity r = length (rg_data r)"

definition ring_push :: "'a \<Rightarrow> 'a ring \<Rightarrow> 'a ring" where
  "ring_push x r =
     (let N = ring_capacity r;
          r1 = r\<lparr>rg_data := (rg_data r)[rg_head r := x], rg_head := (rg_head r + 1) mod N\<rparr>
      in if rg_size r < N then r1\<lparr>rg_size := rg_size r + 1\<rparr>
         else r1\<lparr>rg_tail := (rg_tail r + 1) mod N\<rparr>)"

definition ring_pop_front :: "'a ring \<Rightarrow> 'a ring" where
  "ring_pop_front r =
     (if rg_size r = 0 then r
      else r\<lparr>rg_tail := (rg_tail r + 1) mod ring_capacity r, rg_size := rg_size r - 1\<rparr>)"

definition ring_front :: "'a ring \<Rightarrow> 'a" where
  "ring_front r = rg_data r ! rg_tail r"

definition ring_back :: "'a ring \<Rightarrow> 'a" where
  "ring_back r = rg_data r ! ((rg_head r + ring_capacity r - 1) mod ring_capacity r)"

definition ring_at :: "'a ring \<Rightarrow> nat \<Rightarrow> 'a" where
  "ring_at r i = rg_data r ! ((rg_tail r + i) mod ring_capacity r)"

definition ring_clear :: "'a ring \<Rightarrow> 'a ring" where
  "ring_clear r = r\<lparr>rg_head := 0, rg_tail := 0, rg_size := 0\<rparr>"

section \<open>The abstract queue\<close>

definition ring_ok :: "'a ring \<Rightarrow> bool" where
  "ring_ok r \<longleftrightarrow> 0 < ring_capacity r \<and> rg_size r \<le> ring_capacity r \<and> rg_tail r < ring_capacity r \<and>
     rg_head r = (rg_tail r + rg_size r) mod ring_capacity r"

definition ring_list :: "'a ring \<Rightarrow> 'a list" where
  "ring_list r = map (ring_at r) [0..<rg_size r]"

lemma ring_list_length [simp]: "length (ring_list r) = rg_size r"
  by (simp add: ring_list_def)

lemma ring_list_nth: "i < rg_size r \<Longrightarrow> ring_list r ! i = ring_at r i"
  by (simp add: ring_list_def)

lemma ring_new_ok: "0 < N \<Longrightarrow> ring_ok (ring_new N d) \<and> ring_list (ring_new N d) = []"
  by (simp add: ring_ok_def ring_new_def ring_list_def ring_capacity_def)

lemma mod_add_less_neq:
  fixes a b c :: nat
  assumes "i < j" "j < N" shows "(a + i) mod N \<noteq> (a + j) mod N"
proof
  assume "(a + i) mod N = (a + j) mod N"
  then have "N dvd (a + j) - (a + i)" using assms by (intro mod_eq_dvd_iff_nat [THEN iffD1]) auto
  then have "N dvd j - i" by simp
  then show False using assms by (auto dest!: dvd_imp_le)
qed

lemma ring_push_capacity [simp]: "ring_capacity (ring_push x r) = ring_capacity r"
  by (simp add: ring_push_def ring_capacity_def Let_def)

text \<open>Pushing appends, and drops the oldest element of a full buffer.\<close>

lemma ring_push_list:
  assumes ok: "ring_ok r"
  shows "ring_ok (ring_push x r)"
    and "ring_list (ring_push x r) =
      (if rg_size r < ring_capacity r then ring_list r @ [x] else tl (ring_list r) @ [x])"
proof -
  let ?N = "ring_capacity r" and ?t = "rg_tail r" and ?n = "rg_size r"
  have N: "0 < ?N" "?n \<le> ?N" "?t < ?N" "rg_head r = (?t + ?n) mod ?N" using ok by (simp_all add: ring_ok_def)
  have len: "length (rg_data r) = ?N" by (simp add: ring_capacity_def)
  have cap: "ring_capacity (ring_push x r) = ?N" by (simp add: ring_push_def ring_capacity_def Let_def)
  show "ring_ok (ring_push x r)"
    using N by (auto simp: ring_ok_def cap) (auto simp: ring_push_def Let_def mod_Suc_eq mod_add_left_eq le_antisym)
  show "ring_list (ring_push x r) = (if ?n < ?N then ring_list r @ [x] else tl (ring_list r) @ [x])"
  proof (cases "?n < ?N")
    case True
    then have push: "rg_size (ring_push x r) = Suc ?n" "rg_tail (ring_push x r) = ?t"
      "rg_data (ring_push x r) = (rg_data r)[rg_head r := x]"
      by (simp_all add: ring_push_def Let_def)
    show ?thesis
    proof (rule nth_equalityI)
      fix i assume "i < length (ring_list (ring_push x r))"
      then have i: "i < Suc ?n" using True by (simp add: ring_push_def Let_def)
      then have "ring_list (ring_push x r) ! i = (rg_data r)[(?t + ?n) mod ?N := x] ! ((?t + i) mod ?N)"
        using True N(4) by (simp add: ring_list_nth push ring_at_def)
      also have "\<dots> = (ring_list r @ [x]) ! i"
      proof (cases "i = ?n")
        case False
        then have "i < ?n" using i by simp
        then have "(?t + i) mod ?N \<noteq> (?t + ?n) mod ?N" using True by (intro mod_add_less_neq) auto
        then show ?thesis using \<open>i < ?n\<close> by (simp add: nth_append ring_list_nth ring_at_def)
      qed (use N len in \<open>simp add: nth_append\<close>)
      finally show "ring_list (ring_push x r) ! i = (if ?n < ?N then ring_list r @ [x] else tl (ring_list r) @ [x]) ! i"
        using True by simp
    qed (use True in \<open>simp add: ring_push_def Let_def\<close>)
  next
    case False
    then have full: "?n = ?N" using N by simp
    have push: "rg_size (ring_push x r) = ?N" "rg_tail (ring_push x r) = (?t + 1) mod ?N"
      "rg_data (ring_push x r) = (rg_data r)[?t := x]"
      using N full by (simp_all add: ring_push_def Let_def)
    show ?thesis
    proof (rule nth_equalityI)
      fix i assume "i < length (ring_list (ring_push x r))"
      then have i: "i < ?N" using full by (simp add: ring_push_def Let_def)
      then have "ring_list (ring_push x r) ! i = (rg_data r)[?t := x] ! (((?t + 1) mod ?N + i) mod ?N)"
        using full by (simp add: ring_list_nth push ring_at_def)
      also have "((?t + 1) mod ?N + i) mod ?N = (?t + Suc i) mod ?N" by (simp add: mod_add_left_eq)
      also have "(rg_data r)[?t := x] ! ((?t + Suc i) mod ?N) = (tl (ring_list r) @ [x]) ! i"
      proof (cases "Suc i = ?N")
        case True
        then have "i = length (tl (ring_list r))" using full by simp
        then have "(tl (ring_list r) @ [x]) ! i = x" by (metis nth_append_length)
        then show ?thesis using N len True by simp
      next
        case False
        then have "Suc i < ?N" using i by simp
        then have i': "i < ?N - Suc 0" by simp
        from \<open>Suc i < ?N\<close> have "(?t + 0) mod ?N \<noteq> (?t + Suc i) mod ?N" by (intro mod_add_less_neq) auto
        then show ?thesis using \<open>Suc i < ?N\<close> i' N full by (simp add: nth_append nth_tl ring_list_nth ring_at_def)
      qed
      finally show "ring_list (ring_push x r) ! i = (if ?n < ?N then ring_list r @ [x] else tl (ring_list r) @ [x]) ! i"
        using full by simp
    qed (use full N in \<open>simp add: ring_push_def Let_def\<close>)
  qed
qed

lemma ring_pop_front_list:
  assumes ok: "ring_ok r"
  shows "ring_ok (ring_pop_front r)" and "ring_list (ring_pop_front r) = tl (ring_list r)"
proof -
  let ?N = "ring_capacity r" and ?t = "rg_tail r" and ?n = "rg_size r"
  have N: "0 < ?N" "?n \<le> ?N" "?t < ?N" "rg_head r = (?t + ?n) mod ?N" using ok by (simp_all add: ring_ok_def)
  have cap: "ring_capacity (ring_pop_front r) = ?N" by (simp add: ring_pop_front_def ring_capacity_def)
  show "ring_ok (ring_pop_front r)"
  proof (cases ?n)
    case 0
    then show ?thesis using ok by (simp add: ring_pop_front_def)
  next
    case (Suc m)
    have "((?t + 1) mod ?N + m) mod ?N = rg_head r" using N(4) Suc by (simp add: mod_add_left_eq)
    then show ?thesis using N Suc by (simp add: ring_ok_def cap) (simp add: ring_pop_front_def)
  qed
  show "ring_list (ring_pop_front r) = tl (ring_list r)"
  proof (rule nth_equalityI)
    fix i assume "i < length (ring_list (ring_pop_front r))"
    then have i: "Suc i < ?n" by (auto simp: ring_pop_front_def split: if_splits)
    then show "ring_list (ring_pop_front r) ! i = tl (ring_list r) ! i"
      using cap by (simp add: ring_list_nth nth_tl ring_pop_front_def ring_at_def mod_add_left_eq)
  qed (auto simp: ring_pop_front_def)
qed

lemma ring_front_list: "ring_ok r \<Longrightarrow> 0 < rg_size r \<Longrightarrow> ring_front r = hd (ring_list r)"
  by (simp add: ring_front_def ring_list_def ring_at_def ring_ok_def hd_map upt_conv_Cons)

lemma ring_back_list:
  assumes "ring_ok r" "0 < rg_size r" shows "ring_back r = last (ring_list r)"
proof -
  let ?N = "ring_capacity r"
  have "((rg_tail r + rg_size r) mod ?N + ?N - 1) mod ?N = (rg_tail r + (rg_size r - 1)) mod ?N"
  proof -
    have "((rg_tail r + rg_size r) mod ?N + ?N - 1) mod ?N = ((rg_tail r + rg_size r) mod ?N + (?N - 1)) mod ?N"
      using assms by (simp add: ring_ok_def)
    also have "\<dots> = (rg_tail r + rg_size r + (?N - 1)) mod ?N" by (simp add: mod_add_left_eq)
    also have "\<dots> = (rg_tail r + (rg_size r - 1) + ?N) mod ?N" using assms by (simp add: ring_ok_def)
    finally show ?thesis by simp
  qed
  then show ?thesis
    using assms by (simp add: ring_back_def ring_list_def ring_at_def ring_ok_def last_conv_nth)
qed

text \<open>
  What a client sees of a buffer is its list, so the components that keep one are modelled with the
  list and the operation below.
\<close>

definition push_bounded :: "nat \<Rightarrow> 'a \<Rightarrow> 'a list \<Rightarrow> 'a list" where
  "push_bounded N x xs = (if length xs < N then xs @ [x] else tl xs @ [x])"

lemma ring_list_push_bounded:
  "ring_ok r \<Longrightarrow> ring_list (ring_push x r) = push_bounded (ring_capacity r) x (ring_list r)"
  by (simp add: push_bounded_def ring_push_list(2))

lemma push_bounded_length: "0 < N \<Longrightarrow> length xs \<le> N \<Longrightarrow> length (push_bounded N x xs) \<le> N"
  by (auto simp: push_bounded_def)

lemma push_bounded_not_Nil [simp]: "push_bounded N x xs \<noteq> []"
  by (simp add: push_bounded_def)

lemma last_push_bounded [simp]: "last (push_bounded N x xs) = x"
  by (simp add: push_bounded_def)

lemma set_push_bounded: "set (push_bounded N x xs) \<subseteq> insert x (set xs)"
  by (auto simp: push_bounded_def dest: list.set_sel(2) split: if_splits) (metis list.sel(2) list.set_sel(2))

definition last_n :: "nat \<Rightarrow> 'a list \<Rightarrow> 'a list" where
  "last_n N xs = drop (length xs - N) xs"

lemma push_bounded_last_n:
  assumes "0 < N" shows "push_bounded N x (last_n N xs) = last_n N (xs @ [x])"
proof (cases "length xs < N")
  case False
  then show ?thesis using assms by (simp add: push_bounded_def last_n_def tl_drop drop_Suc [symmetric] Suc_diff_le)
qed (simp add: push_bounded_def last_n_def)

lemma ring_push_last_n:
  assumes "ring_ok r" "ring_list r = last_n (ring_capacity r) xs"
  shows "ring_list (ring_push x r) = last_n (ring_capacity r) (xs @ [x])"
proof -
  have n: "rg_size r = min (length xs) (ring_capacity r)"
    using arg_cong [OF assms(2), of length] by (simp add: last_n_def)
  show ?thesis
  proof (cases "rg_size r < ring_capacity r")
    case True
    then show ?thesis
      using ring_push_list(2) [OF assms(1), of x] n assms(2) by (simp add: last_n_def min_def split: if_splits)
  next
    case False
    then have "ring_capacity r \<le> length xs" using n by simp
    then show ?thesis
      using ring_push_list(2) [OF assms(1), of x] False n assms
      by (simp add: last_n_def tl_drop drop_Suc [symmetric] Suc_diff_le ring_ok_def)
  qed
qed

text \<open>The circular buffer is the queue of the last \<open>N\<close> elements: after any sequence of pushes into
  a new buffer of capacity \<open>N\<close>, reading it by index gives exactly the last \<open>N\<close> elements pushed, the
  oldest first, although the cursors have wrapped around the array any number of times.\<close>

theorem ring_keeps_last:
  assumes "0 < N"
  shows "map (ring_at (fold ring_push xs (ring_new N d))) [0..<rg_size (fold ring_push xs (ring_new N d))]
    = drop (length xs - N) xs"
proof -
  have "ring_ok (fold ring_push xs (ring_new N d)) \<and> ring_capacity (fold ring_push xs (ring_new N d)) = N \<and>
      ring_list (fold ring_push xs (ring_new N d)) = last_n N xs"
  proof (induction xs rule: rev_induct)
    case Nil
    then show ?case using ring_new_ok [OF assms, of d] by (simp add: last_n_def) (simp add: ring_capacity_def ring_new_def)
  next
    case (snoc x xs)
    then show ?case
      using ring_push_last_n [of "fold ring_push xs (ring_new N d)" xs x]
        ring_push_list(1) [of "fold ring_push xs (ring_new N d)" x] by simp
  qed
  then show ?thesis by (simp add: ring_list_def last_n_def)
qed

lemma ring_keeps_last_witness:
  "map (ring_at (fold ring_push [1, 2, 3, 4, 5 :: int] (ring_new 3 0))) [0..<3] = [3, 4, 5]"
proof -
  have "rg_size (fold ring_push [1, 2, 3, 4, 5 :: int] (ring_new 3 0)) = 3" by code_simp
  then show ?thesis using ring_keeps_last [of 3 "[1, 2, 3, 4, 5 :: int]" 0] by simp
qed

end
