(* ===== verification/LeaderLag.thy ===== *)
theory LeaderLag
  imports Signals Ring
begin

text \<open>
  The strategy that follows a correlated leader, \<open>strategy/LeaderLag.{hpp,cpp}\<close>: it plans in
  \<open>tick\<close>, with a stop at the nearest swing of its own price history, and watches the leader
  after the entry.
\<close>

record leader_config =
  llc_min_correlation :: double
  llc_max_spread_bps :: double
  llc_stop_distance_bps :: double
  llc_tp1_catchup_ratio :: double
  llc_tp1_size_ratio :: double
  llc_max_our_change_2s_pct :: double
  llc_density_on_path_search_bps :: double
  llc_tier_max_our_change_2s_pct :: "double list"
  llc_tier_density_on_path_search_bps :: "double list"
  llc_tier_stop_distance_bps :: "double list"
  llc_lag_max_age :: duration
  llc_entry_timeout :: duration
  llc_correlation_exit_threshold :: double
  llc_leader_exit_reversal_bps :: double
  llc_swing_lookback_ticks :: nat
  llc_no_progress_timeout_sec :: double

definition leader_config_default :: leader_config where
  "leader_config_default =
     \<lparr>llc_min_correlation = 6 / 10, llc_max_spread_bps = 3, llc_stop_distance_bps = 8,
      llc_tp1_catchup_ratio = 7 / 10, llc_tp1_size_ratio = 6 / 10, llc_max_our_change_2s_pct = 1 / 10,
      llc_density_on_path_search_bps = 25, llc_tier_max_our_change_2s_pct = [5 / 100, 1 / 10, 15 / 100],
      llc_tier_density_on_path_search_bps = [40, 30, 20], llc_tier_stop_distance_bps = [12, 8, 6],
      llc_lag_max_age = milliseconds 3000, llc_entry_timeout = seconds 5,
      llc_correlation_exit_threshold = 3 / 10, llc_leader_exit_reversal_bps = 5,
      llc_swing_lookback_ticks = 30, llc_no_progress_timeout_sec = 15\<rparr>"

record leader =
  ll_prices :: "double ring"
  ll_ticker :: ticker
  ll_info :: ticker_info
  ll_cfg :: leader_config
  ll_ctx :: strategy_context
  ll_active_plan :: "traced_plan option"
  ll_active_trade :: "traced_plan option"
  ll_universe :: "universe option"

definition leader_name :: string where "leader_name = ''LeaderLag''"

definition leader_new :: "ticker \<Rightarrow> ticker_info \<Rightarrow> leader_config \<Rightarrow> leader" where
  "leader_new t info cfg =
     \<lparr>ll_prices = ring_new 120 0, ll_ticker = t, ll_info = info, ll_cfg = cfg, ll_ctx = context_new,
      ll_active_plan = None, ll_active_trade = None, ll_universe = None\<rparr>"

definition leader_set_universe :: "universe \<Rightarrow> leader \<Rightarrow> leader" where
  "leader_set_universe u st = st\<lparr>ll_universe := Some u\<rparr>"

definition leader_on_frame :: "feature_frame \<Rightarrow> leader \<Rightarrow> leader" where
  "leader_on_frame f st =
     (if ff_ticker f = ll_ticker st then
        let st1 = st\<lparr>ll_ctx := update_frame f (ll_ctx st)\<rparr> in
        if 0 < ff_mid f then st1\<lparr>ll_prices := ring_push (ff_mid f) (ll_prices st1)\<rparr> else st1
      else st)"

definition leader_on_signal ::
  "signal \<Rightarrow> time_point option \<Rightarrow> time_point \<Rightarrow> leader \<Rightarrow> traced_plan option \<times> leader" where
  "leader_on_signal s clock now st =
     (None, if sg_ticker s = ll_ticker st then st\<lparr>ll_ctx := update_signal s (ll_ctx st)\<rparr> else st)"

section \<open>Swings\<close>

text \<open>The last prices, the newest first.\<close>

definition recent_prices :: "nat \<Rightarrow> double ring \<Rightarrow> double list" where
  "recent_prices lookback r =
     map (\<lambda>i. ring_at r (rg_size r - 1 - i)) [0..<min lookback (rg_size r)]"

definition find_swing_low :: "nat \<Rightarrow> double ring \<Rightarrow> double" where
  "find_swing_low lookback r =
     (if rg_size r < 3 then 0
      else (case filter (\<lambda>v. 0 < v) (recent_prices lookback r) of
              [] \<Rightarrow> 0
            | v # vs \<Rightarrow> fold min vs v))"

definition find_swing_high :: "nat \<Rightarrow> double ring \<Rightarrow> double" where
  "find_swing_high lookback r = (if rg_size r < 3 then 0 else fold max (recent_prices lookback r) 0)"

section \<open>Planning\<close>

definition leader_tiered :: "leader \<Rightarrow> (leader_config \<Rightarrow> double list) \<Rightarrow> (leader_config \<Rightarrow> double) \<Rightarrow> double" where
  "leader_tiered st tiers flat = tiered (ll_universe st) (ll_ticker st) (tiers (ll_cfg st)) (flat (ll_cfg st))"

definition leader_side :: "signal \<Rightarrow> side" where
  "leader_side move = (if 0 < sp_lag_pct (sg_payload move) then Buy else Sell)"

definition our_change_2s :: "feature_frame \<Rightarrow> double" where
  "our_change_2s f = ff_price_change_1s f + (ff_price_change_5s f - ff_price_change_1s f) * (1 / 4)"

definition on_path :: "side \<Rightarrow> double \<Rightarrow> double \<Rightarrow> signal \<Rightarrow> bool" where
  "on_path sd mid limit s \<longleftrightarrow>
     (let dist = (sg_price s - mid) / mid * 10000 in
      if sd = Buy then sp_side (sg_payload s) = ''Ask'' \<and> 0 < dist \<and> dist \<le> limit
      else sp_side (sg_payload s) = ''Bid'' \<and> dist < 0 \<and> - dist \<le> limit)"

definition density_on_path :: "strategy_context \<Rightarrow> time_point \<Rightarrow> side \<Rightarrow> double \<Rightarrow> signal option" where
  "density_on_path c now sd limit =
     scan_back (\<lambda>s. sg_kind s = DensityDetected) (\<lambda>s. seconds 15 < now - sg_timestamp s)
       (on_path sd (ff_mid (sc_last_frame c)) limit) (rev (sc_history c))"

text \<open>C3 to C6, for a fresh move of the leader.\<close>

definition leader_gates :: "leader \<Rightarrow> time_point \<Rightarrow> signal \<Rightarrow> bool" where
  "leader_gates st now move \<longleftrightarrow>
     (let f = sc_last_frame (ll_ctx st) in
      llc_min_correlation (ll_cfg st) \<le> \<bar>sp_correlation (sg_payload move)\<bar> \<and>
      \<bar>our_change_2s f\<bar> * 100 \<le> leader_tiered st llc_tier_max_our_change_2s_pct llc_max_our_change_2s_pct \<and>
      0 < ff_mid f \<and>
      density_on_path (ll_ctx st) now (leader_side move)
        (leader_tiered st llc_tier_density_on_path_search_bps llc_density_on_path_search_bps) = None \<and>
      ff_spread_bps f \<le> llc_max_spread_bps (ll_cfg st))"

definition leader_stop :: "leader \<Rightarrow> side \<Rightarrow> double" where
  "leader_stop st sd =
     (let mid = ff_mid (sc_last_frame (ll_ctx st));
          dist = mid * (leader_tiered st llc_tier_stop_distance_bps llc_stop_distance_bps / 10000);
          look = llc_swing_lookback_ticks (ll_cfg st)
      in if sd = Buy then
           (let low = find_swing_low look (ll_prices st); furthest = mid - dist * (3 / 2)
            in if 0 < low \<and> furthest < low \<and> low < mid then max low furthest else mid - dist)
         else
           (let high = find_swing_high look (ll_prices st); furthest = mid + dist * (3 / 2)
            in if 0 < high \<and> mid < high \<and> high < furthest then min high furthest else mid + dist))"

definition leader_tp1 :: "leader \<Rightarrow> signal \<Rightarrow> double" where
  "leader_tp1 st move =
     (let mid = ff_mid (sc_last_frame (ll_ctx st));
          catchup = \<bar>sp_lag_pct (sg_payload move)\<bar> * 100;
          offset = mid * (catchup * llc_tp1_catchup_ratio (ll_cfg st) / 10000)
      in if leader_side move = Buy then mid + offset else mid - offset)"

definition leader_plan :: "leader \<Rightarrow> time_point \<Rightarrow> signal \<Rightarrow> trade_plan" where
  "leader_plan st now move =
     (let tick = ti_price_increment (ll_info st) in
      trade_plan_default\<lparr>
        plan_ticker := ll_ticker st, plan_side := leader_side move, plan_entry_type := Market,
        plan_entry_price := round_to_tick (ff_mid (sc_last_frame (ll_ctx st))) tick,
        plan_stop_price := round_to_tick (leader_stop st (leader_side move)) tick,
        plan_tp1_price := round_to_tick (leader_tp1 st move) tick,
        plan_tp1_size_ratio := llc_tp1_size_ratio (ll_cfg st),
        plan_strategy_name := leader_name, plan_reason := ''Leader lag detected'',
        plan_valid_until := now + llc_entry_timeout (ll_cfg st),
        plan_no_progress_timeout_sec := llc_no_progress_timeout_sec (ll_cfg st),
        plan_entry_correlation := sp_correlation (sg_payload move),
        plan_leader_entry_lag_pct := sp_lag_pct (sg_payload move),
        plan_correlation_exit_threshold := llc_correlation_exit_threshold (ll_cfg st),
        plan_leader_exit_reversal_bps := llc_leader_exit_reversal_bps (ll_cfg st)\<rparr>)"

definition leader_decide :: "leader \<Rightarrow> time_point \<Rightarrow> traced_plan option" where
  "leader_decide st now =
     (case recent_within (ll_ctx st) LeaderMove now (llc_lag_max_age (ll_cfg st)) of
        None \<Rightarrow> None
      | Some move \<Rightarrow>
          if leader_gates st now move then Some (finish_plan (leader_plan st now move) [move] (ll_ctx st))
          else None)"

text \<open>A plan past its time is dropped together with the trade information.\<close>

definition leader_tick :: "time_point option \<Rightarrow> time_point \<Rightarrow> leader \<Rightarrow> traced_plan option \<times> leader" where
  "leader_tick clock now0 st =
     (let now = clock_or clock now0;
          plan_now = (\<lambda>st1. case leader_decide st1 now of
                              None \<Rightarrow> (None, st1)
                            | Some plan \<Rightarrow> (Some plan, st1\<lparr>ll_active_plan := Some plan\<rparr>))
      in case ll_active_plan st of
           Some plan \<Rightarrow>
             if plan_valid_until plan < now then plan_now (st\<lparr>ll_active_plan := None, ll_active_trade := None\<rparr>)
             else (None, st)
         | None \<Rightarrow> plan_now st)"

section \<open>After the plan\<close>

definition leader_on_plan_accepted :: "traced_plan \<Rightarrow> leader \<Rightarrow> leader" where
  "leader_on_plan_accepted plan st =
     (if plan_strategy_name plan = leader_name then st\<lparr>ll_active_trade := Some plan\<rparr> else st)"

definition leader_reset :: "leader \<Rightarrow> leader" where
  "leader_reset st = st\<lparr>ll_active_plan := None, ll_active_trade := None\<rparr>"

definition leader_reversal :: "traced_plan \<Rightarrow> feature_frame \<Rightarrow> bool" where
  "leader_reversal plan f \<longleftrightarrow>
     (let r = (if plan_side plan = Buy then - ff_leader_change_1s f else ff_leader_change_1s f) in
      0 < plan_leader_exit_reversal_bps plan \<and> 0 < r \<and> plan_leader_exit_reversal_bps plan < r * 10000)"

definition leader_check_close ::
  "feature_frame \<Rightarrow> time_point option \<Rightarrow> time_point \<Rightarrow> leader \<Rightarrow> string option \<times> leader" where
  "leader_check_close f clock now st =
     (case ll_active_trade st of
        None \<Rightarrow> (None, st)
      | Some plan \<Rightarrow>
          if 0 < plan_correlation_exit_threshold plan \<and>
             ff_leader_correlation f < plan_correlation_exit_threshold plan
          then (Some (fixed_string 32 ''CorrelationBreakdown''), st\<lparr>ll_active_trade := None\<rparr>)
          else if leader_reversal plan f
          then (Some (fixed_string 32 ''LeaderReversal''), st\<lparr>ll_active_trade := None\<rparr>)
          else (None, st))"

section \<open>The dashboard\<close>

definition path_condition :: "leader \<Rightarrow> time_point \<Rightarrow> strategy_condition" where
  "path_condition st now =
     (let c = ll_ctx st; limit = llc_density_on_path_search_bps (ll_cfg st);
          mid = ff_mid (sc_last_frame c);
          sd = (case sc_recent c LeaderMove of Some m \<Rightarrow> leader_side m | None \<Rightarrow> Buy);
          blocker = (if 0 < mid then density_on_path c now sd limit else None)
      in \<lparr>cond_name = ''Density on path'',
          cond_current = (case blocker of None \<Rightarrow> limit | Some s \<Rightarrow> \<bar>(sg_price s - mid) / mid * 10000\<bar>),
          cond_target = limit, cond_met = (blocker = None), cond_unit = ''bps''\<rparr>)"

definition leader_conditions :: "leader \<Rightarrow> time_point \<Rightarrow> strategy_condition list" where
  "leader_conditions st now =
     (let f = sc_last_frame (ll_ctx st); cfg = ll_cfg st in
      [presence_condition ''LeaderMove'' (has_recent_signal LeaderMove (llc_lag_max_age cfg) now (ll_ctx st)),
       \<lparr>cond_name = ''Leader corr'', cond_current = ff_leader_correlation f, cond_target = llc_min_correlation cfg,
        cond_met = (llc_min_correlation cfg \<le> \<bar>ff_leader_correlation f\<bar>), cond_unit = ''''\<rparr>,
       at_most_condition ''Spread'' ''bps'' (ff_spread_bps f) (llc_max_spread_bps cfg),
       at_most_condition ''Our change 2s'' ''%'' (\<bar>our_change_2s f\<bar> * 100) (llc_max_our_change_2s_pct cfg),
       path_condition st now])"

definition leader_get_state :: "time_point option \<Rightarrow> time_point \<Rightarrow> leader \<Rightarrow> strategy_state" where
  "leader_get_state clock now st =
     (let s0 = strategy_state_default (ll_ticker st) leader_name; now = clock_or clock now in
      if ll_active_plan st \<noteq> None then s0\<lparr>ss_ready_state := Planning, ss_readiness_pct := 100\<rparr>
      else if ff_ticker (sc_last_frame (ll_ctx st)) = '''' then s0\<lparr>ss_ready_state := Cold\<rparr>
      else with_conditions (leader_conditions st now)
             (s0\<lparr>ss_signals_last_60s := signals_last_60s now (ll_ctx st)\<rparr>))"

end
