(* ===== verification/Bounce.thy ===== *)
theory Bounce
  imports Signals
begin

text \<open>
  The strategy that trades bounces from large densities, \<open>strategy/BounceFromDensity.{hpp,cpp}\<close>:
  its gates on the approach, the density, the market and the tape, the prices of its plan with
  the stop behind the furthest density of a cluster, and its post-entry checks.
\<close>

record bounce_config =
  bc_max_spread_bps :: double
  bc_entry_offset_bps :: double
  bc_stop_buffer_bps :: double
  bc_tp1_r :: double
  bc_tp1_size_ratio :: double
  bc_min_approach_speed_bps_1s :: double
  bc_max_tape_speed_ratio :: double
  bc_min_driver_reversal_bps :: double
  bc_min_relative_density :: double
  bc_tier_min_approach_speed_bps_1s :: "double list"
  bc_tier_min_relative_density :: "double list"
  bc_tier_min_driver_reversal_bps :: "double list"
  bc_require_tape_fade :: bool
  bc_approach_signal_max_age :: duration
  bc_tape_fade_max_age :: duration
  bc_leader_contra_max_pct :: double
  bc_leader_contra_lookback :: duration
  bc_min_density_age_ms :: int
  bc_max_level_touches_for_bounce :: int
  bc_burst_contra_exit_sec :: duration
  bc_max_level_age :: duration
  bc_entry_timeout :: duration
  bc_stop_anchor_max_bps :: double
  bc_no_progress_timeout_sec :: double
  bc_density_cluster_enabled :: bool
  bc_density_cluster_max_bps :: double
  bc_max_funding_against_bps :: double
  bc_max_mark_mid_bps :: double

definition bounce_config_default :: bounce_config where
  "bounce_config_default =
     \<lparr>bc_max_spread_bps = 3, bc_entry_offset_bps = 3, bc_stop_buffer_bps = 5, bc_tp1_r = 3 / 2,
      bc_tp1_size_ratio = 1 / 2, bc_min_approach_speed_bps_1s = 5, bc_max_tape_speed_ratio = 6 / 10,
      bc_min_driver_reversal_bps = 2, bc_min_relative_density = 2,
      bc_tier_min_approach_speed_bps_1s = [50, 15, 8],
      bc_tier_min_relative_density = [1 / 4, 15 / 100, 1 / 10],
      bc_tier_min_driver_reversal_bps = [30, 20, 12], bc_require_tape_fade = True,
      bc_approach_signal_max_age = seconds 5, bc_tape_fade_max_age = seconds 5,
      bc_leader_contra_max_pct = 2 / 10, bc_leader_contra_lookback = seconds 3,
      bc_min_density_age_ms = 5000, bc_max_level_touches_for_bounce = 2,
      bc_burst_contra_exit_sec = seconds 5, bc_max_level_age = seconds 60,
      bc_entry_timeout = seconds 10, bc_stop_anchor_max_bps = 15, bc_no_progress_timeout_sec = 120,
      bc_density_cluster_enabled = True, bc_density_cluster_max_bps = 15,
      bc_max_funding_against_bps = 5, bc_max_mark_mid_bps = 20\<rparr>"

record bounce =
  bo_ticker :: ticker
  bo_info :: ticker_info
  bo_cfg :: bounce_config
  bo_ctx :: strategy_context
  bo_active_plan :: "traced_plan option"
  bo_active_trade :: "traced_plan option"
  bo_universe :: "universe option"

definition bounce_name :: string where "bounce_name = ''BounceFromDensity''"

definition bounce_new :: "ticker \<Rightarrow> ticker_info \<Rightarrow> bounce_config \<Rightarrow> bounce" where
  "bounce_new t info cfg =
     \<lparr>bo_ticker = t, bo_info = info, bo_cfg = cfg, bo_ctx = context_new, bo_active_plan = None,
      bo_active_trade = None, bo_universe = None\<rparr>"

definition bounce_set_universe :: "universe \<Rightarrow> bounce \<Rightarrow> bounce" where
  "bounce_set_universe u st = st\<lparr>bo_universe := Some u\<rparr>"

definition bounce_on_frame :: "feature_frame \<Rightarrow> bounce \<Rightarrow> bounce" where
  "bounce_on_frame f st = (if ff_ticker f = bo_ticker st then st\<lparr>bo_ctx := update_frame f (bo_ctx st)\<rparr> else st)"

definition bounce_tiered :: "bounce \<Rightarrow> (bounce_config \<Rightarrow> double list) \<Rightarrow> (bounce_config \<Rightarrow> double) \<Rightarrow> double" where
  "bounce_tiered st tiers flat = tiered (bo_universe st) (bo_ticker st) (tiers (bo_cfg st)) (flat (bo_cfg st))"

section \<open>The gates on the approach and the density\<close>

text \<open>The spread, the age of the level, the number of its touches, the impulse.\<close>

definition bounce_approach_ok :: "bounce \<Rightarrow> time_point \<Rightarrow> signal \<Rightarrow> bool" where
  "bounce_approach_ok st now approach \<longleftrightarrow>
     (let cfg = bo_cfg st; p = sg_payload approach in
      ff_spread_bps (sc_last_frame (bo_ctx st)) \<le> bc_max_spread_bps cfg \<and>
      sp_age_ms p + to_milliseconds (now - sg_timestamp approach) \<le> to_seconds (bc_max_level_age cfg) * 1000 \<and>
      \<not> (0 < bc_max_level_touches_for_bounce cfg \<and> bc_max_level_touches_for_bounce cfg < sp_touches p) \<and>
      (bounce_tiered st bc_tier_min_approach_speed_bps_1s bc_min_approach_speed_bps_1s \<le> sp_speed_bps p \<or>
       sp_approach_type p = ''impulse''))"

definition bounce_density :: "bounce \<Rightarrow> time_point \<Rightarrow> double \<Rightarrow> signal option" where
  "bounce_density st now level =
     find (\<lambda>s. sg_kind s = DensityDetected \<and> now - sg_timestamp s \<le> bc_max_level_age (bo_cfg st) \<and>
               within_bps (sg_price s) level (3 / 2)) (rev (sc_history (bo_ctx st)))"

definition density_side :: "signal \<Rightarrow> side" where
  "density_side d = (if sp_side (sg_payload d) = ''Bid'' then Buy else Sell)"

definition density_mature :: "bounce \<Rightarrow> time_point \<Rightarrow> signal \<Rightarrow> bool" where
  "density_mature st now d \<longleftrightarrow>
     bc_min_density_age_ms (bo_cfg st) \<le> sp_age_ms (sg_payload d) + to_milliseconds (now - sg_timestamp d)"

definition density_removed :: "bounce \<Rightarrow> time_point \<Rightarrow> double \<Rightarrow> bool" where
  "density_removed st now price \<longleftrightarrow>
     find (\<lambda>s. sg_kind s = DensityRemoved \<and> now - sg_timestamp s \<le> seconds 30 \<and>
               within_bps (sg_price s) price (3 / 2)) (rev (sc_history (bo_ctx st))) \<noteq> None"

definition density_outweighs :: "bounce \<Rightarrow> signal \<Rightarrow> bool" where
  "density_outweighs st d \<longleftrightarrow>
     (let f = sc_last_frame (bo_ctx st);
          depth = (if sp_side (sg_payload d) = ''Bid'' then ff_bid_depth_10 f else ff_ask_depth_10 f)
      in \<not> (0 < depth \<and> sp_size (sg_payload d) / depth
                < bounce_tiered st bc_tier_min_relative_density bc_min_relative_density))"

section \<open>The gates on the market\<close>

definition funding_against :: "bounce_config \<Rightarrow> feature_frame \<Rightarrow> side \<Rightarrow> bool" where
  "funding_against cfg f sd \<longleftrightarrow>
     (let rate = ff_funding_rate f * 10000 in
      0 < bc_max_funding_against_bps cfg \<and> ff_funding_rate f \<noteq> 0 \<and>
      (sd = Buy \<and> bc_max_funding_against_bps cfg < rate \<or> sd = Sell \<and> rate < - bc_max_funding_against_bps cfg))"

definition mark_diverges :: "bounce_config \<Rightarrow> feature_frame \<Rightarrow> bool" where
  "mark_diverges cfg f \<longleftrightarrow>
     0 < bc_max_mark_mid_bps cfg \<and> 0 < ff_mark_price f \<and> 0 < ff_mid f \<and>
     bc_max_mark_mid_bps cfg < \<bar>ff_mark_price f - ff_mid f\<bar> / ff_mid f * 10000"

definition burst_contra :: "side \<Rightarrow> signal option \<Rightarrow> bool" where
  "burst_contra sd burst =
     (case burst of
        None \<Rightarrow> False
      | Some s \<Rightarrow> sd = Buy \<and> sp_side (sg_payload s) = ''Sell'' \<or> sd = Sell \<and> sp_side (sg_payload s) = ''Buy'')"

definition tape_stalls :: "bounce_config \<Rightarrow> feature_frame \<Rightarrow> bool" where
  "tape_stalls cfg f \<longleftrightarrow>
     (let v1 = ff_buy_vol_1s f + ff_sell_vol_1s f; v5 = ff_buy_vol_5s f + ff_sell_vol_5s f
      in \<not> (0 < v5 \<and> bc_max_tape_speed_ratio cfg < v1 / max 1 (v5 / 5)))"

definition driver_against :: "bounce \<Rightarrow> side \<Rightarrow> bool" where
  "driver_against st sd \<longleftrightarrow>
     (let f = sc_last_frame (bo_ctx st);
          m = (if sd = Buy then ff_leader_change_1s f else - ff_leader_change_1s f)
      in m < 0 \<and> bounce_tiered st bc_tier_min_driver_reversal_bps bc_min_driver_reversal_bps < \<bar>m * 10000\<bar>)"

definition leader_contra :: "bounce \<Rightarrow> time_point \<Rightarrow> side \<Rightarrow> bool" where
  "leader_contra st now sd =
     (case recent_within (bo_ctx st) LeaderMove now (bc_leader_contra_lookback (bo_cfg st)) of
        None \<Rightarrow> False
      | Some m \<Rightarrow>
          let lag = sp_lag_pct (sg_payload m) in
          (sd = Buy \<and> lag < 0 \<or> sd = Sell \<and> 0 < lag) \<and> bc_leader_contra_max_pct (bo_cfg st) < \<bar>lag\<bar> * 100)"

definition iceberg_near :: "bounce \<Rightarrow> time_point \<Rightarrow> double \<Rightarrow> string \<Rightarrow> bool" where
  "iceberg_near st now level side_str \<longleftrightarrow>
     find (\<lambda>s. sg_kind s = IcebergSuspected \<and> now - sg_timestamp s \<le> seconds 30 \<and>
               sp_side (sg_payload s) = side_str \<and> within_bps (sg_price s) level 2)
       (rev (sc_history (bo_ctx st))) \<noteq> None"

definition bounce_market_ok :: "bounce \<Rightarrow> time_point \<Rightarrow> signal \<Rightarrow> signal \<Rightarrow> bool" where
  "bounce_market_ok st now approach d \<longleftrightarrow>
     (let cfg = bo_cfg st; f = sc_last_frame (bo_ctx st); sd = density_side d in
      \<not> funding_against cfg f sd \<and> \<not> mark_diverges cfg f \<and>
      \<not> density_removed st now (sg_price d) \<and>
      \<not> burst_contra sd (recent_within (bo_ctx st) TapeBurst now (seconds 3)) \<and>
      density_outweighs st d \<and> tape_stalls cfg f \<and> \<not> driver_against st sd \<and>
      (bc_require_tape_fade cfg \<longrightarrow>
         recent_within (bo_ctx st) TapeFade now (bc_tape_fade_max_age cfg) \<noteq> None) \<and>
      \<not> leader_contra st now sd \<and>
      \<not> iceberg_near st now (sg_price approach) (sp_side (sg_payload d)))"

section \<open>The plan\<close>

text \<open>The cluster: the furthest density of the same side beyond the one that is traded.\<close>

definition in_cluster :: "bounce \<Rightarrow> time_point \<Rightarrow> signal \<Rightarrow> signal \<Rightarrow> bool" where
  "in_cluster st now d s \<longleftrightarrow>
     (let apart = \<bar>sg_price s - sg_price d\<bar> / sg_price d * 10000 in
      sg_kind s = DensityDetected \<and> now - sg_timestamp s \<le> bc_max_level_age (bo_cfg st) \<and>
      sp_side (sg_payload s) = sp_side (sg_payload d) \<and>
      apart \<le> bc_density_cluster_max_bps (bo_cfg st) \<and> 1 / 2 \<le> apart)"

definition further :: "side \<Rightarrow> double \<Rightarrow> double \<Rightarrow> double" where
  "further sd price far =
     (if sd = Buy \<and> price < far then price else if sd = Sell \<and> far < price then price else far)"

definition stop_anchor :: "bounce \<Rightarrow> time_point \<Rightarrow> signal \<Rightarrow> double" where
  "stop_anchor st now d =
     (if bc_density_cluster_enabled (bo_cfg st)
      then fold (\<lambda>s. further (density_side d) (sg_price s))
             (filter (in_cluster st now d) (rev (sc_history (bo_ctx st)))) (sg_price d)
      else sg_price d)"

definition bounce_entry :: "bounce \<Rightarrow> signal \<Rightarrow> signal \<Rightarrow> double" where
  "bounce_entry st approach d =
     (let level = sg_price approach; offset = level * (bc_entry_offset_bps (bo_cfg st) / 10000)
      in round_to_tick (if density_side d = Buy then level + offset else level - offset)
           (ti_price_increment (bo_info st)))"

definition bounce_stop :: "bounce \<Rightarrow> time_point \<Rightarrow> signal \<Rightarrow> double" where
  "bounce_stop st now d =
     (let anchor = stop_anchor st now d; buffer = anchor * (bc_stop_buffer_bps (bo_cfg st) / 10000)
      in round_to_tick (if density_side d = Buy then anchor - buffer else anchor + buffer)
           (ti_price_increment (bo_info st)))"

definition stop_anchored :: "bounce \<Rightarrow> time_point \<Rightarrow> signal \<Rightarrow> bool" where
  "stop_anchored st now d \<longleftrightarrow>
     (let limit = bc_stop_anchor_max_bps (bo_cfg st); f = sc_last_frame (bo_ctx st);
          stop = bounce_stop st now d
      in 0 < limit \<longrightarrow>
         (case (if density_side d = Buy then ff_nearest_support f else ff_nearest_resistance f) of
            Some level \<Rightarrow> within_bps level stop limit
          | None \<Rightarrow> True))"

definition bounce_tp1 :: "bounce \<Rightarrow> time_point \<Rightarrow> signal \<Rightarrow> signal \<Rightarrow> double" where
  "bounce_tp1 st now approach d =
     (let entry = bounce_entry st approach d; risk = \<bar>entry - bounce_stop st now d\<bar>
      in round_to_tick
           (if density_side d = Buy then entry + bc_tp1_r (bo_cfg st) * risk
            else entry - bc_tp1_r (bo_cfg st) * risk) (ti_price_increment (bo_info st)))"

definition bounce_plan :: "bounce \<Rightarrow> time_point \<Rightarrow> signal \<Rightarrow> signal \<Rightarrow> trade_plan" where
  "bounce_plan st now approach d =
     trade_plan_default\<lparr>
       plan_ticker := bo_ticker st, plan_side := density_side d, plan_entry_type := Limit,
       plan_entry_price := bounce_entry st approach d, plan_stop_price := bounce_stop st now d,
       plan_tp1_price := bounce_tp1 st now approach d,
       plan_tp1_size_ratio := bc_tp1_size_ratio (bo_cfg st), plan_strategy_name := bounce_name,
       plan_reason := ''Bounce from %.*s density (Impulse + Stalling)'',
       plan_valid_until := now + bc_entry_timeout (bo_cfg st),
       plan_no_progress_timeout_sec := bc_no_progress_timeout_sec (bo_cfg st),
       plan_min_follow_through_bps := 0, plan_density_price_for_stop := sg_price d,
       plan_approach_count := sp_touches (sg_payload approach)\<rparr>"

definition bounce_decide :: "bounce \<Rightarrow> time_point \<Rightarrow> traced_plan option" where
  "bounce_decide st now =
     (case recent_within (bo_ctx st) LevelApproach now (bc_approach_signal_max_age (bo_cfg st)) of
        None \<Rightarrow> None
      | Some approach \<Rightarrow>
          if \<not> bounce_approach_ok st now approach then None
          else (case bounce_density st now (sg_price approach) of
                  None \<Rightarrow> None
                | Some d \<Rightarrow>
                    if density_mature st now d \<and> bounce_market_ok st now approach d \<and>
                       stop_anchored st now d \<and> bounce_entry st approach d \<noteq> bounce_stop st now d
                    then Some (finish_plan (bounce_plan st now approach d) [d, approach] (bo_ctx st))
                    else None))"

definition bounce_on_signal ::
  "signal \<Rightarrow> time_point option \<Rightarrow> time_point \<Rightarrow> bounce \<Rightarrow> traced_plan option \<times> bounce" where
  "bounce_on_signal s clock now st =
     (if sg_ticker s \<noteq> bo_ticker st then (None, st)
      else
        let st1 = st\<lparr>bo_ctx := update_signal s (bo_ctx st)\<rparr> in
        if sg_kind s \<noteq> LevelApproach \<or> bo_active_trade st1 \<noteq> None \<or> bo_active_plan st1 \<noteq> None then (None, st1)
        else (case bounce_decide st1 (clock_or clock now) of
                None \<Rightarrow> (None, st1)
              | Some plan \<Rightarrow> (Some plan, st1\<lparr>bo_active_plan := Some plan\<rparr>)))"

section \<open>After the plan\<close>

definition bounce_tick :: "time_point option \<Rightarrow> time_point \<Rightarrow> bounce \<Rightarrow> traced_plan option \<times> bounce" where
  "bounce_tick clock now st =
     (None,
      case bo_active_plan st of
        Some plan \<Rightarrow> if plan_valid_until plan < clock_or clock now then st\<lparr>bo_active_plan := None\<rparr> else st
      | None \<Rightarrow> st)"

definition bounce_on_plan_accepted :: "traced_plan \<Rightarrow> bounce \<Rightarrow> bounce" where
  "bounce_on_plan_accepted plan st =
     (if plan_strategy_name plan = bounce_name then st\<lparr>bo_active_trade := Some plan\<rparr> else st)"

definition bounce_reset :: "bounce \<Rightarrow> bounce" where
  "bounce_reset st = st\<lparr>bo_active_plan := None, bo_active_trade := None\<rparr>"

definition density_gone :: "bounce \<Rightarrow> time_point \<Rightarrow> traced_plan \<Rightarrow> bool" where
  "density_gone st now plan \<longleftrightarrow>
     0 < plan_density_price_for_stop plan \<and>
     scan_back (\<lambda>s. sg_kind s = DensityRemoved)
       (\<lambda>s. seconds (ctrunc (plan_no_progress_timeout_sec plan)) < now - sg_timestamp s)
       (\<lambda>s. within_bps (sg_price s) (plan_density_price_for_stop plan) (3 / 2))
       (rev (sc_history (bo_ctx st))) \<noteq> None"

definition bounce_check_close ::
  "feature_frame \<Rightarrow> time_point option \<Rightarrow> time_point \<Rightarrow> bounce \<Rightarrow> string option \<times> bounce" where
  "bounce_check_close f clock now0 st =
     (case bo_active_trade st of
        None \<Rightarrow> (None, st)
      | Some plan \<Rightarrow>
          let now = clock_or clock now0 in
          if density_gone st now plan
          then (Some (fixed_string 32 ''DensityRemovedPostEntry''), st\<lparr>bo_active_trade := None\<rparr>)
          else if burst_contra (plan_side plan) (recent_within (bo_ctx st) TapeBurst now (bc_burst_contra_exit_sec (bo_cfg st)))
          then (Some (fixed_string 32 ''BurstContraPostEntry''), st\<lparr>bo_active_trade := None\<rparr>)
          else (None, st))"

section \<open>The dashboard\<close>

definition near_level :: "strategy_context \<Rightarrow> time_point \<Rightarrow> signal_kind \<Rightarrow> duration \<Rightarrow> double \<Rightarrow> bool" where
  "near_level c now k max_age limit \<longleftrightarrow>
     (let level = (case sc_recent c LevelApproach of Some s \<Rightarrow> sg_price s | None \<Rightarrow> 0) in
      0 < level \<and>
      scan_back (\<lambda>s. sg_kind s = k) (\<lambda>s. max_age < now - sg_timestamp s)
        (\<lambda>s. within_bps (sg_price s) level limit) (rev (sc_history c)) \<noteq> None)"

definition speed_condition :: "bounce \<Rightarrow> strategy_condition" where
  "speed_condition st =
     (let p = (case sc_recent (bo_ctx st) LevelApproach of Some s \<Rightarrow> Some (sg_payload s) | None \<Rightarrow> None);
          speed = (case p of Some q \<Rightarrow> sp_speed_bps q | None \<Rightarrow> 0);
          ty = (case p of Some q \<Rightarrow> sp_approach_type q | None \<Rightarrow> '''');
          target = bc_min_approach_speed_bps_1s (bo_cfg st)
      in \<lparr>cond_name = ''Approach speed'', cond_current = speed, cond_target = target,
          cond_met = (target \<le> speed \<or> ty = ''impulse''), cond_unit = ''bps''\<rparr>)"

definition relative_density :: "bounce \<Rightarrow> time_point \<Rightarrow> double" where
  "relative_density st now =
     (case find (\<lambda>s. sg_kind s = DensityDetected \<and> now - sg_timestamp s \<le> bc_max_level_age (bo_cfg st))
             (rev (sc_history (bo_ctx st))) of
        None \<Rightarrow> 0
      | Some s \<Rightarrow>
          let f = sc_last_frame (bo_ctx st);
              depth = (if sp_side (sg_payload s) = ''Bid'' then ff_bid_depth_10 f else ff_ask_depth_10 f)
          in if 0 < depth then sp_size (sg_payload s) / depth else 0)"

text \<open>The side the dashboard assumes: that of the last density, when it is fresh, or Sell.\<close>

definition assumed_side :: "bounce \<Rightarrow> time_point \<Rightarrow> side" where
  "assumed_side st now =
     (case recent_within (bo_ctx st) DensityDetected now (bc_max_level_age (bo_cfg st)) of
        Some s \<Rightarrow> density_side s
      | None \<Rightarrow> Sell)"

definition alignment_condition :: "bounce \<Rightarrow> time_point \<Rightarrow> strategy_condition" where
  "alignment_condition st now =
     (let f = sc_last_frame (bo_ctx st); target = bc_min_driver_reversal_bps (bo_cfg st);
          m = (if assumed_side st now = Buy then ff_leader_change_1s f else - ff_leader_change_1s f)
      in \<lparr>cond_name = ''Leader alignment'', cond_current = \<bar>ff_leader_change_1s f\<bar> * 10000, cond_target = target,
          cond_met = (0 \<le> m \<or> \<bar>m * 10000\<bar> \<le> target), cond_unit = ''bps''\<rparr>)"

definition contra_condition :: "bounce \<Rightarrow> time_point \<Rightarrow> strategy_condition" where
  "contra_condition st now =
     at_most_condition ''LeaderMove contra'' ''%''
       (case recent_within (bo_ctx st) LeaderMove now (bc_leader_contra_lookback (bo_cfg st)) of
          Some m \<Rightarrow> \<bar>sp_lag_pct (sg_payload m)\<bar> * 100
        | None \<Rightarrow> 0) (bc_leader_contra_max_pct (bo_cfg st))"

definition funding_condition :: "bounce \<Rightarrow> time_point \<Rightarrow> strategy_condition" where
  "funding_condition st now =
     (let cfg = bo_cfg st; f = sc_last_frame (bo_ctx st);
          active = (0 < bc_max_funding_against_bps cfg \<and> ff_funding_rate f \<noteq> 0)
      in \<lparr>cond_name = ''Funding rate'', cond_current = (if active then \<bar>ff_funding_rate f * 10000\<bar> else 0),
          cond_target = bc_max_funding_against_bps cfg,
          cond_met = (\<not> funding_against cfg f (assumed_side st now)), cond_unit = ''bps''\<rparr>)"

definition mark_condition :: "bounce \<Rightarrow> strategy_condition" where
  "mark_condition st =
     (let cfg = bo_cfg st; f = sc_last_frame (bo_ctx st);
          active = (0 < bc_max_mark_mid_bps cfg \<and> 0 < ff_mark_price f \<and> 0 < ff_mid f)
      in \<lparr>cond_name = ''Mark/mid divergence'',
          cond_current = (if active then \<bar>ff_mark_price f - ff_mid f\<bar> / ff_mid f * 10000 else 0),
          cond_target = bc_max_mark_mid_bps cfg, cond_met = (\<not> mark_diverges cfg f), cond_unit = ''bps''\<rparr>)"

definition fade_condition :: "bounce \<Rightarrow> time_point \<Rightarrow> strategy_condition" where
  "fade_condition st now =
     presence_condition ''TapeFade''
       (bc_require_tape_fade (bo_cfg st) \<longrightarrow> has_recent_signal TapeFade (bc_tape_fade_max_age (bo_cfg st)) now (bo_ctx st))"

definition bounce_conditions :: "bounce \<Rightarrow> time_point \<Rightarrow> strategy_condition list" where
  "bounce_conditions st now =
     (let c = bo_ctx st; cfg = bo_cfg st; f = sc_last_frame c;
          v1 = ff_buy_vol_1s f + ff_sell_vol_1s f; v5 = ff_buy_vol_5s f + ff_sell_vol_5s f
      in [presence_condition ''LevelApproach'' (has_recent_signal LevelApproach (seconds 5) now c),
          speed_condition st,
          presence_condition ''Density at level'' (near_level c now DensityDetected (bc_max_level_age cfg) (3 / 2)),
          at_least_condition ''Relative density'' ''ratio'' (relative_density st now) (bc_min_relative_density cfg),
          at_most_condition ''Tape stalling'' ''ratio'' (v1 / max 1 (if 0 < v5 then v5 / 5 else 1)) (bc_max_tape_speed_ratio cfg),
          alignment_condition st now, fade_condition st now, contra_condition st now,
          (let near = near_level c now IcebergSuspected (seconds 30) 2 in
           \<lparr>cond_name = ''No Iceberg'', cond_current = (if near then 1 else 0), cond_target = 0,
            cond_met = (\<not> near), cond_unit = ''count''\<rparr>),
          funding_condition st now, mark_condition st])"

definition bounce_get_state :: "time_point option \<Rightarrow> time_point \<Rightarrow> bounce \<Rightarrow> strategy_state" where
  "bounce_get_state clock now0 st =
     (let s0 = strategy_state_default (bo_ticker st) bounce_name; now = clock_or clock now0 in
      if bo_active_plan st \<noteq> None then s0\<lparr>ss_ready_state := Planning, ss_readiness_pct := 100\<rparr>
      else if ff_ticker (sc_last_frame (bo_ctx st)) = '''' then s0\<lparr>ss_ready_state := Cold\<rparr>
      else with_conditions (bounce_conditions st now)
             (s0\<lparr>ss_signals_last_60s := recent_signal_count now (seconds 60) (bo_ctx st)\<rparr>))"

end
