(* ===== verification/Breakout.thy ===== *)
theory Breakout
  imports Signals
begin

text \<open>
  The strategy that follows the breakout through a density being eaten,
  \<open>strategy/BreakoutEatThrough.{hpp,cpp}\<close>. It is the one strategy that records why it rejects:
  its gates are a chain of guards with their reasons, in the order of the code.
\<close>

record breakout_config =
  kc_max_avg_spread_bps :: double
  kc_aggressive_offset_bps :: double
  kc_stop_buffer_bps :: double
  kc_tp1_r :: double
  kc_tp1_size_ratio :: double
  kc_support_search_range_bps :: double
  kc_min_distance_from_best_bps :: double
  kc_min_leader_correlation :: double
  kc_leader_neutral_max_pct :: double
  kc_min_tape_aggression :: double
  kc_min_relative_volume :: double
  kc_max_resistance_cluster_ratio :: double
  kc_leader_pre_entry_contra_pct :: double
  kc_tier_min_tape_aggression :: "double list"
  kc_tier_min_distance_from_best_bps :: "double list"
  kc_tier_support_search_range_bps :: "double list"
  kc_entry_timeout :: duration
  kc_fade_contra_exit_sec :: duration
  kc_leader_contra_exit_sec :: duration
  kc_leader_exit_contra_pct :: double
  kc_no_progress_timeout_sec :: double
  kc_post_entry_grace_sec :: double
  kc_min_follow_through_bps :: double

definition breakout_config_default :: breakout_config where
  "breakout_config_default =
     \<lparr>kc_max_avg_spread_bps = 4, kc_aggressive_offset_bps = 2, kc_stop_buffer_bps = 5,
      kc_tp1_r = 3 / 2, kc_tp1_size_ratio = 1 / 2, kc_support_search_range_bps = 20,
      kc_min_distance_from_best_bps = 2, kc_min_leader_correlation = 6 / 10,
      kc_leader_neutral_max_pct = 1 / 10, kc_min_tape_aggression = 3 / 10,
      kc_min_relative_volume = 3 / 2, kc_max_resistance_cluster_ratio = 7 / 10,
      kc_leader_pre_entry_contra_pct = 1 / 10,
      kc_tier_min_tape_aggression = [35 / 100, 20 / 100, 12 / 100],
      kc_tier_min_distance_from_best_bps = [8, 5, 3], kc_tier_support_search_range_bps = [40, 30, 20],
      kc_entry_timeout = seconds 10, kc_fade_contra_exit_sec = seconds 5,
      kc_leader_contra_exit_sec = seconds 5, kc_leader_exit_contra_pct = 15 / 100,
      kc_no_progress_timeout_sec = 60, kc_post_entry_grace_sec = 5, kc_min_follow_through_bps = 10\<rparr>"

record breakout =
  kb_ticker :: ticker
  kb_info :: ticker_info
  kb_cfg :: breakout_config
  kb_ctx :: strategy_context
  kb_active_plan :: "traced_plan option"
  kb_active_trade :: "traced_plan option"
  kb_last_reject_reason :: string
  kb_last_reject_time :: time_point
  kb_universe :: "universe option"

definition breakout_name :: string where "breakout_name = ''BreakoutEatThrough''"

definition breakout_new :: "ticker \<Rightarrow> ticker_info \<Rightarrow> breakout_config \<Rightarrow> breakout" where
  "breakout_new t info cfg =
     \<lparr>kb_ticker = t, kb_info = info, kb_cfg = cfg, kb_ctx = context_new, kb_active_plan = None,
      kb_active_trade = None, kb_last_reject_reason = '''', kb_last_reject_time = 0, kb_universe = None\<rparr>"

definition breakout_set_universe :: "universe \<Rightarrow> breakout \<Rightarrow> breakout" where
  "breakout_set_universe u st = st\<lparr>kb_universe := Some u\<rparr>"

definition breakout_on_frame :: "feature_frame \<Rightarrow> breakout \<Rightarrow> breakout" where
  "breakout_on_frame f st = (if ff_ticker f = kb_ticker st then st\<lparr>kb_ctx := update_frame f (kb_ctx st)\<rparr> else st)"

definition breakout_tiered :: "breakout \<Rightarrow> (breakout_config \<Rightarrow> double list) \<Rightarrow> (breakout_config \<Rightarrow> double) \<Rightarrow> double" where
  "breakout_tiered st tiers flat = tiered (kb_universe st) (kb_ticker st) (tiers (kb_cfg st)) (flat (kb_cfg st))"

section \<open>Obstacles\<close>

definition directional_obstacle_price :: "feature_frame \<Rightarrow> side \<Rightarrow> double" where
  "directional_obstacle_price f sd =
     (case (if sd = Buy then ff_nearest_resistance f else if sd = Sell then ff_nearest_support f else None) of
        Some p \<Rightarrow> p
      | None \<Rightarrow> 0)"

definition obstacle_before_target :: "double \<Rightarrow> double \<Rightarrow> double \<Rightarrow> side \<Rightarrow> bool" where
  "obstacle_before_target entry tp1 obstacle sd \<longleftrightarrow>
     0 < entry \<and> 0 < obstacle \<and>
     (sd = Buy \<and> entry < obstacle \<and> obstacle < tp1 \<or> sd = Sell \<and> obstacle < entry \<and> tp1 < obstacle)"

section \<open>The gates\<close>

definition eating_side :: "signal \<Rightarrow> side" where
  "eating_side eat = (if sp_side (sg_payload eat) = ''Ask'' then Buy else Sell)"

definition eating_remaining :: "signal \<Rightarrow> double" where
  "eating_remaining eat =
     (let p = sg_payload eat in if 0 < sp_original_size p then sp_remaining_size p else sp_size p)"

definition eating_too_early :: "signal \<Rightarrow> bool" where
  "eating_too_early eat \<longleftrightarrow>
     (let orig = sp_original_size (sg_payload eat) in 0 < orig \<and> 1 / 2 < eating_remaining eat / orig)"

definition no_burst :: "breakout \<Rightarrow> time_point \<Rightarrow> side \<Rightarrow> bool" where
  "no_burst st now sd =
     (case recent_within (kb_ctx st) TapeBurst now (seconds 3) of
        None \<Rightarrow> True
      | Some s \<Rightarrow> sp_side (sg_payload s) \<noteq> (if sd = Buy then ''Buy'' else ''Sell''))"

definition low_participation :: "breakout \<Rightarrow> side \<Rightarrow> bool" where
  "low_participation st sd \<longleftrightarrow>
     (let f = sc_last_frame (kb_ctx st);
          current = (if sd = Buy then ff_buy_vol_5s f else ff_sell_vol_5s f);
          avg = (if sd = Buy then ff_buy_vol_30s f / 6 else ff_sell_vol_30s f / 6)
      in current \<le> 0 \<or> avg \<le> 0 \<or> current / avg < kc_min_relative_volume (kb_cfg st))"

definition leader_drags :: "breakout \<Rightarrow> side \<Rightarrow> bool" where
  "leader_drags st sd \<longleftrightarrow>
     (let f = sc_last_frame (kb_ctx st);
          dir = (if sd = Buy then ff_leader_change_5s f else - ff_leader_change_5s f)
      in kc_min_leader_correlation (kb_cfg st) \<le> ff_leader_correlation f \<and>
         dir < - kc_leader_neutral_max_pct (kb_cfg st))"

definition is_resistance :: "side \<Rightarrow> double \<Rightarrow> signal \<Rightarrow> bool" where
  "is_resistance sd price s \<longleftrightarrow>
     sd = Buy \<and> sp_side (sg_payload s) = ''Ask'' \<and> price < sg_price s \<or>
     sd = Sell \<and> sp_side (sg_payload s) = ''Bid'' \<and> sg_price s < price"

definition resistance_vol :: "breakout \<Rightarrow> time_point \<Rightarrow> signal \<Rightarrow> double" where
  "resistance_vol st now eat =
     sum_list (map (\<lambda>s. sp_size (sg_payload s))
       (filter (\<lambda>s. now - sg_timestamp s \<le> seconds 10 \<and> sg_kind s = DensityDetected \<and>
                    is_resistance (eating_side eat) (sg_price eat) s) (sc_history (kb_ctx st))))"

definition resistance_cluster :: "breakout \<Rightarrow> time_point \<Rightarrow> signal \<Rightarrow> bool" where
  "resistance_cluster st now eat \<longleftrightarrow>
     (let orig = sp_original_size (sg_payload eat) in
      0 < orig \<and> kc_max_resistance_cluster_ratio (kb_cfg st) < resistance_vol st now eat / orig)"

definition fully_eaten :: "signal \<Rightarrow> bool" where
  "fully_eaten eat \<longleftrightarrow> eating_remaining eat \<le> 0 \<and> 0 < sp_original_size (sg_payload eat)"

definition fade_on_side :: "side \<Rightarrow> signal option \<Rightarrow> bool" where
  "fade_on_side sd fade =
     (case fade of
        None \<Rightarrow> False
      | Some s \<Rightarrow>
          sp_side (sg_payload s) = '''' \<or> sd = Buy \<and> sp_side (sg_payload s) = ''Buy'' \<or>
          sd = Sell \<and> sp_side (sg_payload s) = ''Sell'')"

definition move_contra :: "side \<Rightarrow> double \<Rightarrow> signal option \<Rightarrow> bool" where
  "move_contra sd limit move =
     (case move of
        None \<Rightarrow> False
      | Some s \<Rightarrow>
          let lag = sp_lag_pct (sg_payload s) in
          limit < \<bar>lag\<bar> \<and> (sd = Buy \<and> lag < 0 \<or> sd = Sell \<and> 0 < lag))"

text \<open>Support behind: a density or an iceberg of the opposite side, beyond the eaten one and near it.\<close>

definition is_support :: "side \<Rightarrow> double \<Rightarrow> double \<Rightarrow> signal \<Rightarrow> bool" where
  "is_support sd price limit s \<longleftrightarrow>
     (sg_kind s = DensityDetected \<or> sg_kind s = IcebergSuspected) \<and>
     (sd = Buy \<and> sp_side (sg_payload s) = ''Bid'' \<and> sg_price s < price \<or>
      sd = Sell \<and> sp_side (sg_payload s) = ''Ask'' \<and> price < sg_price s) \<and>
     within_bps (sg_price s) price limit"

definition find_support :: "breakout \<Rightarrow> time_point \<Rightarrow> signal \<Rightarrow> signal option" where
  "find_support st now eat =
     find (\<lambda>s. now - sg_timestamp s \<le> seconds 30 \<and>
               is_support (eating_side eat) (sg_price eat)
                 (breakout_tiered st kc_tier_support_search_range_bps kc_support_search_range_bps) s)
       (rev (sc_history (kb_ctx st)))"

definition too_close_to_best :: "breakout \<Rightarrow> signal \<Rightarrow> bool" where
  "too_close_to_best st eat \<longleftrightarrow>
     (let f = sc_last_frame (kb_ctx st);
          best = (if eating_side eat = Buy then ff_best_ask f else ff_best_bid f)
      in 0 < best \<and> \<bar>sg_price eat - best\<bar> / best * 10000
           < breakout_tiered st kc_tier_min_distance_from_best_bps kc_min_distance_from_best_bps)"

definition aggression_of :: "feature_frame \<Rightarrow> side \<Rightarrow> double" where
  "aggression_of f sd = (if sd = Buy then ff_tape_aggression f else - ff_tape_aggression f)"

definition breakout_gates :: "breakout \<Rightarrow> time_point \<Rightarrow> signal \<Rightarrow> (bool \<times> string) list" where
  "breakout_gates st now eat =
     (let c = kb_ctx st; cfg = kb_cfg st; f = sc_last_frame c; sd = eating_side eat in
      [(ff_ticker f = '''', ''WeakBreakoutNoFrame''),
       (kc_max_avg_spread_bps cfg < ff_spread_bps f, ''WeakBreakoutSpreadTooWide''),
       (eating_too_early eat, ''WeakBreakoutEatingTooEarly''),
       (no_burst st now sd, ''WeakBreakoutNoTapeBurst''),
       (aggression_of f sd < breakout_tiered st kc_tier_min_tape_aggression kc_min_tape_aggression,
        ''WeakBreakoutTapeAggressionLow''),
       (low_participation st sd, ''WeakBreakoutLowParticipation''),
       (leader_drags st sd, ''WeakBreakoutLeaderContra''),
       (resistance_cluster st now eat, ''WeakBreakoutContraResistanceCluster''),
       (fully_eaten eat, ''WeakBreakoutDensityFullyEaten''),
       (fade_on_side sd (recent_within c TapeFade now (seconds 3)), ''WeakBreakoutTapeFaded''),
       (move_contra sd (kc_leader_pre_entry_contra_pct cfg) (recent_within c LeaderMove now (seconds 3)),
        ''WeakBreakoutLeaderContra''),
       (find_support st now eat = None, ''WeakBreakoutNoSupportBehind''),
       (too_close_to_best st eat, ''WeakBreakoutTooCloseToBest'')])"

section \<open>The plan\<close>

definition breakout_entry :: "breakout \<Rightarrow> signal \<Rightarrow> double" where
  "breakout_entry st eat =
     (let p = sg_price eat; offset = p * (kc_aggressive_offset_bps (kb_cfg st) / 10000)
      in round_to_tick (if eating_side eat = Buy then p + offset else p - offset)
           (ti_price_increment (kb_info st)))"

definition breakout_stop :: "breakout \<Rightarrow> signal \<Rightarrow> signal \<Rightarrow> double" where
  "breakout_stop st eat support =
     (let p = sg_price support; buffer = p * (kc_stop_buffer_bps (kb_cfg st) / 10000)
      in round_to_tick (if eating_side eat = Buy then p - buffer else p + buffer)
           (ti_price_increment (kb_info st)))"

definition breakout_tp1 :: "breakout \<Rightarrow> signal \<Rightarrow> signal \<Rightarrow> double" where
  "breakout_tp1 st eat support =
     (let entry = breakout_entry st eat; risk = \<bar>entry - breakout_stop st eat support\<bar>
      in round_to_tick
           (if eating_side eat = Buy then entry + kc_tp1_r (kb_cfg st) * risk
            else entry - kc_tp1_r (kb_cfg st) * risk) (ti_price_increment (kb_info st)))"

definition blocks_target :: "side \<Rightarrow> double \<Rightarrow> double \<Rightarrow> signal \<Rightarrow> bool" where
  "blocks_target sd entry tp1 s \<longleftrightarrow>
     sd = Buy \<and> entry < sg_price s \<and> sg_price s < tp1 \<and>
       (sg_kind s = LevelFormed \<or> sp_side (sg_payload s) = ''Ask'') \<or>
     sd = Sell \<and> sg_price s < entry \<and> tp1 < sg_price s \<and>
       (sg_kind s = LevelFormed \<or> sp_side (sg_payload s) = ''Bid'')"

definition obstacle_price :: "breakout \<Rightarrow> time_point \<Rightarrow> side \<Rightarrow> double \<Rightarrow> double \<Rightarrow> double" where
  "obstacle_price st now sd entry tp1 =
     (case find (\<lambda>s. now - sg_timestamp s \<le> seconds 30 \<and>
                     (sg_kind s = DensityDetected \<or> sg_kind s = LevelFormed) \<and>
                     blocks_target sd entry tp1 s) (sc_history (kb_ctx st)) of
        Some s \<Rightarrow> sg_price s
      | None \<Rightarrow> directional_obstacle_price (sc_last_frame (kb_ctx st)) sd)"

definition price_gates :: "breakout \<Rightarrow> time_point \<Rightarrow> signal \<Rightarrow> signal \<Rightarrow> (bool \<times> string) list" where
  "price_gates st now eat support =
     (let entry = breakout_entry st eat; stop = breakout_stop st eat support;
          tp1 = breakout_tp1 st eat support; sd = eating_side eat
      in [(\<bar>entry - stop\<bar> \<le> 0, ''PotentialTp1BelowOneR''),
          (\<bar>tp1 - entry\<bar> + 1 / 1000000000000 < \<bar>entry - stop\<bar>, ''PotentialTp1BelowOneR''),
          (obstacle_before_target entry tp1 (obstacle_price st now sd entry tp1) sd, ''PotentialObstacleBeforeTp1'')])"

definition breakout_plan :: "breakout \<Rightarrow> time_point \<Rightarrow> signal \<Rightarrow> signal \<Rightarrow> trade_plan" where
  "breakout_plan st now eat support =
     trade_plan_default\<lparr>
       plan_ticker := kb_ticker st, plan_side := eating_side eat, plan_entry_type := Market,
       plan_entry_price := breakout_entry st eat, plan_stop_price := breakout_stop st eat support,
       plan_tp1_price := breakout_tp1 st eat support,
       plan_tp1_size_ratio := kc_tp1_size_ratio (kb_cfg st), plan_strategy_name := breakout_name,
       plan_reason := ''Breakout through %.*s density'',
       plan_valid_until := now + kc_entry_timeout (kb_cfg st),
       plan_no_progress_timeout_sec := kc_no_progress_timeout_sec (kb_cfg st),
       plan_post_entry_grace_sec := kc_post_entry_grace_sec (kb_cfg st),
       plan_min_follow_through_bps := kc_min_follow_through_bps (kb_cfg st)\<rparr>"

text \<open>The decision: a reason to reject, or a plan.\<close>

definition breakout_decide :: "breakout \<Rightarrow> time_point \<Rightarrow> signal \<Rightarrow> string + traced_plan" where
  "breakout_decide st now eat =
     (case first_hit (breakout_gates st now eat) of
        Some reason \<Rightarrow> Inl reason
      | None \<Rightarrow>
          (case (find_support st now eat, recent_within (kb_ctx st) TapeBurst now (seconds 3)) of
             (Some support, Some burst) \<Rightarrow>
               (case first_hit (price_gates st now eat support) of
                  Some reason \<Rightarrow> Inl reason
                | None \<Rightarrow> Inr (finish_plan (breakout_plan st now eat support) [eat, burst] (kb_ctx st)))
           | _ \<Rightarrow> Inl ''WeakBreakoutNoSupportBehind''))"

definition breakout_on_signal ::
  "signal \<Rightarrow> time_point option \<Rightarrow> time_point \<Rightarrow> breakout \<Rightarrow> traced_plan option \<times> breakout" where
  "breakout_on_signal s clock now0 st =
     (if sg_ticker s \<noteq> kb_ticker st then (None, st)
      else
        let st1 = st\<lparr>kb_ctx := update_signal s (kb_ctx st)\<rparr>; now = clock_or clock now0 in
        if sg_kind s \<noteq> DensityEating \<or> kb_active_plan st1 \<noteq> None then (None, st1)
        else (case breakout_decide st1 now (the (sc_recent (kb_ctx st1) DensityEating)) of
                Inl reason \<Rightarrow>
                  (None, st1\<lparr>kb_last_reject_reason := fixed_string 64 reason, kb_last_reject_time := now\<rparr>)
              | Inr plan \<Rightarrow> (Some plan, st1\<lparr>kb_active_plan := Some plan\<rparr>)))"

section \<open>After the plan\<close>

definition breakout_tick :: "time_point option \<Rightarrow> time_point \<Rightarrow> breakout \<Rightarrow> traced_plan option \<times> breakout" where
  "breakout_tick clock now st =
     (None,
      case kb_active_plan st of
        Some plan \<Rightarrow> if plan_valid_until plan < clock_or clock now then st\<lparr>kb_active_plan := None\<rparr> else st
      | None \<Rightarrow> st)"

definition breakout_on_plan_accepted :: "traced_plan \<Rightarrow> breakout \<Rightarrow> breakout" where
  "breakout_on_plan_accepted plan st =
     (if plan_strategy_name plan = breakout_name then st\<lparr>kb_active_trade := Some plan\<rparr> else st)"

definition breakout_reset :: "breakout \<Rightarrow> breakout" where
  "breakout_reset st = st\<lparr>kb_active_plan := None, kb_active_trade := None\<rparr>"

definition breakout_check_close ::
  "feature_frame \<Rightarrow> time_point option \<Rightarrow> time_point \<Rightarrow> breakout \<Rightarrow> string option \<times> breakout" where
  "breakout_check_close f clock now0 st =
     (case kb_active_trade st of
        None \<Rightarrow> (None, st)
      | Some plan \<Rightarrow>
          let now = clock_or clock now0; cfg = kb_cfg st; sd = plan_side plan in
          if fade_on_side sd (recent_within (kb_ctx st) TapeFade now (kc_fade_contra_exit_sec cfg))
          then (Some (fixed_string 32 ''FadeOnOurSidePostEntry''), st\<lparr>kb_active_trade := None\<rparr>)
          else if move_contra sd (kc_leader_exit_contra_pct cfg)
                    (recent_within (kb_ctx st) LeaderMove now (kc_leader_contra_exit_sec cfg))
          then (Some (fixed_string 32 ''LeaderContraPostEntry''), st\<lparr>kb_active_trade := None\<rparr>)
          else (None, st))"

section \<open>The dashboard\<close>

definition progress_condition :: "signal option \<Rightarrow> strategy_condition" where
  "progress_condition eat =
     at_most_condition ''Eating progress'' ''ratio''
       (case eat of
          Some s \<Rightarrow> if 0 < sp_original_size (sg_payload s)
                    then eating_remaining s / sp_original_size (sg_payload s) else 1
        | None \<Rightarrow> 1) (1 / 2)"

definition volume_condition :: "breakout \<Rightarrow> strategy_condition" where
  "volume_condition st =
     (let f = sc_last_frame (kb_ctx st); avg = (ff_buy_vol_30s f + ff_sell_vol_30s f) / 6;
          current = ff_buy_vol_5s f + ff_sell_vol_5s f
      in at_least_condition ''Relative volume'' ''ratio'' (if 0 < avg then current / avg else 0)
           (kc_min_relative_volume (kb_cfg st)))"

definition resist_condition :: "breakout \<Rightarrow> time_point \<Rightarrow> signal option \<Rightarrow> strategy_condition" where
  "resist_condition st now eat =
     (let orig = (case eat of Some s \<Rightarrow> sp_original_size (sg_payload s) | None \<Rightarrow> 1);
          price = (case eat of Some s \<Rightarrow> sg_price s | None \<Rightarrow> 0);
          vol = sum_list (map (\<lambda>s. sp_size (sg_payload s))
                  (filter (\<lambda>s. now - sg_timestamp s \<le> seconds 10 \<and> sg_kind s = DensityDetected \<and>
                     (sp_side (sg_payload s) = ''Ask'' \<and> price < sg_price s \<or>
                      sp_side (sg_payload s) = ''Bid'' \<and> sg_price s < price)) (sc_history (kb_ctx st))))
      in at_most_condition ''Resist clusters'' ''ratio'' (if 0 < orig then vol / orig else 0)
           (kc_max_resistance_cluster_ratio (kb_cfg st)))"

definition support_condition :: "breakout \<Rightarrow> time_point \<Rightarrow> signal option \<Rightarrow> strategy_condition" where
  "support_condition st now eat =
     (let sd = (case eat of Some s \<Rightarrow> eating_side s | None \<Rightarrow> Sell);
          price = (case eat of Some s \<Rightarrow> sg_price s | None \<Rightarrow> 0)
      in presence_condition ''Support behind''
           (scan_back (\<lambda>s. True) (\<lambda>s. seconds 30 < now - sg_timestamp s)
              (is_support sd price (kc_support_search_range_bps (kb_cfg st)))
              (rev (sc_history (kb_ctx st))) \<noteq> None))"

definition breakout_conditions :: "breakout \<Rightarrow> time_point \<Rightarrow> strategy_condition list" where
  "breakout_conditions st now =
     (let c = kb_ctx st; cfg = kb_cfg st; f = sc_last_frame c; eat = sc_recent c DensityEating in
      [at_most_condition ''Spread'' ''bps'' (ff_spread_bps f) (kc_max_avg_spread_bps cfg),
       presence_condition ''DensityEating'' (has_recent_signal DensityEating (seconds 2) now c),
       progress_condition eat,
       presence_condition ''TapeBurst'' (has_recent_signal TapeBurst (seconds 3) now c),
       at_least_condition ''Tape aggression'' '''' \<bar>ff_tape_aggression f\<bar> (kc_min_tape_aggression cfg),
       volume_condition st,
       at_least_condition ''Leader alignment'' '''' \<bar>ff_leader_correlation f\<bar> (kc_min_leader_correlation cfg),
       resist_condition st now eat, support_condition st now eat])"

definition breakout_get_state :: "time_point option \<Rightarrow> time_point \<Rightarrow> breakout \<Rightarrow> strategy_state" where
  "breakout_get_state clock now0 st =
     (let now = clock_or clock now0; s0 = strategy_state_default (kb_ticker st) breakout_name;
          s1 = (if kb_last_reject_reason st = '''' then s0
                else s0\<lparr>ss_last_reject_reason := kb_last_reject_reason st,
                        ss_seconds_since_last_reject := elapsed_seconds (now - kb_last_reject_time st)\<rparr>)
      in if kb_active_plan st \<noteq> None then s1\<lparr>ss_ready_state := Planning, ss_readiness_pct := 100\<rparr>
         else if ff_ticker (sc_last_frame (kb_ctx st)) = '''' then s1\<lparr>ss_ready_state := Cold\<rparr>
         else with_conditions (breakout_conditions st now)
                (s1\<lparr>ss_signals_last_60s := signals_last_60s now (kb_ctx st)\<rparr>))"

end
