(* ===== verification/Strategies.thy ===== *)
theory Strategies
  imports Flush LeaderLag Bounce Breakout
begin

text \<open>
  The interface \<open>strategy/IStrategy.hpp\<close> that the engine calls. The virtual calls are dispatched
  over the four strategies of the program; what the engine relies on, whichever strategy it holds,
  is the contract \<open>trading_strategy\<close>, which each of the four and their union interpret.
\<close>

datatype strategy =
    LeaderStrategy leader
  | BreakoutStrategy breakout
  | BounceStrategy bounce
  | FlushStrategy flush

section \<open>The virtual calls\<close>

fun strat_name :: "strategy \<Rightarrow> string" where
  "strat_name (LeaderStrategy s) = leader_name"
| "strat_name (BreakoutStrategy s) = breakout_name"
| "strat_name (BounceStrategy s) = bounce_name"
| "strat_name (FlushStrategy s) = flush_name"

fun strat_ticker :: "strategy \<Rightarrow> ticker" where
  "strat_ticker (LeaderStrategy s) = ll_ticker s"
| "strat_ticker (BreakoutStrategy s) = kb_ticker s"
| "strat_ticker (BounceStrategy s) = bo_ticker s"
| "strat_ticker (FlushStrategy s) = fl_ticker s"

fun strat_priority :: "strategy \<Rightarrow> int" where
  "strat_priority (LeaderStrategy s) = 1"
| "strat_priority (BreakoutStrategy s) = 2"
| "strat_priority (BounceStrategy s) = 3"
| "strat_priority (FlushStrategy s) = 4"

fun strat_pending :: "strategy \<Rightarrow> traced_plan option" where
  "strat_pending (LeaderStrategy s) = ll_active_plan s"
| "strat_pending (BreakoutStrategy s) = kb_active_plan s"
| "strat_pending (BounceStrategy s) = bo_active_plan s"
| "strat_pending (FlushStrategy s) = fl_active_plan s"

definition strat_has_active_plan :: "strategy \<Rightarrow> bool" where
  "strat_has_active_plan s \<longleftrightarrow> strat_pending s \<noteq> None"

fun strat_on_frame :: "feature_frame \<Rightarrow> strategy \<Rightarrow> strategy" where
  "strat_on_frame f (LeaderStrategy s) = LeaderStrategy (leader_on_frame f s)"
| "strat_on_frame f (BreakoutStrategy s) = BreakoutStrategy (breakout_on_frame f s)"
| "strat_on_frame f (BounceStrategy s) = BounceStrategy (bounce_on_frame f s)"
| "strat_on_frame f (FlushStrategy s) = FlushStrategy (flush_on_frame f s)"

fun strat_on_signal ::
  "signal \<Rightarrow> time_point option \<Rightarrow> time_point \<Rightarrow> strategy \<Rightarrow> traced_plan option \<times> strategy" where
  "strat_on_signal g c n (LeaderStrategy s) = map_prod id LeaderStrategy (leader_on_signal g c n s)"
| "strat_on_signal g c n (BreakoutStrategy s) = map_prod id BreakoutStrategy (breakout_on_signal g c n s)"
| "strat_on_signal g c n (BounceStrategy s) = map_prod id BounceStrategy (bounce_on_signal g c n s)"
| "strat_on_signal g c n (FlushStrategy s) = map_prod id FlushStrategy (flush_on_signal g c n s)"

fun strat_tick :: "time_point option \<Rightarrow> time_point \<Rightarrow> strategy \<Rightarrow> traced_plan option \<times> strategy" where
  "strat_tick c n (LeaderStrategy s) = map_prod id LeaderStrategy (leader_tick c n s)"
| "strat_tick c n (BreakoutStrategy s) = map_prod id BreakoutStrategy (breakout_tick c n s)"
| "strat_tick c n (BounceStrategy s) = map_prod id BounceStrategy (bounce_tick c n s)"
| "strat_tick c n (FlushStrategy s) = map_prod id FlushStrategy (flush_tick c n s)"

fun strat_on_plan_accepted :: "traced_plan \<Rightarrow> strategy \<Rightarrow> strategy" where
  "strat_on_plan_accepted p (LeaderStrategy s) = LeaderStrategy (leader_on_plan_accepted p s)"
| "strat_on_plan_accepted p (BreakoutStrategy s) = BreakoutStrategy (breakout_on_plan_accepted p s)"
| "strat_on_plan_accepted p (BounceStrategy s) = BounceStrategy (bounce_on_plan_accepted p s)"
| "strat_on_plan_accepted p (FlushStrategy s) = FlushStrategy (flush_on_plan_accepted p s)"

fun strat_reset :: "strategy \<Rightarrow> strategy" where
  "strat_reset (LeaderStrategy s) = LeaderStrategy (leader_reset s)"
| "strat_reset (BreakoutStrategy s) = BreakoutStrategy (breakout_reset s)"
| "strat_reset (BounceStrategy s) = BounceStrategy (bounce_reset s)"
| "strat_reset (FlushStrategy s) = FlushStrategy (flush_reset s)"

fun strat_check_close ::
  "feature_frame \<Rightarrow> time_point option \<Rightarrow> time_point \<Rightarrow> strategy \<Rightarrow> string option \<times> strategy" where
  "strat_check_close f c n (LeaderStrategy s) = map_prod id LeaderStrategy (leader_check_close f c n s)"
| "strat_check_close f c n (BreakoutStrategy s) = map_prod id BreakoutStrategy (breakout_check_close f c n s)"
| "strat_check_close f c n (BounceStrategy s) = map_prod id BounceStrategy (bounce_check_close f c n s)"
| "strat_check_close f c n (FlushStrategy s) = map_prod id FlushStrategy (flush_check_close f c n s)"

fun strat_get_state :: "time_point option \<Rightarrow> time_point \<Rightarrow> strategy \<Rightarrow> strategy_state" where
  "strat_get_state c n (LeaderStrategy s) = leader_get_state c n s"
| "strat_get_state c n (BreakoutStrategy s) = breakout_get_state c n s"
| "strat_get_state c n (BounceStrategy s) = bounce_get_state c n s"
| "strat_get_state c n (FlushStrategy s) = flush_get_state c n s"

section \<open>The contract\<close>

text \<open>
  A strategy keeps its name and ticker; it makes plans for its own ticker under its own name, and
  keeps the plan it made as pending; it makes none while one is pending, except in a tick past the
  validity of the pending one; and only a reset or such a tick takes the pending plan away.
\<close>

definition still_valid :: "traced_plan option \<Rightarrow> time_point \<Rightarrow> traced_plan option" where
  "still_valid pend now =
     (case pend of None \<Rightarrow> None | Some q \<Rightarrow> if plan_valid_until q < now then None else Some q)"

definition own_plan :: "string \<Rightarrow> ticker \<Rightarrow> traced_plan \<Rightarrow> bool" where
  "own_plan nm t p \<longleftrightarrow> plan_strategy_name p = nm \<and> plan_ticker p = t"

locale trading_strategy =
  fixes sname :: "'s \<Rightarrow> string"
    and sticker :: "'s \<Rightarrow> ticker"
    and pending :: "'s \<Rightarrow> traced_plan option"
    and framed :: "feature_frame \<Rightarrow> 's \<Rightarrow> 's"
    and signalled :: "signal \<Rightarrow> time_point option \<Rightarrow> time_point \<Rightarrow> 's \<Rightarrow> traced_plan option \<times> 's"
    and ticked :: "time_point option \<Rightarrow> time_point \<Rightarrow> 's \<Rightarrow> traced_plan option \<times> 's"
    and accepted :: "traced_plan \<Rightarrow> 's \<Rightarrow> 's"
    and cleared :: "'s \<Rightarrow> 's"
    and closing :: "feature_frame \<Rightarrow> time_point option \<Rightarrow> time_point \<Rightarrow> 's \<Rightarrow> string option \<times> 's"
  assumes framed_keeps: "sname (framed f s) = sname s \<and> sticker (framed f s) = sticker s \<and> pending (framed f s) = pending s"
    and accepted_keeps: "sname (accepted p s) = sname s \<and> sticker (accepted p s) = sticker s \<and> pending (accepted p s) = pending s"
    and closing_keeps: "sname (snd (closing f c n s)) = sname s \<and> sticker (snd (closing f c n s)) = sticker s \<and>
          pending (snd (closing f c n s)) = pending s"
    and cleared_keeps: "sname (cleared s) = sname s \<and> sticker (cleared s) = sticker s \<and> pending (cleared s) = None"
    and signalled_keeps: "sname (snd (signalled g c n s)) = sname s \<and> sticker (snd (signalled g c n s)) = sticker s"
    and ticked_keeps: "sname (snd (ticked c n s)) = sname s \<and> sticker (snd (ticked c n s)) = sticker s"
    and signalled_pending: "pending (snd (signalled g c n s)) =
          (case fst (signalled g c n s) of None \<Rightarrow> pending s | Some p \<Rightarrow> Some p)"
    and signalled_plan: "fst (signalled g c n s) = Some p \<Longrightarrow> own_plan (sname s) (sticker s) p \<and> pending s = None"
    and ticked_pending: "pending (snd (ticked c n s)) =
          (case fst (ticked c n s) of None \<Rightarrow> still_valid (pending s) (clock_or c n) | Some p \<Rightarrow> Some p)"
    and ticked_plan: "fst (ticked c n s) = Some p \<Longrightarrow>
          own_plan (sname s) (sticker s) p \<and> still_valid (pending s) (clock_or c n) = None"
begin

lemma signalled_silent: "pending s = Some p \<Longrightarrow> fst (signalled g c n s) = None \<and> pending (snd (signalled g c n s)) = Some p"
  using signalled_plan [of g c n s] signalled_pending [of g c n s] by (cases "fst (signalled g c n s)") auto

lemma ticked_silent:
  assumes "pending s = Some p" "clock_or c n \<le> plan_valid_until p"
  shows "fst (ticked c n s) = None \<and> pending (snd (ticked c n s)) = Some p"
  using ticked_plan [of c n s] ticked_pending [of c n s] assms
  by (cases "fst (ticked c n s)") (auto simp: still_valid_def)

end

section \<open>The four strategies keep the contract\<close>

lemma flush_decide_own: "flush_decide st now brk = Some p \<Longrightarrow> own_plan flush_name (fl_ticker st) p"
  by (auto simp: flush_decide_def Let_def own_plan_def flush_plan_def split: if_splits option.splits)

interpretation flush: trading_strategy "\<lambda>_. flush_name" fl_ticker fl_active_plan flush_on_frame
    flush_on_signal flush_tick flush_on_plan_accepted flush_reset flush_check_close
  by unfold_locales
    (auto simp: flush_on_frame_def flush_on_signal_def flush_tick_def flush_on_plan_accepted_def
       flush_reset_def flush_check_close_def still_valid_def Let_def
       dest!: flush_decide_own split: if_splits option.splits)

lemma leader_decide_own: "leader_decide st now = Some p \<Longrightarrow> own_plan leader_name (ll_ticker st) p"
  by (auto simp: leader_decide_def own_plan_def leader_plan_def Let_def split: if_splits option.splits)

interpretation leader: trading_strategy "\<lambda>_. leader_name" ll_ticker ll_active_plan leader_on_frame
    leader_on_signal leader_tick leader_on_plan_accepted leader_reset leader_check_close
  by unfold_locales
    (auto simp: leader_on_frame_def leader_on_signal_def leader_tick_def leader_on_plan_accepted_def
       leader_reset_def leader_check_close_def still_valid_def Let_def
       dest!: leader_decide_own split: option.splits if_splits)

lemma bounce_decide_own: "bounce_decide st now = Some p \<Longrightarrow> own_plan bounce_name (bo_ticker st) p"
  by (auto simp: bounce_decide_def own_plan_def bounce_plan_def split: if_splits option.splits)

interpretation bounce: trading_strategy "\<lambda>_. bounce_name" bo_ticker bo_active_plan bounce_on_frame
    bounce_on_signal bounce_tick bounce_on_plan_accepted bounce_reset bounce_check_close
  by unfold_locales
    (auto simp: bounce_on_frame_def bounce_on_signal_def bounce_tick_def bounce_on_plan_accepted_def
       bounce_reset_def bounce_check_close_def still_valid_def Let_def
       dest!: bounce_decide_own split: if_splits option.splits)

lemma breakout_decide_own: "breakout_decide st now eat = Inr p \<Longrightarrow> own_plan breakout_name (kb_ticker st) p"
  by (auto simp: breakout_decide_def own_plan_def breakout_plan_def split: option.splits)

interpretation breakout: trading_strategy "\<lambda>_. breakout_name" kb_ticker kb_active_plan breakout_on_frame
    breakout_on_signal breakout_tick breakout_on_plan_accepted breakout_reset breakout_check_close
  by unfold_locales
    (auto simp: breakout_on_frame_def breakout_on_signal_def breakout_tick_def breakout_on_plan_accepted_def
       breakout_reset_def breakout_check_close_def still_valid_def Let_def
       dest!: breakout_decide_own split: if_splits option.splits sum.splits)

lemmas strategy_laws =
  leader.framed_keeps leader.accepted_keeps leader.closing_keeps leader.cleared_keeps leader.signalled_keeps
  leader.ticked_keeps leader.signalled_pending leader.ticked_pending
  breakout.framed_keeps breakout.accepted_keeps breakout.closing_keeps breakout.cleared_keeps breakout.signalled_keeps
  breakout.ticked_keeps breakout.signalled_pending breakout.ticked_pending
  bounce.framed_keeps bounce.accepted_keeps bounce.closing_keeps bounce.cleared_keeps bounce.signalled_keeps
  bounce.ticked_keeps bounce.signalled_pending bounce.ticked_pending
  flush.framed_keeps flush.accepted_keeps flush.closing_keeps flush.cleared_keeps flush.signalled_keeps
  flush.ticked_keeps flush.signalled_pending flush.ticked_pending

lemmas strategy_rules = strategy_laws [simplified]

interpretation strat: trading_strategy strat_name strat_ticker strat_pending strat_on_frame
    strat_on_signal strat_tick strat_on_plan_accepted strat_reset strat_check_close
proof
  fix g c n s p
  show "fst (strat_on_signal g c n s) = Some p \<Longrightarrow> own_plan (strat_name s) (strat_ticker s) p \<and> strat_pending s = None"
    by (cases s) (auto dest: leader.signalled_plan breakout.signalled_plan bounce.signalled_plan flush.signalled_plan)
  show "fst (strat_tick c n s) = Some p \<Longrightarrow>
      own_plan (strat_name s) (strat_ticker s) p \<and> still_valid (strat_pending s) (clock_or c n) = None"
    by (cases s) (auto dest: leader.ticked_plan breakout.ticked_plan bounce.ticked_plan flush.ticked_plan)
next
  fix f p c n g s
  show "strat_name (strat_on_frame f s) = strat_name s \<and> strat_ticker (strat_on_frame f s) = strat_ticker s \<and>
      strat_pending (strat_on_frame f s) = strat_pending s"
    by (cases s) (simp_all add: strategy_rules)
  show "strat_name (strat_on_plan_accepted p s) = strat_name s \<and> strat_ticker (strat_on_plan_accepted p s) = strat_ticker s \<and>
      strat_pending (strat_on_plan_accepted p s) = strat_pending s"
    by (cases s) (simp_all add: strategy_rules)
  show "strat_name (snd (strat_check_close f c n s)) = strat_name s \<and> strat_ticker (snd (strat_check_close f c n s)) = strat_ticker s \<and>
      strat_pending (snd (strat_check_close f c n s)) = strat_pending s"
    by (cases s) (simp_all add: strategy_rules)
  show "strat_name (strat_reset s) = strat_name s \<and> strat_ticker (strat_reset s) = strat_ticker s \<and> strat_pending (strat_reset s) = None"
    by (cases s) (simp_all add: strategy_rules)
  show "strat_name (snd (strat_on_signal g c n s)) = strat_name s \<and> strat_ticker (snd (strat_on_signal g c n s)) = strat_ticker s"
    by (cases s) (simp_all add: strategy_rules)
  show "strat_name (snd (strat_tick c n s)) = strat_name s \<and> strat_ticker (snd (strat_tick c n s)) = strat_ticker s"
    by (cases s) (simp_all add: strategy_rules)
  show "strat_pending (snd (strat_on_signal g c n s)) =
      (case fst (strat_on_signal g c n s) of None \<Rightarrow> strat_pending s | Some p \<Rightarrow> Some p)"
    by (cases s) (simp_all add: strategy_rules cong: option.case_cong)
  show "strat_pending (snd (strat_tick c n s)) =
      (case fst (strat_tick c n s) of None \<Rightarrow> still_valid (strat_pending s) (clock_or c n) | Some p \<Rightarrow> Some p)"
    by (cases s) (simp_all add: strategy_rules cong: option.case_cong)
qed

section \<open>Runs of a strategy\<close>

datatype strategy_event =
    FrameEvent feature_frame
  | SignalEvent signal
  | TickEvent
  | AcceptedEvent traced_plan
  | ResetEvent
  | CloseEvent feature_frame

text \<open>One call at a time of the caller and a reading of the injected clock, and what it planned.\<close>

fun strategy_step ::
  "strategy_event \<times> time_point option \<times> time_point \<Rightarrow> strategy \<Rightarrow> traced_plan option \<times> strategy" where
  "strategy_step (FrameEvent f, c, n) s = (None, strat_on_frame f s)"
| "strategy_step (SignalEvent g, c, n) s = strat_on_signal g c n s"
| "strategy_step (TickEvent, c, n) s = strat_tick c n s"
| "strategy_step (AcceptedEvent p, c, n) s = (None, strat_on_plan_accepted p s)"
| "strategy_step (ResetEvent, c, n) s = (None, strat_reset s)"
| "strategy_step (CloseEvent f, c, n) s = (None, snd (strat_check_close f c n s))"

fun strategy_run ::
  "(strategy_event \<times> time_point option \<times> time_point) list \<Rightarrow> strategy \<Rightarrow> traced_plan list \<times> strategy" where
  "strategy_run [] s = ([], s)"
| "strategy_run (e # es) s =
     (case strategy_step e s of (plan, s1) \<Rightarrow>
        (case strategy_run es s1 of (plans, s2) \<Rightarrow>
           ((case plan of None \<Rightarrow> plans | Some p \<Rightarrow> p # plans), s2)))"

text \<open>What takes a pending plan away: a reset, or a tick after its validity.\<close>

fun releases :: "traced_plan \<Rightarrow> strategy_event \<times> time_point option \<times> time_point \<Rightarrow> bool" where
  "releases p (ResetEvent, c, n) \<longleftrightarrow> True"
| "releases p (TickEvent, c, n) \<longleftrightarrow> plan_valid_until p < clock_or c n"
| "releases p _ \<longleftrightarrow> False"

lemma strategy_step_silent:
  assumes "strat_pending s = Some p" "\<not> releases p e"
  shows "fst (strategy_step e s) = None \<and> strat_pending (snd (strategy_step e s)) = Some p"
  using assms
  by (cases "(p, e)" rule: releases.cases)
    (auto simp: strat.framed_keeps strat.accepted_keeps strat.closing_keeps strat.signalled_silent strat.ticked_silent)

lemma strategy_step_identity:
  "strat_name (snd (strategy_step e s)) = strat_name s \<and> strat_ticker (snd (strategy_step e s)) = strat_ticker s"
  by (cases "(e, s)" rule: strategy_step.cases)
    (auto simp: strat.framed_keeps strat.accepted_keeps strat.closing_keeps strat.cleared_keeps
       strat.signalled_keeps strat.ticked_keeps)

lemma strategy_step_plan:
  assumes "fst (strategy_step e s) = Some p"
  shows "own_plan (strat_name s) (strat_ticker s) p \<and> strat_pending (snd (strategy_step e s)) = Some p"
  using assms strat.signalled_pending strat.ticked_pending
  by (cases "(e, s)" rule: strategy_step.cases) (auto dest: strat.signalled_plan strat.ticked_plan)

lemma strategy_run_silent:
  "strat_pending s = Some p \<Longrightarrow> list_all (\<lambda>e. \<not> releases p e) es \<Longrightarrow>
     fst (strategy_run es s) = [] \<and> strat_pending (snd (strategy_run es s)) = Some p"
  by (induction es arbitrary: s) (auto simp: case_prod_beta dest: strategy_step_silent)

lemma strategy_run_own:
  "p \<in> set (fst (strategy_run es s)) \<Longrightarrow> own_plan (strat_name s) (strat_ticker s) p"
proof (induction es arbitrary: s)
  case (Cons e es)
  then show ?case
    using strategy_step_plan [of e s] strategy_step_identity [of e s]
    by (cases "fst (strategy_step e s)") (fastforce simp: case_prod_beta)+
qed simp

lemma strategy_run_append:
  "strategy_run (es @ fs) s =
     (case strategy_run es s of (ps, s1) \<Rightarrow> (case strategy_run fs s1 of (qs, s2) \<Rightarrow> (ps @ qs, s2)))"
  by (induction es arbitrary: s) (auto simp: case_prod_beta split: option.splits)

end
