(* ===== verification/Engine.thy ===== *)
theory Engine
  imports Strategies
begin

text \<open>
  \<open>strategy/StrategyEngine.{hpp,cpp}\<close>: the strategies by ticker, the routing of signals and
  frames to them, the collection of their plans in a tick with the regime filter and the order of
  priorities, and the market regimes. A pointer to a strategy is its place. The callbacks the
  application installs are parameters: \<open>on_plan_\<close> may change the application and, through
  \<open>reset_strategy_plan\<close> and \<open>notify_plan_accepted\<close>, the engine; \<open>close_cb_\<close> only
  the application.
\<close>

datatype market_regime = UnknownRegime | TrendRegime | RangeRegime | NewsRegime

record engine =
  en_ticker_strategies :: "(ticker, strategy list) omap"
  en_global_strategies :: "strategy list"
  en_regimes :: "(ticker, market_regime) omap"

type_synonym 'w plan_callback = "traced_plan \<Rightarrow> 'w \<times> engine \<Rightarrow> 'w \<times> engine"
type_synonym 'w close_callback = "ticker \<Rightarrow> string \<Rightarrow> 'w \<Rightarrow> 'w"

definition engine_new :: engine where
  "engine_new = \<lparr>en_ticker_strategies = [], en_global_strategies = [], en_regimes = []\<rparr>"

section \<open>Places\<close>

datatype place = OfTicker ticker nat | Global nat

definition strategies_of :: "ticker \<Rightarrow> engine \<Rightarrow> strategy list" where
  "strategies_of t e = (case map_of (en_ticker_strategies e) t of Some l \<Rightarrow> l | None \<Rightarrow> [])"

fun strategy_at :: "place \<Rightarrow> engine \<Rightarrow> strategy option" where
  "strategy_at (OfTicker t i) e =
     (if i < length (strategies_of t e) then Some (strategies_of t e ! i) else None)"
| "strategy_at (Global i) e =
     (if i < length (en_global_strategies e) then Some (en_global_strategies e ! i) else None)"

fun put_strategy :: "place \<Rightarrow> strategy \<Rightarrow> engine \<Rightarrow> engine" where
  "put_strategy (OfTicker t i) s e =
     e\<lparr>en_ticker_strategies := omap_put (<) t ((strategies_of t e)[i := s]) (en_ticker_strategies e)\<rparr>"
| "put_strategy (Global i) s e = e\<lparr>en_global_strategies := (en_global_strategies e)[i := s]\<rparr>"

definition ticker_places :: "ticker \<Rightarrow> engine \<Rightarrow> place list" where
  "ticker_places t e = map (OfTicker t) [0..<length (strategies_of t e)]"

definition global_places :: "engine \<Rightarrow> place list" where
  "global_places e = map Global [0..<length (en_global_strategies e)]"

definition all_places :: "engine \<Rightarrow> place list" where
  "all_places e = concat (map (\<lambda>t. ticker_places t e) (omap_keys (en_ticker_strategies e))) @ global_places e"

section \<open>Membership\<close>

definition add_strategy :: "strategy \<Rightarrow> engine \<Rightarrow> engine" where
  "add_strategy s e =
     (if strat_ticker s = '''' then e\<lparr>en_global_strategies := en_global_strategies e @ [s]\<rparr>
      else e\<lparr>en_ticker_strategies :=
               omap_put (<) (strat_ticker s) (strategies_of (strat_ticker s) e @ [s]) (en_ticker_strategies e)\<rparr>)"

definition remove_strategy :: "ticker \<Rightarrow> string \<Rightarrow> engine \<Rightarrow> engine" where
  "remove_strategy t nm e =
     (if t = '''' then e\<lparr>en_global_strategies := filter (\<lambda>s. strat_name s \<noteq> nm) (en_global_strategies e)\<rparr>
      else (case map_of (en_ticker_strategies e) t of
              None \<Rightarrow> e
            | Some l \<Rightarrow>
                let l' = filter (\<lambda>s. strat_name s \<noteq> nm) l in
                if l' = [] then e\<lparr>en_ticker_strategies := omap_erase t (en_ticker_strategies e),
                                  en_regimes := omap_erase t (en_regimes e)\<rparr>
                else e\<lparr>en_ticker_strategies := omap_put (<) t l' (en_ticker_strategies e)\<rparr>))"

definition map_ticker :: "(strategy \<Rightarrow> strategy) \<Rightarrow> ticker \<Rightarrow> engine \<Rightarrow> engine" where
  "map_ticker f t e =
     (case map_of (en_ticker_strategies e) t of
        None \<Rightarrow> e
      | Some l \<Rightarrow> e\<lparr>en_ticker_strategies := omap_put (<) t (map f l) (en_ticker_strategies e)\<rparr>)"

definition reset_strategy_plan :: "ticker \<Rightarrow> string \<Rightarrow> engine \<Rightarrow> engine" where
  "reset_strategy_plan t nm = map_ticker (\<lambda>s. if strat_name s = nm then strat_reset s else s) t"

definition notify_plan_accepted :: "traced_plan \<Rightarrow> engine \<Rightarrow> engine" where
  "notify_plan_accepted p =
     map_ticker (\<lambda>s. if strat_name s = plan_strategy_name p then strat_on_plan_accepted p s else s) (plan_ticker p)"

definition get_all_states :: "time_point option \<Rightarrow> time_point \<Rightarrow> engine \<Rightarrow> strategy_state list" where
  "get_all_states clock now e =
     map (strat_get_state clock now)
       (concat (map snd (en_ticker_strategies e)) @ en_global_strategies e)"

section \<open>Signals\<close>

definition announce :: "'w plan_callback option \<Rightarrow> traced_plan option \<Rightarrow> 'w \<times> engine \<Rightarrow> 'w \<times> engine" where
  "announce on_plan plan we =
     (case (plan, on_plan) of (Some p, Some f) \<Rightarrow> f p we | _ \<Rightarrow> we)"

definition signal_place ::
  "'w plan_callback option \<Rightarrow> signal \<Rightarrow> time_point option \<Rightarrow> time_point \<Rightarrow> place
     \<Rightarrow> 'w \<times> engine \<Rightarrow> 'w \<times> engine" where
  "signal_place on_plan g clock now r we =
     (case strategy_at r (snd we) of
        None \<Rightarrow> we
      | Some s \<Rightarrow>
          let res = strat_on_signal g clock now s
          in announce on_plan (fst res) (fst we, put_strategy r (snd res) (snd we)))"

definition engine_on_signal ::
  "'w plan_callback option \<Rightarrow> signal \<Rightarrow> time_point option \<Rightarrow> time_point \<Rightarrow> 'w \<times> engine \<Rightarrow> 'w \<times> engine" where
  "engine_on_signal on_plan g clock now we =
     fold (signal_place on_plan g clock (clock_or clock now))
       ((if sg_ticker g = '''' then [] else ticker_places (sg_ticker g) (snd we)) @ global_places (snd we)) we"

section \<open>Regimes\<close>

definition current_regime :: "ticker \<Rightarrow> engine \<Rightarrow> market_regime" where
  "current_regime t e = (case map_of (en_regimes e) t of Some r \<Rightarrow> r | None \<Rightarrow> UnknownRegime)"

definition classify_regime :: "feature_frame \<Rightarrow> engine \<Rightarrow> market_regime" where
  "classify_regime f e =
     (if current_regime (ff_ticker f) e = NewsRegime \<and> 60 < ff_volatility_1min_bps f then NewsRegime
      else if 80 < ff_volatility_1min_bps f then NewsRegime
      else if 3 / 10 < \<bar>ff_price_change_30s f\<bar> \<and>
              (ff_leader_correlation f = 0 \<or> 6 / 10 < ff_leader_correlation f) then TrendRegime
      else RangeRegime)"

section \<open>Frames\<close>

definition close_place ::
  "'w close_callback \<Rightarrow> feature_frame \<Rightarrow> time_point option \<Rightarrow> time_point \<Rightarrow> place
     \<Rightarrow> 'w \<times> engine \<Rightarrow> 'w \<times> engine" where
  "close_place close f clock now r we =
     (case strategy_at r (snd we) of
        None \<Rightarrow> we
      | Some s \<Rightarrow>
          let res = strat_check_close f clock now s; e = put_strategy r (snd res) (snd we)
          in (case fst res of None \<Rightarrow> (fst we, e) | Some reason \<Rightarrow> (close (strat_ticker s) reason (fst we), e)))"

definition engine_on_frame ::
  "'w close_callback option \<Rightarrow> feature_frame \<Rightarrow> time_point option \<Rightarrow> time_point \<Rightarrow> 'w \<times> engine \<Rightarrow> 'w \<times> engine" where
  "engine_on_frame close f clock now we =
     (let e1 = map_ticker (strat_on_frame f) (ff_ticker f) (snd we);
          e2 = e1\<lparr>en_global_strategies := map (strat_on_frame f) (en_global_strategies e1)\<rparr>;
          we3 = (case close of
                   None \<Rightarrow> (fst we, e2)
                 | Some cb \<Rightarrow> fold (close_place cb f clock now) (ticker_places (ff_ticker f) e2) (fst we, e2))
      in (fst we3, (snd we3)\<lparr>en_regimes :=
            omap_put (<) (ff_ticker f) (classify_regime f (snd we3)) (en_regimes (snd we3))\<rparr>))"

section \<open>Ticks\<close>

record planned =
  pw_priority :: int
  pw_plan :: traced_plan
  pw_place :: place

text \<open>
  The collection. The code keeps the keys of the scratch map between ticks; only their empty
  vectors remain, which the loop over the map skips.
\<close>

definition collect_place ::
  "time_point option \<Rightarrow> time_point \<Rightarrow> place \<Rightarrow> (ticker, planned list) omap \<times> engine
     \<Rightarrow> (ticker, planned list) omap \<times> engine" where
  "collect_place clock now r acc =
     (case strategy_at r (snd acc) of
        None \<Rightarrow> acc
      | Some s \<Rightarrow>
          let res = strat_tick clock now s; e = put_strategy r (snd res) (snd acc)
          in (case fst res of
                None \<Rightarrow> (fst acc, e)
              | Some p \<Rightarrow>
                  let old = (case map_of (fst acc) (plan_ticker p) of Some l \<Rightarrow> l | None \<Rightarrow> []);
                      pw = \<lparr>pw_priority = strat_priority s, pw_plan = p, pw_place = r\<rparr>
                  in (omap_put (<) (plan_ticker p) (old @ [pw]) (fst acc), e)))"

definition collect :: "time_point option \<Rightarrow> time_point \<Rightarrow> engine \<Rightarrow> (ticker, planned list) omap \<times> engine" where
  "collect clock now e = fold (collect_place clock now) (all_places e) ([], e)"

definition reset_place :: "place \<Rightarrow> engine \<Rightarrow> engine" where
  "reset_place r e =
     (case strategy_at r e of None \<Rightarrow> e | Some s \<Rightarrow> put_strategy r (strat_reset s) e)"

text \<open>
  \<open>std::remove_if\<close> moves the plans that stay to the front and leaves the strategy pointers
  behind the new end as they were, so the strategies that are reset are those of the last places
  of the vector, whether or not their plan was removed.
\<close>

definition suppress :: "string \<Rightarrow> planned list \<Rightarrow> planned list \<times> place list" where
  "suppress nm plans =
     (let kept = filter (\<lambda>pw. plan_strategy_name (pw_plan pw) \<noteq> nm) plans
      in (kept, map pw_place (drop (length kept) plans)))"

definition regime_filter :: "market_regime \<Rightarrow> planned list \<Rightarrow> planned list \<times> place list" where
  "regime_filter rg plans =
     (case rg of
        NewsRegime \<Rightarrow> ([], map pw_place plans)
      | TrendRegime \<Rightarrow> suppress ''BounceFromDensity'' plans
      | RangeRegime \<Rightarrow> suppress ''LeaderLag'' plans
      | UnknownRegime \<Rightarrow> (plans, []))"

definition place_has_plan :: "place \<Rightarrow> engine \<Rightarrow> bool" where
  "place_has_plan r e = (case strategy_at r e of None \<Rightarrow> False | Some s \<Rightarrow> strat_has_active_plan s)"

fun try_plans :: "'w plan_callback \<Rightarrow> planned list \<Rightarrow> 'w \<times> engine \<Rightarrow> 'w \<times> engine" where
  "try_plans f [] we = we"
| "try_plans f (pw # pws) we =
     (let we1 = f (pw_plan pw) we
      in if place_has_plan (pw_place pw) (snd we1) then we1 else try_plans f pws we1)"

text \<open>
  One ticker's plans. \<open>std::sort\<close> leaves the order of equal priorities open; the model takes the
  stable one. Equal priorities meet only if a ticker holds a strategy twice.
\<close>

definition emit_ticker ::
  "'w plan_callback option \<Rightarrow> ticker \<times> planned list \<Rightarrow> 'w \<times> engine \<Rightarrow> 'w \<times> engine" where
  "emit_ticker on_plan tp we =
     (let (kept, resets) = regime_filter (current_regime (fst tp) (snd we)) (snd tp);
          we1 = (fst we, fold reset_place resets (snd we))
      in (case on_plan of
            None \<Rightarrow> we1
          | Some f \<Rightarrow> try_plans f (sort_key pw_priority kept) we1))"

definition engine_tick ::
  "'w plan_callback option \<Rightarrow> time_point option \<Rightarrow> time_point \<Rightarrow> 'w \<times> engine \<Rightarrow> 'w \<times> engine" where
  "engine_tick on_plan clock now we =
     (let (scratch, e) = collect clock now (snd we) in fold (emit_ticker on_plan) scratch (fst we, e))"

end
