(* ===== verification/Desk.thy ===== *)
theory Desk
  imports Engine Risk
begin

text \<open>
  The callbacks of \<open>app/BotAppInit.cpp\<close> that join the strategy engine to the risk manager and the
  executor: a plan is checked for the live gate, the stability of its ticker and by the risk
  manager, then sized, rounded and submitted, and its strategy is told; a refused plan is reset.
  The executor is seen by the calls it gets, in order.
\<close>

record desk =
  dk_live :: bool
  dk_universe :: universe
  dk_news :: news_calendar
  dk_account :: account_state
  dk_risk :: risk_manager
  dk_submitted :: "traced_plan list"
  dk_closes :: "(ticker \<times> string) list"

definition affinity_stable_min :: duration where "affinity_stable_min = seconds 300"

definition desk_meta :: "universe \<Rightarrow> ticker \<Rightarrow> ticker_meta" where
  "desk_meta u t =
     (case meta u t of Some m \<Rightarrow> m
      | None \<Rightarrow> \<lparr>tm_price_increment = 1 / 100, tm_size_increment = 1 / 1000000, tm_min_size = 0, tm_max_size = 0\<rparr>)"

definition sized_plan :: "ticker_meta \<Rightarrow> risk_decision \<Rightarrow> traced_plan \<Rightarrow> traced_plan" where
  "sized_plan m d p =
     (let p1 = p\<lparr>plan_size_coin := rd_adjusted_size_coin d, plan_risk_usd := rd_risk_usd d\<rparr>;
          k = tm_price_increment m
      in if 0 < k
         then p1\<lparr>plan_entry_price := round_to_tick (plan_entry_price p1) k,
                 plan_stop_price := round_to_tick (plan_stop_price p1) k,
                 plan_tp1_price := round_to_tick (plan_tp1_price p1) k,
                 plan_tp2_price := map_option (\<lambda>x. round_to_tick x k) (plan_tp2_price p1)\<rparr>
         else p1)"

text \<open>The gate of the live mode reads the configuration for each plan.\<close>

definition live_gated :: "flush_config \<Rightarrow> desk \<Rightarrow> traced_plan \<Rightarrow> bool" where
  "live_gated cfg w p \<longleftrightarrow>
     dk_live w \<and> plan_strategy_name p = ''FlushReversal'' \<and> \<not> flush_live_gate (trade_plan.truncate p) cfg"

definition desk_on_plan :: "flush_config \<Rightarrow> time_point \<Rightarrow> time_point \<Rightarrow> desk plan_callback" where
  "desk_on_plan cfg now later p we =
     (let w = fst we; refused = reset_strategy_plan (plan_ticker p) (plan_strategy_name p) (snd we)
      in if live_gated cfg w p then (w, refused)
         else if \<not> is_affinity_stable (dk_universe w) (plan_ticker p) affinity_stable_min now then (w, refused)
         else
           let (d, rm) = evaluate (dk_universe w) (dk_news w) now later (trade_plan.truncate p) (dk_account w) (dk_risk w);
               w1 = w\<lparr>dk_risk := rm\<rparr>;
               accepted_plan = sized_plan (desk_meta (dk_universe w) (plan_ticker p)) d p
           in if rd_accepted d
              then (w1\<lparr>dk_submitted := dk_submitted w1 @ [accepted_plan]\<rparr>,
                    notify_plan_accepted accepted_plan (snd we))
              else (w1, refused))"

definition desk_on_close :: "desk close_callback" where
  "desk_on_close t reason w = w\<lparr>dk_closes := dk_closes w @ [(t, reason)]\<rparr>"

section \<open>The pool of strategies\<close>

text \<open>
  The handler of the universe's affinity changes: it builds a strategy with the base configuration
  scaled by the root of the ticker's volume scale, or removes it. The strategies get no universe, so
  their tiered thresholds are the flat ones. The controllers and subscriptions it also creates
  belong to the feed.
\<close>

record base_configs =
  bs_bounce :: bounce_config
  bs_breakout :: breakout_config
  bs_leader :: leader_config
  bs_flush :: flush_config

definition scaled_bounce :: "double \<Rightarrow> bounce_config \<Rightarrow> bounce_config" where
  "scaled_bounce sf c =
     (let k = 1 / csqrt sf in
      c\<lparr>bc_stop_buffer_bps := bc_stop_buffer_bps c * k, bc_entry_offset_bps := bc_entry_offset_bps c * k,
        bc_min_approach_speed_bps_1s := bc_min_approach_speed_bps_1s c * csqrt sf,
        bc_no_progress_timeout_sec := min (bc_no_progress_timeout_sec c * k) 300\<rparr>)"

definition scaled_breakout :: "double \<Rightarrow> breakout_config \<Rightarrow> breakout_config" where
  "scaled_breakout sf c =
     (let k = 1 / csqrt sf in
      c\<lparr>kc_stop_buffer_bps := kc_stop_buffer_bps c * k, kc_aggressive_offset_bps := kc_aggressive_offset_bps c * k,
        kc_min_relative_volume := kc_min_relative_volume c * csqrt sf,
        kc_no_progress_timeout_sec := min (kc_no_progress_timeout_sec c * k) 120,
        kc_post_entry_grace_sec := kc_post_entry_grace_sec c * k\<rparr>)"

definition scaled_leader :: "double \<Rightarrow> leader_config \<Rightarrow> leader_config" where
  "scaled_leader sf c =
     (let k = 1 / csqrt sf in
      c\<lparr>llc_stop_distance_bps := llc_stop_distance_bps c * k,
        llc_no_progress_timeout_sec := min (llc_no_progress_timeout_sec c * k) 60\<rparr>)"

definition scaled_flush :: "double \<Rightarrow> flush_config \<Rightarrow> flush_config" where
  "scaled_flush sf c =
     (let k = 1 / csqrt sf in
      c\<lparr>flc_stop_buffer_bps := flc_stop_buffer_bps c * k, flc_entry_offset_bps := flc_entry_offset_bps c * k,
        flc_no_progress_timeout_sec := min (flc_no_progress_timeout_sec c * k) 60\<rparr>)"

definition ticker_info_of :: "ticker \<Rightarrow> ticker_meta \<Rightarrow> ticker_info" where
  "ticker_info_of t m =
     \<lparr>ti_name = t, ti_base_asset = '''', ti_quote_asset = '''', ti_is_trading_allowed = True,
      ti_price_increment = tm_price_increment m, ti_size_increment = tm_size_increment m,
      ti_min_size = tm_min_size m, ti_max_size = tm_max_size m\<rparr>"

definition built_strategy :: "base_configs \<Rightarrow> universe \<Rightarrow> ticker \<Rightarrow> string \<Rightarrow> strategy option" where
  "built_strategy bs u t nm =
     (let info = ticker_info_of t (desk_meta u t); sf = volume_scale_factor u t in
      if nm = ''bounce'' then Some (BounceStrategy (bounce_new t info (scaled_bounce sf (bs_bounce bs))))
      else if nm = ''breakout'' then Some (BreakoutStrategy (breakout_new t info (scaled_breakout sf (bs_breakout bs))))
      else if nm = ''leaderlag'' then Some (LeaderStrategy (leader_new t info (scaled_leader sf (bs_leader bs))))
      else if nm = ''flushreversal'' then Some (FlushStrategy (flush_new t info (scaled_flush sf (bs_flush bs))))
      else None)"

definition class_of :: "string \<Rightarrow> string" where
  "class_of nm =
     (if nm = ''bounce'' then ''BounceFromDensity'' else if nm = ''breakout'' then ''BreakoutEatThrough''
      else if nm = ''leaderlag'' then ''LeaderLag'' else if nm = ''flushreversal'' then ''FlushReversal'' else '''')"

definition on_affinity_change :: "base_configs \<Rightarrow> universe \<Rightarrow> affinity_change \<Rightarrow> engine \<Rightarrow> engine" where
  "on_affinity_change bs u change e =
     (case change of (t, nm, enabled) \<Rightarrow>
        if enabled then (case built_strategy bs u t nm of Some s \<Rightarrow> add_strategy s e | None \<Rightarrow> e)
        else if class_of nm = '''' then e else remove_strategy t (class_of nm) e)"

end
