(* ===== verification/ContextSpec.thy ===== *)
theory ContextSpec
  imports Signals
begin

text \<open>
  What \<open>StrategyContext\<close> remembers, over any sequence of frames and signals: the frame history
  is the last sixteen frames, and the signal history a suffix of the signals that has lost only
  what is three minutes stale or has five hundred newer signals behind it.
\<close>

type_synonym context_event = "feature_frame + signal"

fun context_step :: "context_event \<Rightarrow> strategy_context \<Rightarrow> strategy_context" where
  "context_step (Inl f) c = update_frame f c"
| "context_step (Inr s) c = update_signal s c"

definition context_run :: "context_event list \<Rightarrow> strategy_context" where
  "context_run es = fold context_step es context_new"

fun frames_of :: "context_event list \<Rightarrow> feature_frame list" where
  "frames_of [] = []"
| "frames_of (Inl f # es) = f # frames_of es"
| "frames_of (Inr s # es) = frames_of es"

fun signals_of :: "context_event list \<Rightarrow> signal list" where
  "signals_of [] = []"
| "signals_of (Inl f # es) = signals_of es"
| "signals_of (Inr s # es) = s # signals_of es"

lemma frames_of_append [simp]: "frames_of (es @ fs) = frames_of es @ frames_of fs"
  by (induction es rule: frames_of.induct) auto

lemma signals_of_append [simp]: "signals_of (es @ fs) = signals_of es @ signals_of fs"
  by (induction es rule: signals_of.induct) auto

lemma context_run_snoc: "context_run (es @ [e]) = context_step e (context_run es)"
  by (simp add: context_run_def)

section \<open>The ring of frames\<close>

text \<open>The slots hold the frame that was last written there, and the cursor and count follow.\<close>

definition frames_kept :: "feature_frame list \<Rightarrow> strategy_context \<Rightarrow> bool" where
  "frames_kept fs c \<longleftrightarrow>
     length (sc_frames c) = frame_history_size \<and>
     sc_frame_idx c = length fs mod frame_history_size \<and>
     sc_frame_count c = min frame_history_size (length fs) \<and>
     (\<forall>i < length fs. length fs \<le> i + frame_history_size \<longrightarrow> sc_frames c ! (i mod frame_history_size) = fs ! i)"

lemma frames_kept_update_frame:
  assumes "frames_kept fs c"
  shows "frames_kept (fs @ [f]) (update_frame f c)"
proof -
  let ?n = "length fs" and ?H = frame_history_size
  have H: "0 < ?H" by (simp add: frame_history_size_def)
  have "sc_frames (update_frame f c) ! (i mod ?H) = (fs @ [f]) ! i" if i: "i < Suc ?n" "Suc ?n \<le> i + ?H" for i
  proof (cases "i = ?n")
    case False
    then have lt: "i < ?n" using i by simp
    have "i mod ?H \<noteq> ?n mod ?H"
    proof
      assume "i mod ?H = ?n mod ?H"
      then have "?H dvd ?n - i" using lt by (metis mod_eq_dvd_iff_nat less_imp_le)
      then show False using lt i by (auto dest!: dvd_imp_le)
    qed
    then show ?thesis using assms lt i by (simp add: frames_kept_def update_frame_def nth_append)
  qed (use assms H in \<open>simp add: frames_kept_def update_frame_def\<close>)
  then show ?thesis
    using assms by (auto simp: frames_kept_def update_frame_def mod_Suc_eq)
qed

lemma update_signal_frames [simp]:
  "sc_frames (update_signal s c) = sc_frames c" "sc_frame_idx (update_signal s c) = sc_frame_idx c"
  "sc_frame_count (update_signal s c) = sc_frame_count c" "sc_last_frame (update_signal s c) = sc_last_frame c"
  by (simp_all add: update_signal_def Let_def case_prod_beta)

lemma frames_kept_run: "frames_kept (frames_of es) (context_run es)"
proof (induction es rule: rev_induct)
  case Nil
  then show ?case by (simp add: frames_kept_def context_run_def context_new_def)
next
  case (snoc e es)
  then show ?case
    by (cases e) (simp_all add: context_run_snoc frames_kept_update_frame, simp add: frames_kept_def)
qed

lemma frame_back_kept:
  assumes "frames_kept fs c" "i < sc_frame_count c"
  shows "frame_back c i = rev fs ! i"
proof -
  let ?n = "length fs" and ?H = frame_history_size
  have i: "i < ?n" "i < ?H" using assms by (auto simp: frames_kept_def)
  have "(sc_frame_idx c + ?H - 1 - i) mod ?H = (?n mod ?H + (?H - 1 - i)) mod ?H"
    using assms i by (simp add: frames_kept_def)
  also have "\<dots> = (?n + (?H - 1 - i)) mod ?H" by (rule mod_add_left_eq)
  also have "\<dots> = (?n - 1 - i + ?H) mod ?H" using i by simp
  also have "\<dots> = (?n - 1 - i) mod ?H" by simp
  finally have "frame_back c i = fs ! (?n - 1 - i)"
    using assms i by (simp add: frame_back_def frames_kept_def)
  then show ?thesis using i by (simp add: rev_nth)
qed

text \<open>Looking a frame up by its trace id finds the newest of the last sixteen frames that has
  it, whatever signals came in between, as the search over the sequence of frames would.\<close>

theorem frame_lookup_finds_newest:
  "get_frame_by_trace_id i (context_run es) =
     find (\<lambda>f. ff_derived_from f = i) (take frame_history_size (rev (frames_of es)))"
proof -
  let ?c = "context_run es" and ?fs = "frames_of es"
  have k: "frames_kept ?fs ?c" by (rule frames_kept_run)
  then have "map (frame_back ?c) [0..<sc_frame_count ?c] = take frame_history_size (rev ?fs)"
  proof (intro nth_equalityI)
    fix i assume "i < length (map (frame_back ?c) [0..<sc_frame_count ?c])"
    then have "i < sc_frame_count ?c" "i < frame_history_size" "i < length ?fs"
      using k by (simp_all add: frames_kept_def)
    then show "map (frame_back ?c) [0..<sc_frame_count ?c] ! i = take frame_history_size (rev ?fs) ! i"
      using frame_back_kept [OF k] by simp
  qed (simp add: frames_kept_def)
  then show ?thesis by (simp add: get_frame_by_trace_id_def)
qed

section \<open>The history of signals\<close>

text \<open>Why a signal may be forgotten, by its place among the signals received.\<close>

definition forgotten_rightly :: "signal list \<Rightarrow> nat \<Rightarrow> bool" where
  "forgotten_rightly ss i \<longleftrightarrow>
     i + max_history_size div 2 < length ss \<or>
     (\<exists>j < length ss. i < j \<and> sg_timestamp (ss ! i) \<le> sg_timestamp (ss ! j) - seconds 180)"

lemma forgotten_rightly_snoc: "forgotten_rightly ss i \<Longrightarrow> forgotten_rightly (ss @ [s]) i"
  unfolding forgotten_rightly_def
  by (elim disjE exE conjE) (auto simp: nth_append intro!: exI)

definition history_kept :: "signal list \<Rightarrow> strategy_context \<Rightarrow> nat \<Rightarrow> bool" where
  "history_kept ss c n \<longleftrightarrow>
     n + sc_head c \<le> length ss \<and> sc_history c = drop n ss \<and>
     length (sc_history c) \<le> max_history_size \<and> (\<forall>i < n + sc_head c. forgotten_rightly ss i)"

lemma take_takeWhile_holds: "i < length (takeWhile P xs) \<Longrightarrow> P (xs ! i)"
  by (metis nth_mem set_takeWhileD takeWhile_nth)

lemma advance_head_stale:
  assumes "head \<le> i" "i < advance_head cutoff hist head" "head \<le> length hist"
  shows "sg_timestamp (hist ! i) \<le> cutoff"
proof -
  have "i - head < length (takeWhile (\<lambda>s. sg_timestamp s \<le> cutoff) (drop head hist))"
    using assms by (simp add: advance_head_def)
  then have "sg_timestamp (drop head hist ! (i - head)) \<le> cutoff" by (rule take_takeWhile_holds)
  then show ?thesis using assms by simp
qed

lemma advance_head_le: "head \<le> length hist \<Longrightarrow> advance_head cutoff hist head \<le> length hist"
  using length_takeWhile_le [of "\<lambda>s. sg_timestamp s \<le> cutoff" "drop head hist"] by (simp add: advance_head_def)

lemma compact_drop:
  "compact (drop n xs, d) = (h, d2) \<Longrightarrow> \<exists>n2. n2 + d2 = n + d \<and> h = drop n2 xs \<and> n2 \<le> n + d"
  by (auto simp: compact_def add.commute split: if_splits)

lemma history_kept_update_signal:
  assumes k: "history_kept ss c n"
  shows "\<exists>m. history_kept (ss @ [s]) (update_signal s c) m"
proof -
  let ?ss = "ss @ [s]" and ?hist = "sc_history c @ [s]"
  let ?head = "advance_head (sg_timestamp s - seconds 180) ?hist (sc_head c)"
  have n: "n + sc_head c \<le> length ss" "sc_history c = drop n ss" using k by (simp_all add: history_kept_def)
  have hist: "?hist = drop n ?ss" using n by simp
  have head: "?head \<le> length ?hist" using n by (intro advance_head_le) simp
  then have lt: "n + ?head \<le> length ?ss" using n by simp
  have stale: "forgotten_rightly ?ss i" if i: "i < n + ?head" for i
  proof (cases "i < n + sc_head c")
    case True
    then show ?thesis using k forgotten_rightly_snoc by (simp add: history_kept_def)
  next
    case False
    then have "sg_timestamp (?hist ! (i - n)) \<le> sg_timestamp s - seconds 180"
      using i n by (intro advance_head_stale [where head = "sc_head c"]) auto
    moreover have "?hist ! (i - n) = ?ss ! (n + (i - n))" unfolding hist using n by (intro nth_drop) simp
    then have "?hist ! (i - n) = ?ss ! i" using False by simp
    ultimately have st: "sg_timestamp (?ss ! i) \<le> sg_timestamp s - seconds 180" by simp
    then have "i < length ss"
      using i lt by (cases "i = length ss") (auto simp: seconds_def)
    then show ?thesis using st unfolding forgotten_rightly_def
      by (intro disjI2 exI [of _ "length ss"]) simp
  qed
  obtain h2 d2 where c2: "compact (?hist, ?head) = (h2, d2)" by (cases "compact (?hist, ?head)")
  obtain n2 where n2: "n2 + d2 = n + ?head" "h2 = drop n2 ?ss" "n2 \<le> n + ?head"
    using compact_drop c2 unfolding hist by blast
  have "d2 \<le> length h2" using n2 lt by simp
  obtain h3 d3 where c3: "trim_history (h2, d2) = (h3, d3)" by (cases "trim_history (h2, d2)")
  have upd: "sc_history (update_signal s c) = h3" "sc_head (update_signal s c) = d3"
    using c2 c3 by (simp_all add: update_signal_def)
  show ?thesis
  proof (cases "max_history_size < length h2")
    case True
    then have 3: "h3 = drop (n2 + (length h2 - max_history_size div 2)) ?ss" "d3 = 0"
      using c3 n2(2) by (auto simp: trim_history_def add.commute simp del: drop_append)
    let ?m = "n2 + (length h2 - max_history_size div 2)"
    have m: "?m + max_history_size div 2 = length ?ss"
      using True n2 lt by (simp add: max_history_size_def)
    have "history_kept ?ss (update_signal s c) ?m"
      unfolding history_kept_def upd
      using 3 m by (auto simp: forgotten_rightly_def max_history_size_def)
    then show ?thesis ..
  next
    case False
    then have 3: "h3 = h2" "d3 = d2" using c3 by (simp_all add: trim_history_def)
    have "history_kept ?ss (update_signal s c) n2"
      unfolding history_kept_def upd 3 using n2 lt stale False by simp
    then show ?thesis ..
  qed
qed

lemma history_kept_run: "\<exists>n. history_kept (signals_of es) (context_run es) n"
proof (induction es rule: rev_induct)
  case Nil
  then show ?case by (simp add: history_kept_def context_run_def context_new_def)
next
  case (snoc e es)
  then show ?case
  proof (cases e)
    case (Inl f)
    then show ?thesis using snoc by (simp add: context_run_snoc history_kept_def update_frame_def)
  next
    case (Inr s)
    then show ?thesis using snoc history_kept_update_signal by (auto simp: context_run_snoc)
  qed
qed

text \<open>After any frames and signals the history of a strategy holds at most 1024 signals, a
  suffix of the signals received, and \<open>recent_signal_count\<close> counts over a further suffix; every
  signal left out of it has at least 512 newer ones, or a later one that is three minutes newer.\<close>

theorem history_forgets_rightly:
  "\<exists>n. sc_history (context_run es) = drop n (signals_of es) \<and>
       length (sc_history (context_run es)) \<le> max_history_size \<and>
       n + sc_head (context_run es) \<le> length (signals_of es) \<and>
       (\<forall>i. n + sc_head (context_run es) \<le> i \<or> forgotten_rightly (signals_of es) i)"
  using history_kept_run [of es] unfolding history_kept_def by (meson not_le)

end
