(* ===== verification/StrategySpec.thy ===== *)
theory StrategySpec
  imports Strategies ContextSpec
begin

text \<open>
  What the plans of the strategies are worth: the stop lies on the losing side of the entry and the
  target on the winning side, a breakout plan has a clear way to a target of at least one R, and no
  strategy has two plans pending. A configuration is taken as sane when its stop lies beyond its
  entry and its ratios are not negative; the defaults of the four headers are sane.
\<close>

section \<open>Rounding and thresholds\<close>

lemma round_to_tick_mono: "x \<le> y \<Longrightarrow> round_to_tick x tick \<le> round_to_tick y tick"
  unfolding round_to_tick_def by (auto intro!: mult_right_mono cround_mono divide_right_mono)

text \<open>
  A threshold is the flat one when the strategy has no universe, else one of the tier values (or
  zero, without tiers).
\<close>

definition threshold_choices :: "universe option \<Rightarrow> double list \<Rightarrow> double \<Rightarrow> double list" where
  "threshold_choices u tiers flat =
     (case u of None \<Rightarrow> [flat] | Some _ \<Rightarrow> if tiers = [] then [0] else tiers)"

lemma tiered_choice: "tiered u t tiers flat \<in> set (threshold_choices u tiers flat)"
proof (cases u)
  case None
  then show ?thesis by (simp add: tiered_def threshold_choices_def)
next
  case (Some un)
  have "min (get_tier_locked un (to_internal_ticker t)) (length tiers - 1) < length tiers" if "tiers \<noteq> []"
    using that by (cases tiers) auto
  then show ?thesis using Some
    by (auto simp: tiered_def threshold_choices_def get_tiered_threshold_def intro!: nth_mem)
qed

lemma tiered_le: "list_all (\<lambda>x. x \<le> b) (threshold_choices u tiers flat) \<Longrightarrow> tiered u t tiers flat \<le> b"
  using tiered_choice by (auto simp: list_all_iff)

lemma tiered_ge: "list_all (\<lambda>x. b \<le> x) (threshold_choices u tiers flat) \<Longrightarrow> b \<le> tiered u t tiers flat"
  using tiered_choice by (auto simp: list_all_iff)

section \<open>The levels of a plan\<close>

definition levels_ordered :: "side \<Rightarrow> double \<Rightarrow> double \<Rightarrow> double \<Rightarrow> bool" where
  "levels_ordered sd stop entry tp1 \<longleftrightarrow>
     (if sd = Buy then stop \<le> entry \<and> entry \<le> tp1 else tp1 \<le> entry \<and> entry \<le> stop)"

definition plan_levels_ok :: "traced_plan \<Rightarrow> bool" where
  "plan_levels_ok p \<longleftrightarrow>
     (plan_side p = Buy \<or> plan_side p = Sell) \<and>
     levels_ordered (plan_side p) (plan_stop_price p) (plan_entry_price p) (plan_tp1_price p)"

lemma levels_ordered_round:
  "levels_ordered sd stop entry tp1 \<Longrightarrow>
     levels_ordered sd (round_to_tick stop k) (round_to_tick entry k) (round_to_tick tp1 k)"
  by (auto simp: levels_ordered_def round_to_tick_mono)

definition flush_sane :: "flush_config \<Rightarrow> universe option \<Rightarrow> bool" where
  "flush_sane cfg u \<longleftrightarrow> 0 \<le> flc_tp1_r cfg \<and>
     list_all (\<lambda>x. x \<le> flc_stop_buffer_bps cfg)
       (threshold_choices u (flc_tier_entry_offset_bps cfg) (flc_entry_offset_bps cfg))"

definition leader_sane :: "leader_config \<Rightarrow> universe option \<Rightarrow> bool" where
  "leader_sane cfg u \<longleftrightarrow> 0 \<le> llc_tp1_catchup_ratio cfg \<and>
     list_all (\<lambda>x. 0 \<le> x)
       (threshold_choices u (llc_tier_stop_distance_bps cfg) (llc_stop_distance_bps cfg))"

text \<open>
  The density may lie 1.5 bps beyond the level that is approached; the offset of the entry and the
  buffer of the stop together have to make up for it.
\<close>

definition bounce_sane :: "bounce_config \<Rightarrow> bool" where
  "bounce_sane cfg \<longleftrightarrow> 0 \<le> bc_tp1_r cfg \<and> 0 \<le> bc_stop_buffer_bps cfg \<and> bc_stop_buffer_bps cfg \<le> 10000 \<and>
     3 / 2 * (1 + bc_stop_buffer_bps cfg / 10000) \<le> bc_entry_offset_bps cfg + bc_stop_buffer_bps cfg"

definition breakout_sane :: "breakout_config \<Rightarrow> bool" where
  "breakout_sane cfg \<longleftrightarrow> 0 \<le> kc_tp1_r cfg \<and> 0 \<le> kc_aggressive_offset_bps cfg \<and>
     0 \<le> kc_stop_buffer_bps cfg \<and> kc_stop_buffer_bps cfg \<le> 10000"

fun strat_sane :: "strategy \<Rightarrow> bool" where
  "strat_sane (LeaderStrategy s) = leader_sane (ll_cfg s) (ll_universe s)"
| "strat_sane (BreakoutStrategy s) = breakout_sane (kb_cfg s)"
| "strat_sane (BounceStrategy s) = bounce_sane (bo_cfg s)"
| "strat_sane (FlushStrategy s) = flush_sane (fl_cfg s) (fl_universe s)"

lemma flush_default_sane: "flush_sane flush_config_default u"
  by (cases u) (simp_all add: flush_sane_def flush_config_default_def threshold_choices_def)

lemma leader_default_sane: "leader_sane leader_config_default u"
  by (cases u) (simp_all add: leader_sane_def leader_config_default_def threshold_choices_def)

lemma bounce_default_sane: "bounce_sane bounce_config_default"
  by code_simp

lemma breakout_default_sane: "breakout_sane breakout_config_default"
  by code_simp

text \<open>A stop behind an anchor, with a buffer in basis points.\<close>

lemma anchor_below:
  assumes "anchor \<le> (e::real)" "0 \<le> e" "0 \<le> b" "b \<le> 10000"
  shows "anchor - anchor * (b / 10000) \<le> e"
proof (cases "0 \<le> anchor")
  case True
  then have "0 \<le> anchor * (b / 10000)" using assms by simp
  then show ?thesis using assms by simp
next
  case False
  then have "anchor * (1 - b / 10000) \<le> 0" using assms by (intro mult_nonpos_nonneg) auto
  then show ?thesis using assms by (simp add: algebra_simps)
qed

lemma anchor_above:
  assumes "(e::real) \<le> anchor" "0 \<le> anchor" "0 \<le> b"
  shows "e \<le> anchor + anchor * (b / 10000)"
  using assms by (simp add: add_increasing2)

section \<open>The plans of the four strategies\<close>

lemma flush_levels:
  assumes "flush_sane (fl_cfg st) (fl_universe st)" "0 \<le> sg_price brk"
  shows "levels_ordered (flush_side brk) (flush_stop st brk) (flush_entry st brk) (flush_tp1 st brk)"
proof -
  let ?off = "flush_tiered st flc_tier_entry_offset_bps flc_entry_offset_bps"
  have "?off \<le> flc_stop_buffer_bps (fl_cfg st)"
    unfolding flush_tiered_def by (rule tiered_le) (use assms in \<open>simp add: flush_sane_def\<close>)
  then have "sg_price brk * (?off / 10000) \<le> sg_price brk * (flc_stop_buffer_bps (fl_cfg st) / 10000)"
    using assms by (intro mult_left_mono divide_right_mono) auto
  moreover have "0 \<le> flc_tp1_r (fl_cfg st)" using assms by (simp add: flush_sane_def)
  ultimately show ?thesis
    by (auto simp: levels_ordered_def flush_side_def flush_entry_def flush_stop_def flush_tp1_def Let_def)
qed

lemma leader_stop_side:
  assumes "leader_sane (ll_cfg st) (ll_universe st)" "0 < ff_mid (sc_last_frame (ll_ctx st))"
  shows "if sd = Buy then leader_stop st sd \<le> ff_mid (sc_last_frame (ll_ctx st))
         else ff_mid (sc_last_frame (ll_ctx st)) \<le> leader_stop st sd"
proof -
  have "0 \<le> leader_tiered st llc_tier_stop_distance_bps llc_stop_distance_bps"
    unfolding leader_tiered_def by (rule tiered_ge) (use assms in \<open>simp add: leader_sane_def\<close>)
  then have "0 \<le> ff_mid (sc_last_frame (ll_ctx st)) *
      (leader_tiered st llc_tier_stop_distance_bps llc_stop_distance_bps / 10000)"
    using assms by simp
  then show ?thesis by (auto simp: leader_stop_def Let_def)
qed

lemma leader_levels:
  assumes "leader_sane (ll_cfg st) (ll_universe st)" "0 < ff_mid (sc_last_frame (ll_ctx st))"
  shows "levels_ordered (leader_side move) (leader_stop st (leader_side move))
           (ff_mid (sc_last_frame (ll_ctx st))) (leader_tp1 st move)"
proof -
  have "0 \<le> ff_mid (sc_last_frame (ll_ctx st)) *
      (\<bar>sp_lag_pct (sg_payload move)\<bar> * 100 * llc_tp1_catchup_ratio (ll_cfg st) / 10000)"
    using assms by (simp add: leader_sane_def)
  then show ?thesis
    using leader_stop_side [OF assms, of "leader_side move"]
    by (auto simp: levels_ordered_def leader_tp1_def Let_def mult_ac split: if_splits)
qed

text \<open>The anchor of a bounce is the density or lies beyond it.\<close>

lemma fold_further_below: "fold (\<lambda>s. further Buy (sg_price s)) ss far \<le> far"
proof (induction ss arbitrary: far)
  case (Cons s ss)
  have "further Buy (sg_price s) far \<le> far" by (simp add: further_def)
  with Cons.IH show ?case by (simp add: order_trans [OF Cons.IH])
qed simp

lemma fold_further_above: "sd \<noteq> Buy \<Longrightarrow> far \<le> fold (\<lambda>s. further sd (sg_price s)) ss far"
proof (induction ss arbitrary: far)
  case (Cons s ss)
  have "far \<le> further sd (sg_price s) far" using Cons.prems by (simp add: further_def)
  then show ?case using Cons.IH [OF Cons.prems] by (simp add: order_trans)
qed simp

lemma stop_anchor_below: "density_side d = Buy \<Longrightarrow> stop_anchor st now d \<le> sg_price d"
  by (simp add: stop_anchor_def fold_further_below)

lemma stop_anchor_above: "density_side d \<noteq> Buy \<Longrightarrow> sg_price d \<le> stop_anchor st now d"
  by (simp add: stop_anchor_def fold_further_above)

lemma within_bps_range:
  assumes "within_bps p level b" "0 < level"
  shows "p \<le> level * (1 + b / 10000)" "level * (1 - b / 10000) \<le> p"
proof -
  have "\<bar>p - level\<bar> * 10000 \<le> level * b"
    using assms by (simp add: within_bps_def field_simps)
  then have "p - level \<le> level * b / 10000" "level - p \<le> level * b / 10000" by (simp_all add: abs_if split: if_splits)
  then show "p \<le> level * (1 + b / 10000)" "level * (1 - b / 10000) \<le> p"
    by (simp_all add: algebra_simps)
qed

lemma bounce_levels:
  assumes sane: "bounce_sane (bo_cfg st)" and level: "0 < sg_price approach"
    and near: "within_bps (sg_price d) (sg_price approach) (3 / 2)"
  shows "levels_ordered (density_side d) (bounce_stop st now d) (bounce_entry st approach d)
           (bounce_tp1 st now approach d)"
proof -
  let ?k = "ti_price_increment (bo_info st)" and ?L = "sg_price approach" and ?a = "stop_anchor st now d"
  let ?o = "bc_entry_offset_bps (bo_cfg st)" and ?b = "bc_stop_buffer_bps (bo_cfg st)"
  have cfg: "0 \<le> bc_tp1_r (bo_cfg st)" "3 / 2 * (1 + ?b / 10000) \<le> ?o + ?b" "0 \<le> ?b" "?b \<le> 10000"
    using sane by (simp_all add: bounce_sane_def)
  have range: "sg_price d \<le> ?L * (1 + 3 / 2 / 10000)" "?L * (1 - 3 / 2 / 10000) \<le> sg_price d"
    using within_bps_range [OF near level] by simp_all
  have off: "(1 + 3 / 2 / 10000) * (1 - ?b / 10000) \<le> 1 + ?o / 10000"
      "1 - ?o / 10000 \<le> (1 - 3 / 2 / 10000) * (1 + ?b / 10000)"
    using cfg by (simp_all add: algebra_simps)
  have tp1: "0 \<le> bc_tp1_r (bo_cfg st) * \<bar>bounce_entry st approach d - bounce_stop st now d\<bar>"
    using cfg by simp
  have idem: "round_to_tick (bounce_entry st approach d) ?k = bounce_entry st approach d"
    by (simp add: bounce_entry_def Let_def round_to_tick_idem)
  show ?thesis
  proof (cases "density_side d = Buy")
    case True
    have "?a * (1 - ?b / 10000) \<le> ?L * (1 + 3 / 2 / 10000) * (1 - ?b / 10000)"
      using stop_anchor_below [OF True, of st now] range cfg by (intro mult_right_mono) auto
    also have "\<dots> \<le> ?L * (1 + ?o / 10000)"
      using mult_left_mono [OF off(1), of ?L] level by (simp only: mult.assoc)
    finally have "?a - ?a * (?b / 10000) \<le> ?L + ?L * (?o / 10000)" by (simp add: algebra_simps)
    then have "bounce_stop st now d \<le> bounce_entry st approach d"
      using True by (simp add: bounce_stop_def bounce_entry_def Let_def round_to_tick_mono)
    moreover have "round_to_tick (bounce_entry st approach d) ?k \<le> bounce_tp1 st now approach d"
      using True tp1 by (simp add: bounce_tp1_def Let_def round_to_tick_mono)
    ultimately show ?thesis using True idem by (simp add: levels_ordered_def)
  next
    case False
    have "?L * (1 - ?o / 10000) \<le> ?L * ((1 - 3 / 2 / 10000) * (1 + ?b / 10000))"
      using mult_left_mono [OF off(2), of ?L] level by simp
    also have "\<dots> = ?L * (1 - 3 / 2 / 10000) * (1 + ?b / 10000)" by (simp only: mult.assoc)
    also have "\<dots> \<le> ?a * (1 + ?b / 10000)"
      using stop_anchor_above [OF False, of st now] range cfg by (intro mult_right_mono) auto
    finally have "?L - ?L * (?o / 10000) \<le> ?a + ?a * (?b / 10000)" by (simp add: algebra_simps)
    then have "bounce_entry st approach d \<le> bounce_stop st now d"
      using False by (simp add: bounce_stop_def bounce_entry_def Let_def round_to_tick_mono)
    moreover have "bounce_tp1 st now approach d \<le> round_to_tick (bounce_entry st approach d) ?k"
      using False tp1 by (simp add: bounce_tp1_def Let_def round_to_tick_mono)
    ultimately show ?thesis using False idem by (simp add: levels_ordered_def)
  qed
qed

lemma breakout_levels:
  assumes sane: "breakout_sane (kb_cfg st)" and price: "0 < sg_price eat"
    and beyond: "is_support (eating_side eat) (sg_price eat) limit support"
  shows "levels_ordered (eating_side eat) (breakout_stop st eat support) (breakout_entry st eat)
           (breakout_tp1 st eat support)"
proof -
  let ?k = "ti_price_increment (kb_info st)" and ?p = "sg_price eat" and ?a = "sg_price support"
  let ?o = "kc_aggressive_offset_bps (kb_cfg st)" and ?b = "kc_stop_buffer_bps (kb_cfg st)"
  have cfg: "0 \<le> kc_tp1_r (kb_cfg st)" "0 \<le> ?o" "0 \<le> ?b" "?b \<le> 10000"
    using sane by (simp_all add: breakout_sane_def)
  have off: "0 \<le> ?p * (?o / 10000)" using cfg price by simp
  have tp1: "0 \<le> kc_tp1_r (kb_cfg st) * \<bar>breakout_entry st eat - breakout_stop st eat support\<bar>"
    using cfg by simp
  have idem: "round_to_tick (breakout_entry st eat) ?k = breakout_entry st eat"
    by (simp add: breakout_entry_def Let_def round_to_tick_idem)
  show ?thesis
  proof (cases "eating_side eat = Buy")
    case True
    then have "?a < ?p" using beyond by (simp add: is_support_def)
    then have "?a \<le> ?p + ?p * (?o / 10000)" using off by linarith
    then have "?a - ?a * (?b / 10000) \<le> ?p + ?p * (?o / 10000)"
      using cfg price off by (intro anchor_below) auto
    then have "breakout_stop st eat support \<le> breakout_entry st eat"
      using True by (simp add: breakout_stop_def breakout_entry_def Let_def round_to_tick_mono)
    moreover have "round_to_tick (breakout_entry st eat) ?k \<le> breakout_tp1 st eat support"
      using True tp1 by (simp add: breakout_tp1_def Let_def round_to_tick_mono)
    ultimately show ?thesis using True idem by (simp add: levels_ordered_def)
  next
    case False
    then have "?p < ?a" using beyond by (auto simp: is_support_def eating_side_def split: if_splits)
    then have "?p - ?p * (?o / 10000) \<le> ?a" "0 \<le> ?a" using off price by linarith+
    then have "?p - ?p * (?o / 10000) \<le> ?a + ?a * (?b / 10000)"
      using cfg by (intro anchor_above) auto
    then have "breakout_entry st eat \<le> breakout_stop st eat support"
      using False by (simp add: breakout_stop_def breakout_entry_def Let_def round_to_tick_mono)
    moreover have "breakout_tp1 st eat support \<le> round_to_tick (breakout_entry st eat) ?k"
      using False tp1 by (simp add: breakout_tp1_def Let_def round_to_tick_mono)
    ultimately show ?thesis using False idem by (simp add: levels_ordered_def)
  qed
qed

section \<open>The configuration stays\<close>

lemma frame_cfg [simp]: "strat_sane (strat_on_frame f s) = strat_sane s"
  by (cases s) (simp_all add: flush_on_frame_def leader_on_frame_def bounce_on_frame_def breakout_on_frame_def Let_def)

lemma accepted_cfg [simp]: "strat_sane (strat_on_plan_accepted p s) = strat_sane s"
  by (cases s) (simp_all add: flush_on_plan_accepted_def leader_on_plan_accepted_def
    bounce_on_plan_accepted_def breakout_on_plan_accepted_def)

lemma reset_cfg [simp]: "strat_sane (strat_reset s) = strat_sane s"
  by (cases s) (simp_all add: flush_reset_def leader_reset_def bounce_reset_def breakout_reset_def)

lemma close_cfg [simp]: "strat_sane (snd (strat_check_close f c n s)) = strat_sane s"
  by (cases s) (auto simp: flush_check_close_def leader_check_close_def bounce_check_close_def
    breakout_check_close_def Let_def split: option.splits)

lemma signal_cfg [simp]: "strat_sane (snd (strat_on_signal g c n s)) = strat_sane s"
  by (cases s) (auto simp: flush_on_signal_def leader_on_signal_def bounce_on_signal_def
    breakout_on_signal_def Let_def split: option.splits sum.splits)

lemma tick_cfg [simp]: "strat_sane (snd (strat_tick c n s)) = strat_sane s"
  by (cases s) (auto simp: flush_tick_def leader_tick_def bounce_tick_def breakout_tick_def Let_def
    split: option.splits)

lemma step_cfg: "strat_sane (snd (strategy_step e s)) = strat_sane s"
  by (cases "(e, s)" rule: strategy_step.cases) simp_all

section \<open>Each plan\<close>

lemma recent_update_signal [simp]: "sc_recent (update_signal s c) = (sc_recent c)(sg_kind s := Some s)"
  by (simp add: update_signal_def Let_def case_prod_beta)

definition worth_trading :: "strategy \<Rightarrow> traced_plan \<Rightarrow> bool" where
  "worth_trading s p \<longleftrightarrow>
     plan_levels_ok p \<and> (strat_name s = leader_name \<or> plan_entry_price p \<noteq> plan_stop_price p)"

lemma flush_plan_worth:
  assumes "fst (flush_on_signal g c n s) = Some p" "flush_sane (fl_cfg s) (fl_universe s)" "0 < sg_price g"
  shows "plan_levels_ok p \<and> plan_entry_price p \<noteq> plan_stop_price p"
proof -
  let ?s = "s\<lparr>fl_ctx := update_signal g (fl_ctx s)\<rparr>"
  have "flush_decide ?s (clock_or c n) g = Some p"
    using assms(1) by (auto simp: flush_on_signal_def Let_def split: if_splits option.splits)
  then obtain ev where p: "p = finish_plan (flush_plan ?s (clock_or c n) g) ev (fl_ctx ?s)"
    and ne: "plan_entry_price (flush_plan ?s (clock_or c n) g) \<noteq> plan_stop_price (flush_plan ?s (clock_or c n) g)"
    by (auto simp: flush_decide_def Let_def split: if_splits option.splits)
  have "levels_ordered (flush_side g) (flush_stop ?s g) (flush_entry ?s g) (flush_tp1 ?s g)"
    by (rule flush_levels) (use assms in simp_all)
  then show ?thesis using ne unfolding p
    by (auto simp: plan_levels_ok_def flush_plan_def Let_def flush_side_def intro: levels_ordered_round)
qed

lemma leader_plan_worth:
  assumes "fst (leader_tick c n s) = Some p" "leader_sane (ll_cfg s) (ll_universe s)"
  shows "plan_levels_ok p"
proof -
  obtain s' where s': "leader_decide s' (clock_or c n) = Some p" "ll_cfg s' = ll_cfg s" "ll_universe s' = ll_universe s"
  proof -
    have "\<exists>s'. leader_decide s' (clock_or c n) = Some p \<and> ll_cfg s' = ll_cfg s \<and> ll_universe s' = ll_universe s"
      using assms(1)
      by (cases "ll_active_plan s") (auto simp: leader_tick_def Let_def split: if_splits option.splits)
    then show thesis using that by blast
  qed
  then obtain move where gates: "leader_gates s' (clock_or c n) move"
    and p: "p = finish_plan (leader_plan s' (clock_or c n) move) [move] (ll_ctx s')"
    by (auto simp: leader_decide_def split: option.splits if_splits)
  have "levels_ordered (leader_side move) (leader_stop s' (leader_side move))
           (ff_mid (sc_last_frame (ll_ctx s'))) (leader_tp1 s' move)"
    by (rule leader_levels) (use gates s' assms in \<open>simp_all add: leader_gates_def Let_def\<close>)
  then show ?thesis unfolding p
    by (auto simp: plan_levels_ok_def leader_plan_def Let_def leader_side_def intro: levels_ordered_round)
qed

lemma bounce_plan_worth:
  assumes "fst (bounce_on_signal g c n s) = Some p" "bounce_sane (bo_cfg s)" "0 < sg_price g"
  shows "plan_levels_ok p \<and> plan_entry_price p \<noteq> plan_stop_price p"
proof -
  let ?s = "s\<lparr>bo_ctx := update_signal g (bo_ctx s)\<rparr>"
  have dec: "bounce_decide ?s (clock_or c n) = Some p" and kind: "sg_kind g = LevelApproach"
    using assms(1) by (auto simp: bounce_on_signal_def Let_def split: if_splits option.splits)
  from dec kind obtain d where d: "bounce_density ?s (clock_or c n) (sg_price g) = Some d"
    and ne: "bounce_entry ?s g d \<noteq> bounce_stop ?s (clock_or c n) d"
    and p: "p = finish_plan (bounce_plan ?s (clock_or c n) g d) [d, g] (bo_ctx ?s)"
    by (auto simp: bounce_decide_def recent_within_def split: option.splits if_splits)
  have near: "within_bps (sg_price d) (sg_price g) (3 / 2)"
    using d by (auto simp: bounce_density_def dest!: find_SomeD)
  have "levels_ordered (density_side d) (bounce_stop ?s (clock_or c n) d) (bounce_entry ?s g d)
           (bounce_tp1 ?s (clock_or c n) g d)"
    by (rule bounce_levels) (use assms near in simp_all)
  then show ?thesis using ne unfolding p
    by (auto simp: plan_levels_ok_def bounce_plan_def density_side_def)
qed

lemma breakout_decided:
  assumes "breakout_decide s now eat = Inr p"
  obtains support burst where "find_support s now eat = Some support"
    "first_hit (breakout_gates s now eat) = None" "first_hit (price_gates s now eat support) = None"
    "p = finish_plan (breakout_plan s now eat support) [eat, burst] (kb_ctx s)"
  using assms by (auto simp: breakout_decide_def split: option.splits)

lemma breakout_signal_decided:
  assumes "fst (breakout_on_signal g c n s) = Some p"
  shows "breakout_decide (s\<lparr>kb_ctx := update_signal g (kb_ctx s)\<rparr>) (clock_or c n) g = Inr p"
  using assms by (auto simp: breakout_on_signal_def Let_def split: if_splits sum.splits)

lemma breakout_plan_worth:
  assumes "fst (breakout_on_signal g c n s) = Some p" "breakout_sane (kb_cfg s)" "0 < sg_price g"
  shows "plan_levels_ok p \<and> plan_entry_price p \<noteq> plan_stop_price p"
proof -
  let ?s = "s\<lparr>kb_ctx := update_signal g (kb_ctx s)\<rparr>"
  obtain support burst where sup: "find_support ?s (clock_or c n) g = Some support"
    and gates: "first_hit (price_gates ?s (clock_or c n) g support) = None"
    and p: "p = finish_plan (breakout_plan ?s (clock_or c n) g support) [g, burst] (kb_ctx ?s)"
    using breakout_decided [OF breakout_signal_decided [OF assms(1)]] by metis
  obtain limit where "is_support (eating_side g) (sg_price g) limit support"
    using sup by (auto simp: find_support_def dest!: find_SomeD)
  then have "levels_ordered (eating_side g) (breakout_stop ?s g support) (breakout_entry ?s g)
      (breakout_tp1 ?s g support)"
    by (intro breakout_levels) (use assms in simp_all)
  moreover have "breakout_entry ?s g \<noteq> breakout_stop ?s g support"
    using gates by (auto simp: price_gates_def Let_def split: if_splits)
  ultimately show ?thesis unfolding p
    by (auto simp: plan_levels_ok_def breakout_plan_def eating_side_def)
qed

fun event_priced :: "strategy_event \<times> time_point option \<times> time_point \<Rightarrow> bool" where
  "event_priced (SignalEvent g, c, n) \<longleftrightarrow> 0 < sg_price g"
| "event_priced _ \<longleftrightarrow> True"

lemma step_plan_worth:
  assumes "fst (strategy_step e s) = Some p" "strat_sane s" "event_priced e"
  shows "worth_trading s p"
proof (cases "(e, s)" rule: strategy_step.cases)
  case (2 g c n s')
  with assms show ?thesis
    by (cases s) (auto simp: worth_trading_def leader_on_signal_def
      dest: flush_plan_worth bounce_plan_worth breakout_plan_worth)
next
  case (3 c n s')
  with assms show ?thesis
    by (cases s) (auto simp: worth_trading_def flush_tick_def bounce_tick_def breakout_tick_def dest: leader_plan_worth)
qed (use assms in auto)

text \<open>C7. Every plan a strategy makes, over any run with positive signal prices and a sane
  configuration, is for its own ticker and under its own name, with the stop on the losing and the
  target on the winning side of the entry; and except for LeaderLag, which does not check it after
  rounding, it has some risk.\<close>

theorem plans_are_worth_trading:
  assumes "strat_sane s" "list_all event_priced es" "p \<in> set (fst (strategy_run es s))"
  shows "own_plan (strat_name s) (strat_ticker s) p \<and> worth_trading s p"
proof
  show "own_plan (strat_name s) (strat_ticker s) p" by (rule strategy_run_own) (rule assms)
  show "worth_trading s p"
    using assms
  proof (induction es arbitrary: s)
    case (Cons e es)
    then show ?case
      using step_plan_worth [of e s] step_cfg [of e s] strategy_step_identity [of e s]
      by (cases "fst (strategy_step e s)") (fastforce simp: case_prod_beta worth_trading_def)+
  qed simp
qed

text \<open>After a strategy has made a plan it makes no other until the plan is reset or a tick
  comes after its validity.\<close>

theorem next_plan_after_release:
  assumes "fst (strategy_step e s) = Some p" "fst (strategy_run es (snd (strategy_step e s))) \<noteq> []"
  shows "\<exists>e' \<in> set es. releases p e'"
  using strategy_run_silent [of "snd (strategy_step e s)" p es] strategy_step_plan [of e s p] assms
  by (auto simp: list_all_iff)

section \<open>The way to the target\<close>

lemma breakout_price_gates:
  assumes "first_hit (price_gates s now eat support) = None"
  shows "0 < \<bar>breakout_entry s eat - breakout_stop s eat support\<bar>"
    and "\<bar>breakout_entry s eat - breakout_stop s eat support\<bar>
           \<le> \<bar>breakout_tp1 s eat support - breakout_entry s eat\<bar> + 1 / 1000000000000"
    and "\<not> obstacle_before_target (breakout_entry s eat) (breakout_tp1 s eat support)
           (obstacle_price s now (eating_side eat) (breakout_entry s eat) (breakout_tp1 s eat support))
           (eating_side eat)"
  using assms unfolding price_gates_def Let_def first_hit.simps by (simp_all split: if_splits)

text \<open>C34. A breakout plan aims at least as far as it risks (up to a rounding of 1e-12), and no
  density of the opposite side and no level that was seen in the last thirty seconds lies between
  its entry and its target.\<close>

theorem breakout_target_clear:
  assumes plan: "breakout_on_signal g c n s = (Some p, s')"
    and pos: "0 < plan_entry_price p"
    and seen: "x \<in> set (sc_history (kb_ctx s'))" "clock_or c n - sg_timestamp x \<le> seconds 30"
      "sg_kind x = DensityDetected \<or> sg_kind x = LevelFormed"
    and prices: "list_all (\<lambda>y. 0 < sg_price y) (sc_history (kb_ctx s'))"
  shows "\<not> blocks_target (plan_side p) (plan_entry_price p) (plan_tp1_price p) x \<and>
     \<bar>plan_entry_price p - plan_stop_price p\<bar> \<le> \<bar>plan_tp1_price p - plan_entry_price p\<bar> + 1 / 1000000000000"
proof -
  let ?s = "s\<lparr>kb_ctx := update_signal g (kb_ctx s)\<rparr>"
  obtain support burst where gates: "first_hit (price_gates ?s (clock_or c n) g support) = None"
    and p: "p = finish_plan (breakout_plan ?s (clock_or c n) g support) [g, burst] (kb_ctx ?s)"
    using breakout_decided [OF breakout_signal_decided, of g c n s p] plan by (metis fst_conv)
  have ctx: "kb_ctx s' = kb_ctx ?s"
    using plan by (auto simp: breakout_on_signal_def Let_def split: if_splits sum.splits)
  let ?blocks = "\<lambda>y. clock_or c n - sg_timestamp y \<le> seconds 30 \<and>
      (sg_kind y = DensityDetected \<or> sg_kind y = LevelFormed) \<and>
      blocks_target (plan_side p) (plan_entry_price p) (plan_tp1_price p) y"
  have sel: "plan_side p = eating_side g" "plan_entry_price p = breakout_entry ?s g"
    "plan_tp1_price p = breakout_tp1 ?s g support" "plan_stop_price p = breakout_stop ?s g support"
    by (simp_all add: p breakout_plan_def)
  have "\<not> ?blocks x"
  proof
    assume "?blocks x"
    then have "find ?blocks (sc_history (kb_ctx s')) \<noteq> None"
      unfolding find_None_iff_all using seen(1) by blast
    then obtain y where y: "find ?blocks (sc_history (kb_ctx s')) = Some y" by blast
    then have hit: "?blocks y" "0 < sg_price y" using prices find_SomeD [OF y] by (auto simp: list_all_iff)
    have "obstacle_price ?s (clock_or c n) (plan_side p) (plan_entry_price p) (plan_tp1_price p) = sg_price y"
      using y by (simp add: obstacle_price_def ctx)
    then have "obstacle_before_target (plan_entry_price p) (plan_tp1_price p)
        (obstacle_price ?s (clock_or c n) (plan_side p) (plan_entry_price p) (plan_tp1_price p)) (plan_side p)"
      using hit pos by (auto simp: obstacle_before_target_def blocks_target_def)
    then show False using breakout_price_gates(3) [OF gates] by (simp add: sel)
  qed
  then show ?thesis using seen breakout_price_gates(2) [OF gates] by (simp add: sel)
qed

end
