(* ===== verification/StrategyCases.thy ===== *)
theory StrategyCases
  imports StrategySpec
begin

text \<open>
  Runs of the strategies on concrete frames and signals: each property of \<open>StrategySpec\<close> applied to
  one, and what the code makes of some inputs one would not expect.
\<close>

definition sample_info :: ticker_info where
  "sample_info =
     \<lparr>ti_name = ''BTC_USDT'', ti_base_asset = ''BTC'', ti_quote_asset = ''USDT'', ti_is_trading_allowed = True,
      ti_price_increment = 1 / 100, ti_size_increment = 1, ti_min_size = 1, ti_max_size = 1000\<rparr>"

definition sample_frame :: feature_frame where
  "sample_frame = feature_frame_default\<lparr>
     ff_ticker := ''BTC_USDT'', ff_best_bid := 9988 / 100, ff_best_ask := 999 / 10, ff_mid := 100, ff_spread_bps := 2,
     ff_buy_vol_5s := 100, ff_buy_vol_30s := 100, ff_sell_vol_1s := 0, ff_sell_vol_5s := 100,
     ff_tape_aggression := 1 / 2, ff_price_change_1s := 1 / 10\<rparr>"

definition sample_signal :: "signal_kind \<Rightarrow> int \<Rightarrow> double \<Rightarrow> string \<Rightarrow> signal" where
  "sample_signal k sec price side =
     \<lparr>sg_kind = k, sg_timestamp = seconds sec, sg_ticker = ''BTC_USDT'', sg_price = price, sg_confidence = 1,
      sg_payload = signal_payload_default\<lparr>sp_side := side, sp_size := 10, sp_original_size := 10, sp_remaining_size := 4,
        sp_touches := 2, sp_age_ms := 6000, sp_dist_bps := - 20, sp_lag_pct := 1, sp_correlation := 1\<rparr>,
      sg_trigger_trace_id = 0\<rparr>"

definition at_second :: "int \<Rightarrow> strategy_event \<Rightarrow> strategy_event \<times> time_point option \<times> time_point" where
  "at_second t e = (e, None, seconds t)"

definition sample_breakout :: breakout where
  "sample_breakout =
     snd (breakout_on_signal (sample_signal TapeBurst 10 100 ''Buy'') None (seconds 10)
       (snd (breakout_on_signal (sample_signal DensityDetected 10 (9995 / 100) ''Bid'') None (seconds 10)
         (breakout_on_frame sample_frame (breakout_new ''BTC_USDT'' sample_info breakout_config_default)))))"

definition sample_flush :: strategy where
  "sample_flush =
     snd (strategy_run [at_second 9 (FrameEvent sample_frame), at_second 9 (SignalEvent (sample_signal TapeFlush 9 100 '''')),
         at_second 10 (SignalEvent (sample_signal TapeFlush 10 100 ''''))]
       (FlushStrategy (flush_new ''BTC_USDT'' sample_info flush_config_default)))"

definition sample_break :: "strategy_event \<times> time_point option \<times> time_point" where
  "sample_break = at_second 10 (SignalEvent (sample_signal LevelBreak 10 100 ''''))"

lemma plans_are_worth_trading_witness:
  "case fst (strategy_run [sample_break] sample_flush) of
     [p] \<Rightarrow> plan_side p = Buy \<and> own_plan ''FlushReversal'' ''BTC_USDT'' p \<and> worth_trading sample_flush p
   | _ \<Rightarrow> False"
proof -
  have run: "case fst (strategy_run [sample_break] sample_flush) of [p] \<Rightarrow> plan_side p = Buy | _ \<Rightarrow> False"
    by code_simp
  then obtain p where p: "fst (strategy_run [sample_break] sample_flush) = [p]" "plan_side p = Buy"
    by (auto split: list.splits)
  have "strat_sane sample_flush" "list_all event_priced [sample_break]"
    "strat_name sample_flush = ''FlushReversal''" "strat_ticker sample_flush = ''BTC_USDT''"
    by (code_simp, code_simp, code_simp, code_simp)
  then show ?thesis
    using plans_are_worth_trading [of sample_flush "[sample_break]" p] p by simp
qed

lemma next_plan_after_release_witness:
  "\<exists>e' \<in> set [at_second 30 TickEvent, at_second 30 (SignalEvent (sample_signal TapeFlush 30 100 '''')),
       at_second 30 (SignalEvent (sample_signal LevelBreak 30 100 ''''))].
     releases (the (fst (strategy_step sample_break sample_flush))) e'"
  (is "\<exists>e' \<in> set ?es. releases ?p e'")
proof -
  have "fst (strategy_step sample_break sample_flush) \<noteq> None"
    "fst (strategy_run ?es (snd (strategy_step sample_break sample_flush))) \<noteq> []"
    by (code_simp, code_simp)
  then show ?thesis using next_plan_after_release [of sample_break sample_flush ?p ?es] by simp
qed

lemma breakout_target_clear_witness:
  "case breakout_on_signal (sample_signal DensityEating 10 100 ''Ask'') None (seconds 10) sample_breakout of
     (Some p, s') \<Rightarrow> \<not> blocks_target (plan_side p) (plan_entry_price p) (plan_tp1_price p)
                        (sample_signal DensityDetected 10 (9995 / 100) ''Bid'')
   | _ \<Rightarrow> False"
  (is "case ?r of (Some p, s') \<Rightarrow> ?Q p | _ \<Rightarrow> False")
proof -
  let ?x = "sample_signal DensityDetected 10 (9995 / 100) ''Bid''"
  have facts: "fst ?r \<noteq> None" "0 < plan_entry_price (the (fst ?r))"
      "sc_history (kb_ctx (snd ?r)) =
         [?x, sample_signal TapeBurst 10 100 ''Buy'', sample_signal DensityEating 10 100 ''Ask'']"
      "clock_or None (seconds 10) - sg_timestamp ?x \<le> seconds 30"
    by (code_simp, code_simp, code_simp, code_simp)
  then obtain p s' where r: "?r = (Some p, s')" "p = the (fst ?r)" "s' = snd ?r"
    by (metis option.collapse prod.collapse option.sel)
  have hist: "?x \<in> set (sc_history (kb_ctx s'))" "list_all (\<lambda>y. 0 < sg_price y) (sc_history (kb_ctx s'))"
    using facts(3) r(3) by (simp_all add: sample_signal_def)
  have "?Q p"
    using breakout_target_clear [OF r(1) _ hist(1) facts(4) _ hist(2)] facts(2) r(2)
    by (simp add: sample_signal_def)
  with r(1) show ?thesis by simp
qed

section \<open>A plan without risk\<close>

text \<open>
  LeaderLag does not compare the entry with the stop after rounding them to the tick, as the other
  three do: with a tick of one it plans an entry and a stop at the same price.
\<close>

lemma leader_plans_without_risk:
  "case strategy_run
       [at_second 10 (FrameEvent (sample_frame\<lparr>ff_price_change_1s := 0\<rparr>)),
        at_second 10 (SignalEvent (sample_signal LeaderMove 10 100 '''')), at_second 10 TickEvent]
       (LeaderStrategy (leader_new ''BTC_USDT'' (sample_info\<lparr>ti_price_increment := 1\<rparr>) leader_config_default)) of
     ([p], s) \<Rightarrow> plan_entry_price p = 100 \<and> plan_stop_price p = 100
   | _ \<Rightarrow> False"
  by code_simp

end
