(* ===== verification/RiskSpec.thy ===== *)
theory RiskSpec
  imports Risk
begin

text \<open>
  What the gate promises: an accepted plan satisfies every rule, its size and risk respect the
  caps up to the size increment's tolerance, no window of time holds more acceptances than the
  limit, and a loss streak or a funding event blocks for its whole window.
\<close>

section \<open>The shape of a decision\<close>

lemma first_hit_None: "first_hit rules = None \<longleftrightarrow> (\<forall>(bad, r) \<in> set rules. \<not> bad)"
  by (induction rules rule: first_hit.induct) auto

lemma first_hit_Some: "first_hit rules = Some r \<Longrightarrow> (True, r) \<in> set rules"
  by (induction rules rule: first_hit.induct) (auto split: if_splits)

lemma evaluate_accepted:
  assumes "evaluate u nc now later plan st rm = (d, rm')" "rd_accepted d"
  shows "first_hit (plan_rules (rm_cfg rm) u now plan st) = None"
    and "size_normalised (plan_meta u plan) \<Longrightarrow>
      tm_min_size (plan_meta u plan) \<le> first_size (rm_cfg rm) (plan_meta u plan) plan st"
    and "\<not> margin_bad (rm_cfg rm) plan st (final_size (rm_cfg rm) (plan_meta u plan) plan st)"
    and "\<not> rate_limited (trim_trade_history now rm)"
    and "\<not> cooling_off now rm"
    and "first_hit (late_rules (clear_loss_streak (trim_trade_history now rm)) nc now plan st) = None"
    and "d = \<lparr>rd_accepted = True, rd_reason = NoReject,
           rd_adjusted_size_coin = final_size (rm_cfg rm) (plan_meta u plan) plan st,
           rd_risk_usd = risk_of_size plan (final_size (rm_cfg rm) (plan_meta u plan) plan st)\<rparr>"
    and "rm' = (clear_loss_streak (trim_trade_history now rm))
           \<lparr>rm_trade_history := rm_trade_history (clear_loss_streak (trim_trade_history now rm)) @ [later]\<rparr>"
  using assms
  by (auto simp: evaluate_def Let_def reject_def cooling_off_def trim_trade_history_def
      split: option.splits if_splits)

lemma evaluate_rejected:
  assumes "evaluate u nc now later plan st rm = (d, rm')" "\<not> rd_accepted d"
  shows "rm' = rm \<or> rm' = trim_trade_history now rm \<or> rm' = clear_loss_streak (trim_trade_history now rm)"
  using assms by (auto simp: evaluate_def Let_def reject_def split: option.splits if_splits)

lemma plan_rules_reason: "first_hit (plan_rules c u now plan st) = Some r \<Longrightarrow> r \<noteq> NoReject"
  by (drule first_hit_Some)
    (auto simp: plan_rules_def input_rules_def account_rules_def universe_rules_def stop_rules_def
      take_profit_rules_def Let_def)

lemma late_rules_reason: "first_hit (late_rules rm nc now plan st) = Some r \<Longrightarrow> r \<noteq> NoReject"
  by (drule first_hit_Some) (auto simp: late_rules_def Let_def)

text \<open>A decision gives a reason exactly when it rejects.\<close>

theorem reject_has_reason:
  "rd_accepted (fst (evaluate u nc now later plan st rm)) =
     (rd_reason (fst (evaluate u nc now later plan st rm)) = NoReject)"
  by (auto simp: evaluate_def Let_def reject_def plan_rules_reason late_rules_reason
      dest: plan_rules_reason late_rules_reason split: option.splits)

section \<open>Accepted plans\<close>

text \<open>The rules in the words of the specification, R1 to R7, R9, R12, R13 and R15.\<close>

definition account_admits :: "risk_config \<Rightarrow> trade_plan \<Rightarrow> account_state \<Rightarrow> bool" where
  "account_admits c plan st \<longleftrightarrow>
     \<not> acc_kill_switch_triggered st \<and>
     - rc_max_daily_loss_pct c / 100 * acc_starting_equity_usd st
       < acc_realized_pnl_today_usd st + acc_unrealized_pnl_usd st \<and>
     acc_active_positions st < rc_max_concurrent_positions c \<and>
     (rc_allow_hedge c \<or>
       (\<forall>t \<in> set (acc_active_tickers st). to_internal_ticker t \<noteq> to_internal_ticker (plan_ticker plan))) \<and>
     ticker_count plan st < rc_max_positions_per_ticker c"

definition universe_admits :: "risk_config \<Rightarrow> universe \<Rightarrow> time_point \<Rightarrow> trade_plan \<Rightarrow> bool" where
  "universe_admits c u now plan \<longleftrightarrow>
     (let key = to_internal_ticker (plan_ticker plan) in
      is_boosted u key now \<or> whitelisted c key \<or>
      is_in_pool u key \<and> is_strategy_enabled u key (plan_strategy_name plan))"

definition prices_admit :: "risk_config \<Rightarrow> trade_plan \<Rightarrow> bool" where
  "prices_admit c plan \<longleftrightarrow>
     (let e = plan_entry_price plan; s = plan_stop_price plan; tp = plan_tp1_price plan in
      0 < e \<and> 0 < s \<and> 0 < tp \<and>
      (plan_side plan = Buy \<and> s < e \<and> e < tp \<or> plan_side plan = Sell \<and> tp < e \<and> e < s) \<and>
      rc_min_stop_bps c / 10000 * e \<le> \<bar>e - s\<bar> \<and>
      rc_min_rr_ratio c * \<bar>e - s\<bar> \<le> \<bar>tp - e\<bar>)"

lemma account_rules_admit:
  assumes "first_hit (plan_rules c u now plan st) = None"
  shows "account_admits c plan st" "universe_admits c u now plan" "prices_admit c plan"
    and "0 < acc_starting_equity_usd st" "0 < rc_max_leverage c"
    and "stop_dist_bps plan > 0"
    and "\<not> beyond_stop_bound (stop_dist_bps plan) (rc_max_stop_bps c) 100
           (volume_scale_factor u (to_internal_ticker (plan_ticker plan)))"
proof -
  have all: "first_hit rules = None"
    if "set rules \<subseteq> set (plan_rules c u now plan st)" for rules
    using assms that by (auto simp: first_hit_None)
  have i: "0 < acc_starting_equity_usd st" "0 < plan_entry_price plan" "0 < rc_max_leverage c"
    using all [of "input_rules c plan st"] by (auto simp: plan_rules_def input_rules_def split: if_splits)
  have a: "first_hit (account_rules c plan st) = None" by (rule all) (auto simp: plan_rules_def)
  have daily: "- rc_max_daily_loss_pct c < daily_pnl_pct st"
    using a by (auto simp: account_rules_def Let_def split: if_splits)
  then have "- rc_max_daily_loss_pct c / 100 * acc_starting_equity_usd st
      < acc_realized_pnl_today_usd st + acc_unrealized_pnl_usd st"
    using i(1) by (simp add: daily_pnl_pct_def field_simps)
  then show "account_admits c plan st"
    using a by (auto simp: account_rules_def account_admits_def list_ex_iff Let_def split: if_splits)
  show "universe_admits c u now plan"
    using all [of "universe_rules c u now plan"]
    by (auto simp: plan_rules_def universe_rules_def universe_admits_def Let_def split: if_splits)
  have s: "first_hit (stop_rules c u plan) = None" by (rule all) (auto simp: plan_rules_def)
  have t: "first_hit (take_profit_rules c plan) = None" by (rule all) (auto simp: plan_rules_def)
  have "rc_min_stop_bps c \<le> stop_dist_bps plan" "stop_correct_side plan" "0 < plan_stop_price plan"
    using s by (auto simp: stop_rules_def Let_def split: if_splits)
  moreover have "0 < plan_tp1_price plan" "price_correct_side plan (plan_tp1_price plan)"
      "rc_min_rr_ratio c * \<bar>plan_entry_price plan - plan_stop_price plan\<bar>
         \<le> \<bar>plan_tp1_price plan - plan_entry_price plan\<bar>"
    using t by (auto simp: take_profit_rules_def Let_def split: if_splits)
  ultimately show "prices_admit c plan"
    using i(2) by (auto simp: prices_admit_def Let_def stop_correct_side_def price_correct_side_def
        stop_dist_bps_def field_simps)
  show "0 < acc_starting_equity_usd st" "0 < rc_max_leverage c" using i by auto
  show "stop_dist_bps plan > 0" "\<not> beyond_stop_bound (stop_dist_bps plan) (rc_max_stop_bps c) 100
           (volume_scale_factor u (to_internal_ticker (plan_ticker plan)))"
    using s by (auto simp: stop_rules_def Let_def split: if_splits)
qed

lemma accepted_late:
  assumes "evaluate u nc now later plan st rm = (d, rm')" "rd_accepted d"
  shows "\<not> news_near (rm_cfg rm) nc now (to_internal_ticker (plan_ticker plan))"
    "\<not> funding_pre rm now (to_internal_ticker (plan_ticker plan))"
    "\<not> funding_post rm now (to_internal_ticker (plan_ticker plan))"
    "\<not> slippage_bad (rm_cfg rm) plan st"
proof -
  let ?rm = "clear_loss_streak (trim_trade_history now rm)"
  have frame: "rm_cfg ?rm = rm_cfg rm" "rm_funding_times ?rm = rm_funding_times rm"
      "rm_prev_funding_times ?rm = rm_prev_funding_times rm"
    by (simp_all add: clear_loss_streak_def trim_trade_history_def)
  then have "funding_pre ?rm = funding_pre rm" "funding_post ?rm = funding_post rm"
    by (simp_all only: funding_pre_def [abs_def] funding_post_def [abs_def])
  then show "\<not> news_near (rm_cfg rm) nc now (to_internal_ticker (plan_ticker plan))"
      "\<not> funding_pre rm now (to_internal_ticker (plan_ticker plan))"
      "\<not> funding_post rm now (to_internal_ticker (plan_ticker plan))"
      "\<not> slippage_bad (rm_cfg rm) plan st"
    using evaluate_accepted(6) [OF assms] frame by (auto simp: late_rules_def Let_def split: if_splits)
qed


section \<open>Size and risk\<close>

lemma floor_size_le: "0 < inc \<Longrightarrow> floor_size sz inc \<le> sz + inc / 1000000000"
proof -
  assume i: "0 < inc"
  have "real_of_int \<lfloor>sz / inc + 1 / 1000000000\<rfloor> * inc \<le> (sz / inc + 1 / 1000000000) * inc"
    using i by (intro mult_right_mono of_int_floor_le) simp
  also have "\<dots> = sz + inc / 1000000000" using i by (simp add: field_simps)
  finally show ?thesis by (simp add: floor_size_def)
qed

lemma floor_size_le_multiple:
  assumes "0 < inc" "sz \<le> real_of_int n * inc"
  shows "floor_size sz inc \<le> real_of_int n * inc"
proof -
  have "sz / inc \<le> real_of_int n" using assms by (simp add: pos_divide_le_eq)
  then have "\<lfloor>sz / inc + 1 / 1000000000\<rfloor> \<le> n" by linarith
  then show ?thesis using assms(1) by (simp add: floor_size_def)
qed

lemma final_size_le_first:
  assumes "size_normalised m" "0 < plan_entry_price plan"
  shows "final_size c m plan st \<le> first_size c m plan st"
proof (cases "max_val_usd c st < first_size c m plan st * plan_entry_price plan")
  case True
  have inc: "0 < tm_size_increment m" using assms(1) by (simp add: size_normalised_def)
  have "\<exists>n :: int. first_size c m plan st = real_of_int n * tm_size_increment m"
    using assms(1) by (auto simp: first_size_def floor_size_def)
  then obtain n :: int where n: "first_size c m plan st = real_of_int n * tm_size_increment m" by blast
  have "max_val_usd c st / plan_entry_price plan \<le> first_size c m plan st"
    using True assms(2) by (simp add: pos_divide_le_eq)
  then have "capped_size c m plan st \<le> real_of_int n * tm_size_increment m"
    using floor_size_le_multiple [OF inc] n by (simp add: capped_size_def inc)
  then show ?thesis using True by (simp add: final_size_def n)
qed (simp add: final_size_def)

lemma risk_of_size_eq: "0 < plan_entry_price plan \<Longrightarrow>
    risk_of_size plan sz = sz * \<bar>plan_entry_price plan - plan_stop_price plan\<bar>"
  by (simp add: risk_of_size_def stop_dist_bps_def field_simps)

lemma first_size_risk:
  assumes "size_normalised m" "0 < plan_entry_price plan" "0 < stop_dist_bps plan"
  shows "risk_of_size plan (first_size c m plan st)
    \<le> risk_usd_target c st
        + tm_size_increment m / 1000000000 * \<bar>plan_entry_price plan - plan_stop_price plan\<bar>"
proof -
  let ?d = "\<bar>plan_entry_price plan - plan_stop_price plan\<bar>"
  have d: "plan_entry_price plan * stop_dist_bps plan / 10000 = ?d" "0 < ?d"
    using assms(2,3) by (auto simp: stop_dist_bps_def zero_less_divide_iff zero_less_mult_iff)
  have "first_size c m plan st \<le> risk_usd_target c st / ?d + tm_size_increment m / 1000000000"
    using assms(1) floor_size_le by (simp add: first_size_def raw_size_def d(1) size_normalised_def)
  then have "first_size c m plan st * ?d \<le> (risk_usd_target c st / ?d + tm_size_increment m / 1000000000) * ?d"
    using d(2) by (intro mult_right_mono) auto
  also have "\<dots> = risk_usd_target c st + tm_size_increment m / 1000000000 * ?d"
    using d(2) by (simp add: distrib_right)
  finally show ?thesis using risk_of_size_eq [OF assms(2)] by simp
qed

lemma final_size_value:
  assumes "size_normalised m" "0 < plan_entry_price plan"
  shows "final_size c m plan st * plan_entry_price plan
    \<le> max_val_usd c st + tm_size_increment m / 1000000000 * plan_entry_price plan"
proof (cases "max_val_usd c st < first_size c m plan st * plan_entry_price plan")
  case True
  have inc: "0 < tm_size_increment m" using assms(1) by (simp add: size_normalised_def)
  have "final_size c m plan st \<le> max_val_usd c st / plan_entry_price plan + tm_size_increment m / 1000000000"
    using True floor_size_le [OF inc] by (simp add: final_size_def capped_size_def inc)
  then have "final_size c m plan st * plan_entry_price plan
      \<le> (max_val_usd c st / plan_entry_price plan + tm_size_increment m / 1000000000) * plan_entry_price plan"
    using assms(2) by (intro mult_right_mono) auto
  then show ?thesis using assms(2) by (simp add: distrib_right)
next
  case False
  have "0 \<le> tm_size_increment m / 1000000000 * plan_entry_price plan"
    using assms by (simp add: size_normalised_def)
  then show ?thesis using False by (simp add: final_size_def)
qed

text \<open>C12. The sizing of an accepted plan respects its caps: the size is a whole number of size
  increments and no smaller in risk than reported, the risk to the stop is at most the configured
  share of the equity and the position's value at most the configured share, each up to the
  billionth of an increment that the rounding tolerates.\<close>

theorem accepted_size_bounds:
  assumes "evaluate u nc now later plan st rm = (d, rm')" "rd_accepted d"
    and "size_normalised (plan_meta u plan)"
  shows "(\<exists>n :: int. rd_adjusted_size_coin d = real_of_int n * tm_size_increment (plan_meta u plan))
    \<and> rd_risk_usd d = rd_adjusted_size_coin d * \<bar>plan_entry_price plan - plan_stop_price plan\<bar>
    \<and> rd_risk_usd d \<le> acc_equity_usd st * rc_max_per_trade_risk_pct (rm_cfg rm) / 100
        + tm_size_increment (plan_meta u plan) / 1000000000 * \<bar>plan_entry_price plan - plan_stop_price plan\<bar>
    \<and> rd_adjusted_size_coin d * plan_entry_price plan
        \<le> acc_equity_usd st * rc_max_position_value_pct (rm_cfg rm) / 100
        + tm_size_increment (plan_meta u plan) / 1000000000 * plan_entry_price plan"
proof -
  let ?c = "rm_cfg rm" and ?m = "plan_meta u plan"
  let ?sz = "final_size ?c ?m plan st"
  note acc = evaluate_accepted [OF assms(1,2)]
  note adm = account_rules_admit [OF acc(1)]
  have e: "0 < plan_entry_price plan" using adm(3) by (simp add: prices_admit_def Let_def)
  have n: "\<exists>n :: int. ?sz = real_of_int n * tm_size_increment ?m"
    using assms(3) by (auto simp: final_size_def first_size_def capped_size_def floor_size_def
        size_normalised_def Let_def)
  have "risk_of_size plan ?sz \<le> risk_of_size plan (first_size ?c ?m plan st)"
    using final_size_le_first [OF assms(3) e] by (simp add: risk_of_size_eq [OF e] mult_right_mono)
  with first_size_risk [OF assms(3) e adm(6)]
  have "risk_of_size plan ?sz \<le> risk_usd_target ?c st
      + tm_size_increment ?m / 1000000000 * \<bar>plan_entry_price plan - plan_stop_price plan\<bar>"
    by (rule order_trans [rotated])
  then show ?thesis
    using n final_size_value [OF assms(3) e, of ?c st] risk_of_size_eq [OF e]
    by (simp add: acc(7) risk_usd_target_def max_val_usd_def)
qed

section \<open>Runs of the gate\<close>

text \<open>
  A run at a clock that never goes back, with the times of the acceptances in order. The
  universe, the calendar, the plan and the account are different for every evaluation.
\<close>

inductive risk_run :: "risk_config \<Rightarrow> risk_manager \<Rightarrow> time_point list \<Rightarrow> time_point \<Rightarrow> bool"
  for cfg :: risk_config where
  start: "risk_run cfg (risk_manager_new cfg) [] t"
| evaluation: "risk_run cfg rm acc t \<Longrightarrow> t \<le> now \<Longrightarrow> now \<le> later \<Longrightarrow>
     evaluate u nc now later plan st rm = (d, rm') \<Longrightarrow>
     risk_run cfg rm' (if rd_accepted d then acc @ [later] else acc) later"
| trade_end: "risk_run cfg rm acc t \<Longrightarrow> risk_run cfg (record_trade_end l ts rm) acc t"
| funding: "risk_run cfg rm acc t \<Longrightarrow> risk_run cfg (update_funding_time k ts n rm) acc t"

definition trades_window :: "risk_config \<Rightarrow> duration" where
  "trades_window c = minutes (rc_trades_window_min c)"

definition trades_limit :: "risk_config \<Rightarrow> int" where
  "trades_limit c = size_t_of (rc_max_trades_per_window c)"

definition in_window :: "duration \<Rightarrow> time_point \<Rightarrow> time_point list \<Rightarrow> time_point list" where
  "in_window w s acc = filter (\<lambda>x. s \<le> x \<and> x \<le> s + w) acc"

definition rate_inv :: "risk_config \<Rightarrow> risk_manager \<Rightarrow> time_point list \<Rightarrow> time_point \<Rightarrow> bool" where
  "rate_inv c rm acc t \<longleftrightarrow>
     rm_cfg rm = c \<and> int (length (rm_trade_history rm)) \<le> trades_limit c \<and>
     (\<exists>old. acc = old @ rm_trade_history rm \<and> (\<forall>x \<in> set old. trades_window c < t - x)) \<and>
     (\<forall>s. int (length (in_window (trades_window c) s acc)) \<le> trades_limit c)"

lemma rate_inv_later: "rate_inv c rm acc t \<Longrightarrow> t \<le> t' \<Longrightarrow> rate_inv c rm acc t'"
  by (force simp: rate_inv_def)

lemma trim_trade_history_cfg [simp]: "rm_cfg (trim_trade_history now rm) = rm_cfg rm"
  by (simp add: trim_trade_history_def)

lemma rate_inv_trim:
  assumes inv: "rate_inv c rm acc t" and cap: "trades_limit c \<le> rc_max_trade_history c" and t: "t \<le> now"
  shows "rate_inv c (trim_trade_history now rm) acc now"
proof -
  obtain old where old: "acc = old @ rm_trade_history rm" "\<forall>x \<in> set old. trades_window c < t - x"
    using inv by (auto simp: rate_inv_def)
  let ?P = "\<lambda>x. trades_window c < now - x"
  have h: "rm_trade_history (trim_trade_history now rm) = dropWhile ?P (rm_trade_history rm)"
    using inv cap by (simp add: trim_trade_history_def pop_old_def pop_over_def rate_inv_def trades_window_def)
  have "acc = (old @ takeWhile ?P (rm_trade_history rm)) @ dropWhile ?P (rm_trade_history rm)"
    using old by simp
  moreover have "\<forall>x \<in> set (old @ takeWhile ?P (rm_trade_history rm)). ?P x"
    using old t set_takeWhileD by fastforce
  moreover have "int (length (dropWhile ?P (rm_trade_history rm))) \<le> trades_limit c"
    using inv length_dropWhile_le [of ?P "rm_trade_history rm"] by (simp add: rate_inv_def)
  ultimately show ?thesis
    using inv unfolding rate_inv_def h by (metis trim_trade_history_cfg)
qed

lemma rate_inv_push:
  assumes inv: "rate_inv c rm acc now" and room: "int (length (rm_trade_history rm)) < trades_limit c" and t: "now \<le> later"
  shows "rate_inv c (rm\<lparr>rm_trade_history := rm_trade_history rm @ [later]\<rparr>) (acc @ [later]) later"
proof -
  obtain old where old: "acc = old @ rm_trade_history rm" "\<forall>x \<in> set old. trades_window c < now - x"
    using inv by (auto simp: rate_inv_def)
  have "int (length (in_window (trades_window c) s (acc @ [later]))) \<le> trades_limit c" for s
  proof (cases "s \<le> later \<and> later \<le> s + trades_window c")
    case True
    then have "in_window (trades_window c) s old = []"
      using old(2) t by (force simp: in_window_def filter_empty_conv)
    then have "length (in_window (trades_window c) s acc) \<le> length (rm_trade_history rm)"
      by (simp add: old(1) in_window_def)
    then show ?thesis using True room by (simp add: in_window_def)
  next
    case False
    then have "in_window (trades_window c) s (acc @ [later]) = in_window (trades_window c) s acc"
      by (auto simp: in_window_def)
    then show ?thesis using inv by (simp add: rate_inv_def)
  qed
  moreover have "\<forall>x \<in> set old. trades_window c < later - x" using old(2) t by force
  ultimately show ?thesis using inv room old(1) by (auto simp: rate_inv_def)
qed

lemma clear_loss_streak_frame [simp]:
  "rm_cfg (clear_loss_streak rm) = rm_cfg rm"
  "rm_trade_history (clear_loss_streak rm) = rm_trade_history rm"
  by (simp_all add: clear_loss_streak_def)

lemma rate_inv_cong:
  "rate_inv c rm acc t \<Longrightarrow> rm_cfg rm' = rm_cfg rm \<Longrightarrow> rm_trade_history rm' = rm_trade_history rm \<Longrightarrow>
     rate_inv c rm' acc t"
  by (simp add: rate_inv_def)

lemma rate_inv_evaluate:
  assumes inv: "rate_inv c rm acc t" and cap: "trades_limit c \<le> rc_max_trade_history c"
    and t: "t \<le> now" "now \<le> later" and ev: "evaluate u nc now later plan st rm = (d, rm')"
  shows "rate_inv c rm' (if rd_accepted d then acc @ [later] else acc) later"
proof (cases "rd_accepted d")
  case True
  note acc = evaluate_accepted [OF ev True]
  let ?rm = "clear_loss_streak (trim_trade_history now rm)"
  have i: "rate_inv c ?rm acc now"
    by (rule rate_inv_cong [OF rate_inv_trim [OF inv cap t(1)]]) simp_all
  moreover have "int (length (rm_trade_history ?rm)) < trades_limit c"
    using acc(4) inv by (simp add: rate_limited_def trades_limit_def trim_trade_history_def rate_inv_def)
  ultimately show ?thesis using True rate_inv_push [of c ?rm acc now later] t(2) by (simp only: acc(8) if_True)
next
  case False
  have "rate_inv c rm' acc later"
    using evaluate_rejected [OF ev False]
  proof (elim disjE)
    assume "rm' = rm"
    then show ?thesis using rate_inv_later [OF inv] t by simp
  next
    assume "rm' = trim_trade_history now rm"
    then show ?thesis using rate_inv_later [OF rate_inv_trim [OF inv cap t(1)] t(2)] by simp
  next
    assume "rm' = clear_loss_streak (trim_trade_history now rm)"
    then show ?thesis
      using rate_inv_cong [OF rate_inv_later [OF rate_inv_trim [OF inv cap t(1)] t(2)]] by simp
  qed
  then show ?thesis using False by simp
qed

lemma risk_run_rate:
  assumes "risk_run cfg rm acc t" "trades_limit cfg \<le> rc_max_trade_history cfg"
  shows "rate_inv cfg rm acc t"
  using assms
proof (induction rule: risk_run.induct)
  case (start t)
  then show ?case by (simp add: rate_inv_def risk_manager_new_def in_window_def trades_limit_def size_t_of_def)
next
  case (evaluation rm acc t now later u nc plan st d rm')
  then show ?case using rate_inv_evaluate by blast
next
  case (trade_end rm acc t l ts)
  then show ?case by (auto intro: rate_inv_cong simp: record_trade_end_def Let_def)
next
  case (funding rm acc t k ts n)
  then show ?case
    by (auto intro!: rate_inv_cong [of cfg rm] simp: update_funding_time_def Let_def split: option.splits)
qed

text \<open>C11. The rate limit holds over every run, whatever plans are evaluated and however trades end:
  no interval as long as the configured window contains more acceptances than the configured
  limit, provided the history may hold that many.\<close>

theorem acceptance_rate_limited:
  assumes "risk_run cfg rm acc t" "trades_limit cfg \<le> rc_max_trade_history cfg"
  shows "int (length (in_window (trades_window cfg) s acc)) \<le> trades_limit cfg"
  using risk_run_rate [OF assms] by (simp add: rate_inv_def)

section \<open>The circuit breaker\<close>

definition record_losses :: "time_point list \<Rightarrow> risk_manager \<Rightarrow> risk_manager" where
  "record_losses ts rm = fold (record_trade_end True) ts rm"

type_synonym evaluation_request =
  "universe \<times> news_calendar \<times> time_point \<times> time_point \<times> trade_plan \<times> account_state"

fun evaluate_all ::
  "evaluation_request list \<Rightarrow> risk_manager \<Rightarrow> risk_decision list \<times> risk_manager" where
  "evaluate_all [] rm = ([], rm)"
| "evaluate_all ((u, nc, now, later, plan, st) # es) rm =
     (case evaluate u nc now later plan st rm of
        (d, rm') \<Rightarrow> (case evaluate_all es rm' of (ds, rm'') \<Rightarrow> (d # ds, rm'')))"

lemma cooling_off_rejects:
  assumes "cooling_off now rm" "evaluate u nc now later plan st rm = (d, rm')"
  shows "\<not> rd_accepted d \<and> rm_last_loss_streak_ts rm' = rm_last_loss_streak_ts rm \<and> rm_cfg rm' = rm_cfg rm"
  using assms
  by (auto simp: evaluate_def Let_def reject_def cooling_off_def trim_trade_history_def
      split: option.splits if_splits)

lemma cooling_off_rejects_all:
  assumes "rm_last_loss_streak_ts rm = ts" "ts \<noteq> 0"
    and "\<forall>(u, nc, now, later, plan, st) \<in> set es. now - ts < minutes (rc_loss_streak_cooloff_min (rm_cfg rm))"
  shows "\<forall>d \<in> set (fst (evaluate_all es rm)). \<not> rd_accepted d"
  using assms
proof (induction es arbitrary: rm)
  case Nil
  then show ?case by simp
next
  case (Cons e es)
  obtain u nc now later plan st where e: "e = (u, nc, now, later, plan, st)" by (cases e) auto
  obtain d rm' where ev: "evaluate u nc now later plan st rm = (d, rm')" by fastforce
  have "cooling_off now rm" using Cons.prems by (simp add: e cooling_off_def)
  note c = cooling_off_rejects [OF this ev]
  have "\<forall>d \<in> set (fst (evaluate_all es rm')). \<not> rd_accepted d"
    by (rule Cons.IH) (use c Cons.prems in auto)
  then show ?case using c by (simp add: e ev split: prod.splits)
qed

text \<open>Recording an end keeps the recent entries and appends the new one.\<close>

lemma dropWhile_keeps: "\<forall>y \<in> set ys. \<not> P y \<Longrightarrow> \<exists>xs'. dropWhile P (xs @ ys) = xs' @ ys"
  by (induction xs) (auto simp: dropWhile_eq_self_iff intro: exI [of _ "[]"] dest: hd_in_set)

lemma record_trade_end_suffix:
  assumes h: "rm_loss_history rm = xs @ ys" and cap: "int (length ys) < rc_max_loss_history (rm_cfg rm)"
    and w: "\<forall>y \<in> set ys. ts - fst y \<le> minutes (rc_loss_streak_window_min (rm_cfg rm))"
      "0 \<le> rc_loss_streak_window_min (rm_cfg rm)"
  shows "\<exists>xs'. rm_loss_history (record_trade_end l ts rm) = xs' @ ys @ [(ts, l)]"
proof -
  let ?all = "xs @ ys @ [(ts, l)]" and ?n = "rc_max_loss_history (rm_cfg rm)"
  have "pop_over ?n ?all = drop (nat (int (length ?all) - ?n)) xs @ ys @ [(ts, l)]"
    using cap by (simp add: pop_over_def)
  moreover obtain zs where "pop_old fst (minutes (rc_loss_streak_window_min (rm_cfg rm))) ts
      (drop (nat (int (length ?all) - ?n)) xs @ ys @ [(ts, l)]) = zs @ ys @ [(ts, l)]"
    using dropWhile_keeps [of "ys @ [(ts, l)]"
        "\<lambda>x. minutes (rc_loss_streak_window_min (rm_cfg rm)) < ts - fst x" "drop (nat (int (length ?all) - ?n)) xs"] w
    by (fastforce simp: pop_old_def minutes_def)
  ultimately show ?thesis by (simp add: record_trade_end_def Let_def h)
qed

lemma record_trade_end_cfg [simp]: "rm_cfg (record_trade_end l ts rm) = rm_cfg rm"
  by (simp add: record_trade_end_def Let_def)

lemma record_trade_end_last:
  "rm_last_loss_streak_ts (record_trade_end l ts rm) =
     (if rc_max_consecutive_losses (rm_cfg rm) \<le> consecutive_losses (rm_loss_history (record_trade_end l ts rm))
      then ts else rm_last_loss_streak_ts rm)"
  by (simp add: record_trade_end_def Let_def)

lemma record_losses_cfg [simp]: "rm_cfg (record_losses ts rm) = rm_cfg rm"
  by (induction ts arbitrary: rm) (simp_all add: record_losses_def)

lemma record_losses_suffix:
  assumes "sorted ts" "int (length ts) \<le> rc_max_loss_history (rm_cfg rm)"
    "\<forall>x \<in> set ts. \<forall>y \<in> set ts. y - x \<le> minutes (rc_loss_streak_window_min (rm_cfg rm))"
    "0 \<le> rc_loss_streak_window_min (rm_cfg rm)"
  shows "\<exists>xs. rm_loss_history (record_losses ts rm) = xs @ map (\<lambda>t. (t, True)) ts"
  using assms
proof (induction ts rule: rev_induct)
  case Nil
  then show ?case by (simp add: record_losses_def)
next
  case (snoc t ts)
  then obtain xs where xs: "rm_loss_history (record_losses ts rm) = xs @ map (\<lambda>t. (t, True)) ts"
    by (auto simp: sorted_append)
  have "record_losses (ts @ [t]) rm = record_trade_end True t (record_losses ts rm)"
    by (simp add: record_losses_def)
  then show ?case
    using record_trade_end_suffix [OF xs, of t True] snoc.prems by simp
qed

lemma consecutive_losses_suffix: "int (length ys) \<le> consecutive_losses (xs @ map (\<lambda>t. (t, True)) ys)"
  by (simp add: consecutive_losses_def rev_map takeWhile_append)

lemma record_losses_arms:
  assumes "sorted ts" "ts \<noteq> []" "int (length ts) \<le> rc_max_loss_history (rm_cfg rm)"
    "\<forall>x \<in> set ts. \<forall>y \<in> set ts. y - x \<le> minutes (rc_loss_streak_window_min (rm_cfg rm))"
    "0 \<le> rc_loss_streak_window_min (rm_cfg rm)"
    "rc_max_consecutive_losses (rm_cfg rm) \<le> int (length ts)"
  shows "rm_last_loss_streak_ts (record_losses ts rm) = last ts"
proof -
  obtain us t where ts: "ts = us @ [t]" using assms(2) by (metis rev_exhaust)
  have eq: "record_losses ts rm = record_trade_end True t (record_losses us rm)"
    by (simp add: record_losses_def ts)
  obtain xs where "rm_loss_history (record_losses ts rm) = xs @ map (\<lambda>t. (t, True)) ts"
    using record_losses_suffix [of ts rm] assms by auto
  then have "rc_max_consecutive_losses (rm_cfg rm) \<le> consecutive_losses (rm_loss_history (record_losses ts rm))"
    using consecutive_losses_suffix [of ts xs] assms(6) by simp
  then show ?thesis unfolding eq by (simp add: record_trade_end_last ts)
qed

text \<open>C29. The circuit breaker holds: after as many losses in a row as configured, all within the loss
  window, no plan is accepted before the cooling-off period after the last of them has passed,
  whatever plans are evaluated in the meantime.\<close>

theorem loss_streak_blocks:
  assumes "sorted ts" "ts \<noteq> []" "last ts \<noteq> 0" "int (length ts) \<le> rc_max_loss_history (rm_cfg rm)"
    and "\<forall>x \<in> set ts. \<forall>y \<in> set ts. y - x \<le> minutes (rc_loss_streak_window_min (rm_cfg rm))"
    and "0 \<le> rc_loss_streak_window_min (rm_cfg rm)"
    and "rc_max_consecutive_losses (rm_cfg rm) \<le> int (length ts)"
    and "\<forall>(u, nc, now, later, plan, st) \<in> set es.
           now < last ts + minutes (rc_loss_streak_cooloff_min (rm_cfg rm))"
  shows "\<forall>d \<in> set (fst (evaluate_all es (record_losses ts rm))). \<not> rd_accepted d"
proof (rule cooling_off_rejects_all)
  show "rm_last_loss_streak_ts (record_losses ts rm) = last ts"
    using record_losses_arms assms by simp
  show "\<forall>(u, nc, now, later, plan, st) \<in> set es.
      now - last ts < minutes (rc_loss_streak_cooloff_min (rm_cfg (record_losses ts rm)))"
    using assms(8) by (fastforce simp: algebra_simps)
qed (rule assms(3))

section \<open>Funding\<close>

lemma to_seconds_nonneg: "0 \<le> d \<Longrightarrow> to_seconds d = d div 1000000000"
  by (simp add: to_seconds_def cdiv_nonneg)

lemma funding_pre_iff:
  assumes "map_of (rm_funding_times rm) key = Some F" "now \<le> F"
  shows "funding_pre rm now key \<longleftrightarrow>
    seconds 1 \<le> F - now \<and> F - now < seconds (rc_funding_blackout_pre_sec (rm_cfg rm) + 1)"
proof -
  have "to_seconds (F - now) = (F - now) div 1000000000" using assms(2) by (simp add: to_seconds_nonneg)
  then show ?thesis by (simp add: funding_pre_def assms(1) Let_def seconds_def) arith
qed

lemma funding_post_iff:
  assumes "map_of (rm_prev_funding_times rm) key = Some F" "F \<le> now"
  shows "funding_post rm now key \<longleftrightarrow> now - F < seconds (rc_funding_blackout_post_sec (rm_cfg rm) + 1)"
proof -
  have "to_seconds (now - F) = (now - F) div 1000000000" using assms(2) by (simp add: to_seconds_nonneg)
  then show ?thesis using assms(2) by (simp add: funding_post_def assms(1) Let_def seconds_def) arith
qed

lemma update_funding_time_next:
  "map_of (rm_funding_times (update_funding_time t F n rm)) (to_internal_ticker t) = Some F"
  by (simp add: update_funding_time_def Let_def)

lemma update_funding_time_prev:
  "map_of (rm_funding_times rm) (to_internal_ticker t) = Some F \<Longrightarrow>
   map_of (rm_prev_funding_times (update_funding_time t F' n rm)) (to_internal_ticker t) = Some F"
  by (simp add: update_funding_time_def Let_def)

lemma update_funding_time_cfg [simp]: "rm_cfg (update_funding_time t F n rm) = rm_cfg rm"
  by (simp add: update_funding_time_def Let_def split: option.splits)

text \<open>Around a funding event announced for a ticker no plan in it is accepted: from the start of
  the pre-window to one second before the event, and, once the next event has been announced,
  from the event to the end of the post-window.\<close>

theorem funding_window_blocks:
  assumes "to_internal_ticker (plan_ticker plan) = to_internal_ticker t"
    and "rm1 = update_funding_time t F n1 rm" "rm2 = update_funding_time t F' n2 rm1"
  shows "(seconds 1 \<le> F - now \<and> F - now < seconds (rc_funding_blackout_pre_sec (rm_cfg rm) + 1) \<longrightarrow>
           \<not> rd_accepted (fst (evaluate u nc now later plan st rm1)))
    \<and> (F \<le> now \<and> now < F + seconds (rc_funding_blackout_post_sec (rm_cfg rm) + 1) \<longrightarrow>
           \<not> rd_accepted (fst (evaluate u nc now later plan st rm2)))"
proof (intro conjI impI)
  assume w: "seconds 1 \<le> F - now \<and> F - now < seconds (rc_funding_blackout_pre_sec (rm_cfg rm) + 1)"
  then have "funding_pre rm1 now (to_internal_ticker (plan_ticker plan))"
    using funding_pre_iff [OF update_funding_time_next, of now F t n1 rm]
    by (simp add: assms(1,2) seconds_def)
  then show "\<not> rd_accepted (fst (evaluate u nc now later plan st rm1))"
    using accepted_late [OF surjective_pairing] by metis
next
  assume w: "F \<le> now \<and> now < F + seconds (rc_funding_blackout_post_sec (rm_cfg rm) + 1)"
  have "map_of (rm_prev_funding_times rm2) (to_internal_ticker t) = Some F"
    by (simp add: assms(2,3) update_funding_time_prev update_funding_time_next)
  from funding_post_iff [OF this, of now] w
  have "funding_post rm2 now (to_internal_ticker (plan_ticker plan))" by (simp add: assms)
  then show "\<not> rd_accepted (fst (evaluate u nc now later plan st rm2))"
    using accepted_late [OF surjective_pairing] by metis
qed

text \<open>The truncation to whole seconds leaves the last second before the event open.\<close>

lemma funding_last_second_open:
  assumes "now \<le> F" "F - now < seconds 1"
  shows "\<not> funding_pre (update_funding_time t F n rm) now (to_internal_ticker t)"
  using funding_pre_iff [OF update_funding_time_next assms(1)] assms(2) by simp

section \<open>Concrete decisions\<close>

definition sample_risk_config :: risk_config where
  "sample_risk_config = risk_config_default\<lparr>rc_whitelist_tickers := [''BTC'']\<rparr>"

definition sample_plan :: trade_plan where
  "sample_plan = trade_plan_default\<lparr>plan_ticker := ''BTC'', plan_side := Buy, plan_entry_price := 100,
     plan_stop_price := 999 / 10, plan_tp1_price := 1002 / 10\<rparr>"

definition sample_account :: account_state where
  "sample_account =
     \<lparr>acc_equity_usd = 10000, acc_starting_equity_usd = 10000, acc_realized_pnl_today_usd = 0,
      acc_finres_day_start_result_usd = 0, acc_unrealized_pnl_usd = 0, acc_free_balance_usd = 10000,
      acc_mark_price = 0, acc_active_positions = 0, acc_active_tickers = [],
      acc_trading_day_start = 0, acc_kill_switch_triggered = False\<rparr>"

definition sample_evaluate :: "time_point \<Rightarrow> risk_manager \<Rightarrow> risk_decision \<times> risk_manager" where
  "sample_evaluate now rm =
     evaluate (universe_new universe_config_default) news_calendar_new now now sample_plan sample_account rm"

definition sample_rm :: risk_manager where "sample_rm = risk_manager_new sample_risk_config"

lemma sample_accepted:
  "rd_accepted (fst (sample_evaluate 1 sample_rm))"
  "rd_adjusted_size_coin (fst (sample_evaluate 1 sample_rm)) = 10"
  "rd_risk_usd (fst (sample_evaluate 1 sample_rm)) = 1"
  by code_simp+

lemma sample_evaluation:
  "evaluate (universe_new universe_config_default) news_calendar_new 1 1 sample_plan sample_account sample_rm
    = (fst (sample_evaluate 1 sample_rm), snd (sample_evaluate 1 sample_rm))"
  by (simp add: sample_evaluate_def)

lemma sample_rm_cfg: "rm_cfg sample_rm = sample_risk_config"
  by (simp add: sample_rm_def risk_manager_new_def)


lemma accepted_size_bounds_witness:
  "rd_adjusted_size_coin (fst (sample_evaluate 1 sample_rm)) * 100 \<le> 1000 + 1 / 1000000 / 1000000000 * 100"
proof -
  have m: "plan_meta (universe_new universe_config_default) sample_plan = default_meta"
      "size_normalised default_meta" "tm_size_increment default_meta = 1 / 1000000"
      "acc_equity_usd sample_account = 10000" "plan_entry_price sample_plan = 100"
      "rc_max_position_value_pct (rm_cfg sample_rm) = 10" by code_simp+
  have "size_normalised (plan_meta (universe_new universe_config_default) sample_plan)"
    by (simp only: m)
  from accepted_size_bounds [OF sample_evaluation sample_accepted(1) this]
  show ?thesis unfolding m by simp
qed

lemma acceptance_rate_limited_witness:
  "length (in_window (seconds 300) 1 [1]) \<le> 6"
proof -
  have "risk_run sample_risk_config sample_rm [] 1" unfolding sample_rm_def by (rule risk_run.start)
  from risk_run.evaluation [OF this, of 1 1 "universe_new universe_config_default" news_calendar_new sample_plan
      sample_account "fst (sample_evaluate 1 sample_rm)" "snd (sample_evaluate 1 sample_rm)"]
  have run: "risk_run sample_risk_config (snd (sample_evaluate 1 sample_rm)) [1] 1"
    using sample_accepted(1) by (simp add: sample_evaluate_def)
  have "trades_limit sample_risk_config = 6" "trades_window sample_risk_config = seconds 300"
    "rc_max_trade_history sample_risk_config = 10000" by code_simp+
  with acceptance_rate_limited [OF run, of 1] show ?thesis by simp
qed

lemma loss_streak_blocks_witness:
  "\<not> rd_accepted (fst (sample_evaluate (seconds 300) (record_losses [seconds 1, seconds 2, seconds 3] sample_rm)))"
proof -
  have "rc_max_loss_history (rm_cfg sample_rm) = 10000" "rc_loss_streak_window_min (rm_cfg sample_rm) = 15"
    "rc_max_consecutive_losses (rm_cfg sample_rm) = 3" "rc_loss_streak_cooloff_min (rm_cfg sample_rm) = 10"
    by code_simp+
  then show ?thesis
    using loss_streak_blocks [of "[seconds 1, seconds 2, seconds 3]" sample_rm
      "[(universe_new universe_config_default, news_calendar_new, seconds 300, seconds 300, sample_plan, sample_account)]"]
    by (simp add: sample_evaluate_def seconds_def minutes_def split: prod.splits)
qed

lemma funding_window_blocks_witness:
  "\<not> rd_accepted (fst (sample_evaluate 0 (update_funding_time ''BTC'' (seconds 20) 0 sample_rm)))"
proof -
  have "to_internal_ticker (plan_ticker sample_plan) = to_internal_ticker ''BTC''"
    "rc_funding_blackout_pre_sec (rm_cfg sample_rm) = 30" by code_simp+
  then show ?thesis
    using funding_window_blocks [where plan = sample_plan and t = "''BTC''" and F = "seconds 20" and now = 0
        and rm = sample_rm and u = "universe_new universe_config_default", OF _ refl refl]
    by (simp add: sample_evaluate_def seconds_def)
qed

text \<open>
  The position value cap is applied after the minimum size is checked, so an accepted size may be
  below the exchange's minimum.
\<close>

lemma capped_size_below_minimum:
  "let u = cache_meta ''BTC'' \<lparr>tm_price_increment = 1 / 100, tm_size_increment = 1, tm_min_size = 20, tm_max_size = 0\<rparr>
             (universe_new universe_config_default);
       d = fst (evaluate u news_calendar_new 1 1 sample_plan sample_account sample_rm)
   in rd_accepted d \<and> rd_adjusted_size_coin d = 10"
  by code_simp

text \<open>A position is refused in a ticker already held even when hedging is allowed.\<close>

lemma hedge_refused_by_ticker_limit:
  "let st = sample_account\<lparr>acc_active_tickers := [''BTC''], acc_active_positions := 1\<rparr>;
       rm = risk_manager_new (sample_risk_config\<lparr>rc_allow_hedge := True\<rparr>)
   in rd_reason (fst (evaluate (universe_new universe_config_default) news_calendar_new 1 1 sample_plan st rm))
        = DuplicatePosition"
  by code_simp

text \<open>A second target below the documented ratio is accepted.\<close>

lemma tp2_ratio_unchecked:
  "rd_accepted (fst (evaluate (universe_new universe_config_default) news_calendar_new 1 1
     (sample_plan\<lparr>plan_tp2_price := Some (10001 / 100)\<rparr>) sample_account sample_rm))"
  by code_simp

end
