(* ===== verification/EngineSpec.thy ===== *)
theory EngineSpec
  imports Desk StrategyCases RiskSpec
begin

text \<open>
  What the engine lets through to the executor: over a signal or a tick only plans that the risk
  manager admits, and over a tick at most one plan per ticker, only of LeaderLag, and none in a
  News or Range regime. Signals bypass the regimes.
\<close>

section \<open>Places and the shape of the engine\<close>

lemma strategies_of_update [simp]:
  "strategies_of t (e\<lparr>en_ticker_strategies := omap_put (<) t' l (en_ticker_strategies e)\<rparr>) =
     (if t = t' then l else strategies_of t e)"
  by (simp add: strategies_of_def)

lemma strategies_of_global [simp]: "strategies_of t (e\<lparr>en_global_strategies := l\<rparr>) = strategies_of t e"
  by (simp add: strategies_of_def)

lemma strategy_at_put:
  "strategy_at r (put_strategy r' s e) =
     (if r = r' \<and> strategy_at r e \<noteq> None then Some s else strategy_at r e)"
  by (cases r; cases r') auto

lemma regimes_put [simp]: "en_regimes (put_strategy r s e) = en_regimes e"
  by (cases r) simp_all

text \<open>The name and ticker at every place: no operation but adding and removing changes them.\<close>

definition shape :: "engine \<Rightarrow> place \<Rightarrow> (string \<times> ticker) option" where
  "shape e r = map_option (\<lambda>s. (strat_name s, strat_ticker s)) (strategy_at r e)"

definition same_identity :: "strategy \<Rightarrow> strategy \<Rightarrow> bool" where
  "same_identity s s' \<longleftrightarrow> strat_name s = strat_name s' \<and> strat_ticker s = strat_ticker s'"

lemma shape_put:
  "strategy_at r e = Some s \<Longrightarrow> same_identity s s' \<Longrightarrow> shape (put_strategy r s' e) = shape e"
  by (auto simp: shape_def fun_eq_iff strategy_at_put same_identity_def)

lemma map_ticker_regimes [simp]: "en_regimes (map_ticker f t e) = en_regimes e"
  by (simp add: map_ticker_def split: option.split)

lemma strategies_of_map_ticker:
  "strategies_of t' (map_ticker f t e) = (if t' = t then map f (strategies_of t' e) else strategies_of t' e)"
  by (auto simp: map_ticker_def strategies_of_def split: option.split)

lemma strategy_at_map_ticker:
  "strategy_at r (map_ticker f t e) =
     (case r of OfTicker t' i \<Rightarrow> (if t' = t then map_option f (strategy_at r e) else strategy_at r e)
      | Global i \<Rightarrow> strategy_at r e)"
proof (cases r)
  case (Global i)
  then show ?thesis by (simp add: map_ticker_def split: option.split)
qed (simp add: strategies_of_map_ticker)

lemma shape_map_ticker: "(\<And>s. same_identity s (f s)) \<Longrightarrow> shape (map_ticker f t e) = shape e"
  by (auto simp: shape_def fun_eq_iff strategy_at_map_ticker same_identity_def
      option.map_comp split: place.split intro!: option.map_cong)

lemma same_identity_ops [simp]:
  "same_identity s (strat_reset s)" "same_identity s (strat_on_plan_accepted p s)"
  "same_identity s (snd (strat_tick c n s))" "same_identity s (snd (strat_on_signal g c n s))" "same_identity s s"
  by (simp_all add: same_identity_def strat.cleared_keeps strat.accepted_keeps strat.ticked_keeps strat.signalled_keeps)

lemma shape_reset_strategy_plan [simp]: "shape (reset_strategy_plan t nm e) = shape e"
  by (simp add: reset_strategy_plan_def shape_map_ticker)

lemma shape_notify [simp]: "shape (notify_plan_accepted p e) = shape e"
  by (simp add: notify_plan_accepted_def shape_map_ticker)

section \<open>What a callback keeps\<close>

lemma announce_inv:
  assumes "\<And>p we. Q (fst we) \<Longrightarrow> Q (fst (f p we))" "Q (fst we)"
  shows "Q (fst (announce (Some f) plan we))"
  using assms by (simp add: announce_def split: option.split)

lemma fold_inv: "(\<And>x s. x \<in> set xs \<Longrightarrow> Q s \<Longrightarrow> Q (g x s)) \<Longrightarrow> Q s \<Longrightarrow> Q (fold g xs s)"
  by (induction xs arbitrary: s) auto

lemma engine_on_signal_inv:
  assumes "\<And>p we. Q (fst we) \<Longrightarrow> Q (fst (f p we))" "Q (fst we)"
  shows "Q (fst (engine_on_signal (Some f) g clock now we))"
  unfolding engine_on_signal_def
proof (rule fold_inv [where Q = "\<lambda>we. Q (fst we)"])
  fix r and we :: "'a \<times> engine" assume "Q (fst we)"
  then show "Q (fst (signal_place (Some f) g clock (clock_or clock now) r we))"
    by (cases "strategy_at r (snd we)")
      (simp_all add: signal_place_def Let_def announce_inv [where Q = Q, OF assms(1)])
qed (rule assms(2))

lemma try_plans_inv:
  assumes "\<And>p we. Q (fst we) \<Longrightarrow> Q (fst (f p we))"
  shows "Q (fst we) \<Longrightarrow> Q (fst (try_plans f pws we))"
  by (induction pws arbitrary: we) (auto simp: Let_def assms)

lemma engine_tick_inv:
  assumes "\<And>p we. Q (fst we) \<Longrightarrow> Q (fst (f p we))" "Q (fst we)"
  shows "Q (fst (engine_tick (Some f) clock now we))"
proof -
  have "Q (fst (fold (emit_ticker (Some f)) scratch (fst we, e)))" for scratch e
  proof (rule fold_inv [where Q = "\<lambda>we. Q (fst we)"])
    fix tp and we :: "'a \<times> engine" assume "Q (fst we)"
    then show "Q (fst (emit_ticker (Some f) tp we))"
      using assms(1) by (simp add: emit_ticker_def case_prod_beta Let_def try_plans_inv)
  qed (simp add: assms(2))
  then show ?thesis by (simp add: engine_tick_def case_prod_beta)
qed

section \<open>Only admitted plans are submitted\<close>

text \<open>
  The plan behind a submission, what the rules of the gate say of it, and that the submission is
  this plan with the size of the decision, rounded to the ticks of the exchange.
\<close>

definition admitted :: "desk \<Rightarrow> time_point \<Rightarrow> traced_plan \<Rightarrow> bool" where
  "admitted w now p \<longleftrightarrow>
     (\<exists>q d. let cfg = rm_cfg (dk_risk w); plan = trade_plan.truncate q in
        p = sized_plan (desk_meta (dk_universe w) (plan_ticker q)) d q \<and> rd_accepted d \<and>
        (dk_live w \<longrightarrow> plan_strategy_name q \<noteq> ''FlushReversal'') \<and>
        is_affinity_stable (dk_universe w) (plan_ticker q) affinity_stable_min now \<and>
        account_admits cfg plan (dk_account w) \<and> universe_admits cfg (dk_universe w) now plan \<and>
        prices_admit cfg plan \<and>
        rd_adjusted_size_coin d * plan_entry_price plan
          \<le> acc_free_balance_usd (dk_account w) * rc_margin_safety_ratio cfg * real_of_int (rc_max_leverage cfg))"

definition same_desk :: "desk \<Rightarrow> desk \<Rightarrow> bool" where
  "same_desk w w' \<longleftrightarrow> dk_live w' = dk_live w \<and> dk_universe w' = dk_universe w \<and> dk_account w' = dk_account w \<and>
     rm_cfg (dk_risk w') = rm_cfg (dk_risk w)"

lemma admitted_same_desk: "same_desk w w' \<Longrightarrow> admitted w' now p = admitted w now p"
  by (simp add: admitted_def same_desk_def)

lemma clear_loss_streak_cfg [simp]: "rm_cfg (clear_loss_streak rm) = rm_cfg rm"
  by (simp add: clear_loss_streak_def)

lemma evaluate_cfg: "evaluate u nc now later plan st rm = (d, rm') \<Longrightarrow> rm_cfg rm' = rm_cfg rm"
  using evaluate_accepted(8) [of u nc now later plan st rm d rm'] evaluate_rejected [of u nc now later plan st rm d rm']
  by (cases "rd_accepted d") auto

lemma evaluate_admits:
  assumes "evaluate u nc now later plan st rm = (d, rm')" "rd_accepted d"
  shows "account_admits (rm_cfg rm) plan st \<and> universe_admits (rm_cfg rm) u now plan \<and> prices_admit (rm_cfg rm) plan \<and>
     rd_adjusted_size_coin d * plan_entry_price plan
        \<le> acc_free_balance_usd st * rc_margin_safety_ratio (rm_cfg rm) * real_of_int (rc_max_leverage (rm_cfg rm))"
  using account_rules_admit [OF evaluate_accepted(1) [OF assms]] evaluate_accepted(3,7) [OF assms]
  by (simp add: margin_bad_def not_less pos_divide_le_eq)

lemma desk_on_plan_cases:
  obtains (refused) "fst (desk_on_plan cfg now later p we) = fst we"
      "snd (desk_on_plan cfg now later p we) = reset_strategy_plan (plan_ticker p) (plan_strategy_name p) (snd we)"
  | (rejected) rm where "fst (desk_on_plan cfg now later p we) = (fst we)\<lparr>dk_risk := rm\<rparr>"
      "rm_cfg rm = rm_cfg (dk_risk (fst we))"
      "snd (desk_on_plan cfg now later p we) = reset_strategy_plan (plan_ticker p) (plan_strategy_name p) (snd we)"
  | (submitted) rm d where "rd_accepted d" "rm_cfg rm = rm_cfg (dk_risk (fst we))"
      "fst (desk_on_plan cfg now later p we) =
         (fst we)\<lparr>dk_risk := rm, dk_submitted := dk_submitted (fst we) @
            [sized_plan (desk_meta (dk_universe (fst we)) (plan_ticker p)) d p]\<rparr>"
      "snd (desk_on_plan cfg now later p we) =
         notify_plan_accepted (sized_plan (desk_meta (dk_universe (fst we)) (plan_ticker p)) d p) (snd we)"
      "admitted (fst we) now (sized_plan (desk_meta (dk_universe (fst we)) (plan_ticker p)) d p)"
proof -
  let ?w = "fst we"
  obtain d rm where ev: "evaluate (dk_universe ?w) (dk_news ?w) now later (trade_plan.truncate p) (dk_account ?w) (dk_risk ?w)
      = (d, rm)" by (cases "evaluate (dk_universe ?w) (dk_news ?w) now later (trade_plan.truncate p) (dk_account ?w) (dk_risk ?w)")
  consider "live_gated cfg ?w p \<or> \<not> is_affinity_stable (dk_universe ?w) (plan_ticker p) affinity_stable_min now"
    | "\<not> live_gated cfg ?w p" "is_affinity_stable (dk_universe ?w) (plan_ticker p) affinity_stable_min now" "\<not> rd_accepted d"
    | "\<not> live_gated cfg ?w p" "is_affinity_stable (dk_universe ?w) (plan_ticker p) affinity_stable_min now" "rd_accepted d"
    by blast
  then show ?thesis
  proof cases
    case 1
    then show ?thesis by (intro refused) (auto simp: desk_on_plan_def Let_def)
  next
    case 2
    then show ?thesis using ev evaluate_cfg [OF ev] by (intro rejected [of rm]) (auto simp: desk_on_plan_def Let_def)
  next
    case 3
    have "admitted ?w now (sized_plan (desk_meta (dk_universe ?w) (plan_ticker p)) d p)"
      unfolding admitted_def Let_def
      using 3 evaluate_admits [OF ev] by (intro exI [of _ p] exI [of _ d]) (auto simp: live_gated_def flush_live_gate_def)
    then show ?thesis using ev evaluate_cfg [OF ev] 3
      by (intro submitted [of d rm]) (auto simp: desk_on_plan_def Let_def)
  qed
qed

definition only_admitted :: "desk \<Rightarrow> time_point \<Rightarrow> desk \<Rightarrow> bool" where
  "only_admitted w now w' \<longleftrightarrow> same_desk w w' \<and>
     (\<exists>new. dk_submitted w' = dk_submitted w @ new \<and> list_all (admitted w now) new)"

lemma only_admitted_refl: "only_admitted w now w"
  by (simp add: only_admitted_def same_desk_def)

lemma only_admitted_on_plan:
  assumes "only_admitted w now (fst we)"
  shows "only_admitted w now (fst (desk_on_plan cfg now later p we))"
proof (cases rule: desk_on_plan_cases [of cfg now later p we])
  case (submitted rm d)
  then show ?thesis
    using assms admitted_same_desk [of w "fst we" now] by (auto simp: only_admitted_def same_desk_def)
qed (use assms in \<open>auto simp: only_admitted_def same_desk_def\<close>)


section \<open>The plans of a tick\<close>

definition engine_ok :: "engine \<Rightarrow> bool" where
  "engine_ok e \<longleftrightarrow>
     omap_ok (<) (en_ticker_strategies e) \<and> en_global_strategies e = [] \<and>
     list_all (\<lambda>(t, l). list_all (\<lambda>s. strat_ticker s = t) l \<and> distinct (map strat_name l)) (en_ticker_strategies e)"

definition shape_ok :: "(place \<Rightarrow> (string \<times> ticker) option) \<Rightarrow> bool" where
  "shape_ok sh \<longleftrightarrow>
     (\<forall>i. sh (Global i) = None) \<and> (\<forall>t i nm tk. sh (OfTicker t i) = Some (nm, tk) \<longrightarrow> tk = t) \<and>
     (\<forall>t i j x. sh (OfTicker t i) = Some x \<and> sh (OfTicker t j) = Some x \<longrightarrow> i = j)"

lemma engine_ok_strategies:
  "engine_ok e \<Longrightarrow> list_all (\<lambda>s. strat_ticker s = t) (strategies_of t e) \<and> distinct (map strat_name (strategies_of t e))"
  by (cases "map_of (en_ticker_strategies e) t")
    (auto simp: strategies_of_def engine_ok_def list_all_iff dest!: map_of_SomeD)

lemma engine_ok_shape:
  assumes "engine_ok e"
  shows "shape_ok (shape e)"
proof -
  have "i = j" if "i < length l" "j < length l" "distinct (map strat_name l)" "strat_name (l ! i) = strat_name (l ! j)" for i j l
    using that by (metis distinct_conv_nth length_map nth_map)
  then show ?thesis
    using assms engine_ok_strategies [OF assms]
    by (fastforce simp: shape_ok_def shape_def engine_ok_def list_all_length split: if_splits)
qed

lemma distinct_ticker_places: "distinct ts \<Longrightarrow> distinct (concat (map (\<lambda>t. ticker_places t e) ts))"
  by (induction ts) (auto simp: ticker_places_def distinct_map inj_on_def)

lemma engine_ok_places:
  assumes "engine_ok e" shows "distinct (all_places e)"
proof -
  have "distinct (map fst (en_ticker_strategies e))" "en_global_strategies e = []"
    using assms by (auto simp: engine_ok_def intro: asc.omap_ok_distinct)
  then show ?thesis
    by (simp add: all_places_def omap_keys_def global_places_def distinct_ticker_places del: map_map)
qed

lemma strat_tick_leader:
  "fst (strat_tick c n s) = Some p \<Longrightarrow> strat_name s = leader_name \<and> own_plan leader_name (strat_ticker s) p"
  using strat.ticked_plan [of c n s p]
  by (cases s) (auto simp: flush_tick_def bounce_tick_def breakout_tick_def)

text \<open>What the scratch map holds when some places have been visited: one plan of LeaderLag per ticker.\<close>

definition lone_plan :: "(place \<Rightarrow> (string \<times> ticker) option) \<Rightarrow> place set \<Rightarrow> ticker \<Rightarrow> planned list \<Rightarrow> bool" where
  "lone_plan sh visited t l \<longleftrightarrow>
     (\<exists>pw i. l = [pw] \<and> OfTicker t i \<in> visited \<and> sh (OfTicker t i) = Some (leader_name, t) \<and>
        own_plan leader_name t (pw_plan pw))"

definition scratch_ok ::
  "(place \<Rightarrow> (string \<times> ticker) option) \<Rightarrow> place set \<Rightarrow> (ticker, planned list) omap \<Rightarrow> bool" where
  "scratch_ok sh visited sc \<longleftrightarrow>
     omap_ok (<) sc \<and> (\<forall>t l. map_of sc t = Some l \<longrightarrow> lone_plan sh visited t l)"

lemma lone_plan_mono: "lone_plan sh visited t l \<Longrightarrow> lone_plan sh (insert r visited) t l"
  by (auto simp: lone_plan_def)

lemma collect_place_ok:
  assumes sh: "shape_ok sh" and r: "r \<notin> visited"
    and acc: "scratch_ok sh visited (fst acc)" "shape (snd acc) = sh"
  shows "scratch_ok sh (insert r visited) (fst (collect_place c n r acc)) \<and> shape (snd (collect_place c n r acc)) = sh \<and>
     en_regimes (snd (collect_place c n r acc)) = en_regimes (snd acc)"
proof (cases "strategy_at r (snd acc)")
  case None
  then show ?thesis using acc by (auto simp: collect_place_def scratch_ok_def lone_plan_mono)
next
  case (Some s)
  let ?e = "put_strategy r (snd (strat_tick c n s)) (snd acc)"
  have e: "shape ?e = sh" using shape_put [OF Some] acc by simp
  show ?thesis
  proof (cases "fst (strat_tick c n s)")
    case None
    then show ?thesis using acc Some e by (auto simp: collect_place_def scratch_ok_def lone_plan_mono Let_def)
  next
    case plan: (Some p)
    have lead: "strat_name s = leader_name" "own_plan leader_name (strat_ticker s) p"
      using strat_tick_leader [OF plan] by simp_all
    have shr: "sh r = Some (leader_name, strat_ticker s)" using acc(2) Some lead by (auto simp: shape_def)
    then obtain t i where ti: "r = OfTicker t i" using sh by (cases r) (auto simp: shape_ok_def)
    then have "strat_ticker s = t" using sh shr by (auto simp: shape_ok_def)
    with ti have ri: "r = OfTicker (strat_ticker s) i" by simp
    let ?t = "strat_ticker s"
    have free: "map_of (fst acc) ?t = None"
    proof (rule ccontr)
      assume "map_of (fst acc) ?t \<noteq> None"
      then obtain j where "OfTicker ?t j \<in> visited" "sh (OfTicker ?t j) = Some (leader_name, ?t)"
        using acc(1) by (auto simp: scratch_ok_def lone_plan_def)
      then show False using sh shr ri r unfolding shape_ok_def by metis
    qed
    have "plan_ticker p = ?t" using lead by (simp add: own_plan_def)
    then have "fst (collect_place c n r acc) =
        omap_put (<) ?t [\<lparr>pw_priority = strat_priority s, pw_plan = p, pw_place = r\<rparr>] (fst acc)"
      and "snd (collect_place c n r acc) = ?e"
      using Some plan free by (simp_all add: collect_place_def Let_def)
    moreover have "lone_plan sh (insert r visited) ?t [\<lparr>pw_priority = strat_priority s, pw_plan = p, pw_place = r\<rparr>]"
      using ri shr lead by (auto simp: lone_plan_def)
    ultimately show ?thesis
      using acc e by (auto simp: scratch_ok_def lone_plan_mono asc.omap_ok_put)
  qed
qed

lemma collect_places_ok:
  assumes sh: "shape_ok sh"
  shows "distinct rs \<Longrightarrow> set rs \<inter> visited = {} \<Longrightarrow> scratch_ok sh visited (fst acc) \<Longrightarrow> shape (snd acc) = sh \<Longrightarrow>
     (\<exists>visited'. scratch_ok sh visited' (fst (fold (collect_place c n) rs acc))) \<and>
     en_regimes (snd (fold (collect_place c n) rs acc)) = en_regimes (snd acc)"
proof (induction rs arbitrary: acc visited)
  case (Cons r rs)
  then show ?case
    using collect_place_ok [OF sh, of r visited acc c n] Cons.IH [of "insert r visited" "collect_place c n r acc"]
    by auto
qed auto

lemma regimes_reset_place [simp]: "en_regimes (reset_place r e) = en_regimes e"
  by (simp add: reset_place_def split: option.split)

lemma regimes_reset_places [simp]: "en_regimes (fold reset_place rs e) = en_regimes e"
  by (induction rs arbitrary: e) simp_all

lemma regimes_desk_on_plan [simp]: "en_regimes (snd (desk_on_plan cfg now later p we)) = en_regimes (snd we)"
  by (cases rule: desk_on_plan_cases [of cfg now later p we])
    (simp_all add: reset_strategy_plan_def notify_plan_accepted_def)

lemma sized_plan_sel [simp]:
  "plan_ticker (sized_plan m d p) = plan_ticker p" "plan_strategy_name (sized_plan m d p) = plan_strategy_name p"
  by (simp_all add: sized_plan_def Let_def)

definition allowed_in_tick :: "engine \<Rightarrow> traced_plan \<Rightarrow> bool" where
  "allowed_in_tick e p \<longleftrightarrow> plan_strategy_name p = leader_name \<and>
     current_regime (plan_ticker p) e \<noteq> NewsRegime \<and> current_regime (plan_ticker p) e \<noteq> RangeRegime"

lemma emit_lone:
  assumes "lone_plan sh visited t l"
  shows "en_regimes (snd (emit_ticker (Some (desk_on_plan cfg now later)) (t, l) we)) = en_regimes (snd we)"
    and "\<exists>new. dk_submitted (fst (emit_ticker (Some (desk_on_plan cfg now later)) (t, l) we)) = dk_submitted (fst we) @ new \<and>
           (new = [] \<or> (\<exists>p. new = [p] \<and> plan_ticker p = t \<and> allowed_in_tick (snd we) p))"
proof -
  let ?rg = "current_regime t (snd we)" and ?f = "desk_on_plan cfg now later"
  obtain pw where l: "l = [pw]" and own: "own_plan leader_name t (pw_plan pw)" using assms by (auto simp: lone_plan_def)
  let ?we = "(fst we, fold reset_place (snd (regime_filter ?rg l)) (snd we))"
  have emit: "emit_ticker (Some ?f) (t, l) we =
      (if ?rg = NewsRegime \<or> ?rg = RangeRegime then ?we else ?f (pw_plan pw) ?we)"
    using own by (cases ?rg)
      (simp_all add: emit_ticker_def Let_def l regime_filter_def suppress_def own_plan_def leader_name_def)
  show "en_regimes (snd (emit_ticker (Some ?f) (t, l) we)) = en_regimes (snd we)" by (simp add: emit)
  show "\<exists>new. dk_submitted (fst (emit_ticker (Some ?f) (t, l) we)) = dk_submitted (fst we) @ new \<and>
           (new = [] \<or> (\<exists>p. new = [p] \<and> plan_ticker p = t \<and> allowed_in_tick (snd we) p))"
  proof (cases "?rg = NewsRegime \<or> ?rg = RangeRegime")
    case False
    then show ?thesis
      unfolding emit using own
      by (cases rule: desk_on_plan_cases [of cfg now later "pw_plan pw" ?we])
        (auto simp: allowed_in_tick_def own_plan_def)
  qed (simp add: emit)
qed

lemma emit_all:
  assumes "distinct (map fst sc)" "\<forall>(t, l) \<in> set sc. \<exists>sh visited. lone_plan sh visited t l"
  shows "\<exists>new. dk_submitted (fst (fold (emit_ticker (Some (desk_on_plan cfg now later))) sc we)) = dk_submitted (fst we) @ new \<and>
     distinct (map plan_ticker new) \<and> plan_ticker ` set new \<subseteq> fst ` set sc \<and> list_all (allowed_in_tick (snd we)) new"
  using assms
proof (induction sc arbitrary: we)
  case (Cons tl sc)
  obtain t l where tl: "tl = (t, l)" by (cases tl)
  obtain sh visited where lone: "lone_plan sh visited t l" using Cons.prems(2) tl by auto
  let ?we = "emit_ticker (Some (desk_on_plan cfg now later)) (t, l) we"
  obtain new1 where n1: "dk_submitted (fst ?we) = dk_submitted (fst we) @ new1"
    "new1 = [] \<or> (\<exists>p. new1 = [p] \<and> plan_ticker p = t \<and> allowed_in_tick (snd we) p)"
    using emit_lone(2) [OF lone] by blast
  obtain new2 where n2: "dk_submitted (fst (fold (emit_ticker (Some (desk_on_plan cfg now later))) sc ?we)) = dk_submitted (fst ?we) @ new2"
    "distinct (map plan_ticker new2)" "plan_ticker ` set new2 \<subseteq> fst ` set sc" "list_all (allowed_in_tick (snd ?we)) new2"
    using Cons.IH [of ?we] Cons.prems by auto
  have "allowed_in_tick (snd ?we) = allowed_in_tick (snd we)"
    by (simp add: allowed_in_tick_def [abs_def] current_regime_def emit_lone(1) [OF lone])
  moreover have "t \<notin> plan_ticker ` set new2" using n2(3) Cons.prems(1) tl by auto
  ultimately show ?case
    using n1 n2 tl by (intro exI [of _ "new1 @ new2"]) auto
qed simp

text \<open>C14. In a tick the executor gets at most one plan for a ticker, every one of them comes from
  LeaderLag (the other three never plan in a tick), and none while the regime of its ticker is News
  or Range.\<close>

theorem tick_submits_one_plan_per_ticker:
  assumes "engine_ok e"
  shows "\<exists>new. dk_submitted (fst (engine_tick (Some (desk_on_plan cfg now later)) clock n (w, e))) = dk_submitted w @ new \<and>
     distinct (map plan_ticker new) \<and> list_all (allowed_in_tick e) new"
proof -
  let ?acc = "collect clock n e"
  obtain visited where sc: "scratch_ok (shape e) visited (fst ?acc)" and rg: "en_regimes (snd ?acc) = en_regimes e"
    using collect_places_ok [OF engine_ok_shape [OF assms] engine_ok_places [OF assms], of "{}" "([], e)" clock n]
    by (auto simp: collect_def scratch_ok_def)
  have "distinct (map fst (fst ?acc))" using sc by (auto simp: scratch_ok_def intro: asc.omap_ok_distinct)
  moreover then have "\<forall>(t, l) \<in> set (fst ?acc). \<exists>sh visited. lone_plan sh visited t l"
    using sc by (auto simp: scratch_ok_def dest!: map_of_is_SomeI)
  moreover have "allowed_in_tick (snd ?acc) = allowed_in_tick e"
    by (simp add: allowed_in_tick_def [abs_def] current_regime_def rg)
  ultimately show ?thesis
    using emit_all [of "fst ?acc" cfg now later "(w, snd ?acc)"] by (auto simp: engine_tick_def case_prod_beta)
qed

section \<open>The pool of strategies\<close>

definition engine_sane :: "engine \<Rightarrow> bool" where
  "engine_sane e \<longleftrightarrow> list_all (\<lambda>(t, l). list_all strat_sane l) (en_ticker_strategies e)"

definition default_configs :: base_configs where
  "default_configs =
     \<lparr>bs_bounce = bounce_config_default, bs_breakout = breakout_config_default,
      bs_leader = leader_config_default, bs_flush = flush_config_default\<rparr>"

text \<open>With the scale between the universe's bounds the factor lies between 0.4 and 10 / 3.\<close>

lemma inverse_root_bounds:
  assumes "3 / 20 \<le> sf" "sf \<le> 5"
  shows "2 / 5 \<le> 1 / csqrt sf" "1 / csqrt sf \<le> 10 / 3" "0 < csqrt sf"
proof -
  have "sqrt ((3 / 10) ^ 2) \<le> sqrt sf" by (rule real_sqrt_le_mono) (use assms in \<open>simp add: power2_eq_square\<close>)
  then have lo: "3 / 10 \<le> sqrt sf" by simp
  have "sqrt sf \<le> sqrt ((5 / 2) ^ 2)" by (rule real_sqrt_le_mono) (use assms in \<open>simp add: power2_eq_square\<close>)
  then have hi: "sqrt sf \<le> 5 / 2" by simp
  have pos: "0 < sqrt sf" using lo by linarith
  show "2 / 5 \<le> 1 / csqrt sf" "1 / csqrt sf \<le> 10 / 3" "0 < csqrt sf"
    unfolding csqrt_def pos_le_divide_eq [OF pos] pos_divide_le_eq [OF pos] using lo hi pos by linarith+
qed

lemma built_strategy_sane:
  assumes "built_strategy default_configs u t nm = Some s" "3 / 20 \<le> volume_scale_factor u t" "volume_scale_factor u t \<le> 5"
  shows "strat_sane s" "strat_ticker s = t" "strat_name s = class_of nm"
proof -
  let ?k = "1 / csqrt (volume_scale_factor u t)"
  have k: "2 / 5 \<le> ?k" "?k \<le> 10 / 3" using inverse_root_bounds [OF assms(2,3)] by simp_all
  have "bounce_sane (scaled_bounce (volume_scale_factor u t) bounce_config_default)"
    using k assms(2) by (simp add: bounce_sane_def scaled_bounce_def bounce_config_default_def Let_def)
  moreover have "breakout_sane (scaled_breakout (volume_scale_factor u t) breakout_config_default)"
    using k assms(2) by (simp add: breakout_sane_def scaled_breakout_def breakout_config_default_def Let_def)
  moreover have "leader_sane (scaled_leader (volume_scale_factor u t) leader_config_default) None"
    using k assms(2) by (simp add: leader_sane_def scaled_leader_def leader_config_default_def threshold_choices_def Let_def)
  moreover have "flush_sane (scaled_flush (volume_scale_factor u t) flush_config_default) None"
    using k assms(2) by (simp add: flush_sane_def scaled_flush_def flush_config_default_def threshold_choices_def Let_def)
  ultimately show "strat_sane s" "strat_ticker s = t" "strat_name s = class_of nm"
    using assms(1)
    by (auto simp: built_strategy_def default_configs_def Let_def class_of_def bounce_new_def breakout_new_def
        leader_new_def flush_new_def bounce_name_def breakout_name_def leader_name_def flush_name_def split: if_splits)
qed

lemma engine_ok_put:
  assumes "engine_ok e" "list_all (\<lambda>s. strat_ticker s = t) l" "distinct (map strat_name l)"
  shows "engine_ok (e\<lparr>en_ticker_strategies := omap_put (<) t l (en_ticker_strategies e)\<rparr>)"
  using assms by (auto simp: engine_ok_def list_all_iff asc.omap_ok_put dest!: set_omap_put)

lemma engine_sane_put:
  "engine_sane e \<Longrightarrow> list_all strat_sane l \<Longrightarrow>
     engine_sane (e\<lparr>en_ticker_strategies := omap_put (<) t l (en_ticker_strategies e)\<rparr>)"
  by (auto simp: engine_sane_def list_all_iff dest!: set_omap_put)

lemma engine_sane_strategies: "engine_sane e \<Longrightarrow> list_all strat_sane (strategies_of t e)"
  by (cases "map_of (en_ticker_strategies e) t")
    (auto simp: strategies_of_def engine_sane_def list_all_iff dest!: map_of_SomeD)

lemma add_strategy_ok:
  assumes "engine_ok e" "engine_sane e" "strat_sane s" "strat_ticker s \<noteq> ''''"
    and "strat_name s \<notin> strat_name ` set (strategies_of (strat_ticker s) e)"
  shows "engine_ok (add_strategy s e) \<and> engine_sane (add_strategy s e)"
  using assms engine_ok_strategies [OF assms(1), of "strat_ticker s"] engine_sane_strategies [OF assms(2), of "strat_ticker s"]
  by (simp add: add_strategy_def engine_ok_put engine_sane_put)

lemma remove_strategy_ok:
  assumes "engine_ok e" "engine_sane e"
  shows "engine_ok (remove_strategy t nm e) \<and> engine_sane (remove_strategy t nm e)"
proof (cases "map_of (en_ticker_strategies e) t")
  case None
  then show ?thesis using assms by (simp add: remove_strategy_def engine_ok_def engine_sane_def)
next
  case (Some l)
  then have l: "strategies_of t e = l" by (simp add: strategies_of_def)
  let ?l = "filter (\<lambda>s. strat_name s \<noteq> nm) l"
  have kept: "list_all (\<lambda>s. strat_ticker s = t) ?l" "distinct (map strat_name ?l)" "list_all strat_sane ?l"
    using engine_ok_strategies [OF assms(1), of t] engine_sane_strategies [OF assms(2), of t] l
    by (auto simp: list_all_iff distinct_map_filter)
  have erased: "engine_ok (e\<lparr>en_ticker_strategies := omap_erase t (en_ticker_strategies e),
        en_regimes := omap_erase t (en_regimes e)\<rparr>)"
      "engine_sane (e\<lparr>en_ticker_strategies := omap_erase t (en_ticker_strategies e),
        en_regimes := omap_erase t (en_regimes e)\<rparr>)"
    using assms by (auto simp: engine_ok_def engine_sane_def list_all_iff omap_ok_erase)
  have "engine_ok (e\<lparr>en_global_strategies := filter (\<lambda>s. strat_name s \<noteq> nm) (en_global_strategies e)\<rparr>)"
      "engine_sane (e\<lparr>en_global_strategies := filter (\<lambda>s. strat_name s \<noteq> nm) (en_global_strategies e)\<rparr>)"
    using assms by (auto simp: engine_ok_def engine_sane_def)
  then show ?thesis
    using kept erased assms Some by (simp add: remove_strategy_def Let_def engine_ok_put engine_sane_put)
qed


end
