(* ===== verification/EngineCases.thy ===== *)
theory EngineCases
  imports EngineSpec
begin

text \<open>
  Signals and ticks of the engine on a desk with the risk manager's default limits: the tick
  property applied to one, and behaviour of the code one would not expect.
\<close>

definition sample_leader :: "ticker \<Rightarrow> strategy" where
  "sample_leader t =
     snd (strategy_run [at_second 400 (FrameEvent (sample_frame\<lparr>ff_price_change_1s := 0, ff_ticker := t\<rparr>)),
         at_second 400 (SignalEvent ((sample_signal LeaderMove 400 100 '''')\<lparr>sg_ticker := t\<rparr>))]
       (LeaderStrategy (leader_new t sample_info leader_config_default)))"

definition sample_engine :: engine where
  "sample_engine =
     (add_strategy (sample_leader ''BTC_USDT'') (add_strategy (BreakoutStrategy sample_breakout)
       (add_strategy (sample_leader ''ETH_USDT'') engine_new)))"

definition sample_desk :: desk where
  "sample_desk =
     \<lparr>dk_live = False,
      dk_universe = (universe_new universe_config_default)\<lparr>tu_active_since :=
        [(to_internal_ticker ''BTC_USDT'', 0), (to_internal_ticker ''ETH_USDT'', 0)]\<rparr>,
      dk_news = news_calendar_new, dk_account = sample_account,
      dk_risk = risk_manager_new (risk_config_default\<lparr>rc_whitelist_tickers := [''BTC_USDT'', ''ETH_USDT''],
        rc_max_concurrent_positions := 1\<rparr>),
      dk_submitted = [], dk_closes = []\<rparr>"

definition sample_tick :: "desk \<times> engine" where
  "sample_tick =
     engine_tick (Some (desk_on_plan flush_config_default (seconds 400) (seconds 400))) None (seconds 400)
       (sample_desk, sample_engine)"

lemma sample_engine_ok: "engine_ok sample_engine"
  by code_simp

text \<open>
  Two tickers' plans pass the same limit in one tick: the account is only updated between ticks, so
  both are submitted although the limit is one position.
\<close>

lemma tick_exceeds_position_limit:
  "map plan_ticker (dk_submitted (fst sample_tick)) = [''BTC_USDT'', ''ETH_USDT''] \<and>
   rc_max_concurrent_positions (rm_cfg (dk_risk sample_desk)) = 1"
  by code_simp

lemma tick_submits_one_plan_per_ticker_witness:
  "dk_submitted (fst sample_tick) \<noteq> [] \<and> distinct (map plan_ticker (dk_submitted (fst sample_tick))) \<and>
   list_all (allowed_in_tick sample_engine) (dk_submitted (fst sample_tick))"
proof -
  have "dk_submitted sample_desk = []" by (simp add: sample_desk_def)
  moreover have "dk_submitted (fst sample_tick) \<noteq> []"
    using tick_exceeds_position_limit by auto
  ultimately show ?thesis
    using tick_submits_one_plan_per_ticker [OF sample_engine_ok, of flush_config_default "seconds 400" "seconds 400"
        None "seconds 400" sample_desk] by (auto simp: sample_tick_def)
qed

text \<open>
  The regimes are asked in \<open>tick\<close> only, where just LeaderLag plans. A plan made on a signal is
  announced in a News regime.
\<close>

lemma news_regime_announces_signal_plans:
  "fst (engine_on_signal (Some (\<lambda>p we. (fst we @ [plan_strategy_name p], snd we)))
        (sample_signal DensityEating 10 100 ''Ask'') None (seconds 10)
        ([], sample_engine\<lparr>en_regimes := [(''BTC_USDT'', NewsRegime)]\<rparr>)) = [''BreakoutEatThrough'']"
  by code_simp

text \<open>
  When a plan is suppressed before one that stays, the strategy that is reset is the one whose plan
  stays.
\<close>

lemma suppression_resets_the_kept_plan:
  assumes "plan_strategy_name (pw_plan a) = ''LeaderLag''" "plan_strategy_name (pw_plan b) \<noteq> ''LeaderLag''"
  shows "regime_filter RangeRegime [a, b] = ([b], [pw_place b])"
  using assms by (simp add: regime_filter_def suppress_def)

section \<open>The pool\<close>


end
