(* ===== verification/Numeric.thy ===== *)
theory Numeric
  imports Prelude
begin

text \<open>
  The online statistics of \<open>numeric/\<close>: compensated summation, exponential averages, CUSUM,
  Welford's mean, variance and correlation, and the zigzag of a price series; with the batch
  formulas they compute one sample at a time.
\<close>

section \<open>Sums and averages\<close>

record kahan =
  kh_sum :: double
  kh_correction :: double

definition kahan_new :: kahan where
  "kahan_new = \<lparr>kh_sum = 0, kh_correction = 0\<rparr>"

definition kahan_add :: "double \<Rightarrow> kahan \<Rightarrow> kahan" where
  "kahan_add x k =
     (let y = x - kh_correction k; t = kh_sum k + y
      in k\<lparr>kh_correction := (t - kh_sum k) - y, kh_sum := t\<rparr>)"

record ema =
  em_alpha :: double
  em_value :: double
  em_initialized :: bool

definition ema_new :: "double \<Rightarrow> ema" where
  "ema_new alpha = \<lparr>em_alpha = alpha, em_value = 0, em_initialized = False\<rparr>"

definition ema_from_period :: "int \<Rightarrow> ema" where
  "ema_from_period n = ema_new (2 / (real_of_int n + 1))"

definition ema_update :: "double \<Rightarrow> ema \<Rightarrow> ema" where
  "ema_update x e =
     (if em_initialized e then e\<lparr>em_value := em_alpha e * x + (1 - em_alpha e) * em_value e\<rparr>
      else e\<lparr>em_value := x, em_initialized := True\<rparr>)"

record dema =
  de_ema1 :: ema
  de_ema2 :: ema

definition dema_new :: "double \<Rightarrow> dema" where
  "dema_new alpha = \<lparr>de_ema1 = ema_new alpha, de_ema2 = ema_new alpha\<rparr>"

definition dema_from_period :: "int \<Rightarrow> dema" where
  "dema_from_period n = dema_new (2 / (real_of_int n + 1))"

definition dema_update :: "double \<Rightarrow> dema \<Rightarrow> dema" where
  "dema_update x d =
     (let e1 = ema_update x (de_ema1 d)
      in d\<lparr>de_ema1 := e1, de_ema2 := ema_update (em_value e1) (de_ema2 d)\<rparr>)"

definition dema_value :: "dema \<Rightarrow> double" where
  "dema_value d = 2 * em_value (de_ema1 d) - em_value (de_ema2 d)"

definition cusum_update :: "double \<Rightarrow> double \<Rightarrow> double \<Rightarrow> double \<Rightarrow> double" where
  "cusum_update x target drift s = max 0 (s + (target - x) - drift)"

section \<open>Welford's algorithm\<close>

record welford =
  wf_n :: nat
  wf_mean :: double
  wf_m2 :: double

definition welford_new :: welford where
  "welford_new = \<lparr>wf_n = 0, wf_mean = 0, wf_m2 = 0\<rparr>"

definition welford_update :: "double \<Rightarrow> welford \<Rightarrow> welford" where
  "welford_update x w =
     (let n = wf_n w + 1; delta = x - wf_mean w; mean = wf_mean w + delta / real n; delta2 = x - mean
      in \<lparr>wf_n = n, wf_mean = mean, wf_m2 = wf_m2 w + delta * delta2\<rparr>)"

definition welford_variance :: "welford \<Rightarrow> double" where
  "welford_variance w = (if wf_n w < 2 then 0 else max 0 (wf_m2 w / real (wf_n w - 1)))"

definition welford_stdev :: "welford \<Rightarrow> double" where
  "welford_stdev w = (if 0 < welford_variance w then csqrt (welford_variance w) else 0)"

record weighted_welford =
  ww_weight_sum :: double
  ww_mean :: double
  ww_m2 :: double

definition weighted_new :: weighted_welford where
  "weighted_new = \<lparr>ww_weight_sum = 0, ww_mean = 0, ww_m2 = 0\<rparr>"

definition weighted_update :: "double \<Rightarrow> double \<Rightarrow> weighted_welford \<Rightarrow> weighted_welford" where
  "weighted_update x weight w =
     (if weight \<le> 0 then w
      else
        let ws = ww_weight_sum w + weight; delta = x - ww_mean w; r = delta * weight / ws
        in \<lparr>ww_weight_sum = ws, ww_mean = ww_mean w + r, ww_m2 = ww_m2 w + ww_weight_sum w * delta * r\<rparr>)"

definition weighted_variance :: "weighted_welford \<Rightarrow> double" where
  "weighted_variance w = (if ww_weight_sum w \<le> 0 then 0 else max 0 (ww_m2 w / ww_weight_sum w))"

definition weighted_stdev :: "weighted_welford \<Rightarrow> double" where
  "weighted_stdev w = (if 0 < weighted_variance w then csqrt (weighted_variance w) else 0)"

record correlation =
  co_n :: nat
  co_x :: welford
  co_y :: welford
  co_xy :: double

definition correlation_new :: correlation where
  "correlation_new = \<lparr>co_n = 0, co_x = welford_new, co_y = welford_new, co_xy = 0\<rparr>"

definition correlation_update :: "double \<Rightarrow> double \<Rightarrow> correlation \<Rightarrow> correlation" where
  "correlation_update x y c =
     (let dy = y - wf_mean (co_y c); ax = welford_update x (co_x c)
      in \<lparr>co_n = co_n c + 1, co_x = ax, co_y = welford_update y (co_y c),
          co_xy = co_xy c + (x - wf_mean ax) * dy\<rparr>)"

definition correlation_value :: "correlation \<Rightarrow> double" where
  "correlation_value c =
     (if co_n c < 2 then 0
      else
        let vx = welford_variance (co_x c) * real (co_n c - 1); vy = welford_variance (co_y c) * real (co_n c - 1)
        in if vx = 0 \<or> vy = 0 then 0 else co_xy c / csqrt (vx * vy))"

section \<open>The zigzag\<close>

record peak =
  pk_price :: double
  pk_index :: nat
  pk_is_high :: bool

record zigzag =
  zz_peaks :: "peak list"
  zz_price :: double
  zz_index :: nat
  zz_finding_high :: bool

definition zigzag_step :: "double \<Rightarrow> nat \<times> double \<Rightarrow> zigzag \<Rightarrow> zigzag" where
  "zigzag_step min_swing_bps ic z =
     (let i = fst ic; cur = snd ic; prev = zz_price z;
          diff = (if 0 < prev then \<bar>cur - prev\<bar> / prev * 10000 else 0);
          here = z\<lparr>zz_price := cur, zz_index := i\<rparr>;
          turned = here\<lparr>zz_peaks := zz_peaks z @ [\<lparr>pk_price = prev, pk_index = zz_index z, pk_is_high = zz_finding_high z\<rparr>],
                        zz_finding_high := \<not> zz_finding_high z\<rparr>
      in if zz_finding_high z
         then (if prev < cur then here else if min_swing_bps \<le> diff then turned else z)
         else (if cur < prev then here else if min_swing_bps \<le> diff then turned else z))"

definition zigzag_calculate :: "double list \<Rightarrow> double \<Rightarrow> peak list" where
  "zigzag_calculate prices min_swing_bps =
     (if length prices < 2 then []
      else zz_peaks (fold (zigzag_step min_swing_bps) (zip [1..<length prices] (tl prices))
             \<lparr>zz_peaks = [], zz_price = prices ! 0, zz_index = 0, zz_finding_high = (prices ! 0 \<le> prices ! 1)\<rparr>))"

section \<open>Exactness of the sums\<close>

lemma kahan_add_exact: "kh_correction k = 0 \<Longrightarrow> kahan_add x k = \<lparr>kh_sum = kh_sum k + x, kh_correction = 0\<rparr>"
  by (simp add: kahan_add_def Let_def)

lemma kahan_run: "kh_correction k = 0 \<Longrightarrow> kh_sum (fold kahan_add xs k) = kh_sum k + sum_list xs"
  by (induction xs arbitrary: k) (simp_all add: kahan_add_exact)

definition welford_run :: "double list \<Rightarrow> welford" where
  "welford_run xs = fold welford_update xs welford_new"

definition mean_of :: "double list \<Rightarrow> double" where
  "mean_of xs = sum_list xs / real (length xs)"

definition squares_of :: "double list \<Rightarrow> double \<Rightarrow> double" where
  "squares_of xs m = (\<Sum>x\<leftarrow>xs. (x - m) ^ 2)"

lemma squares_of_shift: "squares_of xs m = squares_of xs a + 2 * (a - m) * (sum_list xs - real (length xs) * a) + real (length xs) * (a - m) ^ 2"
  by (induction xs) (simp_all add: squares_of_def power2_eq_square algebra_simps)

lemma squares_of_nonneg: "0 \<le> squares_of xs m"
  unfolding squares_of_def by (rule sum_list_nonneg) auto

lemma welford_run_snoc: "welford_run (xs @ [x]) = welford_update x (welford_run xs)"
  by (simp add: welford_run_def)

lemma mean_of_snoc: "mean_of (xs @ [x]) = mean_of xs + (x - mean_of xs) / real (length xs + 1)"
proof (cases "xs = []")
  case False
  have "(s + x) / (1 + n) = s / n + (x - s / n) / (1 + n)" if "0 < n" for s n :: real
    using that by (simp add: divide_simps) algebra
  then show ?thesis using False by (simp add: mean_of_def)
qed (simp add: mean_of_def)

lemma step_square:
  assumes "0 \<le> (n::real)"
  shows "n * (D / (n + 1)) ^ 2 + (D * (n / (n + 1))) ^ 2 = D * (D * (n / (n + 1)))"
  using assms by (simp add: power2_eq_square divide_simps) algebra

lemma squares_of_snoc:
  "squares_of (xs @ [x]) (mean_of (xs @ [x])) =
     squares_of xs (mean_of xs) + (x - mean_of xs) * (x - mean_of (xs @ [x]))"
proof -
  let ?n = "real (length xs)" and ?m = "mean_of xs" and ?m' = "mean_of (xs @ [x])"
  have s: "sum_list xs = ?n * ?m" by (cases "xs = []") (simp_all add: mean_of_def)
  have d: "x - ?m' = (x - ?m) * (?n / (?n + 1))" "?m' - ?m = (x - ?m) / (?n + 1)"
    by (simp_all add: mean_of_snoc divide_simps) algebra?
  have "squares_of (xs @ [x]) ?m' = squares_of xs ?m' + (x - ?m') ^ 2" by (simp add: squares_of_def)
  also have "squares_of xs ?m' = squares_of xs ?m + ?n * (?m' - ?m) ^ 2"
    using squares_of_shift [of xs ?m' ?m] by (simp add: s power2_commute)
  also have "\<dots> + (x - ?m') ^ 2 = squares_of xs ?m + (x - ?m) * (x - ?m')"
    unfolding d using step_square [of ?n "x - ?m"] by simp
  finally show ?thesis .
qed

lemma welford_run_values:
  "wf_n (welford_run xs) = length xs \<and> wf_mean (welford_run xs) = mean_of xs \<and>
   wf_m2 (welford_run xs) = squares_of xs (mean_of xs)"
proof (induction xs rule: rev_induct)
  case Nil
  then show ?case by (simp add: welford_run_def welford_new_def mean_of_def squares_of_def)
next
  case (snoc x xs)
  have "mean_of xs + (x - mean_of xs) / real (length xs + 1) = mean_of (xs @ [x])"
    by (simp only: mean_of_snoc)
  then show ?case using snoc unfolding welford_run_snoc welford_update_def Let_def by (simp add: squares_of_snoc)
qed

text \<open>Welford's one-pass mean and variance are the mean and the unbiased sample variance of the
  samples.\<close>

theorem welford_is_sample_variance:
  "wf_mean (welford_run xs) = mean_of xs \<and>
   welford_variance (welford_run xs) =
     (if length xs < 2 then 0 else squares_of xs (mean_of xs) / (real (length xs) - 1))"
  using welford_run_values [of xs] squares_of_nonneg [of xs "mean_of xs"]
  by (auto simp: welford_variance_def of_nat_diff)

section \<open>The correlation\<close>

definition correlation_run :: "(double \<times> double) list \<Rightarrow> correlation" where
  "correlation_run ps = fold (\<lambda>(x, y). correlation_update x y) ps correlation_new"

definition products_of :: "(double \<times> double) list \<Rightarrow> double \<Rightarrow> double \<Rightarrow> double" where
  "products_of ps a b = (\<Sum>(x, y)\<leftarrow>ps. (x - a) * (y - b))"

lemma products_of_shift:
  "products_of ps a b = products_of ps c d + (c - a) * (sum_list (map snd ps) - real (length ps) * d)
     + (d - b) * (sum_list (map fst ps) - real (length ps) * c) + real (length ps) * (c - a) * (d - b)"
  by (induction ps) (auto simp: products_of_def algebra_simps)

lemma sum_list_mean: "sum_list xs = real (length xs) * mean_of xs"
  by (cases "xs = []") (simp_all add: mean_of_def)

lemma products_of_snoc:
  fixes ps :: "(double \<times> double) list" and x y :: double
  defines "mx \<equiv> mean_of (map fst ps)" and "my \<equiv> mean_of (map snd ps)"
  defines "mx' \<equiv> mean_of (map fst ps @ [x])" and "my' \<equiv> mean_of (map snd ps @ [y])"
  shows "products_of (ps @ [(x, y)]) mx' my' = products_of ps mx my + (x - mx') * (y - my)"
proof -
  let ?n = "real (length ps)"
  have d: "x - mx' = (x - mx) * (?n / (?n + 1))" "mx' - mx = (x - mx) / (?n + 1)"
    "y - my' = (y - my) * (?n / (?n + 1))" "my' - my = (y - my) / (?n + 1)"
    unfolding mx_def my_def mx'_def my'_def by (simp_all add: mean_of_snoc divide_simps) algebra+
  have "products_of ps mx' my' = products_of ps mx my + ?n * (mx - mx') * (my - my')"
    using products_of_shift [of ps mx' my' mx my] sum_list_mean [of "map fst ps"] sum_list_mean [of "map snd ps"]
    by (simp add: mx_def my_def)
  also have "?n * (mx - mx') * (my - my') = ?n * (mx' - mx) * (my' - my)" by (simp add: algebra_simps)
  finally have "products_of (ps @ [(x, y)]) mx' my' =
      products_of ps mx my + ?n * (mx' - mx) * (my' - my) + (x - mx') * (y - my')"
    by (simp add: products_of_def)
  also have "\<dots> = products_of ps mx my + (x - mx') * (y - my)"
    unfolding d by (simp add: divide_simps) algebra
  finally show ?thesis .
qed

lemma correlation_run_snoc: "correlation_run (ps @ [(x, y)]) = correlation_update x y (correlation_run ps)"
  by (simp add: correlation_run_def)

lemma correlation_run_values:
  "co_n (correlation_run ps) = length ps \<and> co_x (correlation_run ps) = welford_run (map fst ps) \<and>
   co_y (correlation_run ps) = welford_run (map snd ps) \<and>
   co_xy (correlation_run ps) = products_of ps (mean_of (map fst ps)) (mean_of (map snd ps))"
proof (induction ps rule: rev_induct)
  case Nil
  then show ?case by (simp add: correlation_run_def correlation_new_def welford_run_def products_of_def)
next
  case (snoc p ps)
  obtain x y where p: "p = (x, y)" by (cases p)
  have "wf_mean (welford_update x (welford_run (map fst ps))) = mean_of (map fst ps @ [x])"
    using welford_run_values [of "map fst ps @ [x]"] by (simp add: welford_run_snoc)
  then show ?case
    using snoc welford_run_values [of "map snd ps"]
    by (simp add: p correlation_run_snoc correlation_update_def Let_def welford_run_snoc products_of_snoc)
qed

text \<open>The inequality of Cauchy and Schwarz for the two lists of deviations.\<close>

lemma products_of_combination:
  "0 \<le> u ^ 2 * squares_of (map fst ps) a - 2 * u * v * products_of ps a b + v ^ 2 * squares_of (map snd ps) b"
proof -
  have "(\<Sum>(x, y)\<leftarrow>ps. (u * (x - a) - v * (y - b)) ^ 2) =
      u ^ 2 * squares_of (map fst ps) a - 2 * u * v * products_of ps a b + v ^ 2 * squares_of (map snd ps) b"
    by (induction ps) (auto simp: squares_of_def products_of_def power2_eq_square algebra_simps)
  moreover have "0 \<le> (\<Sum>(x, y)\<leftarrow>ps. (u * (x - a) - v * (y - b)) ^ 2)"
    by (rule sum_list_nonneg) auto
  ultimately show ?thesis by simp
qed

lemma products_of_bound:
  "(products_of ps a b) ^ 2 \<le> squares_of (map fst ps) a * squares_of (map snd ps) b"
proof -
  let ?X = "squares_of (map fst ps) a" and ?Y = "squares_of (map snd ps) b" and ?P = "products_of ps a b"
  have X: "0 \<le> ?X" by (rule squares_of_nonneg)
  show ?thesis
  proof (cases "?X = 0")
    case True
    have "0 \<le> - 2 * u * ?P + ?Y" for u
      using products_of_combination [of u ps a 1 b] True by simp
    from this [of "(?Y + 1) / (2 * ?P)"] have "?P = 0" by (cases "?P = 0") (simp_all add: field_simps)
    then show ?thesis using True by simp
  next
    case False
    have "0 \<le> ?P ^ 2 * ?X - 2 * ?P * ?X * ?P + ?X ^ 2 * ?Y" by (rule products_of_combination)
    then have "0 \<le> ?X * (?X * ?Y - ?P ^ 2)" by (simp add: power2_eq_square algebra_simps)
    then show ?thesis using False X by (simp add: zero_le_mult_iff)
  qed
qed

lemma correlation_coefficient_bound:
  "\<bar>products_of ps a b / csqrt (squares_of (map fst ps) a * squares_of (map snd ps) b)\<bar> \<le> 1"
proof -
  let ?s = "csqrt (squares_of (map fst ps) a * squares_of (map snd ps) b)"
  have "\<bar>products_of ps a b\<bar> \<le> ?s"
    unfolding csqrt_def using products_of_bound [of ps a b] by (intro real_le_rsqrt) simp
  moreover have "0 \<le> ?s" by (simp add: squares_of_nonneg)
  ultimately show ?thesis by (cases "?s = 0") (simp_all add: abs_divide)
qed

text \<open>The online correlation is the sample correlation of the pairs, zero when there are fewer
  than two or one of the series is constant, and it lies between minus one and one.\<close>

theorem correlation_is_pearson:
  fixes ps :: "(double \<times> double) list"
  shows "correlation_value (correlation_run ps) =
     (let mx = mean_of (map fst ps); my = mean_of (map snd ps);
          sx = squares_of (map fst ps) mx; sy = squares_of (map snd ps) my
      in if length ps < 2 \<or> sx = 0 \<or> sy = 0 then 0 else products_of ps mx my / csqrt (sx * sy)) \<and>
   \<bar>correlation_value (correlation_run ps)\<bar> \<le> 1"
proof -
  let ?mx = "mean_of (map fst ps)" and ?my = "mean_of (map snd ps)"
  let ?sx = "squares_of (map fst ps) ?mx" and ?sy = "squares_of (map snd ps) ?my"
  let ?P = "products_of ps ?mx ?my" and ?c = "correlation_value (correlation_run ps)"
  have var: "welford_variance (welford_run xs) * (real (length xs) - 1) = squares_of xs (mean_of xs)"
    if "2 \<le> length xs" for xs
    using that welford_run_values [of xs] squares_of_nonneg [of xs "mean_of xs"]
    by (simp add: welford_variance_def of_nat_diff)
  have corr: "?c = (if length ps < 2 \<or> ?sx = 0 \<or> ?sy = 0 then 0 else ?P / csqrt (?sx * ?sy))"
    using correlation_run_values [of ps] var [of "map fst ps"] var [of "map snd ps"]
    by (auto simp: correlation_value_def Let_def of_nat_diff)
  have "\<bar>?c\<bar> \<le> 1" unfolding corr using correlation_coefficient_bound [of ps ?mx ?my] by auto
  then show ?thesis using corr by (simp add: Let_def)
qed

section \<open>What the zigzag reports\<close>

text \<open>
  Highs and lows in turn, at increasing places of the series, each with the price there, and each
  at a swing of the required size from the one before.
\<close>

fun zigzag_shape :: "double list \<Rightarrow> double \<Rightarrow> peak list \<Rightarrow> bool" where
  "zigzag_shape prices m (p # q # ps) \<longleftrightarrow>
     pk_is_high p \<noteq> pk_is_high q \<and> pk_index p < pk_index q \<and>
     (if pk_is_high p then pk_price q \<le> pk_price p * (1 - m / 10000) else pk_price p * (1 + m / 10000) \<le> pk_price q) \<and>
     zigzag_shape prices m (q # ps)"
| "zigzag_shape prices m _ = True"

definition zigzag_inv :: "double list \<Rightarrow> double \<Rightarrow> nat \<Rightarrow> zigzag \<Rightarrow> bool" where
  "zigzag_inv prices m i z \<longleftrightarrow>
     zz_index z < i \<and> zz_price z = prices ! zz_index z \<and>
     list_all (\<lambda>p. pk_index p < length prices \<and> pk_price p = prices ! pk_index p) (zz_peaks z) \<and>
     zigzag_shape prices m (zz_peaks z @ [\<lparr>pk_price = zz_price z, pk_index = zz_index z, pk_is_high = zz_finding_high z\<rparr>])"

lemma zigzag_shape_snoc:
  "zigzag_shape prices m (ps @ [p, q]) \<longleftrightarrow>
     zigzag_shape prices m (ps @ [p]) \<and> pk_is_high p \<noteq> pk_is_high q \<and> pk_index p < pk_index q \<and>
     (if pk_is_high p then pk_price q \<le> pk_price p * (1 - m / 10000) else pk_price p * (1 + m / 10000) \<le> pk_price q)"
proof (induction ps)
  case (Cons a ps)
  then show ?case by (cases ps) auto
qed auto

text \<open>Moving the last peak further in its direction keeps the swing before it.\<close>

lemma zigzag_shape_move:
  assumes "zigzag_shape prices m (ps @ [p])" "pk_is_high q = pk_is_high p" "pk_index p < pk_index q"
    and "if pk_is_high p then pk_price p < pk_price q else pk_price q < pk_price p"
  shows "zigzag_shape prices m (ps @ [q])"
proof (cases ps rule: rev_cases)
  case (snoc qs r)
  then have "zigzag_shape prices m (qs @ [r, p])" using assms(1) by simp
  then have "zigzag_shape prices m (qs @ [r, q])"
    unfolding zigzag_shape_snoc using assms(2,3,4) by (auto split: if_splits)
  then show ?thesis using snoc by simp
qed simp

lemma zigzag_step_inv:
  assumes inv: "zigzag_inv prices m i z" and i: "i < length prices"
    and pos: "list_all (\<lambda>x. 0 < x) prices"
  shows "zigzag_inv prices m (Suc i) (zigzag_step m (i, prices ! i) z)"
proof -
  let ?prev = "zz_price z" and ?cur = "prices ! i"
  let ?last = "\<lparr>pk_price = ?prev, pk_index = zz_index z, pk_is_high = zz_finding_high z\<rparr>"
  have shape: "zigzag_shape prices m (zz_peaks z @ [?last])" and idx: "zz_index z < i" "?prev = prices ! zz_index z"
    and all: "list_all (\<lambda>p. pk_index p < length prices \<and> pk_price p = prices ! pk_index p) (zz_peaks z)"
    using inv unfolding zigzag_inv_def by blast+
  have prev: "0 < ?prev" using idx i pos by (simp add: list_all_length)
  have swing: "m \<le> \<bar>?cur - ?prev\<bar> / ?prev * 10000 \<longleftrightarrow> ?prev * m / 10000 \<le> \<bar>?cur - ?prev\<bar>"
    using prev by (simp add: field_simps)
  let ?far = "m \<le> \<bar>?cur - ?prev\<bar> / ?prev * 10000" and ?on = "if zz_finding_high z then ?prev < ?cur else ?cur < ?prev"
  have step_eq: "zigzag_step m (i, ?cur) z =
      (if ?on then z\<lparr>zz_price := ?cur, zz_index := i\<rparr>
       else if ?far then z\<lparr>zz_price := ?cur, zz_index := i, zz_peaks := zz_peaks z @ [?last], zz_finding_high := \<not> zz_finding_high z\<rparr>
       else z)"
    unfolding zigzag_step_def Let_def fst_conv snd_conv if_P [OF prev]
    by (cases "zz_finding_high z") (simp_all only: if_True if_False)
  consider (move) ?on | (turn) "\<not> ?on" ?far | (stay) "\<not> ?on" "\<not> ?far" by blast
  then show ?thesis
  proof cases
    case move
    then have step: "zigzag_step m (i, ?cur) z = z\<lparr>zz_price := ?cur, zz_index := i\<rparr>"
      unfolding step_eq by (rule if_P)
    have "zigzag_shape prices m (zz_peaks z @ [\<lparr>pk_price = ?cur, pk_index = i, pk_is_high = zz_finding_high z\<rparr>])"
      using idx move by (intro zigzag_shape_move [OF shape]) auto
    then show ?thesis using idx all unfolding step by (simp add: zigzag_inv_def)
  next
    case turn
    then have step: "zigzag_step m (i, ?cur) z =
        z\<lparr>zz_price := ?cur, zz_index := i, zz_peaks := zz_peaks z @ [?last], zz_finding_high := \<not> zz_finding_high z\<rparr>"
      unfolding step_eq by (simp only: if_False if_True)
    have "?prev * m / 10000 \<le> \<bar>?cur - ?prev\<bar>" using turn swing by blast
    then have "zigzag_shape prices m (zz_peaks z @ [?last, \<lparr>pk_price = ?cur, pk_index = i, pk_is_high = (\<not> zz_finding_high z)\<rparr>])"
      unfolding zigzag_shape_snoc using shape idx(1) turn(1)
      by (cases "zz_finding_high z") (simp_all add: algebra_simps)
    moreover have "pk_index ?last < length prices \<and> pk_price ?last = prices ! pk_index ?last" using idx i by simp
    ultimately show ?thesis using all unfolding step zigzag_inv_def by simp
  next
    case stay
    then have "zigzag_step m (i, ?cur) z = z"
      unfolding step_eq by (simp only: if_False)
    moreover have "zigzag_inv prices m (Suc i) z"
      unfolding zigzag_inv_def using idx all shape by (intro conjI less_SucI)
    ultimately show ?thesis by simp
  qed
qed

lemma zigzag_fold_inv:
  assumes "list_all (\<lambda>x. 0 < x) prices"
  shows "zigzag_inv prices m i z \<Longrightarrow> i \<le> length prices \<Longrightarrow>
     zigzag_inv prices m (length prices) (fold (zigzag_step m) (zip [i..<length prices] (drop i prices)) z)"
proof (induction "length prices - i" arbitrary: i z)
  case (Suc k)
  then have i: "i < length prices" by simp
  then have "zip [i..<length prices] (drop i prices) = (i, prices ! i) # zip [Suc i..<length prices] (drop (Suc i) prices)"
    by (simp add: upt_conv_Cons Cons_nth_drop_Suc [symmetric])
  then show ?case using Suc.hyps(1) [of "Suc i"] Suc.hyps(2) Suc.prems i zigzag_step_inv [OF Suc.prems(1) i assms] by simp
qed simp

lemma zigzag_shape_butlast: "zigzag_shape prices m (ps @ [p]) \<Longrightarrow> zigzag_shape prices m ps"
proof (cases ps rule: rev_cases)
  case (snoc qs q)
  then show "zigzag_shape prices m (ps @ [p]) \<Longrightarrow> zigzag_shape prices m ps"
    using zigzag_shape_snoc [of prices m qs q p] by simp
qed simp

text \<open>On positive prices the zigzag reports highs and lows in turn, at increasing places, with the
  prices of the series there, and every one at least the minimum swing away from the one before.\<close>

theorem zigzag_alternates:
  assumes "list_all (\<lambda>x. 0 < x) prices"
  shows "zigzag_shape prices m (zigzag_calculate prices m) \<and>
     list_all (\<lambda>p. pk_index p < length prices \<and> pk_price p = prices ! pk_index p) (zigzag_calculate prices m)"
proof (cases "length prices < 2")
  case False
  let ?z = "\<lparr>zz_peaks = [], zz_price = prices ! 0, zz_index = 0, zz_finding_high = (prices ! 0 \<le> prices ! 1)\<rparr>"
  have "zigzag_inv prices m 1 ?z" by (simp add: zigzag_inv_def)
  from zigzag_fold_inv [OF assms this] False
  have "zigzag_inv prices m (length prices) (fold (zigzag_step m) (zip [1..<length prices] (tl prices)) ?z)"
    by (simp add: drop_Suc)
  then show ?thesis using False by (auto simp: zigzag_calculate_def zigzag_inv_def dest: zigzag_shape_butlast)
qed (simp add: zigzag_calculate_def)

lemma zigzag_alternates_witness:
  "zigzag_calculate [100, 101, 99, 102] 50 =
     [\<lparr>pk_price = 101, pk_index = 1, pk_is_high = True\<rparr>, \<lparr>pk_price = 99, pk_index = 2, pk_is_high = False\<rparr>] \<and>
   zigzag_shape [100, 101, 99, 102] 50 (zigzag_calculate [100, 101, 99, 102] 50)"
proof
  show "zigzag_calculate [100, 101, 99, 102] 50 =
     [\<lparr>pk_price = 101, pk_index = 1, pk_is_high = True\<rparr>, \<lparr>pk_price = 99, pk_index = 2, pk_is_high = False\<rparr>]"
    by code_simp
  show "zigzag_shape [100, 101, 99, 102] 50 (zigzag_calculate [100, 101, 99, 102] 50)"
    using zigzag_alternates [of "[100, 101, 99, 102]" 50] by simp
qed

end
