(* ===== verification/Account.thy ===== *)
theory Account
  imports Risk Numeric
begin

text \<open>
  The account of \<open>app/BotAppInit.cpp\<close> and \<open>app/BotAppRun.cpp\<close> that the risk manager reads: loaded
  at the start, kept by three compensated sums over the closed trades, reset every day, in live
  mode synchronised with the exchange, and its positions counted after every tick.
\<close>

record account_books =
  bk_account :: account_state
  bk_realized :: kahan
  bk_equity :: kahan
  bk_free :: kahan
  bk_risk :: risk_manager
  bk_losses :: int
  bk_live :: bool
  bk_reset_day :: string

definition books_new :: "bool \<Rightarrow> account_state \<Rightarrow> risk_manager \<Rightarrow> account_books" where
  "books_new live a rm =
     \<lparr>bk_account = a, bk_realized = kahan_new, bk_equity = kahan_new, bk_free = kahan_new, bk_risk = rm,
      bk_losses = 0, bk_live = live, bk_reset_day = ''''\<rparr>"

text \<open>\<open>load_account_state_\<close>, with the persisted account and day if there are any.\<close>

definition recovered_account :: "account_state \<Rightarrow> account_state" where
  "recovered_account a =
     (if acc_equity_usd a \<le> 0 \<and> 0 < acc_starting_equity_usd a
      then a\<lparr>acc_equity_usd := acc_starting_equity_usd a, acc_free_balance_usd := acc_starting_equity_usd a\<rparr>
      else a)"

definition load_account_state ::
  "(account_state \<times> string) option \<Rightarrow> string \<Rightarrow> time_point \<Rightarrow> account_books \<Rightarrow> account_books" where
  "load_account_state persisted today now b =
     (let (a, day) = (case persisted of
                        Some (p, d) \<Rightarrow> (recovered_account p, d)
                      | None \<Rightarrow> ((bk_account b)\<lparr>acc_equity_usd := 10000, acc_starting_equity_usd := 10000,
                                               acc_free_balance_usd := 10000\<rparr>, today))
      in b\<lparr>bk_account := a\<lparr>acc_trading_day_start := now\<rparr>,
           bk_realized := kahan_add (acc_realized_pnl_today_usd a) (bk_realized b),
           bk_equity := kahan_add (acc_equity_usd a) (bk_equity b),
           bk_free := kahan_add (acc_free_balance_usd a) (bk_free b), bk_reset_day := day\<rparr>)"

text \<open>\<open>update_account_from_exchange_\<close>, with the balance and equity of the exchange if it sent them.\<close>

definition update_account_from_exchange :: "(double \<times> double) option \<Rightarrow> account_books \<Rightarrow> account_books" where
  "update_account_from_exchange finres b =
     (if \<not> bk_live b then b
      else (case finres of
              None \<Rightarrow> b
            | Some (balance, equity) \<Rightarrow>
                if 0 < equity
                then let k = kahan_add balance kahan_new
                     in b\<lparr>bk_free := k,
                          bk_account := (bk_account b)\<lparr>acc_free_balance_usd := kh_sum k, acc_equity_usd := equity\<rparr>\<rparr>
                else b))"

definition check_daily_reset :: "string \<Rightarrow> account_books \<Rightarrow> account_books" where
  "check_daily_reset today b =
     (if today = bk_reset_day b then b
      else let a = bk_account b in
        b\<lparr>bk_account := a\<lparr>acc_starting_equity_usd := acc_equity_usd a, acc_realized_pnl_today_usd := 0\<rparr>,
          bk_reset_day := today, bk_realized := kahan_new,
          bk_equity := kahan_add (acc_equity_usd a) kahan_new\<rparr>)"

text \<open>One closed trade; the journal entry is left out.\<close>

definition book_closed_trade :: "time_point \<Rightarrow> closed_trade \<Rightarrow> account_books \<Rightarrow> account_books" where
  "book_closed_trade now ct b =
     (let pnl = ct_pnl_usd ct; r = kahan_add pnl (bk_realized b); e = kahan_add pnl (bk_equity b);
          f = kahan_add pnl (bk_free b)
      in b\<lparr>bk_realized := r, bk_equity := e, bk_free := f,
           bk_account := (bk_account b)\<lparr>acc_realized_pnl_today_usd := kh_sum r, acc_equity_usd := kh_sum e,
                                        acc_free_balance_usd := kh_sum f\<rparr>,
           bk_risk := record_trade_end (pnl < 0) now (bk_risk b),
           bk_losses := (if pnl < 0 then bk_losses b + 1 else 0)\<rparr>)"

definition process_closed_trades :: "time_point \<Rightarrow> closed_trade list \<Rightarrow> account_books \<Rightarrow> account_books" where
  "process_closed_trades now closed_list b = fold (book_closed_trade now) closed_list b"

text \<open>The positions and the unrealized profit, from the trades of the executor.\<close>

definition counted_trades :: "active_trade list \<Rightarrow> active_trade list" where
  "counted_trades active = filter (\<lambda>t. at_state t = Open \<or> at_state t = Exiting) active"

definition refresh_positions :: "active_trade list \<Rightarrow> bool \<Rightarrow> account_books \<Rightarrow> account_books" where
  "refresh_positions active killed b =
     b\<lparr>bk_account := (bk_account b)\<lparr>
         acc_active_positions := int (length (counted_trades active)),
         acc_active_tickers := map (\<lambda>t. plan_ticker (at_plan t)) (counted_trades active),
         acc_kill_switch_triggered := killed,
         acc_unrealized_pnl_usd := sum_list (map at_unrealized_pnl active)\<rparr>\<rparr>"

section \<open>The account is the sum of the trades\<close>

datatype account_event =
    ClosedTrades time_point "closed_trade list"
  | DayCheck string
  | ExchangeSync "(double \<times> double) option"
  | PositionCount "active_trade list" bool

fun account_step :: "account_event \<Rightarrow> account_books \<Rightarrow> account_books" where
  "account_step (ClosedTrades now cts) = process_closed_trades now cts"
| "account_step (DayCheck today) = check_daily_reset today"
| "account_step (ExchangeSync finres) = update_account_from_exchange finres"
| "account_step (PositionCount active killed) = refresh_positions active killed"

definition account_run :: "account_event list \<Rightarrow> account_books \<Rightarrow> account_books" where
  "account_run es b = fold account_step es b"

definition total_pnl :: "closed_trade list \<Rightarrow> double" where
  "total_pnl cts = sum_list (map ct_pnl_usd cts)"

fun profit_of :: "account_event list \<Rightarrow> double" where
  "profit_of [] = 0"
| "profit_of (ClosedTrades now cts # es) = total_pnl cts + profit_of es"
| "profit_of (e # es) = profit_of es"

text \<open>The profit since the day last changed, from a day and the profit so far.\<close>

fun profit_today :: "account_event list \<Rightarrow> string \<Rightarrow> double \<Rightarrow> double" where
  "profit_today [] day r = r"
| "profit_today (ClosedTrades now cts # es) day r = profit_today es day (r + total_pnl cts)"
| "profit_today (DayCheck today # es) day r =
     (if today = day then profit_today es day r else profit_today es today 0)"
| "profit_today (e # es) day r = profit_today es day r"

text \<open>The sums are exact, and the account shows them.\<close>

definition books_ok :: "account_books \<Rightarrow> bool" where
  "books_ok b \<longleftrightarrow>
     kh_correction (bk_realized b) = 0 \<and> kh_correction (bk_equity b) = 0 \<and> kh_correction (bk_free b) = 0 \<and>
     acc_realized_pnl_today_usd (bk_account b) = kh_sum (bk_realized b) \<and>
     acc_equity_usd (bk_account b) = kh_sum (bk_equity b) \<and>
     acc_free_balance_usd (bk_account b) = kh_sum (bk_free b)"

lemma kahan_new_sel [simp]: "kh_sum kahan_new = 0" "kh_correction kahan_new = 0"
  by (simp_all add: kahan_new_def)

lemma load_books_ok: "books_ok (load_account_state persisted today now (books_new live a rm))"
  by (auto simp: books_ok_def load_account_state_def books_new_def kahan_add_exact Let_def split: option.split)

lemma book_closed_trade_ok:
  assumes "books_ok b"
  shows "books_ok (book_closed_trade now ct b)"
    and "acc_equity_usd (bk_account (book_closed_trade now ct b)) = acc_equity_usd (bk_account b) + ct_pnl_usd ct"
    and "acc_free_balance_usd (bk_account (book_closed_trade now ct b)) = acc_free_balance_usd (bk_account b) + ct_pnl_usd ct"
    and "acc_realized_pnl_today_usd (bk_account (book_closed_trade now ct b)) =
           acc_realized_pnl_today_usd (bk_account b) + ct_pnl_usd ct"
    and "bk_live (book_closed_trade now ct b) = bk_live b" "bk_reset_day (book_closed_trade now ct b) = bk_reset_day b"
  using assms by (simp_all add: books_ok_def book_closed_trade_def kahan_add_exact Let_def)

lemma process_closed_trades_ok:
  assumes "books_ok b"
  shows "books_ok (process_closed_trades now cts b) \<and>
     acc_equity_usd (bk_account (process_closed_trades now cts b)) = acc_equity_usd (bk_account b) + total_pnl cts \<and>
     acc_free_balance_usd (bk_account (process_closed_trades now cts b)) = acc_free_balance_usd (bk_account b) + total_pnl cts \<and>
     acc_realized_pnl_today_usd (bk_account (process_closed_trades now cts b)) =
       acc_realized_pnl_today_usd (bk_account b) + total_pnl cts \<and>
     bk_live (process_closed_trades now cts b) = bk_live b \<and>
     bk_reset_day (process_closed_trades now cts b) = bk_reset_day b"
  using assms unfolding process_closed_trades_def total_pnl_def
proof (induction cts arbitrary: b)
  case (Cons ct cts)
  then show ?case using Cons.IH [of "book_closed_trade now ct b"] book_closed_trade_ok [OF Cons.prems, of now ct] by simp
qed simp

lemma account_run_values:
  assumes "books_ok b" "\<not> bk_live b"
  shows "books_ok (account_run es b) \<and>
     acc_equity_usd (bk_account (account_run es b)) = acc_equity_usd (bk_account b) + profit_of es \<and>
     acc_free_balance_usd (bk_account (account_run es b)) = acc_free_balance_usd (bk_account b) + profit_of es \<and>
     acc_realized_pnl_today_usd (bk_account (account_run es b)) =
       profit_today es (bk_reset_day b) (acc_realized_pnl_today_usd (bk_account b))"
  using assms
proof (induction es arbitrary: b)
  case Nil
  then show ?case by (simp add: account_run_def)
next
  case (Cons e es)
  have run: "account_run (e # es) b = account_run es (account_step e b)" by (simp add: account_run_def)
  show ?case
  proof (cases e)
    case (ClosedTrades now cts)
    then show ?thesis
      using Cons.IH [of "account_step e b"] process_closed_trades_ok [OF Cons.prems(1), of now cts] Cons.prems run by simp
  next
    case (DayCheck today)
    then have "books_ok (account_step e b)" "\<not> bk_live (account_step e b)"
      using Cons.prems by (simp_all add: check_daily_reset_def books_ok_def kahan_add_exact Let_def)
    then show ?thesis
      using Cons.IH [of "account_step e b"] run DayCheck by (simp add: check_daily_reset_def Let_def)
  next
    case (ExchangeSync finres)
    then show ?thesis
      using Cons.IH [of b] Cons.prems run by (simp add: update_account_from_exchange_def)
  next
    case (PositionCount active killed)
    then have "books_ok (account_step e b)" "\<not> bk_live (account_step e b)"
      using Cons.prems by (simp_all add: refresh_positions_def books_ok_def)
    then show ?thesis
      using Cons.IH [of "account_step e b"] run PositionCount by (simp add: refresh_positions_def)
  qed
qed

text \<open>C13. From any persisted state, over any order of closed trades, day checks, synchronisations and
  position counts in paper mode: the equity and the free balance are the loaded ones plus the profit
  of every closed trade, and the realised profit that the daily loss limit reads is that of the
  present day.\<close>

theorem paper_account_is_sum_of_trades:
  fixes persisted :: "(account_state \<times> string) option"
  shows "let b = load_account_state persisted today now (books_new False a rm);
      a0 = bk_account b; a1 = bk_account (account_run es b)
   in acc_equity_usd a1 = acc_equity_usd a0 + profit_of es \<and>
      acc_free_balance_usd a1 = acc_free_balance_usd a0 + profit_of es \<and>
      acc_realized_pnl_today_usd a1 = profit_today es (bk_reset_day b) (acc_realized_pnl_today_usd a0)"
proof -
  have "\<not> bk_live (load_account_state persisted today now (books_new False a rm))"
    by (simp add: load_account_state_def books_new_def case_prod_beta)
  then show ?thesis
    using account_run_values [OF load_books_ok [of persisted today now False a rm], of es] by (simp add: Let_def)
qed

section \<open>What the account does not see\<close>

text \<open>
  In live mode the synchronisation takes the exchange's equity but leaves the sum over the trades as
  it was, so the next closed trade puts the old sum back.
\<close>

lemma exchange_equity_is_overwritten:
  assumes "books_ok b" "bk_live b" "0 < equity"
  shows "acc_equity_usd (bk_account (update_account_from_exchange (Some (balance, equity)) b)) = equity"
    and "acc_equity_usd (bk_account (book_closed_trade now ct (update_account_from_exchange (Some (balance, equity)) b)))
       = acc_equity_usd (bk_account b) + ct_pnl_usd ct"
  using assms by (simp_all add: update_account_from_exchange_def book_closed_trade_def books_ok_def kahan_add_exact Let_def)

text \<open>
  The count of positions that the limits of the gate read leaves out the trades whose entry waits at
  the exchange, and those being closed in an emergency.
\<close>

lemma waiting_entries_not_counted:
  "list_all (\<lambda>t. at_state t = PendingEntry \<or> at_state t = EmergencyClosing) active \<Longrightarrow>
     acc_active_positions (bk_account (refresh_positions active killed b)) = 0 \<and>
     acc_active_tickers (bk_account (refresh_positions active killed b)) = []"
  by (induction active) (auto simp: refresh_positions_def counted_trades_def)

end
