(* ===== verification/Bus.thy ===== *)
theory Bus
  imports Signals "HOL-Library.Multiset"
begin

text \<open>
  \<open>signals/SignalBus.{hpp,cpp}\<close>: the synchronous signal bus. A subscriber is a callback of the
  application, seen by a name \<open>'f\<close>; what it does with a signal is a parameter, the calls it makes
  to the bus in their order, whether it then throws, and the new state \<open>'w\<close> of the rest of the
  program. Calls from inside a callback reach the bus while \<open>in_publish_\<close> is set, so a nested
  \<open>publish\<close> only queues its signal. The mutex is left out: all calls come from one thread.
\<close>

section \<open>State\<close>

record 'f bus =
  bus_subscribers :: "(nat \<times> 'f) list"
  bus_in_publish :: bool
  bus_pending :: "signal list"
  bus_next_id :: nat

definition bus_new :: "'f bus" where
  "bus_new = \<lparr>bus_subscribers = [], bus_in_publish = False, bus_pending = [], bus_next_id = 0\<rparr>"

datatype 'f bus_call = Publish signal | Subscribe 'f | Unsubscribe nat

type_synonym ('f, 'w) client = "'f \<Rightarrow> signal \<Rightarrow> 'w \<Rightarrow> 'f bus_call list \<times> bool \<times> 'w"

section \<open>Operations\<close>

definition subscribe :: "'f \<Rightarrow> 'f bus \<Rightarrow> nat \<times> 'f bus" where
  "subscribe f b =
     (let i = bus_next_id b
      in (i, b\<lparr>bus_next_id := i + 1, bus_subscribers := bus_subscribers b @ [(i, f)]\<rparr>))"

fun erase_first :: "nat \<Rightarrow> (nat \<times> 'f) list \<Rightarrow> (nat \<times> 'f) list" where
  "erase_first i [] = []"
| "erase_first i ((j, f) # subs) = (if j = i then subs else (j, f) # erase_first i subs)"

definition unsubscribe :: "nat \<Rightarrow> 'f bus \<Rightarrow> 'f bus" where
  "unsubscribe i b = b\<lparr>bus_subscribers := erase_first i (bus_subscribers b)\<rparr>"

definition queue_signal :: "signal \<Rightarrow> 'f bus \<Rightarrow> 'f bus" where
  "queue_signal s b = b\<lparr>bus_pending := bus_pending b @ [s]\<rparr>"

fun nested_call :: "'f bus_call \<Rightarrow> 'f bus \<Rightarrow> 'f bus" where
  "nested_call (Publish s) b = queue_signal s b"
| "nested_call (Subscribe f) b = snd (subscribe f b)"
| "nested_call (Unsubscribe i) b = unsubscribe i b"

text \<open>The loop over the snapshot of the subscribers; \<^const>\<open>True\<close> says that a callback threw.\<close>

fun deliver :: "('f, 'w) client \<Rightarrow> signal \<Rightarrow> (nat \<times> 'f) list \<Rightarrow> 'f bus \<times> 'w \<Rightarrow> bool \<times> 'f bus \<times> 'w" where
  "deliver run s [] bw = (False, bw)"
| "deliver run s ((i, f) # subs) (b, w) =
     (case run f s w of (calls, throws, w') \<Rightarrow>
        let b' = fold nested_call calls b
        in if throws then (True, b', w') else deliver run s subs (b', w'))"

definition dispatch_one :: "('f, 'w) client \<Rightarrow> signal \<Rightarrow> 'f bus \<times> 'w \<Rightarrow> bool \<times> 'f bus \<times> 'w" where
  "dispatch_one run s bw =
     (case deliver run s (bus_subscribers (fst bw)) ((fst bw)\<lparr>bus_in_publish := True\<rparr>, snd bw) of
        (True, b, w) \<Rightarrow> (True, b\<lparr>bus_in_publish := False, bus_pending := []\<rparr>, w)
      | (False, b, w) \<Rightarrow> (False, b\<lparr>bus_in_publish := False\<rparr>, w))"

text \<open>
  The loop over the queue. Nothing bounds it: clients that answer every signal with another keep it
  running, and then it has no value.
\<close>

partial_function (option) drain ::
  "('f, 'w) client \<Rightarrow> 'f bus \<times> 'w \<Rightarrow> (bool \<times> 'f bus \<times> 'w) option" where
  "drain run bw =
     (case bus_pending (fst bw) of
        [] \<Rightarrow> Some (False, bw)
      | s # rest \<Rightarrow>
          (let r = dispatch_one run s ((fst bw)\<lparr>bus_pending := rest\<rparr>, snd bw)
           in if fst r then Some r else drain run (snd r)))"

definition bus_publish ::
  "('f, 'w) client \<Rightarrow> signal \<Rightarrow> 'f bus \<times> 'w \<Rightarrow> (bool \<times> 'f bus \<times> 'w) option" where
  "bus_publish run s bw =
     (if bus_in_publish (fst bw) then Some (False, queue_signal s (fst bw), snd bw)
      else (let r = dispatch_one run s bw in if fst r then Some r else drain run (snd r)))"

section \<open>What every dispatch keeps\<close>

text \<open>A bus is idle between two publications: the flag is down and nothing is queued.\<close>

definition bus_idle :: "'f bus \<Rightarrow> bool" where
  "bus_idle b \<longleftrightarrow> \<not> bus_in_publish b \<and> bus_pending b = []"

definition ids_fresh :: "'f bus \<Rightarrow> bool" where
  "ids_fresh b \<longleftrightarrow> distinct (map fst (bus_subscribers b)) \<and> (\<forall>e \<in> set (bus_subscribers b). fst e < bus_next_id b)"

lemma set_erase_first: "set (erase_first i subs) \<subseteq> set subs"
  by (induction i subs rule: erase_first.induct) auto

lemma fst_set_erase_first: "fst ` set (erase_first i subs) \<subseteq> fst ` set subs"
  using set_erase_first by (rule image_mono)

lemma distinct_erase_first: "distinct (map fst subs) \<Longrightarrow> distinct (map fst (erase_first i subs))"
proof (induction i subs rule: erase_first.induct)
  case (2 i j f subs)
  then show ?case using fst_set_erase_first [of i subs] by auto
qed simp

lemma erase_first_gone: "distinct (map fst subs) \<Longrightarrow> i \<notin> fst ` set (erase_first i subs)"
proof (induction i subs rule: erase_first.induct)
  case (2 i j f subs)
  then show ?case by (cases "j = i") simp_all
qed simp

lemma erase_first_id: "i \<notin> fst ` set subs \<Longrightarrow> erase_first i subs = subs"
  by (induction i subs rule: erase_first.induct) simp_all

lemma ids_fresh_new [simp]: "ids_fresh bus_new"
  by (simp add: ids_fresh_def bus_new_def)

lemma ids_fresh_flags [simp]:
  "ids_fresh (b\<lparr>bus_in_publish := x\<rparr>) = ids_fresh b" "ids_fresh (b\<lparr>bus_pending := q\<rparr>) = ids_fresh b"
  by (simp_all add: ids_fresh_def)

lemma ids_fresh_subscribe: "ids_fresh b \<Longrightarrow> ids_fresh (snd (subscribe f b))"
  by (auto simp: ids_fresh_def subscribe_def Let_def less_Suc_eq)

lemma ids_fresh_unsubscribe: "ids_fresh b \<Longrightarrow> ids_fresh (unsubscribe i b)"
  using set_erase_first [of i "bus_subscribers b"]
  by (auto simp: ids_fresh_def unsubscribe_def distinct_erase_first)

lemma ids_fresh_nested: "ids_fresh b \<Longrightarrow> ids_fresh (nested_call c b)"
  by (cases c) (auto simp: ids_fresh_subscribe ids_fresh_unsubscribe, auto simp: ids_fresh_def queue_signal_def)

lemma in_publish_nested [simp]: "bus_in_publish (nested_call c b) = bus_in_publish b"
  by (cases c) (simp_all add: queue_signal_def subscribe_def unsubscribe_def Let_def)

lemma fold_nested_keeps:
  assumes "\<And>c b. P b \<Longrightarrow> P (nested_call c b)" "P b"
  shows "P (fold nested_call calls b)"
  using assms by (induction calls arbitrary: b) auto

lemma in_publish_fold_nested [simp]: "bus_in_publish (fold nested_call calls b) = bus_in_publish b"
  by (induction calls arbitrary: b) auto

lemma deliver_keeps:
  assumes "\<And>c b. P b \<Longrightarrow> P (nested_call c b)" "P (fst bw)"
  shows "P (fst (snd (deliver run s subs bw)))"
  using assms(2)
proof (induction run s subs bw rule: deliver.induct)
  case (2 run s i f subs b w)
  obtain calls throws w' where r: "run f s w = (calls, throws, w')" by (rule prod_cases3)
  have P: "P (fold nested_call calls b)"
    by (rule fold_nested_keeps [where P = P], rule assms(1), assumption, rule "2.prems" [unfolded fst_conv])
  show ?case
  proof (cases throws)
    case True
    then have "deliver run s ((i, f) # subs) (b, w) = (True, fold nested_call calls b, w')"
      by (simp add: r)
    then show ?thesis by (simp add: P)
  next
    case False
    then have "deliver run s ((i, f) # subs) (b, w) = deliver run s subs (fold nested_call calls b, w')"
      by (simp add: r)
    moreover have "P (fst (snd (deliver run s subs (fold nested_call calls b, w'))))"
      by (rule "2.IH" [OF r [symmetric] refl refl]) (use False P in simp_all)
    ultimately show ?thesis by simp
  qed
qed simp

lemma ids_fresh_dispatch: "ids_fresh (fst bw) \<Longrightarrow> ids_fresh (fst (snd (dispatch_one run s bw)))"
  using deliver_keeps [where P = ids_fresh, OF ids_fresh_nested,
      of "((fst bw)\<lparr>bus_in_publish := True\<rparr>, snd bw)" run s "bus_subscribers (fst bw)"]
  by (auto simp: dispatch_one_def split: prod.split bool.split)

lemma dispatch_one_flag: "\<not> bus_in_publish (fst (snd (dispatch_one run s bw)))"
  by (auto simp: dispatch_one_def split: prod.split bool.split)

lemma dispatch_one_threw: "dispatch_one run s bw = (True, b, w) \<Longrightarrow> bus_idle b"
  by (auto simp: dispatch_one_def bus_idle_def split: prod.splits bool.splits)

lemma drain_empty: "bus_pending b = [] \<Longrightarrow> drain run (b, w) = Some (False, b, w)"
  by (subst drain.simps) simp

lemma drain_idle:
  assumes "drain run bw = Some r" "\<not> bus_in_publish (fst bw)" "ids_fresh (fst bw)"
  shows "bus_idle (fst (snd r)) \<and> ids_fresh (fst (snd r))"
proof -
  have "\<not> bus_in_publish (fst bw) \<longrightarrow> ids_fresh (fst bw) \<longrightarrow>
      bus_idle (fst (snd r)) \<and> ids_fresh (fst (snd r))"
    using assms(1)
  proof (rule drain.raw_induct [rotated])
    fix dr :: "('a, 'b) client \<Rightarrow> 'a bus \<times> 'b \<Rightarrow> (bool \<times> 'a bus \<times> 'b) option" and run bw r
    assume IH: "\<And>run bw r. dr run bw = Some r \<Longrightarrow> \<not> bus_in_publish (fst bw) \<longrightarrow> ids_fresh (fst bw) \<longrightarrow>
        bus_idle (fst (snd r)) \<and> ids_fresh (fst (snd r))"
      and eq: "(case bus_pending (fst bw) of [] \<Rightarrow> Some (False, bw)
        | s # rest \<Rightarrow> (let r = dispatch_one run s ((fst bw)\<lparr>bus_pending := rest\<rparr>, snd bw)
                     in if fst r then Some r else dr run (snd r))) = Some r"
    show "\<not> bus_in_publish (fst bw) \<longrightarrow> ids_fresh (fst bw) \<longrightarrow> bus_idle (fst (snd r)) \<and> ids_fresh (fst (snd r))"
    proof (intro impI)
      assume flag: "\<not> bus_in_publish (fst bw)" and fresh: "ids_fresh (fst bw)"
      show "bus_idle (fst (snd r)) \<and> ids_fresh (fst (snd r))"
      proof (cases "bus_pending (fst bw)")
        case Nil
        with eq flag fresh show ?thesis by (auto simp: bus_idle_def)
      next
        case (Cons s rest)
        define d where "d = dispatch_one run s ((fst bw)\<lparr>bus_pending := rest\<rparr>, snd bw)"
        have f: "ids_fresh (fst (snd d))"
          unfolding d_def by (rule ids_fresh_dispatch) (use fresh in \<open>simp add: ids_fresh_def\<close>)
        have n: "\<not> bus_in_publish (fst (snd d))" by (simp add: d_def dispatch_one_flag)
        have e: "(if fst d then Some d else dr run (snd d)) = Some r"
          using eq Cons by (simp add: d_def Let_def split: if_splits)
        show ?thesis
        proof (cases "fst d")
          case True
          with e have "d = r" by simp
          with True dispatch_one_threw [of run s _ "fst (snd d)" "snd (snd d)"] f d_def show ?thesis
            by (metis prod.collapse)
        next
          case False
          with e IH [of run "snd d" r] f n show ?thesis by simp
        qed
      qed
    qed
  qed
  with assms(2,3) show ?thesis by blast
qed

section \<open>Clients whose answers come to an end\<close>

text \<open>
  What the application owes the bus: a client answers a signal only with signals of a lower rank, so
  a cascade of answers cannot go on for ever.
\<close>

locale ranked_clients =
  fixes run :: "('f, 'w) client" and rank :: "signal \<Rightarrow> nat"
  assumes lower: "run f s w = (calls, throws, w') \<Longrightarrow> Publish t \<in> set calls \<Longrightarrow> rank t < rank s"
begin

lemma nested_calls_queue:
  assumes "\<And>t. Publish t \<in> set calls \<Longrightarrow> rank t < n"
  shows "\<exists>new. bus_pending (fold nested_call calls b) = bus_pending b @ new \<and> (\<forall>t \<in> set new. rank t < n)"
  using assms
proof (induction calls arbitrary: b)
  case (Cons c calls)
  obtain new where new: "bus_pending (fold nested_call calls (nested_call c b)) = bus_pending (nested_call c b) @ new"
      "\<forall>t \<in> set new. rank t < n"
    using Cons.IH [of "nested_call c b"] Cons.prems by auto
  show ?case
  proof (cases c)
    case (Publish t)
    with new Cons.prems show ?thesis by (intro exI [of _ "t # new"]) (auto simp: queue_signal_def)
  qed (use new in \<open>auto simp: subscribe_def unsubscribe_def Let_def\<close>)
qed simp

lemma deliver_queues:
  "\<exists>new. bus_pending (fst (snd (deliver run s subs bw))) = bus_pending (fst bw) @ new
     \<and> (\<forall>t \<in> set new. rank t < rank s)"
proof (induction subs arbitrary: bw)
  case (Cons e subs)
  obtain i f b w where e: "e = (i, f)" "bw = (b, w)" by (cases e, cases bw) auto
  obtain calls throws w' where r: "run f s w = (calls, throws, w')" by (rule prod_cases3)
  let ?b = "fold nested_call calls b"
  obtain new where new: "bus_pending ?b = bus_pending b @ new" "\<forall>t \<in> set new. rank t < rank s"
    using nested_calls_queue [of calls "rank s" b] lower [OF r] by blast
  obtain new' where new': "bus_pending (fst (snd (deliver run s subs (?b, w')))) = bus_pending ?b @ new'"
      "\<forall>t \<in> set new'. rank t < rank s"
    using Cons.IH [of "(?b, w')"] by auto
  show ?case
  proof (cases throws)
    case True
    with new show ?thesis by (auto simp: e r)
  next
    case False
    with new new' show ?thesis by (intro exI [of _ "new @ new'"]) (auto simp: e r)
  qed
qed simp

lemma dispatch_queues:
  assumes "\<not> fst (dispatch_one run s bw)"
  obtains new where "bus_pending (fst (snd (dispatch_one run s bw))) = bus_pending (fst bw) @ new"
    "\<forall>t \<in> set new. rank t < rank s"
  using deliver_queues [of s "bus_subscribers (fst bw)" "((fst bw)\<lparr>bus_in_publish := True\<rparr>, snd bw)"] assms that
  by (auto simp: dispatch_one_def split: prod.splits bool.splits)

lemma drain_returns: "\<exists>r. drain run bw = Some r"
proof (induction bw rule: wf_induct_rule [OF wf_inv_image
      [OF wf_mult [OF wf_less_than], of "\<lambda>bw. mset (map rank (bus_pending (fst bw)))"]])
  case (1 bw)
  show ?case
  proof (cases "bus_pending (fst bw)")
    case Nil
    then have "drain run bw = Some (False, bw)" by (simp add: drain.simps)
    then show ?thesis by blast
  next
    case (Cons s rest)
    let ?d = "dispatch_one run s ((fst bw)\<lparr>bus_pending := rest\<rparr>, snd bw)"
    show ?thesis
    proof (cases "fst ?d")
      case True
      with Cons have "drain run bw = Some ?d" by (subst drain.simps) (simp add: Let_def)
      then show ?thesis by blast
    next
      case False
      then obtain new where new: "bus_pending (fst (snd ?d)) = rest @ new" "\<forall>t \<in> set new. rank t < rank s"
        using dispatch_queues [of s "((fst bw)\<lparr>bus_pending := rest\<rparr>, snd bw)"] by auto
      have "(mset (map rank rest) + mset (map rank new), mset (map rank rest) + {#rank s#}) \<in> mult less_than"
        by (rule one_step_implies_mult) (use new in auto)
      then have "(snd ?d, bw) \<in> inv_image (mult less_than) (\<lambda>bw. mset (map rank (bus_pending (fst bw))))"
        using Cons new by (simp add: add.commute)
      then obtain r where "drain run (snd ?d) = Some r" using 1 by blast
      with Cons False have "drain run bw = Some r" by (subst drain.simps) (simp add: Let_def)
      then show ?thesis by blast
    qed
  qed
qed

lemma publish_returns: "\<exists>r. bus_publish run s bw = Some r"
proof -
  let ?d = "dispatch_one run s bw"
  obtain r where "drain run (snd ?d) = Some r" using drain_returns by blast
  then have "bus_publish run s bw = Some (if bus_in_publish (fst bw) then (False, queue_signal s (fst bw), snd bw)
      else if fst ?d then ?d else r)"
    by (simp add: bus_publish_def)
  then show ?thesis by blast
qed

end

section \<open>The order of delivery\<close>

text \<open>
  The reference: the signals of a publication by generation, first the signal itself, then what the
  subscribers answer to it, then what they answer to that.
\<close>

definition answers :: "('f \<Rightarrow> signal \<Rightarrow> signal list) \<Rightarrow> (nat \<times> 'f) list \<Rightarrow> signal \<Rightarrow> signal list" where
  "answers nest subs s = concat (map (\<lambda>e. nest (snd e) s) subs)"

primrec generation :: "('f \<Rightarrow> signal \<Rightarrow> signal list) \<Rightarrow> (nat \<times> 'f) list \<Rightarrow> signal \<Rightarrow> nat \<Rightarrow> signal list" where
  "generation nest subs s 0 = [s]"
| "generation nest subs s (Suc n) = concat (map (answers nest subs) (generation nest subs s n))"

definition visit :: "('f \<Rightarrow> signal \<Rightarrow> 'w \<Rightarrow> 'w) \<Rightarrow> (nat \<times> 'f) list \<Rightarrow> signal \<Rightarrow> 'w \<Rightarrow> 'w" where
  "visit act subs s w = fold (\<lambda>e. act (snd e) s) subs w"

locale plain_clients =
  fixes run :: "('f, 'w) client" and nest :: "'f \<Rightarrow> signal \<Rightarrow> signal list" and act :: "'f \<Rightarrow> signal \<Rightarrow> 'w \<Rightarrow> 'w"
  assumes plain: "run f s w = (map Publish (nest f s), False, act f s w)"
begin

lemma fold_publish:
  "fold nested_call (map Publish ts) b = b\<lparr>bus_pending := bus_pending b @ ts\<rparr>"
  by (induction ts arbitrary: b) (simp_all add: queue_signal_def)

lemma deliver_plain:
  "deliver run s subs (b, w) = (False, b\<lparr>bus_pending := bus_pending b @ answers nest subs s\<rparr>, visit act subs s w)"
proof (induction subs arbitrary: b w)
  case (Cons e subs)
  then show ?case
    by (cases e) (simp add: plain fold_publish answers_def visit_def)
qed (simp add: answers_def visit_def)

lemma dispatch_plain:
  assumes "\<not> bus_in_publish b"
  shows "dispatch_one run s (b, w) =
    (False, b\<lparr>bus_pending := bus_pending b @ answers nest (bus_subscribers b) s\<rparr>, visit act (bus_subscribers b) s w)"
  using assms by (cases b) (simp add: dispatch_one_def deliver_plain)

lemma drain_step:
  assumes "\<not> bus_in_publish b"
  shows "drain run (b\<lparr>bus_pending := xs @ ys\<rparr>, w) =
    drain run (b\<lparr>bus_pending := ys @ concat (map (answers nest (bus_subscribers b)) xs)\<rparr>,
      fold (visit act (bus_subscribers b)) xs w)"
proof (induction xs arbitrary: ys w)
  case (Cons x xs)
  have "drain run (b\<lparr>bus_pending := (x # xs) @ ys\<rparr>, w) =
      drain run (b\<lparr>bus_pending := xs @ ys @ answers nest (bus_subscribers b) x\<rparr>, visit act (bus_subscribers b) x w)"
    using assms by (subst drain.simps) (simp add: dispatch_plain)
  also have "\<dots> = drain run (b\<lparr>bus_pending := (ys @ answers nest (bus_subscribers b) x)
        @ concat (map (answers nest (bus_subscribers b)) xs)\<rparr>,
      fold (visit act (bus_subscribers b)) xs (visit act (bus_subscribers b) x w))"
    by (rule Cons.IH)
  finally show ?case by simp
qed simp

lemma drain_generations:
  assumes "\<not> bus_in_publish b"
  shows "drain run (b\<lparr>bus_pending := generation nest (bus_subscribers b) s k\<rparr>, w) =
    drain run (b\<lparr>bus_pending := generation nest (bus_subscribers b) s (k + n)\<rparr>,
      fold (visit act (bus_subscribers b)) (concat (map (generation nest (bus_subscribers b) s) [k..<k + n])) w)"
proof (induction n)
  case (Suc n)
  have "drain run (b\<lparr>bus_pending := generation nest (bus_subscribers b) s (k + n)\<rparr>, v) =
      drain run (b\<lparr>bus_pending := generation nest (bus_subscribers b) s (Suc (k + n))\<rparr>,
        fold (visit act (bus_subscribers b)) (generation nest (bus_subscribers b) s (k + n)) v)" for v
    using drain_step [OF assms, of "generation nest (bus_subscribers b) s (k + n)" "[]"] by simp
  with Suc show ?case by simp
qed simp

end

lemma generation_rank:
  assumes "\<And>f s t. t \<in> set (nest f s) \<Longrightarrow> rank t < (rank s :: nat)"
  shows "t \<in> set (generation nest subs s n) \<Longrightarrow> rank t + n \<le> rank s"
proof (induction n arbitrary: t)
  case (Suc n)
  then obtain u f where "u \<in> set (generation nest subs s n)" "t \<in> set (nest f u)"
    by (auto simp: answers_def)
  with Suc.IH [of u] assms [of t f u] show ?case by simp
qed simp

lemma generation_ends:
  assumes "\<And>f s t. t \<in> set (nest f s) \<Longrightarrow> rank t < (rank s :: nat)" "rank s < n"
  shows "generation nest subs s n = []"
proof (rule ccontr)
  assume "generation nest subs s n \<noteq> []"
  then obtain t where "t \<in> set (generation nest subs s n)" by (meson ex_in_conv set_empty)
  then have "rank t + n \<le> rank s" using generation_rank [of nest rank t subs s n] assms(1) by blast
  with assms(2) show False by simp
qed

text \<open>C9. Nested signals are deferred, never lost: when the answers of every subscriber have a lower
  rank than the signal they answer and no subscriber throws, \<open>publish\<close> on an idle bus returns, leaves
  the bus as it was, and has handed to every subscriber, in the order of subscription, the signal,
  then the answers to it, then the answers to those, generation by generation.\<close>

theorem publish_visits_generations:
  assumes "\<forall>f s w. run f s w = (map Publish (nest f s), False, act f s w)"
    and "\<forall>f s. \<forall>t \<in> set (nest f s). rank t < (rank s :: nat)"
    and "bus_idle b"
  shows "bus_publish run s (b, w) =
    Some (False, b, fold (visit act (bus_subscribers b))
      (concat (map (generation nest (bus_subscribers b) s) [0..<Suc (rank s)])) w)"
proof -
  let ?subs = "bus_subscribers b" and ?n = "rank s"
  let ?gen = "generation nest ?subs s"
  have c: "plain_clients run nest act" using assms(1) by (simp add: plain_clients_def)
  have idle: "\<not> bus_in_publish b" "bus_pending b = []" using assms(3) by (simp_all add: bus_idle_def)
  have ends: "?gen (1 + ?n) = []" using generation_ends [of nest rank s "1 + ?n"] assms(2) by simp
  have b: "b\<lparr>bus_pending := []\<rparr> = b" using idle(2) by (cases b) simp
  have "bus_publish run s (b, w) = drain run (b\<lparr>bus_pending := ?gen 1\<rparr>, visit act ?subs s w)"
    using idle by (simp add: bus_publish_def plain_clients.dispatch_plain [OF c])
  also have "\<dots> = drain run (b\<lparr>bus_pending := ?gen (1 + ?n)\<rparr>,
      fold (visit act ?subs) (concat (map ?gen [1..<1 + ?n])) (visit act ?subs s w))"
    by (rule plain_clients.drain_generations [OF c idle(1)])
  also have "\<dots> = Some (False, b, fold (visit act ?subs) (concat (map ?gen [1..<1 + ?n])) (visit act ?subs s w))"
    unfolding ends b by (rule drain_empty [OF idle(2)])
  also have "[0..<Suc ?n] = 0 # [1..<1 + ?n]" by (simp add: upt_conv_Cons del: upt_Suc)
  then have "fold (visit act ?subs) (concat (map ?gen [1..<1 + ?n])) (visit act ?subs s w) =
      fold (visit act ?subs) (concat (map ?gen [0..<Suc ?n])) w"
    by (simp del: upt_Suc)
  finally show ?thesis .
qed

text \<open>C35. A publication that returns leaves the bus idle, whether or not a subscriber threw: the flag is
  down and no queued signal of the aborted cascade leaks into the next one, and the identifiers of
  the subscribers stay distinct and below the next one. It does return, also with subscribers
  that throw, subscribe or unsubscribe, when every answer has a lower rank than its signal.\<close>

theorem publish_leaves_bus_idle:
  assumes "bus_idle b" "ids_fresh b"
    and "\<forall>f s w t. Publish t \<in> set (fst (run f s w)) \<longrightarrow> rank t < (rank s :: nat)"
  shows "\<exists>threw b' w'. bus_publish run s (b, w) = Some (threw, b', w') \<and> bus_idle b' \<and> ids_fresh b'"
proof -
  have "ranked_clients run rank"
  proof
    fix f s w calls throws w' t
    assume "run f s w = (calls, throws, w')" "Publish t \<in> set calls"
    with assms(3) show "rank t < rank s" by (metis fst_conv)
  qed
  then obtain r where r: "bus_publish run s (b, w) = Some r" using ranked_clients.publish_returns by blast
  let ?d = "dispatch_one run s (b, w)"
  have fresh: "ids_fresh (fst (snd ?d))" using ids_fresh_dispatch [of "(b, w)"] assms(2) by simp
  have "bus_idle (fst (snd r)) \<and> ids_fresh (fst (snd r))"
  proof (cases "fst ?d")
    case True
    with r assms(1) have "?d = r" by (simp add: bus_publish_def bus_idle_def)
    with True fresh dispatch_one_threw [of run s "(b, w)"] show ?thesis by (metis prod.collapse)
  next
    case False
    with r assms(1) have "drain run (snd ?d) = Some r" by (simp add: bus_publish_def bus_idle_def)
    then show ?thesis using drain_idle dispatch_one_flag fresh by blast
  qed
  with r show ?thesis by (cases r) auto
qed

end
