(* ===== verification/Bridge.thy ===== *)
theory Bridge
  imports Bus Desk
begin

text \<open>
  \<open>signals/SignalLevelBridge.{hpp,cpp}\<close>: the table of the signal levels kept on the server, with
  its limit and its eviction, and the two subscribers of the application's signal bus, the strategy
  engine and this bridge, as clients of \<open>Bus\<close>. The gateway's HTTP calls \<open>create\<close> and
  \<open>remove\<close> are parameters on a state \<open>'g\<close> of the server; they report failure in their result and
  do not throw.
\<close>

section \<open>State\<close>

record level_info =
  li_id :: int
  li_ticker :: ticker
  li_price :: double
  li_created_at :: time_point
  li_triggered :: bool

record signal_level =
  sl_id :: int
  sl_ticker :: ticker
  sl_price :: double
  sl_triggered :: bool
  sl_created_at :: time_point

record bridge =
  br_enabled :: bool
  br_max_server_levels :: int
  br_levels :: "(int, level_info) omap"

record 'g level_gateway =
  lg_create :: "ticker \<Rightarrow> double \<Rightarrow> 'g \<Rightarrow> int \<times> 'g"
  lg_remove :: "int \<Rightarrow> 'g \<Rightarrow> 'g"

definition bridge_new :: "bool \<Rightarrow> int \<Rightarrow> bridge" where
  "bridge_new enabled limit = \<lparr>br_enabled = enabled, br_max_server_levels = limit, br_levels = []\<rparr>"

section \<open>Eviction\<close>

text \<open>The first entry that no later one beats, as the loops with a running best find it.\<close>

definition first_best :: "('a \<Rightarrow> 'a \<Rightarrow> bool) \<Rightarrow> 'a list \<Rightarrow> 'a option" where
  "first_best beats xs =
     fold (\<lambda>e best. case best of None \<Rightarrow> Some e | Some v \<Rightarrow> if beats e v then Some e else Some v) xs None"

definition mid_distance :: "double \<Rightarrow> int \<times> level_info \<Rightarrow> double" where
  "mid_distance mid e = \<bar>li_price (snd e) - mid\<bar> / mid"

definition eviction_victim :: "double \<Rightarrow> (int, level_info) omap \<Rightarrow> (int \<times> level_info) option" where
  "eviction_victim mid m =
     (case find (\<lambda>e. li_triggered (snd e)) m of
        Some e \<Rightarrow> Some e
      | None \<Rightarrow>
          (case (if 0 < mid then first_best (\<lambda>e v. mid_distance mid v < mid_distance mid e) m else None) of
             Some e \<Rightarrow> Some e
           | None \<Rightarrow> first_best (\<lambda>e v. li_created_at (snd e) < li_created_at (snd v)) m))"

section \<open>Operations\<close>

text \<open>The block under the lock: the identifier of the evicted level, and the table without it.\<close>

definition evict :: "double \<Rightarrow> bridge \<Rightarrow> int option \<times> bridge" where
  "evict mid br =
     (case (if size_t_of (br_max_server_levels br) \<le> int (length (br_levels br))
            then eviction_victim mid (br_levels br) else None) of
        None \<Rightarrow> (None, br)
      | Some v \<Rightarrow> (Some (fst v), br\<lparr>br_levels := omap_erase (fst v) (br_levels br)\<rparr>))"

definition record_level :: "int \<Rightarrow> ticker \<Rightarrow> double \<Rightarrow> time_point \<Rightarrow> bridge \<Rightarrow> bridge" where
  "record_level i key price ts br =
     (if 0 < i
      then br\<lparr>br_levels := omap_put (<) i
             \<lparr>li_id = i, li_ticker = key, li_price = price, li_created_at = ts, li_triggered = False\<rparr>
             (br_levels br)\<rparr>
      else br)"

definition on_level_formed ::
  "'g level_gateway \<Rightarrow> ticker \<Rightarrow> double \<Rightarrow> time_point \<Rightarrow> double \<Rightarrow> bridge \<times> 'g \<Rightarrow> bridge \<times> 'g" where
  "on_level_formed gw t price ts mid bg =
     (if \<not> br_enabled (fst bg) then bg
      else
        let key = to_internal_ticker t;
            e = evict mid (fst bg);
            g1 = (case fst e of Some i \<Rightarrow> if 0 \<le> i then lg_remove gw i (snd bg) else snd bg | None \<Rightarrow> snd bg);
            r = lg_create gw key price g1
        in (record_level (fst r) key price ts (snd e), snd r))"

definition mark_triggered :: "int \<Rightarrow> (int, level_info) omap \<Rightarrow> (int, level_info) omap" where
  "mark_triggered i m = map (\<lambda>(k, l). (k, if k = i then l\<lparr>li_triggered := True\<rparr> else l)) m"

text \<open>The signal that \<open>on_server_trigger\<close> publishes; its identifier is the unreplaced format.\<close>

definition server_break :: "ticker \<Rightarrow> double \<Rightarrow> time_point \<Rightarrow> nat \<Rightarrow> signal" where
  "server_break t price ts i =
     \<lparr>sg_kind = LevelBreak, sg_timestamp = ts, sg_ticker = to_internal_ticker t, sg_price = price,
      sg_confidence = 1,
      sg_payload = signal_payload_default\<lparr>sp_id := ''%lld'', sp_source := ''server''\<rparr>,
      sg_trigger_trace_id = i\<rparr>"

definition on_server_trigger :: "int \<Rightarrow> ticker \<Rightarrow> double \<Rightarrow> time_point \<Rightarrow> bridge \<Rightarrow> signal \<times> bridge" where
  "on_server_trigger i t price ts br =
     (server_break t price ts 0, br\<lparr>br_levels := mark_triggered i (br_levels br)\<rparr>)"

definition place_server_level :: "signal_level \<Rightarrow> (int, level_info) omap \<Rightarrow> (int, level_info) omap" where
  "place_server_level l m =
     (if sl_id l \<le> 0 then m
      else omap_put (<) (sl_id l)
        \<lparr>li_id = sl_id l, li_ticker = to_internal_ticker (sl_ticker l), li_price = sl_price l,
         li_created_at = sl_created_at l, li_triggered = sl_triggered l\<rparr> m)"

definition on_server_snapshot :: "signal_level list \<Rightarrow> bridge \<Rightarrow> bridge" where
  "on_server_snapshot ls br = br\<lparr>br_levels := fold place_server_level ls []\<rparr>"

definition on_server_level_placed :: "signal_level \<Rightarrow> bridge \<Rightarrow> bridge" where
  "on_server_level_placed l br = br\<lparr>br_levels := place_server_level l (br_levels br)\<rparr>"

definition on_server_removed :: "int \<Rightarrow> bridge \<Rightarrow> bridge" where
  "on_server_removed i br = br\<lparr>br_levels := omap_erase i (br_levels br)\<rparr>"

definition on_server_removed_all :: "ticker \<Rightarrow> bridge \<Rightarrow> bridge" where
  "on_server_removed_all t br =
     (let key = to_internal_ticker t in
      br\<lparr>br_levels := (if key = '''' then [] else filter (\<lambda>(_, l). li_ticker l \<noteq> key) (br_levels br))\<rparr>)"

definition on_server_removed_triggered :: "bridge \<Rightarrow> bridge" where
  "on_server_removed_triggered br = br\<lparr>br_levels := filter (\<lambda>(_, l). \<not> li_triggered l) (br_levels br)\<rparr>"

section \<open>The table\<close>

definition bridge_ok :: "bridge \<Rightarrow> bool" where
  "bridge_ok br \<longleftrightarrow> omap_ok (<) (br_levels br) \<and>
     (\<forall>(k, l) \<in> set (br_levels br). 0 < k \<and> li_id l = k \<and> to_internal_ticker (li_ticker l) = li_ticker l)"

lemma bridge_ok_new: "bridge_ok (bridge_new enabled limit)"
  by (simp add: bridge_ok_def bridge_new_def)

lemma bridge_ok_filter: "bridge_ok br \<Longrightarrow> bridge_ok (br\<lparr>br_levels := filter P (br_levels br)\<rparr>)"
  by (auto simp: bridge_ok_def omap_ok_filter)

lemma bridge_ok_erase: "bridge_ok br \<Longrightarrow> bridge_ok (br\<lparr>br_levels := omap_erase k (br_levels br)\<rparr>)"
  unfolding omap_erase_def by (rule bridge_ok_filter)

lemma bridge_ok_put:
  assumes "bridge_ok br" "0 < li_id l" "to_internal_ticker (li_ticker l) = li_ticker l"
  shows "bridge_ok (br\<lparr>br_levels := omap_put (<) (li_id l) l (br_levels br)\<rparr>)"
  using assms set_omap_put [of _ "(<)" "li_id l" l "br_levels br"]
  by (fastforce simp: bridge_ok_def intro: asc.omap_ok_put)

lemma bridge_ok_mark: "bridge_ok br \<Longrightarrow> bridge_ok (br\<lparr>br_levels := mark_triggered i (br_levels br)\<rparr>)"
  by (auto simp: bridge_ok_def mark_triggered_def omap_ok_def sorted_wrt_map comp_def case_prod_beta)

lemma bridge_ok_place:
  assumes "bridge_ok br"
  shows "bridge_ok (br\<lparr>br_levels := place_server_level l (br_levels br)\<rparr>)"
proof (cases "sl_id l \<le> 0")
  case True
  with assms show ?thesis by (simp add: place_server_level_def)
next
  case False
  then show ?thesis
    using bridge_ok_put [OF assms, of "\<lparr>li_id = sl_id l, li_ticker = to_internal_ticker (sl_ticker l),
        li_price = sl_price l, li_created_at = sl_created_at l, li_triggered = sl_triggered l\<rparr>"]
    by (simp add: place_server_level_def)
qed

lemma bridge_ok_snapshot: "bridge_ok (on_server_snapshot ls br)"
proof -
  have "bridge_ok (br\<lparr>br_levels := fold place_server_level ls m\<rparr>)" if "bridge_ok (br\<lparr>br_levels := m\<rparr>)" for m
    using that
  proof (induction ls arbitrary: m)
    case (Cons l ls)
    from bridge_ok_place [OF Cons.prems, of l] show ?case by (simp add: Cons.IH)
  qed simp
  from this [of "[]"] show ?thesis by (simp add: on_server_snapshot_def bridge_ok_def)
qed

lemma first_best_least:
  fixes f :: "'a \<Rightarrow> 'b::linorder"
  assumes "first_best (\<lambda>e v. f e < f v) xs = Some b"
  shows "b \<in> set xs \<and> (\<forall>x \<in> set xs. f b \<le> f x)"
proof -
  let ?step = "\<lambda>e best. case best of None \<Rightarrow> Some e | Some v \<Rightarrow> if f e < f v then Some e else Some v"
  have run: "b \<in> insert v (set ys) \<and> (\<forall>x \<in> insert v (set ys). f b \<le> f x)" if "fold ?step ys (Some v) = Some b" for v ys
    using that by (induction ys arbitrary: v) (fastforce split: if_splits)+
  show ?thesis
  proof (cases xs)
    case (Cons x ys)
    with assms run [of ys x] show ?thesis by (simp add: first_best_def)
  qed (use assms in \<open>simp add: first_best_def\<close>)
qed

lemma first_best_None: "first_best beats xs = None \<longleftrightarrow> xs = []"
proof -
  let ?step = "\<lambda>e best. case best of None \<Rightarrow> Some e | Some v \<Rightarrow> if beats e v then Some e else Some v"
  have "fold ?step ys (Some v) \<noteq> None" for v ys
    by (induction ys arbitrary: v) simp_all
  then show ?thesis by (cases xs) (simp_all add: first_best_def)
qed

text \<open>Which level goes: one that has triggered if there is one, or else by distance or age.\<close>

definition right_victim :: "double \<Rightarrow> (int, level_info) omap \<Rightarrow> int \<times> level_info \<Rightarrow> bool" where
  "right_victim mid m v \<longleftrightarrow> v \<in> set m \<and>
     (li_triggered (snd v) \<or>
      (\<forall>e \<in> set m. \<not> li_triggered (snd e)) \<and>
      (if 0 < mid then \<forall>e \<in> set m. mid_distance mid e \<le> mid_distance mid v
       else \<forall>e \<in> set m. li_created_at (snd v) \<le> li_created_at (snd e)))"

lemma eviction_victim_right:
  assumes "eviction_victim mid m = Some v"
  shows "right_victim mid m v"
proof (cases "find (\<lambda>e. li_triggered (snd e)) m")
  case (Some e)
  with assms find_SomeD [OF Some] show ?thesis by (simp add: eviction_victim_def right_victim_def)
next
  case None
  then have none: "\<forall>e \<in> set m. \<not> li_triggered (snd e)" by (simp add: find_None_iff_all)
  show ?thesis
  proof (cases "0 < mid")
    case True
    have far: "first_best (\<lambda>e v. mid_distance mid v < mid_distance mid e) m =
        first_best (\<lambda>e v. - mid_distance mid e < - mid_distance mid v) m" by simp
    from assms None True have "first_best (\<lambda>e v. mid_distance mid v < mid_distance mid e) m = Some v"
      by (auto simp: eviction_victim_def first_best_None split: option.splits) (simp add: first_best_def)
    with first_best_least [of "\<lambda>e. - mid_distance mid e" m v] none True show ?thesis
      unfolding far by (simp add: right_victim_def)
  next
    case False
    with assms None first_best_least [of "\<lambda>e. li_created_at (snd e)" m v] none show ?thesis
      by (simp add: eviction_victim_def right_victim_def)
  qed
qed

lemma eviction_victim_None: "eviction_victim mid m = None \<Longrightarrow> m = []"
  by (auto simp: eviction_victim_def first_best_None split: option.splits if_splits)

lemma length_omap_put: "length (omap_put lt k v m) \<le> Suc (length m)"
  by (induction m) auto

lemma length_omap_erase_member:
  assumes "v \<in> set m"
  shows "length (omap_erase (fst v) m) < length m"
  using assms unfolding omap_erase_def by (metis (mono_tags, lifting) case_prod_beta length_filter_less)

lemma evict_keeps [simp]:
  "br_enabled (snd (evict mid br)) = br_enabled br"
  "br_max_server_levels (snd (evict mid br)) = br_max_server_levels br"
  by (simp_all add: evict_def split: option.split)

lemma evict_ok: "bridge_ok br \<Longrightarrow> bridge_ok (snd (evict mid br))"
  by (auto simp: evict_def bridge_ok_erase split: option.split)

lemma evict_subset: "set (br_levels (snd (evict mid br))) \<subseteq> set (br_levels br)"
  by (auto simp: evict_def split: option.split)

lemma record_level_length: "length (br_levels (record_level i key price ts br)) \<le> Suc (length (br_levels br))"
  by (simp add: record_level_def length_omap_put)

lemma record_level_limit [simp]: "br_max_server_levels (record_level i key price ts br) = br_max_server_levels br"
  by (simp add: record_level_def)

lemma record_level_member:
  assumes "e \<in> set (br_levels (record_level i key price ts br))" "e \<notin> set (br_levels br)"
  shows "0 < i \<and> e = (i, \<lparr>li_id = i, li_ticker = key, li_price = price, li_created_at = ts, li_triggered = False\<rparr>)"
  using assms set_omap_put [of e] by (auto simp: record_level_def split: if_splits)

lemma record_level_ok: "bridge_ok br \<Longrightarrow> bridge_ok (record_level i (to_internal_ticker t) price ts br)"
  using bridge_ok_put [of br "\<lparr>li_id = i, li_ticker = to_internal_ticker t, li_price = price,
      li_created_at = ts, li_triggered = False\<rparr>"]
  by (simp add: record_level_def)

lemma evict_shrinks:
  assumes "1 \<le> br_max_server_levels br" "br_max_server_levels br < 2 ^ 31"
    and "int (length (br_levels br)) \<le> br_max_server_levels br"
  shows "int (length (br_levels (snd (evict mid br)))) < br_max_server_levels br"
proof (cases "br_max_server_levels br \<le> int (length (br_levels br))")
  case True
  have s: "size_t_of (br_max_server_levels br) = br_max_server_levels br" using assms by (simp add: size_t_of_def)
  have "br_levels br \<noteq> []" using True assms(1) by auto
  then obtain v where v: "eviction_victim mid (br_levels br) = Some v"
    using eviction_victim_None by fastforce
  then have "v \<in> set (br_levels br)" using eviction_victim_right by (auto simp: right_victim_def)
  then have "length (omap_erase (fst v) (br_levels br)) < length (br_levels br)" by (rule length_omap_erase_member)
  moreover have "evict mid br = (Some (fst v), br\<lparr>br_levels := omap_erase (fst v) (br_levels br)\<rparr>)"
    unfolding evict_def s using True v by simp
  ultimately show ?thesis using assms(3) by simp
next
  case False
  then show ?thesis using assms by (simp add: evict_def size_t_of_def)
qed

lemma evict_victim:
  assumes "bridge_ok br" "0 \<le> br_max_server_levels br" "br_max_server_levels br < 2 ^ 31"
    and "e \<in> set (br_levels br)" "e \<notin> set (br_levels (snd (evict mid br)))"
  shows "br_max_server_levels br \<le> int (length (br_levels br)) \<and> right_victim mid (br_levels br) e"
proof -
  have s: "size_t_of (br_max_server_levels br) = br_max_server_levels br" using assms by (simp add: size_t_of_def)
  obtain v where full: "br_max_server_levels br \<le> int (length (br_levels br))"
      and v: "eviction_victim mid (br_levels br) = Some v" and gone: "e \<notin> set (omap_erase (fst v) (br_levels br))"
    using assms(4,5) by (auto simp: evict_def s split: option.splits if_splits)
  have r: "right_victim mid (br_levels br) v" by (rule eviction_victim_right [OF v])
  have "fst e = fst v" using gone assms(4) by (simp add: case_prod_beta)
  moreover have "distinct (map fst (br_levels br))"
    using assms(1) by (simp add: bridge_ok_def asc.omap_ok_distinct)
  moreover have "v \<in> set (br_levels br)" using r by (simp add: right_victim_def)
  ultimately have "e = v" using assms(4) by (metis eq_key_imp_eq_value prod.collapse)
  with full r show ?thesis by simp
qed

text \<open>A new level never lets the table of server levels grow beyond its limit. A level leaves the
  table only when the limit was reached, at most one per call, and then it is one that has
  triggered if there is one, otherwise the farthest from the mid if a mid is given and the
  oldest if not; a level the server did not accept is not recorded.\<close>

theorem level_formed_evicts_rightly:
  assumes "bridge_ok br" "br_enabled br" "1 \<le> br_max_server_levels br" "br_max_server_levels br < 2 ^ 31"
    and "int (length (br_levels br)) \<le> br_max_server_levels br"
    and "on_level_formed gw t price ts mid (br, g) = (br', g')"
  shows "bridge_ok br' \<and> int (length (br_levels br')) \<le> br_max_server_levels br'
    \<and> (\<forall>e \<in> set (br_levels br).
        fst e \<in> fst ` set (br_levels br') \<or>
        int (length (br_levels br)) = br_max_server_levels br \<and> right_victim mid (br_levels br) e)
    \<and> (\<forall>e \<in> set (br_levels br') - set (br_levels br).
        0 < fst e \<and> li_ticker (snd e) = to_internal_ticker t \<and> li_price (snd e) = price
        \<and> li_created_at (snd e) = ts \<and> \<not> li_triggered (snd e))"
proof -
  let ?e = "snd (evict mid br)" and ?key = "to_internal_ticker t"
  obtain i where br': "br' = record_level i ?key price ts ?e"
    using assms(2,6) by (auto simp: on_level_formed_def Let_def)
  have len: "int (length (br_levels ?e)) < br_max_server_levels br" using evict_shrinks assms by blast
  have "bridge_ok br'" unfolding br' by (rule record_level_ok [OF evict_ok [OF assms(1)]])
  moreover have "int (length (br_levels br')) \<le> br_max_server_levels br'"
    using len record_level_length [of i ?key price ts ?e] unfolding br' by simp
  moreover have "fst e \<in> fst ` set (br_levels br') \<or>
        int (length (br_levels br)) = br_max_server_levels br \<and> right_victim mid (br_levels br) e"
    if "e \<in> set (br_levels br)" for e
  proof (cases "e \<in> set (br_levels ?e)")
    case True
    then have "fst e \<in> fst ` set (br_levels br')" by (simp add: br' record_level_def keys_omap_put)
    then show ?thesis ..
  next
    case False
    with evict_victim [OF assms(1) _ assms(4) that] assms(3,5) show ?thesis by auto
  qed
  moreover have "0 < fst e \<and> li_ticker (snd e) = ?key \<and> li_price (snd e) = price
        \<and> li_created_at (snd e) = ts \<and> \<not> li_triggered (snd e)"
    if "e \<in> set (br_levels br') - set (br_levels br)" for e
  proof -
    have "e \<notin> set (br_levels ?e)" using that evict_subset by blast
    with that record_level_member [of e i ?key price ts ?e] show ?thesis by (simp add: br')
  qed
  ultimately show ?thesis by blast
qed

section \<open>The subscribers of the application\<close>

text \<open>
  The bus of \<open>BotApp\<close> with its subscribers that act on a signal: the engine, whose plans go to the
  desk, and the bridge, which only minds new levels and is given no mid. (The first subscriber
  only counts signals for the dashboard.)
\<close>

datatype app_client = EngineClient | BridgeClient

record 'g app_world =
  aw_desk :: "desk \<times> engine"
  aw_levels :: "bridge \<times> 'g"

definition bridge_on_signal :: "'g level_gateway \<Rightarrow> signal \<Rightarrow> bridge \<times> 'g \<Rightarrow> bridge \<times> 'g" where
  "bridge_on_signal gw s bg =
     (if br_enabled (fst bg) \<and> sg_kind s = LevelFormed
      then on_level_formed gw (sg_ticker s) (sg_price s) (sg_timestamp s) 0 bg else bg)"

fun app_act ::
  "flush_config \<Rightarrow> 'g level_gateway \<Rightarrow> time_point \<Rightarrow> time_point \<Rightarrow> app_client \<Rightarrow> signal \<Rightarrow> 'g app_world \<Rightarrow> 'g app_world" where
  "app_act cfg gw now later EngineClient s w =
     w\<lparr>aw_desk := engine_on_signal (Some (desk_on_plan cfg now later)) s (Some now) now (aw_desk w)\<rparr>"
| "app_act cfg gw now later BridgeClient s w = w\<lparr>aw_levels := bridge_on_signal gw s (aw_levels w)\<rparr>"

definition app_client_run ::
  "flush_config \<Rightarrow> 'g level_gateway \<Rightarrow> time_point \<Rightarrow> time_point \<Rightarrow> (app_client, 'g app_world) client" where
  "app_client_run cfg gw now later c s w = ([], False, app_act cfg gw now later c s w)"

interpretation app_ranked: ranked_clients "app_client_run cfg gw now later" "\<lambda>_. 0"
  by unfold_locales (simp add: app_client_run_def)

interpretation app_plain: plain_clients "app_client_run cfg gw now later" "\<lambda>_ _. []" "app_act cfg gw now later"
  by unfold_locales (simp add: app_client_run_def)

text \<open>
  A detector that publishes some signals one after another, as all of them do, on the idle bus of
  the application: the bus stays as it is, and the subscribers see the signals in that order.
\<close>

lemma app_publish:
  assumes "bus_idle b"
  shows "bus_publish (app_client_run cfg gw now later) s (b, w) =
    Some (False, b, visit (app_act cfg gw now later) (bus_subscribers b) s w)"
proof -
  have "b\<lparr>bus_pending := []\<rparr> = b" using assms by (cases b) (simp add: bus_idle_def)
  moreover have "answers (\<lambda>_ _. []) subs s = []" for subs :: "(nat \<times> app_client) list"
    by (simp add: answers_def)
  ultimately show ?thesis
    using assms app_plain.dispatch_plain [of b cfg gw now later s w] drain_empty [of b]
    by (simp add: bus_publish_def bus_idle_def)
qed

end
