(* ===== verification/BusCases.thy ===== *)
theory BusCases
  imports Bridge
begin

text \<open>
  Runs of the signal bus and of the bridge: two subscribers that answer a new level, one that throws,
  and a full table that gets one level more.
\<close>

definition level_signal :: "signal_kind \<Rightarrow> signal" where
  "level_signal k =
     \<lparr>sg_kind = k, sg_timestamp = seconds 10, sg_ticker = ''BTC_USDT'', sg_price = 100, sg_confidence = 1,
      sg_payload = signal_payload_default, sg_trigger_trace_id = 0\<rparr>"

definition sample_nest :: "nat \<Rightarrow> signal \<Rightarrow> signal list" where
  "sample_nest f s = (if sg_kind s = LevelFormed then [s\<lparr>sg_kind := (if f = 0 then LevelApproach else LevelBreak)\<rparr>] else [])"

definition sample_act :: "nat \<Rightarrow> signal \<Rightarrow> (nat \<times> signal_kind) list \<Rightarrow> (nat \<times> signal_kind) list" where
  "sample_act f s w = w @ [(f, sg_kind s)]"

definition sample_rank :: "signal \<Rightarrow> nat" where
  "sample_rank s = (if sg_kind s = LevelFormed then 1 else 0)"

definition sample_bus :: "nat bus" where
  "sample_bus = snd (subscribe 1 (snd (subscribe 0 bus_new)))"

definition throwing_run :: "(nat, (nat \<times> signal_kind) list) client" where
  "throwing_run f s w = (map Publish (sample_nest f s), f = 1, sample_act f s w)"

lemma sample_rank_lower: "\<forall>f s. \<forall>t \<in> set (sample_nest f s). sample_rank t < sample_rank s"
  by (simp add: sample_nest_def sample_rank_def)

text \<open>Both subscribers see the level, then both answers to it in the order they were given.\<close>

theorem publish_visits_generations_witness:
  "bus_publish (\<lambda>f s w. (map Publish (sample_nest f s), False, sample_act f s w)) (level_signal LevelFormed) (sample_bus, []) =
     Some (False, sample_bus, [(0, LevelFormed), (1, LevelFormed), (0, LevelApproach), (1, LevelApproach),
       (0, LevelBreak), (1, LevelBreak)])"
proof -
  have "bus_idle sample_bus" by code_simp
  moreover have "fold (visit sample_act (bus_subscribers sample_bus))
      (concat (map (generation sample_nest (bus_subscribers sample_bus) (level_signal LevelFormed))
        [0..<Suc (sample_rank (level_signal LevelFormed))])) [] =
      [(0, LevelFormed), (1, LevelFormed), (0, LevelApproach), (1, LevelApproach), (0, LevelBreak), (1, LevelBreak)]"
    by code_simp
  ultimately show ?thesis
    using publish_visits_generations [of "\<lambda>f s w. (map Publish (sample_nest f s), False, sample_act f s w)"
        sample_nest sample_act sample_rank sample_bus "level_signal LevelFormed" "[]"] sample_rank_lower
    by simp
qed

text \<open>The second subscriber throws; the answer of the first is dropped with the queue.\<close>

theorem publish_leaves_bus_idle_witness:
  "bus_idle sample_bus \<and> ids_fresh sample_bus
   \<and> (\<exists>threw b' w'. bus_publish throwing_run (level_signal LevelFormed) (sample_bus, []) = Some (threw, b', w')
        \<and> bus_idle b' \<and> ids_fresh b')"
proof -
  have "bus_idle sample_bus" by code_simp
  moreover have "ids_fresh sample_bus" by code_simp
  moreover have "\<forall>f s w t. Publish t \<in> set (fst (throwing_run f s w)) \<longrightarrow> sample_rank t < sample_rank s"
    using sample_rank_lower by (auto simp: throwing_run_def)
  ultimately show ?thesis
    using publish_leaves_bus_idle [of sample_bus throwing_run sample_rank "level_signal LevelFormed" "[]"] by blast
qed

lemma throwing_publish:
  "dispatch_one throwing_run (level_signal LevelFormed) (sample_bus, []) =
     (True, sample_bus, [(0, LevelFormed), (1, LevelFormed)])"
  by code_simp

section \<open>The bridge\<close>

definition counting_gateway :: "int level_gateway" where
  "counting_gateway = \<lparr>lg_create = (\<lambda>t price n. (n, n + 1)), lg_remove = (\<lambda>i n. n)\<rparr>"

definition full_bridge :: bridge where
  "full_bridge =
     fst (on_level_formed counting_gateway ''ETH_USDT'' 50 (seconds 2) 0
       (on_level_formed counting_gateway ''BTC_USDT'' 100 (seconds 1) 0 (bridge_new True 2, 1)))"

theorem level_formed_evicts_rightly_witness:
  "br_levels full_bridge = [(1, \<lparr>li_id = 1, li_ticker = ''BTC_USDT'', li_price = 100, li_created_at = seconds 1, li_triggered = False\<rparr>),
      (2, \<lparr>li_id = 2, li_ticker = ''ETH_USDT'', li_price = 50, li_created_at = seconds 2, li_triggered = False\<rparr>)]
   \<and> map fst (br_levels (fst (on_level_formed counting_gateway ''SOL_USDT'' 10 (seconds 3) 0 (full_bridge, 3)))) = [2, 3]
   \<and> right_victim 0 (br_levels full_bridge) (hd (br_levels full_bridge))"
proof -
  let ?r = "on_level_formed counting_gateway ''SOL_USDT'' 10 (seconds 3) 0 (full_bridge, 3)"
  have levels: "br_levels full_bridge = [(1, \<lparr>li_id = 1, li_ticker = ''BTC_USDT'', li_price = 100, li_created_at = seconds 1, li_triggered = False\<rparr>),
      (2, \<lparr>li_id = 2, li_ticker = ''ETH_USDT'', li_price = 50, li_created_at = seconds 2, li_triggered = False\<rparr>)]"
    by code_simp
  have keys: "map fst (br_levels (fst ?r)) = [2, 3]" by code_simp
  have pre: "bridge_ok full_bridge" "br_enabled full_bridge" "1 \<le> br_max_server_levels full_bridge"
      "br_max_server_levels full_bridge < 2 ^ 31"
      "int (length (br_levels full_bridge)) \<le> br_max_server_levels full_bridge"
    by code_simp+
  have "fst e \<in> fst ` set (br_levels (fst ?r)) \<or> right_victim 0 (br_levels full_bridge) e"
    if "e \<in> set (br_levels full_bridge)" for e
    using level_formed_evicts_rightly [OF pre prod.collapse [symmetric],
        of counting_gateway "''SOL_USDT''" 10 "seconds 3" 0 3] that by blast
  moreover have "fst ` set (br_levels (fst ?r)) = {2, 3}" using keys by (metis list.set(1) list.set(2) list.set_map)
  moreover have "hd (br_levels full_bridge) \<in> set (br_levels full_bridge)" "fst (hd (br_levels full_bridge)) = 1"
    by (simp_all add: levels)
  ultimately have "(1 :: int) \<in> {2, 3} \<or> right_victim 0 (br_levels full_bridge) (hd (br_levels full_bridge))"
    by metis
  then have "right_victim 0 (br_levels full_bridge) (hd (br_levels full_bridge))" by simp
  with levels keys show ?thesis by blast
qed

end
