(* ===== verification/Recovery.thy ===== *)
theory Recovery
  imports Live FixedPoint
begin

text \<open>
  \<open>executor/StartupRecovery.{hpp,cpp}\<close>: at startup the persisted trades are reconciled with the
  positions and orders of the exchange. A position above the drift threshold becomes an open trade,
  with an emergency stop if no persisted trade explains it; orders that no recovered trade needs
  are cancelled. The gateway is that of the live executor; the persisted trades and the answer of
  \<open>get_positions\<close> are arguments. The log entries are left out. A call outside the \<open>try\<close> of
  the code that throws ends the run, and the value is then its error.
\<close>

section \<open>Configuration and state\<close>

record recovery_config =
  rvc_max_recovery_stop_bps :: double
  rvc_auto_ack_on_clean :: bool
  rvc_orphan_cancel_policy :: string
  rvc_position_drift_coin :: double

definition recovery_config_default :: recovery_config where
  "recovery_config_default =
     \<lparr>rvc_max_recovery_stop_bps = 30, rvc_auto_ack_on_clean = True,
      rvc_orphan_cancel_policy = ''cancel'', rvc_position_drift_coin = 1 / 10 ^ 8\<rparr>"

record recovery =
  rv_trades :: "active_trade list"
  rv_drift :: bool
  rv_calls :: "gw_call list"

record recovery_result =
  rr_auto_ack :: bool
  rr_recovered :: "active_trade list"

section \<open>One ticker\<close>

definition recovery_position :: "recovery_config \<Rightarrow> position_update list \<Rightarrow> ticker \<Rightarrow> position_update option" where
  "recovery_position cfg ps t =
     find (\<lambda>p. pu_ticker p = t \<and> rvc_position_drift_coin cfg < \<bar>pu_size p\<bar>) ps"

definition persisted_trade :: "active_trade list \<Rightarrow> ticker \<Rightarrow> active_trade option" where
  "persisted_trade trs t = find (\<lambda>tr. plan_ticker (at_plan tr) = t) trs"

definition size_drift :: "recovery_config \<Rightarrow> position_update \<Rightarrow> active_trade \<Rightarrow> bool" where
  "size_drift cfg p tr \<longleftrightarrow>
     0 < plan_size_coin (at_plan tr) \<and>
     rvc_position_drift_coin cfg < \<bar>\<bar>pu_size p\<bar> - plan_size_coin (at_plan tr)\<bar>"

definition emergency_stop_price :: "recovery_config \<Rightarrow> position_update \<Rightarrow> double" where
  "emergency_stop_price cfg p =
     (let stop_dist = pu_avg_price p * rvc_max_recovery_stop_bps cfg / 10000
      in round_to_tick (pu_avg_price p + (if pu_side p = Buy then - stop_dist else stop_dist)) (pu_price_increment p))"

definition orphan_plan :: "recovery_config \<Rightarrow> ticker \<Rightarrow> position_update \<Rightarrow> trade_plan" where
  "orphan_plan cfg t p =
     trade_plan_default\<lparr>plan_ticker := t, plan_side := pu_side p, plan_entry_price := pu_avg_price p,
       plan_size_coin := \<bar>pu_size p\<bar>, plan_stop_price := emergency_stop_price cfg p\<rparr>"

definition emergency_stop :: "recovery_config \<Rightarrow> ticker \<Rightarrow> position_update \<Rightarrow> place_order_request" where
  "emergency_stop cfg t p =
     \<lparr>req_ticker = t, req_side = opposite (pu_side p), req_price = emergency_stop_price cfg p,
      req_size = \<bar>pu_size p\<bar>, req_type = StopLoss, req_reduce_only = True, req_client_order_id = ''''\<rparr>"

definition orphan_trade :: "recovery_config \<Rightarrow> ticker \<Rightarrow> position_update \<Rightarrow> string + int \<Rightarrow> active_trade" where
  "orphan_trade cfg t p answer =
     active_trade_default\<lparr>at_plan := orphan_plan cfg t p,
       at_stop_order_id := (case answer of Inr i \<Rightarrow> i | Inl _ \<Rightarrow> at_stop_order_id active_trade_default)\<rparr>"

text \<open>What the server says of the position overrides what was persisted.\<close>

definition opened_from :: "position_update \<Rightarrow> active_trade \<Rightarrow> active_trade" where
  "opened_from p tr =
     tr\<lparr>at_state := Open, at_executed_size := \<bar>pu_size p\<bar>, at_avg_entry_price := pu_avg_price p,
        at_avg_price_fix := (if 0 < pu_avg_price_fix p then pu_avg_price_fix p else pu_avg_price p)\<rparr>"

definition recover_position ::
  "recovery_config \<Rightarrow> gateway \<Rightarrow> active_trade list \<Rightarrow> position_update list \<Rightarrow> ticker \<Rightarrow> recovery \<Rightarrow> recovery" where
  "recover_position cfg gw persisted ps t rv =
     (case (recovery_position cfg ps t, persisted_trade persisted t) of
        (Some p, Some tr) \<Rightarrow>
          rv\<lparr>rv_trades := rv_trades rv @ [opened_from p tr], rv_drift := (size_drift cfg p tr \<or> rv_drift rv)\<rparr>
      | (Some p, None) \<Rightarrow>
          rv\<lparr>rv_trades := rv_trades rv @ [opened_from p
               (orphan_trade cfg t p (gw_place gw (rv_calls rv) (emergency_stop cfg t p)))],
             rv_drift := True, rv_calls := rv_calls rv @ [PlaceOrder (emergency_stop cfg t p)]\<rparr>
      | (None, Some _) \<Rightarrow> rv\<lparr>rv_drift := True\<rparr>
      | (None, None) \<Rightarrow> rv)"

section \<open>Its orders\<close>

definition names_order :: "int \<Rightarrow> active_trade \<Rightarrow> bool" where
  "names_order i tr \<longleftrightarrow>
     i \<noteq> 0 \<and> (i = at_entry_order_id tr \<or> i = at_stop_order_id tr \<or> i = at_tp1_order_id tr \<or> i = at_tp2_order_id tr)"

definition assigned_to :: "rest_order \<Rightarrow> active_trade \<Rightarrow> active_trade option" where
  "assigned_to ord tr =
     (if (ro_type ord = StopLoss \<or> ro_type ord = Stop) \<and> at_stop_order_id tr = 0
      then Some (tr\<lparr>at_stop_order_id := ro_id ord\<rparr>)
      else if ro_type ord = TakeProfit \<and> at_tp1_order_id tr = 0 then Some (tr\<lparr>at_tp1_order_id := ro_id ord\<rparr>)
      else None)"

text \<open>Through the iterator \<open>trade_it\<close>, the first recovered trade of the ticker is assigned to.\<close>

fun assign_first :: "ticker \<Rightarrow> rest_order \<Rightarrow> active_trade list \<Rightarrow> active_trade list option" where
  "assign_first t ord [] = None"
| "assign_first t ord (tr # trs) =
     (if plan_ticker (at_plan tr) = t then map_option (\<lambda>tr'. tr' # trs) (assigned_to ord tr)
      else map_option (\<lambda>trs'. tr # trs') (assign_first t ord trs))"

definition settle_order ::
  "recovery_config \<Rightarrow> gateway \<Rightarrow> ticker \<Rightarrow> rest_order \<Rightarrow> recovery \<Rightarrow> string option \<times> recovery" where
  "settle_order cfg gw t ord rv =
     (let used = (\<exists>tr \<in> set (rv_trades rv). names_order (ro_id ord) tr);
          assigned = (if used then None else assign_first t ord (rv_trades rv))
      in case assigned of
           Some trs \<Rightarrow> (None, rv\<lparr>rv_trades := trs\<rparr>)
         | None \<Rightarrow>
             if \<not> used \<and> rvc_orphan_cancel_policy cfg = ''cancel''
             then (case gw_cancel gw (rv_calls rv) (ro_id ord) t of
                     Inl err \<Rightarrow> (Some err, rv\<lparr>rv_calls := rv_calls rv @ [CancelOrder (ro_id ord) t]\<rparr>)
                   | Inr _ \<Rightarrow> (None, rv\<lparr>rv_calls := rv_calls rv @ [CancelOrder (ro_id ord) t]\<rparr>))
             else (None, rv))"

fun settle_orders ::
  "recovery_config \<Rightarrow> gateway \<Rightarrow> ticker \<Rightarrow> rest_order list \<Rightarrow> recovery \<Rightarrow> string option \<times> recovery" where
  "settle_orders cfg gw t [] rv = (None, rv)"
| "settle_orders cfg gw t (ord # os) rv =
     (case settle_order cfg gw t ord rv of
        (Some err, rv') \<Rightarrow> (Some err, rv')
      | (None, rv') \<Rightarrow> settle_orders cfg gw t os rv')"

section \<open>The run\<close>

definition recovery_tickers :: "active_trade list \<Rightarrow> position_update list \<Rightarrow> ticker list" where
  "recovery_tickers persisted ps =
     fold oset_insert (map (\<lambda>tr. plan_ticker (at_plan tr)) persisted @ map pu_ticker ps) []"

fun fetch_orders ::
  "gateway \<Rightarrow> ticker list \<Rightarrow> gw_call list \<Rightarrow> (string + (ticker, rest_order list) omap) \<times> gw_call list" where
  "fetch_orders gw [] calls = (Inr [], calls)"
| "fetch_orders gw (t # ts) calls =
     (case gw_open_orders gw calls t of
        Inl err \<Rightarrow> (Inl err, calls @ [GetOpenOrders t])
      | Inr os \<Rightarrow>
          (case fetch_orders gw ts (calls @ [GetOpenOrders t]) of
             (Inl err, calls') \<Rightarrow> (Inl err, calls')
           | (Inr rest, calls') \<Rightarrow> (Inr ((t, os) # rest), calls')))"

fun recover_tickers ::
  "recovery_config \<Rightarrow> gateway \<Rightarrow> active_trade list \<Rightarrow> position_update list \<Rightarrow> (ticker, rest_order list) omap
     \<Rightarrow> recovery \<Rightarrow> string option \<times> recovery" where
  "recover_tickers cfg gw persisted ps [] rv = (None, rv)"
| "recover_tickers cfg gw persisted ps ((t, os) # rest) rv =
     (case settle_orders cfg gw t os (recover_position cfg gw persisted ps t rv) of
        (Some err, rv') \<Rightarrow> (Some err, rv')
      | (None, rv') \<Rightarrow> recover_tickers cfg gw persisted ps rest rv')"

definition recovery_run ::
  "recovery_config \<Rightarrow> gateway \<Rightarrow> active_trade list option \<Rightarrow> string + position_update list
     \<Rightarrow> (string + recovery_result) \<times> gw_call list" where
  "recovery_run cfg gw persisted_opt positions =
     (let persisted = (case persisted_opt of Some trs \<Rightarrow> trs | None \<Rightarrow> []) in
      case positions of
        Inl err \<Rightarrow> (Inl err, [])
      | Inr ps \<Rightarrow>
          (case fetch_orders gw (recovery_tickers persisted ps) [] of
             (Inl err, calls) \<Rightarrow> (Inl err, calls)
           | (Inr orders, calls) \<Rightarrow>
               (case recover_tickers cfg gw persisted ps orders
                       \<lparr>rv_trades = [], rv_drift = False, rv_calls = calls\<rparr> of
                  (Some err, rv) \<Rightarrow> (Inl err, rv_calls rv)
                | (None, rv) \<Rightarrow>
                    (Inr \<lparr>rr_auto_ack = (\<not> rv_drift rv \<and> rvc_auto_ack_on_clean cfg), rr_recovered = rv_trades rv\<rparr>,
                     rv_calls rv))))"

section \<open>Invariants of the loops\<close>

text \<open>Settling orders changes nothing of a trade but the identifiers of its stop and target.\<close>

definition ids_apart :: "active_trade \<Rightarrow> active_trade \<Rightarrow> bool" where
  "ids_apart tr tr' \<longleftrightarrow> (\<exists>i j. tr' = tr\<lparr>at_stop_order_id := i, at_tp1_order_id := j\<rparr>)"

abbreviation trade_ticker :: "active_trade \<Rightarrow> ticker" where
  "trade_ticker tr \<equiv> plan_ticker (at_plan tr)"

lemma ids_apart_refl [simp]: "ids_apart tr tr"
  unfolding ids_apart_def by (intro exI [of _ "at_stop_order_id tr"] exI [of _ "at_tp1_order_id tr"]) simp

lemma ids_apart_trans: "ids_apart a b \<Longrightarrow> ids_apart b c \<Longrightarrow> ids_apart a c"
  unfolding ids_apart_def by (elim exE) (simp, blast)

lemma ids_apart_keeps:
  assumes "ids_apart tr tr'"
  shows "at_plan tr' = at_plan tr" "at_state tr' = at_state tr" "at_executed_size tr' = at_executed_size tr"
    "at_avg_entry_price tr' = at_avg_entry_price tr" "at_avg_price_fix tr' = at_avg_price_fix tr"
    "at_entry_order_id tr' = at_entry_order_id tr"
  using assms by (auto simp: ids_apart_def)

lemma assigned_to_apart: "assigned_to ord tr = Some tr' \<Longrightarrow> ids_apart tr tr'"
proof -
  assume "assigned_to ord tr = Some tr'"
  then consider "tr' = tr\<lparr>at_stop_order_id := ro_id ord\<rparr>" | "tr' = tr\<lparr>at_tp1_order_id := ro_id ord\<rparr>"
    by (auto simp: assigned_to_def split: if_splits)
  then show ?thesis
  proof cases
    case 1
    then have "tr' = tr\<lparr>at_stop_order_id := ro_id ord, at_tp1_order_id := at_tp1_order_id tr\<rparr>" by simp
    then show ?thesis unfolding ids_apart_def by blast
  next
    case 2
    then have "tr' = tr\<lparr>at_stop_order_id := at_stop_order_id tr, at_tp1_order_id := ro_id ord\<rparr>" by simp
    then show ?thesis unfolding ids_apart_def by blast
  qed
qed

lemma assign_first_apart: "assign_first t ord trs = Some trs' \<Longrightarrow> list_all2 ids_apart trs trs'"
proof (induction trs arbitrary: trs')
  case (Cons tr trs)
  then show ?case
    by (auto simp: list.rel_refl dest: assigned_to_apart split: if_splits)
qed simp

lemma assign_first_other:
  "assign_first t ord trs = Some trs' \<Longrightarrow> u \<noteq> t \<Longrightarrow>
     filter (\<lambda>tr. trade_ticker tr = u) trs' = filter (\<lambda>tr. trade_ticker tr = u) trs"
proof (induction trs arbitrary: trs')
  case (Cons tr trs)
  then show ?case
    by (cases "trade_ticker tr = t") (auto dest!: assigned_to_apart simp: ids_apart_keeps)
qed simp

lemma assigned_to_names:
  "assigned_to ord tr = Some tr' \<Longrightarrow> names_order i tr' \<Longrightarrow> names_order i tr \<or> i = ro_id ord"
  by (auto simp: assigned_to_def names_order_def split: if_splits)

lemma assign_first_names:
  "assign_first t ord trs = Some trs' \<Longrightarrow> \<exists>tr \<in> set trs'. names_order i tr \<Longrightarrow>
     (\<exists>tr \<in> set trs. names_order i tr) \<or> i = ro_id ord"
proof (induction trs arbitrary: trs')
  case (Cons tr trs)
  then show ?case using assigned_to_names by (fastforce split: if_splits)
qed simp

lemma settle_order_trades:
  "list_all2 ids_apart (rv_trades rv) (rv_trades (snd (settle_order cfg gw t ord rv)))"
  by (auto simp: settle_order_def Let_def list.rel_refl intro: assign_first_apart split: option.split sum.split)

lemma settle_order_other:
  "u \<noteq> t \<Longrightarrow> filter (\<lambda>tr. trade_ticker tr = u) (rv_trades (snd (settle_order cfg gw t ord rv))) =
     filter (\<lambda>tr. trade_ticker tr = u) (rv_trades rv)"
  by (auto simp: settle_order_def Let_def dest: assign_first_other split: option.split sum.split)

lemma settle_order_drift [simp]: "rv_drift (snd (settle_order cfg gw t ord rv)) = rv_drift rv"
  by (simp add: settle_order_def Let_def split: option.split sum.split)

lemma settle_order_names:
  "\<exists>tr \<in> set (rv_trades (snd (settle_order cfg gw t ord rv))). names_order i tr \<Longrightarrow>
     (\<exists>tr \<in> set (rv_trades rv). names_order i tr) \<or> i = ro_id ord"
  using assign_first_names by (auto simp: settle_order_def Let_def split: option.splits sum.splits if_splits)

lemma settle_order_calls:
  "rv_calls (snd (settle_order cfg gw t ord rv)) = rv_calls rv \<or>
   rv_calls (snd (settle_order cfg gw t ord rv)) = rv_calls rv @ [CancelOrder (ro_id ord) t] \<and>
   rv_trades (snd (settle_order cfg gw t ord rv)) = rv_trades rv \<and>
   (\<forall>tr \<in> set (rv_trades rv). \<not> names_order (ro_id ord) tr) \<and> rvc_orphan_cancel_policy cfg = ''cancel''"
  by (auto simp: settle_order_def Let_def split: option.split sum.split)

lemma settle_orders_rel:
  assumes refl: "\<And>rv. R rv rv" and trans: "\<And>a b c. R a b \<Longrightarrow> R b c \<Longrightarrow> R a c"
    and one: "\<And>ord rv. R rv (snd (settle_order cfg gw t ord rv))"
  shows "R rv (snd (settle_orders cfg gw t os rv))"
proof (induction os arbitrary: rv)
  case Nil
  show ?case by (simp add: refl)
next
  case (Cons ord os)
  obtain e rv' where s: "settle_order cfg gw t ord rv = (e, rv')" by (cases "settle_order cfg gw t ord rv") auto
  then have "R rv rv'" using one [of rv ord] by simp
  moreover have "R rv' (snd (settle_orders cfg gw t os rv'))" by (rule Cons.IH)
  ultimately show ?case using trans by (cases e) (simp_all only: settle_orders.simps s prod.case option.case snd_conv)
qed

lemma settle_orders_trades:
  "list_all2 ids_apart (rv_trades rv) (rv_trades (snd (settle_orders cfg gw t os rv)))"
proof (rule settle_orders_rel [where R = "\<lambda>a b. list_all2 ids_apart (rv_trades a) (rv_trades b)"])
  fix a b c
  assume "list_all2 ids_apart (rv_trades a) (rv_trades b)" "list_all2 ids_apart (rv_trades b) (rv_trades c)"
  then show "list_all2 ids_apart (rv_trades a) (rv_trades c)" by (rule list_all2_trans [rotated]) (rule ids_apart_trans)
qed (simp add: list.rel_refl, rule settle_order_trades)

lemma settle_orders_other:
  assumes "u \<noteq> t"
  shows "filter (\<lambda>tr. trade_ticker tr = u) (rv_trades (snd (settle_orders cfg gw t os rv))) =
     filter (\<lambda>tr. trade_ticker tr = u) (rv_trades rv)"
  by (rule settle_orders_rel [where R = "\<lambda>a b. filter (\<lambda>tr. trade_ticker tr = u) (rv_trades b) =
      filter (\<lambda>tr. trade_ticker tr = u) (rv_trades a)"])
    (simp, simp, rule settle_order_other [OF assms])

lemma settle_orders_drift [simp]: "rv_drift (snd (settle_orders cfg gw t os rv)) = rv_drift rv"
  by (rule settle_orders_rel [where R = "\<lambda>a b. rv_drift b = rv_drift a"]) simp_all

lemma settle_orders_names:
  "\<exists>tr \<in> set (rv_trades (snd (settle_orders cfg gw t os rv))). names_order i tr \<Longrightarrow>
     (\<exists>tr \<in> set (rv_trades rv). names_order i tr) \<or> i \<in> ro_id ` set os"
proof (induction os arbitrary: rv)
  case (Cons ord os)
  obtain e rv' where s: "settle_order cfg gw t ord rv = (e, rv')" by (cases "settle_order cfg gw t ord rv") auto
  show ?case
  proof (cases e)
    case None
    with Cons s settle_order_names [of cfg gw t ord rv i] show ?thesis by auto
  next
    case (Some err)
    with Cons s settle_order_names [of cfg gw t ord rv i] show ?thesis by auto
  qed
qed simp

text \<open>
  What settling the orders of a ticker sends: cancellations of listed orders that, with the
  identifiers of the list distinct, no trade names in the end.
\<close>

lemma settle_orders_calls:
  assumes "distinct (map ro_id os)"
  shows "\<exists>new. rv_calls (snd (settle_orders cfg gw t os rv)) = rv_calls rv @ new \<and>
    (\<forall>c \<in> set new. \<exists>i. c = CancelOrder i t \<and> i \<in> ro_id ` set os \<and> rvc_orphan_cancel_policy cfg = ''cancel'' \<and>
       (\<forall>tr \<in> set (rv_trades (snd (settle_orders cfg gw t os rv))). \<not> names_order i tr))"
  using assms
proof (induction os arbitrary: rv)
  case (Cons ord os)
  obtain e rv' where s: "settle_order cfg gw t ord rv = (e, rv')" by (cases "settle_order cfg gw t ord rv") auto
  define final where "final = (case e of None \<Rightarrow> snd (settle_orders cfg gw t os rv') | Some _ \<Rightarrow> rv')"
  have fin: "snd (settle_orders cfg gw t (ord # os) rv) = final" by (simp add: s final_def split: option.split)
  obtain new where new: "rv_calls final = rv_calls rv' @ new"
      "\<forall>c \<in> set new. \<exists>i. c = CancelOrder i t \<and> i \<in> ro_id ` set os \<and> rvc_orphan_cancel_policy cfg = ''cancel'' \<and>
         (\<forall>tr \<in> set (rv_trades final). \<not> names_order i tr)"
  proof (cases e)
    case None
    with Cons.IH [of rv'] Cons.prems that show ?thesis by (simp add: final_def) blast
  next
    case (Some err)
    with that [of "[]"] show ?thesis by (simp add: final_def)
  qed
  have unnamed: "\<forall>tr \<in> set (rv_trades final). \<not> names_order (ro_id ord) tr"
    if "\<forall>tr \<in> set (rv_trades rv'). \<not> names_order (ro_id ord) tr"
    using that settle_orders_names [of cfg gw t os rv' "ro_id ord"] Cons.prems
    by (auto simp: final_def split: option.split)
  show ?case
    using settle_order_calls [of cfg gw t ord rv]
  proof (elim disjE conjE)
    assume "rv_calls (snd (settle_order cfg gw t ord rv)) = rv_calls rv"
    with new show ?thesis unfolding fin by (intro exI [of _ new]) (auto simp: s)
  next
    assume "rv_calls (snd (settle_order cfg gw t ord rv)) = rv_calls rv @ [CancelOrder (ro_id ord) t]"
      "rv_trades (snd (settle_order cfg gw t ord rv)) = rv_trades rv"
      "\<forall>tr \<in> set (rv_trades rv). \<not> names_order (ro_id ord) tr" "rvc_orphan_cancel_policy cfg = ''cancel''"
    with new unnamed show ?thesis
      unfolding fin by (intro exI [of _ "CancelOrder (ro_id ord) t # new"]) (auto simp: s)
  qed
qed simp

section \<open>What a run leaves behind\<close>

definition recovered_as :: "recovery_config \<Rightarrow> position_update list \<Rightarrow> active_trade \<Rightarrow> bool" where
  "recovered_as cfg ps tr \<longleftrightarrow>
     (\<exists>p. recovery_position cfg ps (trade_ticker tr) = Some p \<and> at_state tr = Open \<and>
        at_executed_size tr = \<bar>pu_size p\<bar> \<and> at_avg_entry_price tr = pu_avg_price p \<and>
        at_avg_price_fix tr = (if 0 < pu_avg_price_fix p then pu_avg_price_fix p else pu_avg_price p))"

definition orphan :: "recovery_config \<Rightarrow> active_trade list \<Rightarrow> position_update list \<Rightarrow> ticker \<Rightarrow> bool" where
  "orphan cfg persisted ps t \<longleftrightarrow> recovery_position cfg ps t \<noteq> None \<and> persisted_trade persisted t = None"

text \<open>Where the persisted state and the exchange disagree on a ticker.\<close>

definition unexplained :: "recovery_config \<Rightarrow> active_trade list \<Rightarrow> position_update list \<Rightarrow> ticker \<Rightarrow> bool" where
  "unexplained cfg persisted ps t =
     (case (recovery_position cfg ps t, persisted_trade persisted t) of
        (Some p, Some tr) \<Rightarrow> size_drift cfg p tr
      | (None, None) \<Rightarrow> False
      | _ \<Rightarrow> True)"

lemma persisted_trade_ticker: "persisted_trade persisted t = Some tr \<Longrightarrow> trade_ticker tr = t"
  using find_SomeD by (fastforce simp: persisted_trade_def)

lemma recovery_position_SomeD:
  "recovery_position cfg ps t = Some p \<Longrightarrow> p \<in> set ps \<and> pu_ticker p = t \<and> rvc_position_drift_coin cfg < \<bar>pu_size p\<bar>"
  using find_SomeD by (fastforce simp: recovery_position_def)

lemma opened_from_sel [simp]:
  "at_plan (opened_from p tr) = at_plan tr" "at_state (opened_from p tr) = Open"
  "at_executed_size (opened_from p tr) = \<bar>pu_size p\<bar>" "at_avg_entry_price (opened_from p tr) = pu_avg_price p"
  "at_avg_price_fix (opened_from p tr) = (if 0 < pu_avg_price_fix p then pu_avg_price_fix p else pu_avg_price p)"
  by (simp_all add: opened_from_def)

lemma orphan_trade_ticker [simp]: "trade_ticker (orphan_trade cfg t p answer) = t"
  by (simp add: orphan_trade_def orphan_plan_def)

lemma recovered_as_opened:
  "recovery_position cfg ps (trade_ticker tr) = Some p \<Longrightarrow> recovered_as cfg ps (opened_from p tr)"
  by (simp add: recovered_as_def)

lemma recovered_as_apart: "ids_apart tr tr' \<Longrightarrow> recovered_as cfg ps tr \<Longrightarrow> recovered_as cfg ps tr'"
  by (simp add: recovered_as_def ids_apart_keeps)

lemma recover_position_effect:
  shows "rv_drift (recover_position cfg gw persisted ps t rv) = (rv_drift rv \<or> unexplained cfg persisted ps t)"
    and "rv_calls (recover_position cfg gw persisted ps t rv) = rv_calls rv @
      (if orphan cfg persisted ps t then [PlaceOrder (emergency_stop cfg t (the (recovery_position cfg ps t)))] else [])"
    and "\<exists>new. rv_trades (recover_position cfg gw persisted ps t rv) = rv_trades rv @ new
      \<and> map trade_ticker new = (if recovery_position cfg ps t = None then [] else [t])
      \<and> (\<forall>tr \<in> set new. recovered_as cfg ps tr)"
proof -
  show "rv_drift (recover_position cfg gw persisted ps t rv) = (rv_drift rv \<or> unexplained cfg persisted ps t)"
    by (auto simp: recover_position_def unexplained_def split: option.split)
  show "rv_calls (recover_position cfg gw persisted ps t rv) = rv_calls rv @
      (if orphan cfg persisted ps t then [PlaceOrder (emergency_stop cfg t (the (recovery_position cfg ps t)))] else [])"
    by (auto simp: recover_position_def orphan_def split: option.split)
  show "\<exists>new. rv_trades (recover_position cfg gw persisted ps t rv) = rv_trades rv @ new
      \<and> map trade_ticker new = (if recovery_position cfg ps t = None then [] else [t])
      \<and> (\<forall>tr \<in> set new. recovered_as cfg ps tr)"
  proof (cases "recovery_position cfg ps t")
    case None
    then show ?thesis by (simp add: recover_position_def split: option.split)
  next
    case (Some p)
    show ?thesis
    proof (cases "persisted_trade persisted t")
      case None
      with Some recovered_as_opened [of cfg ps "orphan_trade cfg t p x" p for x] show ?thesis
        by (simp add: recover_position_def)
    next
      case (Some tr)
      with \<open>recovery_position cfg ps t = Some p\<close> persisted_trade_ticker [OF Some] show ?thesis
        by (simp add: recover_position_def recovered_as_opened)
    qed
  qed
qed

lemma ids_apart_tickers: "list_all2 ids_apart trs trs' \<Longrightarrow> map trade_ticker trs' = map trade_ticker trs"
  by (induction trs trs' rule: list_all2_induct) (simp_all add: ids_apart_keeps)

lemma ids_apart_recovered:
  "list_all2 ids_apart trs trs' \<Longrightarrow> \<forall>tr \<in> set trs. recovered_as cfg ps tr \<Longrightarrow> \<forall>tr \<in> set trs'. recovered_as cfg ps tr"
  by (induction trs trs' rule: list_all2_induct) (auto intro: recovered_as_apart)

lemma recover_tickers_trades:
  assumes "recover_tickers cfg gw persisted ps orders rv = (None, rv')"
    and "\<forall>tr \<in> set (rv_trades rv). recovered_as cfg ps tr"
  shows "map trade_ticker (rv_trades rv') = map trade_ticker (rv_trades rv) @
      filter (\<lambda>t. recovery_position cfg ps t \<noteq> None) (map fst orders)
    \<and> (\<forall>tr \<in> set (rv_trades rv'). recovered_as cfg ps tr)
    \<and> rv_drift rv' = (rv_drift rv \<or> (\<exists>t \<in> set (map fst orders). unexplained cfg persisted ps t))"
  using assms
proof (induction orders arbitrary: rv)
  case (Cons e orders)
  obtain t os where e: "e = (t, os)" by (cases e)
  let ?rv1 = "recover_position cfg gw persisted ps t rv"
  let ?rv2 = "snd (settle_orders cfg gw t os ?rv1)"
  have s: "settle_orders cfg gw t os ?rv1 = (None, ?rv2)" and r: "recover_tickers cfg gw persisted ps orders ?rv2 = (None, rv')"
    using Cons.prems(1) by (auto simp: e split: prod.splits option.splits)
  obtain new where new: "rv_trades ?rv1 = rv_trades rv @ new"
      "map trade_ticker new = (if recovery_position cfg ps t = None then [] else [t])"
      "\<forall>tr \<in> set new. recovered_as cfg ps tr"
    using recover_position_effect(3) by metis
  have apart: "list_all2 ids_apart (rv_trades rv @ new) (rv_trades ?rv2)"
    using settle_orders_trades [of ?rv1 cfg gw t os] new(1) by simp
  have "\<forall>tr \<in> set (rv_trades ?rv2). recovered_as cfg ps tr"
    by (rule ids_apart_recovered [OF apart]) (use Cons.prems(2) new(3) in auto)
  from Cons.IH [OF r this] ids_apart_tickers [OF apart] new(2) show ?case
    by (auto simp: e recover_position_effect(1))
qed simp

fun is_place :: "gw_call \<Rightarrow> bool" where
  "is_place (PlaceOrder _) = True"
| "is_place _ = False"

definition orphan_stop :: "recovery_config \<Rightarrow> position_update list \<Rightarrow> ticker \<Rightarrow> gw_call" where
  "orphan_stop cfg ps t = PlaceOrder (emergency_stop cfg t (the (recovery_position cfg ps t)))"

text \<open>A cancellation that hurts no trade: none of the ticker's trades names the order in the end.\<close>

definition spare_cancel :: "recovery_config \<Rightarrow> active_trade list \<Rightarrow> ticker list \<Rightarrow> gw_call \<Rightarrow> bool" where
  "spare_cancel cfg trs ts c \<longleftrightarrow>
     (\<exists>i t. c = CancelOrder i t \<and> t \<in> set ts \<and> rvc_orphan_cancel_policy cfg = ''cancel'' \<and>
        (\<forall>tr \<in> set trs. trade_ticker tr = t \<longrightarrow> \<not> names_order i tr))"

lemma spare_cancel_not_place: "spare_cancel cfg trs ts c \<Longrightarrow> \<not> is_place c"
  by (auto simp: spare_cancel_def)

lemma recover_position_other:
  "u \<noteq> t \<Longrightarrow> filter (\<lambda>tr. trade_ticker tr = u) (rv_trades (recover_position cfg gw persisted ps t rv)) =
     filter (\<lambda>tr. trade_ticker tr = u) (rv_trades rv)"
  by (auto simp: recover_position_def opened_from_def dest: persisted_trade_ticker split: option.split)

lemma recover_tickers_other:
  "recover_tickers cfg gw persisted ps orders rv = (None, rv') \<Longrightarrow> u \<notin> fst ` set orders \<Longrightarrow>
     filter (\<lambda>tr. trade_ticker tr = u) (rv_trades rv') = filter (\<lambda>tr. trade_ticker tr = u) (rv_trades rv)"
proof (induction orders arbitrary: rv)
  case (Cons e orders)
  obtain t os where e: "e = (t, os)" by (cases e)
  let ?rv1 = "recover_position cfg gw persisted ps t rv"
  let ?rv2 = "snd (settle_orders cfg gw t os ?rv1)"
  have "recover_tickers cfg gw persisted ps orders ?rv2 = (None, rv')"
    using Cons.prems(1) by (auto simp: e split: prod.splits option.splits)
  from Cons.IH [OF this] Cons.prems(2) show ?case
    by (simp add: e settle_orders_other recover_position_other)
qed simp

lemma recover_tickers_calls:
  assumes "recover_tickers cfg gw persisted ps orders rv = (None, rv')" "distinct (map fst orders)"
    and "\<forall>e \<in> set orders. distinct (map ro_id (snd e))"
  shows "\<exists>new. rv_calls rv' = rv_calls rv @ new
    \<and> filter is_place new = map (orphan_stop cfg ps) (filter (orphan cfg persisted ps) (map fst orders))
    \<and> (\<forall>c \<in> set new. is_place c \<or> spare_cancel cfg (rv_trades rv') (map fst orders) c)"
  using assms
proof (induction orders arbitrary: rv)
  case (Cons e orders)
  obtain t os where e: "e = (t, os)" by (cases e)
  let ?rv1 = "recover_position cfg gw persisted ps t rv"
  let ?rv2 = "snd (settle_orders cfg gw t os ?rv1)"
  have r: "recover_tickers cfg gw persisted ps orders ?rv2 = (None, rv')"
    using Cons.prems(1) by (auto simp: e split: prod.splits option.splits)
  obtain new where new: "rv_calls rv' = rv_calls ?rv2 @ new"
      "filter is_place new = map (orphan_stop cfg ps) (filter (orphan cfg persisted ps) (map fst orders))"
      "\<forall>c \<in> set new. is_place c \<or> spare_cancel cfg (rv_trades rv') (map fst orders) c"
    using Cons.IH [OF r] Cons.prems by (auto simp: e)
  obtain cancels where cancels: "rv_calls ?rv2 = rv_calls ?rv1 @ cancels"
      "\<forall>c \<in> set cancels. \<exists>i. c = CancelOrder i t \<and> i \<in> ro_id ` set os \<and> rvc_orphan_cancel_policy cfg = ''cancel''
        \<and> (\<forall>tr \<in> set (rv_trades ?rv2). \<not> names_order i tr)"
    using settle_orders_calls [of os cfg gw t ?rv1] Cons.prems(3) by (auto simp: e)
  have same: "tr \<in> set (rv_trades ?rv2)" if "tr \<in> set (rv_trades rv')" "trade_ticker tr = t" for tr
  proof -
    have eq: "filter (\<lambda>tr. trade_ticker tr = t) (rv_trades rv') = filter (\<lambda>tr. trade_ticker tr = t) (rv_trades ?rv2)"
      by (rule recover_tickers_other [OF r]) (use Cons.prems(2) in \<open>simp add: e\<close>)
    then have "tr \<in> set (filter (\<lambda>tr. trade_ticker tr = t) (rv_trades ?rv2))"
      using that by (simp flip: eq)
    then show ?thesis by simp
  qed
  let ?stop = "if orphan cfg persisted ps t then [orphan_stop cfg ps t] else []"
  have "rv_calls rv' = rv_calls rv @ (?stop @ cancels @ new)"
    by (simp add: new(1) cancels(1) recover_position_effect(2) orphan_stop_def)
  moreover have "filter is_place cancels = []" using cancels(2) by (fastforce simp: filter_empty_conv)
  moreover have "spare_cancel cfg (rv_trades rv') (map fst (e # orders)) c" if "c \<in> set cancels" for c
    using that cancels(2) same by (fastforce simp: spare_cancel_def e)
  moreover have "spare_cancel cfg (rv_trades rv') (map fst (e # orders)) c"
    if "spare_cancel cfg (rv_trades rv') (map fst orders) c" for c
    using that by (auto simp: spare_cancel_def)
  ultimately show ?case
    using new(2,3) by (intro exI [of _ "?stop @ cancels @ new"]) (auto simp: e orphan_stop_def)
qed simp

lemma fetch_orders_effect:
  assumes "fetch_orders gw ts calls = (Inr orders, calls')"
  shows "map fst orders = ts \<and> calls' = calls @ map GetOpenOrders ts
    \<and> (\<forall>(t, os) \<in> set orders. \<exists>h. gw_open_orders gw h t = Inr os)"
  using assms
proof (induction ts arbitrary: calls orders)
  case (Cons t ts)
  then show ?case by (fastforce split: sum.splits prod.splits)
qed simp

lemma sorted_fold_oset_insert:
  "sorted_wrt (<) s \<Longrightarrow> sorted_wrt (<) (fold oset_insert xs s) \<and> set (fold oset_insert xs s) = set s \<union> set xs"
proof (induction xs arbitrary: s)
  case (Cons x xs)
  from Cons.IH [OF sorted_oset_insert [OF Cons.prems, of x]] show ?case by auto
qed simp

lemma recovery_tickers_sorted:
  "distinct (recovery_tickers persisted ps)"
  "set (recovery_tickers persisted ps) = trade_ticker ` set persisted \<union> pu_ticker ` set ps"
proof -
  let ?keys = "map trade_ticker persisted @ map pu_ticker ps"
  have "sorted_wrt (<) (fold oset_insert ?keys []) \<and> set (fold oset_insert ?keys []) = set [] \<union> set ?keys"
    by (rule sorted_fold_oset_insert) simp
  then show "distinct (recovery_tickers persisted ps)"
    "set (recovery_tickers persisted ps) = trade_ticker ` set persisted \<union> pu_ticker ` set ps"
    unfolding recovery_tickers_def by (blast intro: distinct_sorted_wrt_less, simp)
qed

lemma recovery_runE:
  assumes "recovery_run cfg gw persisted_opt (Inr ps) = (Inr r, calls)"
  obtains persisted orders rv where
    "persisted = (case persisted_opt of Some trs \<Rightarrow> trs | None \<Rightarrow> [])"
    "map fst orders = recovery_tickers persisted ps"
    "\<forall>(t, os) \<in> set orders. \<exists>h. gw_open_orders gw h t = Inr os"
    "recover_tickers cfg gw persisted ps orders
       \<lparr>rv_trades = [], rv_drift = False, rv_calls = map GetOpenOrders (recovery_tickers persisted ps)\<rparr> = (None, rv)"
    "r = \<lparr>rr_auto_ack = (\<not> rv_drift rv \<and> rvc_auto_ack_on_clean cfg), rr_recovered = rv_trades rv\<rparr>"
    "calls = rv_calls rv"
  using assms
  by (auto simp: recovery_run_def Let_def dest!: fetch_orders_effect split: sum.splits prod.splits option.splits)



end
