(* ===== verification/RecoveryCases.thy ===== *)
theory RecoveryCases
  imports Recovery
begin

text \<open>
  Recoveries of a trade in BTC and an unknown position in ETH: the recovery properties applied to
  them, and behaviour of the code one would not expect.
\<close>

definition sample_position :: "ticker \<Rightarrow> side \<Rightarrow> double \<Rightarrow> position_update" where
  "sample_position t sd sz =
     \<lparr>pu_connection_id = 1, pu_position_id = 1, pu_ticker = t, pu_side = sd, pu_size = sz, pu_avg_price = 1000,
      pu_avg_price_fix = 0, pu_avg_price_dyn = 0, pu_price_increment = 1, pu_status = PositionOpen\<rparr>"

definition sample_order :: "int \<Rightarrow> order_type \<Rightarrow> rest_order" where
  "sample_order i ty =
     \<lparr>ro_id = i, ro_client_id = None, ro_ticker = ''BTC_USDT'', ro_side = Sell, ro_type = ty, ro_price = 990,
      ro_size = 2, ro_filled_size = 0, ro_filled_price = 0, ro_remaining_size = 2, ro_status = OrderOpen,
      ro_trigger_price = None, ro_create_date = 0\<rparr>"

definition sample_trade :: "int \<Rightarrow> active_trade" where
  "sample_trade stop_id =
     active_trade_default\<lparr>at_plan := trade_plan_default\<lparr>plan_ticker := ''BTC_USDT'', plan_side := Buy, plan_size_coin := 2\<rparr>,
       at_stop_order_id := stop_id\<rparr>"

definition sample_gateway :: "string + unit \<Rightarrow> gateway" where
  "sample_gateway cancelled =
     \<lparr>gw_place = (\<lambda>h q. Inr 77), gw_cancel = (\<lambda>h i t. cancelled), gw_cancel_all = (\<lambda>h t. Inr ()),
      gw_open_orders = (\<lambda>h t. Inr (if t = ''BTC_USDT'' then [sample_order 9 StopLoss, sample_order 8 Limit] else []))\<rparr>"

definition sample_positions :: "position_update list" where
  "sample_positions = [sample_position ''ETH_USDT'' Sell (- 3), sample_position ''BTC_USDT'' Buy 2]"

definition sample_recovery :: "(string + recovery_result) \<times> gw_call list" where
  "sample_recovery =
     recovery_run recovery_config_default (sample_gateway (Inr ())) (Some [sample_trade 9]) (Inr sample_positions)"

definition sample_result :: recovery_result where
  "sample_result = (case fst sample_recovery of Inr r \<Rightarrow> r | Inl _ \<Rightarrow> \<lparr>rr_auto_ack = True, rr_recovered = []\<rparr>)"

lemma sample_recovery_returns: "sample_recovery = (Inr sample_result, snd sample_recovery)"
  by code_simp



text \<open>
  A persisted stop identifier that the exchange no longer knows keeps the existing stop from being
  assigned: it is cancelled as an orphan, and the trade goes on naming the stop that is gone.
\<close>

lemma stale_stop_id_cancels_the_stop:
  "CancelOrder 9 ''BTC_USDT'' \<in> set (snd (recovery_run recovery_config_default (sample_gateway (Inr ()))
     (Some [sample_trade 5]) (Inr [sample_position ''BTC_USDT'' Buy 2])))
   \<and> (case fst (recovery_run recovery_config_default (sample_gateway (Inr ())) (Some [sample_trade 5])
         (Inr [sample_position ''BTC_USDT'' Buy 2])) of
        Inr r \<Rightarrow> map at_stop_order_id (rr_recovered r) = [5] \<and> rr_auto_ack r | Inl _ \<Rightarrow> False)"
  by code_simp

text \<open>A cancellation that fails ends the whole recovery, after the emergency stops it has placed.\<close>

lemma failed_cancel_aborts_recovery:
  "fst (recovery_run recovery_config_default (sample_gateway (Inl ''timeout'')) (Some [sample_trade 9])
     (Inr sample_positions)) = Inl ''timeout''"
  by code_simp

end
