(* ===== verification/Digest.thy ===== *)
theory Digest
  imports Numeric
begin

text \<open>
  \<open>numeric/TDigest.hpp\<close>: the digest of a stream of samples by weighted centroids. What a merge
  keeps of the samples (weight, mean, range, order) and where a quantile lies. \<open>std::sort\<close> leaves
  the order of equal means open; the model takes the stable one.
\<close>

record centroid =
  ce_mean :: double
  ce_weight :: double

record digest =
  dg_delta :: double
  dg_delta_inv :: double
  dg_centroids :: "centroid list"
  dg_unmerged :: "centroid list"
  dg_total :: kahan
  dg_unmerged_weight :: kahan

definition digest_new :: "double \<Rightarrow> digest" where
  "digest_new delta =
     \<lparr>dg_delta = delta, dg_delta_inv = 1 / delta, dg_centroids = [], dg_unmerged = [],
      dg_total = kahan_new, dg_unmerged_weight = kahan_new\<rparr>"

definition join_centroids :: "centroid \<Rightarrow> centroid \<Rightarrow> centroid" where
  "join_centroids a b =
     \<lparr>ce_mean = (ce_mean a * ce_weight a + ce_mean b * ce_weight b) / (ce_weight a + ce_weight b),
      ce_weight = ce_weight a + ce_weight b\<rparr>"

text \<open>One round of the loop: the finished centroids, the open one and the weight up to here.\<close>

definition merge_step ::
    "double \<Rightarrow> double \<Rightarrow> centroid \<Rightarrow> centroid list \<times> centroid \<times> double \<Rightarrow> centroid list \<times> centroid \<times> double" where
  "merge_step sumw delta_inv c st =
     (case st of (done_list, cur, so_far) \<Rightarrow>
        let next_weight = so_far + ce_weight c; q0 = so_far / sumw; q1 = next_weight / sumw;
            limit = sumw * delta_inv * min (q1 * (1 - q1)) (q0 * (1 - q0)) * 4
        in if ce_weight cur + ce_weight c \<le> max 1 limit then (done_list, join_centroids cur c, next_weight)
           else (done_list @ [cur], c, next_weight))"

definition merge_all :: "double \<Rightarrow> double \<Rightarrow> centroid list \<Rightarrow> centroid list" where
  "merge_all sumw delta_inv cs =
     (case cs of
        [] \<Rightarrow> []
      | c # rest \<Rightarrow> (case fold (merge_step sumw delta_inv) rest ([], c, ce_weight c) of
                      (done_list, cur, _) \<Rightarrow> done_list @ [cur]))"

definition digest_merge :: "digest \<Rightarrow> digest" where
  "digest_merge d =
     (if dg_unmerged d = [] then d
      else d\<lparr>dg_unmerged := [], dg_unmerged_weight := kahan_new,
             dg_centroids := merge_all (kh_sum (dg_total d)) (dg_delta_inv d)
               (sort_key ce_mean (dg_centroids d @ dg_unmerged d))\<rparr>)"

definition digest_add :: "double \<Rightarrow> double \<Rightarrow> digest \<Rightarrow> digest" where
  "digest_add v weight d =
     (let d1 = d\<lparr>dg_unmerged := dg_unmerged d @ [\<lparr>ce_mean = v, ce_weight = weight\<rparr>],
                 dg_unmerged_weight := kahan_add weight (dg_unmerged_weight d),
                 dg_total := kahan_add weight (dg_total d)\<rparr>
      in if dg_delta d * 10 \<le> real (length (dg_unmerged d1)) then digest_merge d1 else d1)"

fun quantile_scan :: "double \<Rightarrow> double \<Rightarrow> centroid option \<Rightarrow> centroid list \<Rightarrow> double option" where
  "quantile_scan target so_far prev [] = map_option ce_mean prev"
| "quantile_scan target so_far prev (c # cs) =
     (if target \<le> so_far + ce_weight c
      then Some (case prev of
                   None \<Rightarrow> ce_mean c
                 | Some p \<Rightarrow> ce_mean p + (ce_mean c - ce_mean p) * (target - so_far) / ce_weight c)
      else quantile_scan target (so_far + ce_weight c) (Some c) cs)"

text \<open>The quantile, \<open>None\<close> for NaN, and the merged digest.\<close>

definition digest_quantile :: "double \<Rightarrow> digest \<Rightarrow> double option \<times> digest" where
  "digest_quantile q d =
     (if q < 0 \<or> 1 < q then (None, d)
      else
        let m = digest_merge d in
        (case dg_centroids m of
           [] \<Rightarrow> None
         | [c] \<Rightarrow> Some (ce_mean c)
         | cs \<Rightarrow> quantile_scan (q * kh_sum (dg_total m)) 0 None cs, m))"

definition digest_weight :: "digest \<Rightarrow> double" where
  "digest_weight d = kh_sum (dg_total d) + kh_sum (dg_unmerged_weight d)"

section \<open>What a merge keeps\<close>

definition mass :: "centroid list \<Rightarrow> double" where
  "mass cs = sum_list (map ce_weight cs)"

definition moment :: "centroid list \<Rightarrow> double" where
  "moment cs = (\<Sum>c\<leftarrow>cs. ce_mean c * ce_weight c)"

lemma mass_simps [simp]: "mass [] = 0" "mass (c # cs) = ce_weight c + mass cs" "mass (cs @ ds) = mass cs + mass ds"
  by (simp_all add: mass_def)

lemma moment_simps [simp]:
  "moment [] = 0" "moment (c # cs) = ce_mean c * ce_weight c + moment cs" "moment (cs @ ds) = moment cs + moment ds"
  by (simp_all add: moment_def)

lemma insort_key_sum:
  "mass (insort_key f c cs) = ce_weight c + mass cs" "moment (insort_key f c cs) = ce_mean c * ce_weight c + moment cs"
  by (induction cs) simp_all

lemma sort_key_sum: "mass (sort_key f cs) = mass cs" "moment (sort_key f cs) = moment cs"
  by (induction cs) (simp_all add: insort_key_sum)

lemma join_centroids_facts:
  assumes "0 < ce_weight a" "0 < ce_weight b" "ce_mean a \<le> ce_mean b"
  shows "ce_weight (join_centroids a b) = ce_weight a + ce_weight b"
    and "ce_mean (join_centroids a b) * ce_weight (join_centroids a b) = ce_mean a * ce_weight a + ce_mean b * ce_weight b"
    and "ce_mean a \<le> ce_mean (join_centroids a b)" and "ce_mean (join_centroids a b) \<le> ce_mean b"
proof -
  have w: "0 < ce_weight a + ce_weight b" using assms by simp
  show "ce_weight (join_centroids a b) = ce_weight a + ce_weight b" by (simp add: join_centroids_def)
  show "ce_mean (join_centroids a b) * ce_weight (join_centroids a b) = ce_mean a * ce_weight a + ce_mean b * ce_weight b"
    using w by (simp add: join_centroids_def)
  have "ce_mean a * ce_weight b \<le> ce_mean b * ce_weight b" "ce_mean a * ce_weight a \<le> ce_mean b * ce_weight a"
    using assms by (auto intro: mult_right_mono)
  then show "ce_mean a \<le> ce_mean (join_centroids a b)" "ce_mean (join_centroids a b) \<le> ce_mean b"
    using w by (simp_all add: join_centroids_def pos_le_divide_eq pos_divide_le_eq algebra_simps)
qed

text \<open>Centroids in order, of positive weight, with their means in a range.\<close>

definition chain_ok :: "double \<Rightarrow> double \<Rightarrow> centroid list \<Rightarrow> bool" where
  "chain_ok lo hi cs \<longleftrightarrow>
     sorted (map ce_mean cs) \<and> list_all (\<lambda>c. 0 < ce_weight c \<and> lo \<le> ce_mean c \<and> ce_mean c \<le> hi) cs"

lemma chain_ok_join:
  assumes "chain_ok lo hi (out @ a # b # cs)"
  shows "chain_ok lo hi (out @ join_centroids a b # cs)"
    and "mass (out @ join_centroids a b # cs) = mass (out @ a # b # cs)"
    and "moment (out @ join_centroids a b # cs) = moment (out @ a # b # cs)"
proof -
  have "0 < ce_weight a" "0 < ce_weight b" "ce_mean a \<le> ce_mean b"
    using assms by (auto simp: chain_ok_def sorted_append)
  note j = join_centroids_facts [OF this]
  show "chain_ok lo hi (out @ join_centroids a b # cs)"
    using assms j(1,3,4) by (fastforce simp: chain_ok_def sorted_append)
  show "mass (out @ join_centroids a b # cs) = mass (out @ a # b # cs)" using j(1) by simp
  show "moment (out @ join_centroids a b # cs) = moment (out @ a # b # cs)" using j(2) by simp
qed

text \<open>A round of the loop joins two neighbours of the list, or moves the cursor.\<close>

lemma merge_fold:
  assumes "chain_ok lo hi (out @ cur # cs)"
    and "fold (merge_step sumw di) cs (out, cur, w) = (out', cur', w')"
  shows "chain_ok lo hi (out' @ [cur']) \<and> mass (out' @ [cur']) = mass (out @ cur # cs) \<and>
     moment (out' @ [cur']) = moment (out @ cur # cs)"
  using assms
proof (induction cs arbitrary: out cur w)
  case Nil
  then show ?case by simp
next
  case (Cons c cs)
  have rest: "fold (merge_step sumw di) cs (merge_step sumw di c (out, cur, w)) = (out', cur', w')"
    using Cons.prems(2) by simp
  consider (join) "merge_step sumw di c (out, cur, w) = (out, join_centroids cur c, w + ce_weight c)"
    | (move) "merge_step sumw di c (out, cur, w) = (out @ [cur], c, w + ce_weight c)"
    unfolding merge_step_def Let_def prod.case by argo
  then show ?case
  proof cases
    case join
    show ?thesis
      using Cons.IH [OF chain_ok_join(1) [OF Cons.prems(1)] rest [unfolded join]] chain_ok_join(2,3) [OF Cons.prems(1)]
      by simp
  next
    case move
    show ?thesis using Cons.IH [OF _ rest [unfolded move]] Cons.prems(1) by simp
  qed
qed

lemma merge_all_keeps:
  assumes "chain_ok lo hi cs"
  shows "chain_ok lo hi (merge_all sumw di cs)" "mass (merge_all sumw di cs) = mass cs"
    "moment (merge_all sumw di cs) = moment cs" "merge_all sumw di cs = [] \<longleftrightarrow> cs = []"
proof -
  have "chain_ok lo hi (merge_all sumw di cs) \<and> mass (merge_all sumw di cs) = mass cs \<and>
      moment (merge_all sumw di cs) = moment cs"
  proof (cases cs)
    case Nil
    then show ?thesis by (simp add: merge_all_def chain_ok_def)
  next
    case (Cons c rest)
    obtain out cur w where "fold (merge_step sumw di) rest ([], c, ce_weight c) = (out, cur, w)"
      by (metis prod_cases3)
    with merge_fold [OF _ this] assms Cons show ?thesis by (simp add: merge_all_def)
  qed
  then show "chain_ok lo hi (merge_all sumw di cs)" "mass (merge_all sumw di cs) = mass cs"
    "moment (merge_all sumw di cs) = moment cs" by blast+
  show "merge_all sumw di cs = [] \<longleftrightarrow> cs = []"
    by (simp add: merge_all_def split: list.split prod.split)
qed

section \<open>The digest of a run\<close>

definition digest_of :: "double \<Rightarrow> (double \<times> double) list \<Rightarrow> digest" where
  "digest_of delta vs = fold (\<lambda>(v, w). digest_add v w) vs (digest_new delta)"

definition sample_mass :: "(double \<times> double) list \<Rightarrow> double" where
  "sample_mass vs = sum_list (map snd vs)"

definition sample_moment :: "(double \<times> double) list \<Rightarrow> double" where
  "sample_moment vs = (\<Sum>(v, w)\<leftarrow>vs. v * w)"

definition samples_ok :: "double \<Rightarrow> double \<Rightarrow> (double \<times> double) list \<Rightarrow> bool" where
  "samples_ok lo hi vs = list_all (\<lambda>(v, w). 0 < w \<and> lo \<le> v \<and> v \<le> hi) vs"

definition digest_inv :: "double \<Rightarrow> double \<Rightarrow> (double \<times> double) list \<Rightarrow> digest \<Rightarrow> bool" where
  "digest_inv lo hi vs d \<longleftrightarrow>
     chain_ok lo hi (dg_centroids d) \<and>
     list_all (\<lambda>c. 0 < ce_weight c \<and> lo \<le> ce_mean c \<and> ce_mean c \<le> hi) (dg_unmerged d) \<and>
     mass (dg_centroids d @ dg_unmerged d) = sample_mass vs \<and>
     moment (dg_centroids d @ dg_unmerged d) = sample_moment vs \<and>
     (dg_centroids d @ dg_unmerged d = [] \<longleftrightarrow> vs = []) \<and>
     dg_total d = \<lparr>kh_sum = sample_mass vs, kh_correction = 0\<rparr> \<and>
     dg_unmerged_weight d = \<lparr>kh_sum = mass (dg_unmerged d), kh_correction = 0\<rparr>"

lemma digest_merge_inv:
  assumes "digest_inv lo hi vs d"
  shows "digest_inv lo hi vs (digest_merge d)" and "dg_unmerged (digest_merge d) = []"
proof -
  show "dg_unmerged (digest_merge d) = []" by (simp add: digest_merge_def)
  let ?all = "sort_key ce_mean (dg_centroids d @ dg_unmerged d)"
  have "chain_ok lo hi ?all" using assms by (auto simp: digest_inv_def chain_ok_def list_all_iff)
  note m = merge_all_keeps [OF this, of "kh_sum (dg_total d)" "dg_delta_inv d"]
  have "?all = [] \<longleftrightarrow> dg_centroids d @ dg_unmerged d = []" by (simp flip: length_0_conv)
  then show "digest_inv lo hi vs (digest_merge d)"
    using assms m
    by (cases "dg_unmerged d = []") (simp_all add: digest_inv_def digest_merge_def sort_key_sum kahan_new_def)
qed

lemma digest_add_inv:
  assumes inv: "digest_inv lo hi vs d" and v: "0 < w" "lo \<le> v" "v \<le> hi"
  shows "digest_inv lo hi (vs @ [(v, w)]) (digest_add v w d)"
proof -
  let ?d = "d\<lparr>dg_unmerged := dg_unmerged d @ [\<lparr>ce_mean = v, ce_weight = w\<rparr>],
              dg_unmerged_weight := kahan_add w (dg_unmerged_weight d), dg_total := kahan_add w (dg_total d)\<rparr>"
  have "digest_inv lo hi (vs @ [(v, w)]) ?d"
    using inv v by (simp add: digest_inv_def kahan_add_exact sample_mass_def sample_moment_def)
  then show ?thesis using digest_merge_inv(1) by (simp add: digest_add_def Let_def)
qed

lemma digest_of_inv:
  assumes "samples_ok lo hi vs" shows "digest_inv lo hi vs (digest_of delta vs)"
  using assms
proof (induction vs rule: rev_induct)
  case Nil
  then show ?case
    by (simp add: digest_of_def digest_inv_def digest_new_def chain_ok_def kahan_new_def sample_mass_def sample_moment_def)
next
  case (snoc p vs)
  obtain v w where p: "p = (v, w)" by (cases p)
  show ?case using snoc digest_add_inv by (simp add: p digest_of_def samples_ok_def)
qed

section \<open>Quantiles\<close>

lemma quantile_scan_range:
  assumes "chain_ok lo hi cs" "prev \<noteq> None \<or> cs \<noteq> []"
    and "case prev of None \<Rightarrow> True | Some p \<Rightarrow> lo \<le> ce_mean p \<and> list_all (\<lambda>c. ce_mean p \<le> ce_mean c) cs \<and> so_far < t \<and> ce_mean p \<le> hi"
  shows "\<exists>x. quantile_scan t so_far prev cs = Some x \<and> (case prev of None \<Rightarrow> lo | Some p \<Rightarrow> ce_mean p) \<le> x \<and> x \<le> hi"
  using assms
proof (induction t so_far prev cs rule: quantile_scan.induct)
  case (1 t so_far prev)
  then show ?case by (cases prev) auto
next
  case (2 t so_far prev c cs)
  have c: "0 < ce_weight c" "lo \<le> ce_mean c" "ce_mean c \<le> hi" and cs: "chain_ok lo hi cs"
      "list_all (\<lambda>d. ce_mean c \<le> ce_mean d) cs"
    using 2(2) by (auto simp: chain_ok_def list_all_iff)
  show ?case
  proof (cases "t \<le> so_far + ce_weight c")
    case True
    show ?thesis
    proof (cases prev)
      case None
      then show ?thesis using True c by simp
    next
      case (Some p)
      then have p: "ce_mean p \<le> ce_mean c" "so_far < t" using "2.prems" by auto
      define f where "f = (t - so_far) / ce_weight c"
      have f: "0 \<le> f" "f \<le> 1" using p(2) True c(1) by (simp_all add: f_def)
      have "0 \<le> (ce_mean c - ce_mean p) * f" using f p by simp
      moreover have "(ce_mean c - ce_mean p) * f \<le> ce_mean c - ce_mean p" using f p by (simp add: mult_left_le)
      ultimately show ?thesis using True Some c p by (simp add: f_def times_divide_eq_right [symmetric] del: times_divide_eq_right)
    qed
  next
    case False
    then have "\<exists>x. quantile_scan t (so_far + ce_weight c) (Some c) cs = Some x \<and> ce_mean c \<le> x \<and> x \<le> hi"
      using 2(1) cs c by simp
    then show ?thesis using False "2.prems" c by (cases prev) (auto intro: order_trans)
  qed
qed

lemma digest_quantile_range:
  assumes inv: "digest_inv lo hi vs d" and q: "0 \<le> q" "q \<le> 1" and vs: "vs \<noteq> []"
  shows "\<exists>x. fst (digest_quantile q d) = Some x \<and> lo \<le> x \<and> x \<le> hi"
proof -
  let ?m = "digest_merge d"
  have m: "chain_ok lo hi (dg_centroids ?m)" "dg_centroids ?m \<noteq> []"
    using digest_merge_inv [OF inv] vs by (auto simp: digest_inv_def)
  then obtain c cs where cs: "dg_centroids ?m = c # cs" by (cases "dg_centroids ?m") auto
  show ?thesis
  proof (cases cs)
    case Nil
    then show ?thesis using q m cs by (simp add: digest_quantile_def Let_def chain_ok_def)
  next
    case (Cons d ds)
    then show ?thesis
      using quantile_scan_range [OF m(1), of None 0 "q * kh_sum (dg_total ?m)"] q m cs
      by (simp add: digest_quantile_def Let_def)
  qed
qed

text \<open>A digest of samples of positive weight keeps their total weight and their weighted sum,
  through any number of merges, with its centroids in order and inside the range of the samples; a
  quantile of it lies in that range.\<close>

theorem digest_represents_samples:
  assumes "samples_ok lo hi vs" "vs \<noteq> []" "0 \<le> q" "q \<le> 1"
  shows "let d = digest_of delta vs; m = digest_merge d; cs = dg_centroids m in
     sum_list (map ce_weight cs) = sum_list (map snd vs) \<and>
     (\<Sum>c\<leftarrow>cs. ce_mean c * ce_weight c) = (\<Sum>(v, w)\<leftarrow>vs. v * w) \<and>
     sorted (map ce_mean cs) \<and> list_all (\<lambda>c. lo \<le> ce_mean c \<and> ce_mean c \<le> hi) cs \<and>
     digest_weight m = sum_list (map snd vs) \<and>
     (\<exists>x. fst (digest_quantile q d) = Some x \<and> lo \<le> x \<and> x \<le> hi)"
proof -
  let ?d = "digest_of delta vs"
  have inv: "digest_inv lo hi vs ?d" by (rule digest_of_inv [OF assms(1)])
  have "\<exists>x. fst (digest_quantile q ?d) = Some x \<and> lo \<le> x \<and> x \<le> hi"
    using digest_quantile_range [OF inv assms(3,4,2)] .
  then show ?thesis
    using digest_merge_inv [OF inv]
    by (simp add: Let_def digest_inv_def chain_ok_def mass_def moment_def sample_mass_def sample_moment_def
        digest_weight_def list_all_iff)
qed

theorem digest_represents_samples_witness:
  "\<exists>x. fst (digest_quantile (1 / 2) (digest_of 100 [(3, 1), (1, 1), (2, 1)])) = Some x \<and> 1 \<le> x \<and> x \<le> (3 :: double)"
  using digest_represents_samples [of 1 3 "[(3, 1), (1, 1), (2, 1)]" "1 / 2" 100]
  by (simp add: samples_ok_def Let_def)

text \<open>Unmerged samples count twice in the weight that the trade stream compares.\<close>

lemma unmerged_weight_counts_twice:
  assumes "samples_ok lo hi vs"
  shows "digest_weight (digest_of delta vs) = sum_list (map snd vs) + mass (dg_unmerged (digest_of delta vs))"
  using digest_of_inv [OF assms, of delta] by (simp add: digest_inv_def digest_weight_def sample_mass_def)

end
