(* ===== verification/TradeStream.thy ===== *)
theory TradeStream
  imports Digest Domain
begin

text \<open>
  \<open>marketdata/TradeStream.{hpp,cpp}\<close>: the trades of a ticker in a ring with three windows that share
  it, their volumes, the distribution of sizes and the two Hawkes intensities.
\<close>

section \<open>The stream\<close>

text \<open>\<open>std::exp\<close>; evaluation knows its value at zero.\<close>

definition cexp :: "double \<Rightarrow> double" where
  [code del]: "cexp x = exp x"

definition cexp_other :: "double \<Rightarrow> double" where
  [code del]: "cexp_other x = exp x"

lemma cexp_code [code]: "cexp x = (if x = 0 then 1 else cexp_other x)"
  by (simp add: cexp_def cexp_other_def)

text \<open>A window: its tail in the ring and the volumes of the trades from there on.\<close>

record trade_window =
  tw_tail :: nat
  tw_buy :: kahan
  tw_sell :: kahan

record trade_stream =
  ts_ticker :: ticker
  ts_trades :: "trade list"
  ts_head :: nat
  ts_count :: nat
  ts_w1 :: trade_window
  ts_w5 :: trade_window
  ts_w30 :: trade_window
  ts_sizes :: welford
  ts_distribution :: digest
  ts_alpha :: double
  ts_beta :: double
  ts_buy_intensity :: double
  ts_sell_intensity :: double
  ts_last_update :: "time_point option"
  ts_cached_q99 :: double
  ts_last_merge_weight :: nat

record stream_stats =
  st_prints_per_sec :: double
  st_avg_size :: double
  st_stdev_size :: double
  st_buy_vol_1s :: double
  st_buy_vol_5s :: double
  st_buy_vol_30s :: double
  st_sell_vol_1s :: double
  st_sell_vol_5s :: double
  st_sell_vol_30s :: double
  st_q99_size :: double
  st_buy_intensity :: double
  st_sell_intensity :: double
  st_total_intensity :: double

definition k_max_trades :: nat where
  "k_max_trades = 65536"

definition no_trade :: trade where
  "no_trade = \<lparr>tr_price = 0, tr_size = 0, tr_side = NoSide, tr_timestamp = 0\<rparr>"

definition window_new :: trade_window where
  "window_new = \<lparr>tw_tail = 0, tw_buy = kahan_new, tw_sell = kahan_new\<rparr>"

definition stream_sized :: "nat \<Rightarrow> ticker \<Rightarrow> double \<Rightarrow> double \<Rightarrow> trade_stream" where
  "stream_sized N tk alpha beta =
     \<lparr>ts_ticker = tk, ts_trades = replicate N no_trade, ts_head = 0, ts_count = 0,
      ts_w1 = window_new, ts_w5 = window_new, ts_w30 = window_new,
      ts_sizes = welford_new, ts_distribution = digest_new 100, ts_alpha = alpha, ts_beta = beta,
      ts_buy_intensity = 0, ts_sell_intensity = 0, ts_last_update = None, ts_cached_q99 = 0, ts_last_merge_weight = 0\<rparr>"

definition stream_new :: "ticker \<Rightarrow> trade_stream" where
  "stream_new tk = stream_sized k_max_trades tk 1 (3466 / 10000)"

text \<open>Adding a signed size of a trade to the volume of its side.\<close>

definition window_count :: "side \<Rightarrow> double \<Rightarrow> trade_window \<Rightarrow> trade_window" where
  "window_count s x w =
     (case s of
        Buy \<Rightarrow> w\<lparr>tw_buy := kahan_add x (tw_buy w)\<rparr>
      | Sell \<Rightarrow> w\<lparr>tw_sell := kahan_add x (tw_sell w)\<rparr>
      | NoSide \<Rightarrow> w)"

definition sub_if_evicted :: "nat \<Rightarrow> nat \<Rightarrow> trade \<Rightarrow> trade_window \<Rightarrow> trade_window" where
  "sub_if_evicted N old_head evicted w =
     (if tw_tail w = old_head
      then (window_count (tr_side evicted) (- tr_size evicted) w)\<lparr>tw_tail := (tw_tail w + 1) mod N\<rparr>
      else w)"

definition window_on_trade :: "nat \<Rightarrow> bool \<Rightarrow> nat \<Rightarrow> trade \<Rightarrow> trade \<Rightarrow> trade_window \<Rightarrow> trade_window" where
  "window_on_trade N full old_head evicted t w =
     (let w1 = window_count (tr_side t) (tr_size t) w
      in if full then sub_if_evicted N old_head evicted w1 else w1)"

definition stream_on_trade :: "trade \<Rightarrow> trade_stream \<Rightarrow> trade_stream" where
  "stream_on_trade t s =
     (let N = length (ts_trades s); full = N \<le> ts_count s; h = ts_head s;
          evicted = (if full then ts_trades s ! h else no_trade);
          w = window_on_trade N full h evicted t
      in s\<lparr>ts_trades := (ts_trades s)[h := t], ts_head := (h + 1) mod N,
           ts_count := (if full then ts_count s else ts_count s + 1),
           ts_w1 := w (ts_w1 s), ts_w5 := w (ts_w5 s), ts_w30 := w (ts_w30 s),
           ts_sizes := welford_update (tr_size t) (ts_sizes s),
           ts_distribution := digest_add (tr_size t) 1 (ts_distribution s),
           ts_buy_intensity := ts_buy_intensity s + (if tr_side t = Buy then ts_alpha s else 0),
           ts_sell_intensity := ts_sell_intensity s + (if tr_side t = Sell then ts_alpha s else 0)\<rparr>)"

text \<open>
  The loop that advances a tail to the first trade young enough, or to the head. It takes less
  than \<open>N\<close> rounds (\<open>evict_loop_ends\<close>).
\<close>

fun evict_loop :: "nat \<Rightarrow> trade list \<Rightarrow> nat \<Rightarrow> time_point \<Rightarrow> double \<Rightarrow> trade_window \<Rightarrow> trade_window" where
  "evict_loop 0 ts h now secs w = w"
| "evict_loop (Suc n) ts h now secs w =
     (if tw_tail w = h then w
      else
        let t = ts ! tw_tail w in
        if elapsed_seconds (now - tr_timestamp t) \<le> secs then w
        else evict_loop n ts h now secs
          ((window_count (tr_side t) (- tr_size t) w)\<lparr>tw_tail := (tw_tail w + 1) mod length ts\<rparr>))"

definition evict_expired :: "time_point \<Rightarrow> trade_stream \<Rightarrow> trade_stream" where
  "evict_expired now s =
     (let ev = evict_loop (length (ts_trades s)) (ts_trades s) (ts_head s) now
      in s\<lparr>ts_w1 := ev 1 (ts_w1 s), ts_w5 := ev 5 (ts_w5 s), ts_w30 := ev 30 (ts_w30 s)\<rparr>)"

definition stream_update :: "time_point \<Rightarrow> trade_stream \<Rightarrow> trade_stream" where
  "stream_update now s =
     (let decay = (case ts_last_update s of
                     None \<Rightarrow> 1
                   | Some t \<Rightarrow> cexp (- ts_beta s * elapsed_seconds (now - t)))
      in evict_expired now
           (s\<lparr>ts_buy_intensity := ts_buy_intensity s * decay, ts_sell_intensity := ts_sell_intensity s * decay,
              ts_last_update := Some now\<rparr>))"

text \<open>The quantile of the sizes, recomputed when the weight has grown enough.\<close>

definition stream_q99 :: "trade_stream \<Rightarrow> double \<times> trade_stream" where
  "stream_q99 s =
     (let W = digest_weight (ts_distribution s) in
      if 0 < W then
        (if real (ts_last_merge_weight s + 50) < W then
           (case digest_quantile (99 / 100) (ts_distribution s) of
              (q, d) \<Rightarrow> (let v = (case q of None \<Rightarrow> 0 | Some x \<Rightarrow> x)
                         in (v, s\<lparr>ts_distribution := d, ts_cached_q99 := v, ts_last_merge_weight := nat \<lfloor>W\<rfloor>\<rparr>)))
         else (ts_cached_q99 s, s))
      else (0, s))"

definition stream_stats_of :: "trade_stream \<Rightarrow> stream_stats \<times> trade_stream" where
  "stream_stats_of s =
     (case stream_q99 s of (q, s1) \<Rightarrow>
        (\<lparr>st_prints_per_sec = ts_buy_intensity s + ts_sell_intensity s,
          st_avg_size = wf_mean (ts_sizes s), st_stdev_size = welford_stdev (ts_sizes s),
          st_buy_vol_1s = kh_sum (tw_buy (ts_w1 s)), st_buy_vol_5s = kh_sum (tw_buy (ts_w5 s)),
          st_buy_vol_30s = kh_sum (tw_buy (ts_w30 s)),
          st_sell_vol_1s = kh_sum (tw_sell (ts_w1 s)), st_sell_vol_5s = kh_sum (tw_sell (ts_w5 s)),
          st_sell_vol_30s = kh_sum (tw_sell (ts_w30 s)), st_q99_size = q,
          st_buy_intensity = ts_buy_intensity s, st_sell_intensity = ts_sell_intensity s,
          st_total_intensity = ts_buy_intensity s + ts_sell_intensity s\<rparr>, s1))"

section \<open>A window before the ring is full\<close>

text \<open>The volume of a side among some trades.\<close>

definition side_volume :: "side \<Rightarrow> trade list \<Rightarrow> double" where
  "side_volume s ts = (\<Sum>t\<leftarrow>ts. if tr_side t = s then tr_size t else 0)"

lemma side_volume_simps [simp]:
  "side_volume s [] = 0" "side_volume s (t # ts) = (if tr_side t = s then tr_size t else 0) + side_volume s ts"
  "side_volume s (ts @ us) = side_volume s ts + side_volume s us"
  by (simp_all add: side_volume_def)

definition window_holds :: "trade list \<Rightarrow> trade_window \<Rightarrow> bool" where
  "window_holds ts w \<longleftrightarrow>
     tw_buy w = \<lparr>kh_sum = side_volume Buy ts, kh_correction = 0\<rparr> \<and>
     tw_sell w = \<lparr>kh_sum = side_volume Sell ts, kh_correction = 0\<rparr>"

lemma window_count_add:
  "window_holds ts w \<Longrightarrow> window_holds (ts @ [t]) (window_count (tr_side t) (tr_size t) w)"
  by (cases "tr_side t") (simp_all add: window_holds_def window_count_def kahan_add_exact)

lemma window_count_sub:
  "window_holds (t # ts) w \<Longrightarrow> window_holds ts ((window_count (tr_side t) (- tr_size t) w)\<lparr>tw_tail := i\<rparr>)"
  by (cases "tr_side t") (simp_all add: window_holds_def window_count_def kahan_add_exact)

lemma window_count_tail [simp]: "tw_tail (window_count s x w) = tw_tail w"
  by (cases s) (simp_all add: window_count_def)

text \<open>
  The trades seen lie in the ring from its start; the window is what is left of them from its tail.
\<close>

definition window_inv :: "trade list \<Rightarrow> trade_window \<Rightarrow> bool" where
  "window_inv ts w \<longleftrightarrow> tw_tail w \<le> length ts \<and> window_holds (drop (tw_tail w) ts) w"

lemma evict_loop_window:
  assumes "window_inv ts w" "length ts < length ring" "take (length ts) ring = ts" "length ts - tw_tail w \<le> n"
  shows "let w' = evict_loop n ring (length ts) now secs w; young = (\<lambda>t. elapsed_seconds (now - tr_timestamp t) \<le> secs)
    in window_inv ts w' \<and> tw_tail w' = tw_tail w + length (takeWhile (\<lambda>t. \<not> young t) (drop (tw_tail w) ts))"
  using assms
proof (induction n ring "length ts" now secs w rule: evict_loop.induct)
  case (1 ring now secs w)
  then show ?case by (simp add: window_inv_def)
next
  case (2 n ring now secs w)
  show ?case
  proof (cases "tw_tail w = length ts")
    case True
    then show ?thesis using "2.prems" by simp
  next
    case False
    then have less: "tw_tail w < length ts" using "2.prems" by (simp add: window_inv_def)
    have nth: "ring ! tw_tail w = ts ! tw_tail w" using less "2.prems"(3) by (metis nth_take)
    have drop: "drop (tw_tail w) ts = ts ! tw_tail w # drop (Suc (tw_tail w)) ts"
      using less by (simp add: Cons_nth_drop_Suc)
    show ?thesis
    proof (cases "elapsed_seconds (now - tr_timestamp (ts ! tw_tail w)) \<le> secs")
      case True
      then show ?thesis using False nth drop "2.prems" by (simp add: Let_def)
    next
      case old: False
      let ?w = "(window_count (tr_side (ts ! tw_tail w)) (- tr_size (ts ! tw_tail w)) w)
          \<lparr>tw_tail := (tw_tail w + 1) mod length ring\<rparr>"
      have tail: "Suc (tw_tail w) mod length ring = Suc (tw_tail w)" using less "2.prems"(2) by simp
      have "window_inv ts ?w"
        using "2.prems"(1) less window_count_sub [of "ts ! tw_tail w" "drop (Suc (tw_tail w)) ts" w]
        by (simp add: window_inv_def tail drop)
      then show ?thesis
        using 2(1) [OF False refl] old "2.prems" False nth drop tail by (simp add: Let_def)
    qed
  qed
qed

section \<open>The stream before the ring is full\<close>

datatype stream_event = StreamTrade trade | StreamTick time_point

fun stream_step :: "stream_event \<Rightarrow> trade_stream \<Rightarrow> trade_stream" where
  "stream_step (StreamTrade t) s = stream_on_trade t s"
| "stream_step (StreamTick now) s = stream_update now s"

definition stream_run :: "stream_event list \<Rightarrow> trade_stream \<Rightarrow> trade_stream" where
  "stream_run es s = fold stream_step es s"

fun event_time :: "stream_event \<Rightarrow> time_point" where
  "event_time (StreamTrade t) = tr_timestamp t"
| "event_time (StreamTick now) = now"

fun stream_trades :: "stream_event list \<Rightarrow> trade list" where
  "stream_trades [] = []"
| "stream_trades (StreamTrade t # es) = t # stream_trades es"
| "stream_trades (StreamTick now # es) = stream_trades es"

lemma stream_trades_append [simp]: "stream_trades (es @ fs) = stream_trades es @ stream_trades fs"
  by (induction es rule: stream_trades.induct) simp_all

lemma stream_trades_times: "t \<in> set (stream_trades es) \<Longrightarrow> tr_timestamp t \<in> set (map event_time es)"
  by (induction es rule: stream_trades.induct) auto

definition young :: "time_point \<Rightarrow> double \<Rightarrow> trade \<Rightarrow> bool" where
  "young now secs t \<longleftrightarrow> elapsed_seconds (now - tr_timestamp t) \<le> secs"

lemma young_later: "\<not> young now secs t \<Longrightarrow> now \<le> now' \<Longrightarrow> \<not> young now' secs t"
  by (simp add: young_def elapsed_seconds_def not_le divide_strict_right_mono order_less_le_trans)

text \<open>The window holds the trades from its tail on, and what left it is too old.\<close>

definition window_ok :: "time_point \<Rightarrow> double \<Rightarrow> trade list \<Rightarrow> trade_window \<Rightarrow> bool" where
  "window_ok now secs ts w \<longleftrightarrow> window_inv ts w \<and> list_all (\<lambda>t. \<not> young now secs t) (take (tw_tail w) ts)"

lemma window_ok_later: "window_ok now secs ts w \<Longrightarrow> now \<le> now' \<Longrightarrow> window_ok now' secs ts w"
  using young_later by (auto simp: window_ok_def list_all_iff)

lemma window_ok_trade:
  "window_ok now secs ts w \<Longrightarrow> window_ok now secs (ts @ [t]) (window_on_trade N False h ev t w)"
  using window_count_add [of "drop (tw_tail w) ts" w t]
  by (simp add: window_ok_def window_inv_def window_on_trade_def)

lemma window_ok_evict:
  assumes ok: "window_ok now secs ts w" and ring: "length ts < length ring" "take (length ts) ring = ts"
  shows "window_ok now secs ts (evict_loop (length ring) ring (length ts) now secs w)"
    and "tw_tail (evict_loop (length ring) ring (length ts) now secs w) =
      tw_tail w + length (takeWhile (\<lambda>t. \<not> young now secs t) (drop (tw_tail w) ts))"
proof -
  let ?w = "evict_loop (length ring) ring (length ts) now secs w" and ?d = "drop (tw_tail w) ts"
  have w: "window_inv ts ?w" "tw_tail ?w = tw_tail w + length (takeWhile (\<lambda>t. \<not> young now secs t) ?d)"
    using evict_loop_window [of ts w ring "length ring" now secs] ok ring
    by (simp_all add: Let_def young_def window_ok_def)
  have "take (tw_tail ?w) ts = take (tw_tail w) ts @ takeWhile (\<lambda>t. \<not> young now secs t) ?d"
    by (simp add: w(2) take_add flip: takeWhile_eq_take)
  moreover have "list_all (\<lambda>t. \<not> young now secs t) (takeWhile (\<lambda>t. \<not> young now secs t) ?d)"
    by (auto simp: list_all_iff dest: set_takeWhileD)
  ultimately show "window_ok now secs ts ?w" using w(1) ok by (simp add: window_ok_def)
  show "tw_tail ?w = tw_tail w + length (takeWhile (\<lambda>t. \<not> young now secs t) ?d)" by (rule w)
qed

definition stream_inv :: "nat \<Rightarrow> time_point \<Rightarrow> trade list \<Rightarrow> trade_stream \<Rightarrow> bool" where
  "stream_inv N now ts s \<longleftrightarrow>
     length (ts_trades s) = N \<and> length ts < N \<and> ts_head s = length ts \<and> ts_count s = length ts \<and>
     take (length ts) (ts_trades s) = ts \<and>
     window_ok now 1 ts (ts_w1 s) \<and> window_ok now 5 ts (ts_w5 s) \<and> window_ok now 30 ts (ts_w30 s)"

lemma stream_inv_later: "stream_inv N now ts s \<Longrightarrow> now \<le> now' \<Longrightarrow> stream_inv N now' ts s"
  using window_ok_later [of now _ ts _ now'] by (auto simp: stream_inv_def)

lemma stream_new_inv: "0 < N \<Longrightarrow> stream_inv N now [] (stream_sized N tk a b)"
  by (simp add: stream_inv_def stream_sized_def window_new_def window_ok_def window_inv_def window_holds_def kahan_new_def)

lemma stream_on_trade_inv:
  assumes inv: "stream_inv N now ts s" and room: "Suc (length ts) < N"
  shows "stream_inv N now (ts @ [t]) (stream_on_trade t s)"
proof -
  have full: "\<not> length (ts_trades s) \<le> ts_count s" using inv by (simp add: stream_inv_def)
  have "take (Suc (length ts)) ((ts_trades s)[length ts := t]) = ts @ [t]"
    using inv by (simp add: stream_inv_def take_Suc_conv_app_nth)
  then show ?thesis
    using inv room by (simp add: stream_inv_def stream_on_trade_def Let_def full window_ok_trade)
qed

lemma stream_update_inv: "stream_inv N now ts s \<Longrightarrow> stream_inv N now ts (stream_update now s)"
  using window_ok_evict(1) [of now _ ts _ "ts_trades s"]
  by (auto simp: stream_inv_def stream_update_def evict_expired_def Let_def)

lemma stream_run_inv:
  assumes "sorted (map event_time es)" "length (stream_trades es) < N" "list_all (\<lambda>e. event_time e \<le> now) es"
  shows "stream_inv N now (stream_trades es) (stream_run es (stream_sized N tk a b))"
  using assms
proof (induction es arbitrary: now rule: rev_induct)
  case Nil
  then show ?case using stream_new_inv by (simp add: stream_run_def)
next
  case (snoc e es)
  then have le: "list_all (\<lambda>d. event_time d \<le> event_time e) es" "event_time e \<le> now"
    and es: "sorted (map event_time es)"
    by (auto simp: sorted_append list_all_iff)
  show ?case
  proof (cases e)
    case (StreamTrade t)
    then show ?thesis
      using snoc es stream_on_trade_inv [of N now "stream_trades es"] by (simp add: stream_run_def)
  next
    case (StreamTick u)
    have "stream_inv N u (stream_trades es) (stream_run es (stream_sized N tk a b))"
      using snoc le es StreamTick by simp
    then show ?thesis
      using stream_inv_later [OF stream_update_inv] le(2) StreamTick by (simp add: stream_run_def)
  qed
qed

text \<open>With the trades in order of time, the window after an update holds the young ones.\<close>

lemma window_exact:
  assumes ok: "window_ok now secs ts w" and ring: "length ts < length ring" "take (length ts) ring = ts"
    and srt: "sorted (map tr_timestamp ts)"
  shows "window_holds (filter (young now secs) ts) (evict_loop (length ring) ring (length ts) now secs w)"
proof -
  let ?w = "evict_loop (length ring) ring (length ts) now secs w"
  define n where "n = tw_tail ?w"
  note ev = window_ok_evict [OF ok ring]
  have old: "list_all (\<lambda>t. \<not> young now secs t) (take n ts)" and holds: "window_holds (drop n ts) ?w"
    using ev(1) by (simp_all add: n_def window_ok_def window_inv_def)
  have "drop n ts = drop (length (takeWhile (\<lambda>t. \<not> young now secs t) (drop (tw_tail w) ts))) (drop (tw_tail w) ts)"
    by (simp add: n_def ev(2) add.commute)
  then have n: "drop n ts = dropWhile (\<lambda>t. \<not> young now secs t) (drop (tw_tail w) ts)"
    by (simp only: dropWhile_eq_drop)
  have "sorted (map tr_timestamp (drop n ts))" using srt by (metis drop_map sorted_wrt_drop)
  moreover have "drop n ts = [] \<or> young now secs (hd (drop n ts))"
    using n hd_dropWhile [of "\<lambda>t. \<not> young now secs t" "drop (tw_tail w) ts"] by auto
  ultimately have "list_all (young now secs) (drop n ts)"
    by (cases "drop n ts") (auto simp: list_all_iff young_def elapsed_seconds_def divide_le_eq)
  then have "filter (young now secs) (drop n ts) = drop n ts" by (simp add: list_all_iff)
  moreover have "filter (young now secs) (take n ts) = []" using old by (simp add: filter_empty_conv list_all_iff)
  ultimately have "filter (young now secs) ts = drop n ts" by (metis append_Nil append_take_drop_id filter_append)
  then show ?thesis using holds by simp
qed

lemma stream_trades_sorted: "sorted (map event_time es) \<Longrightarrow> sorted (map tr_timestamp (stream_trades es))"
proof (induction es rule: stream_trades.induct)
  case (2 t es)
  then show ?case using stream_trades_times by fastforce
qed simp_all

lemma young_volume:
  "side_volume d (filter (young now secs) ts) =
     (\<Sum>t\<leftarrow>ts. if tr_side t = d \<and> elapsed_seconds (now - tr_timestamp t) \<le> secs then tr_size t else 0)"
  by (induction ts) (auto simp: young_def)

text \<open>C20. While the ring is not full, an update at the end of a run in order of time leaves in each
  window the trades that are no older than its length: its volumes are the sums of the sizes of the
  buys and of the sells among them.\<close>

theorem stream_windows_exact:
  assumes "sorted (map event_time (es @ [StreamTick now]))" "length (stream_trades es) < N"
  shows "let s = stream_run (es @ [StreamTick now]) (stream_sized N tk alpha beta);
     vol = (\<lambda>d secs. \<Sum>t\<leftarrow>stream_trades es. if tr_side t = d \<and> elapsed_seconds (now - tr_timestamp t) \<le> secs then tr_size t else 0);
     st = fst (stream_stats_of s)
   in st_buy_vol_1s st = vol Buy 1 \<and> st_sell_vol_1s st = vol Sell 1 \<and>
      st_buy_vol_5s st = vol Buy 5 \<and> st_sell_vol_5s st = vol Sell 5 \<and>
      st_buy_vol_30s st = vol Buy 30 \<and> st_sell_vol_30s st = vol Sell 30"
proof -
  let ?s = "stream_run es (stream_sized N tk alpha beta)" and ?ts = "stream_trades es"
  have es: "sorted (map event_time es)" "list_all (\<lambda>e. event_time e \<le> now) es"
    using assms(1) by (auto simp: sorted_append list_all_iff)
  have inv: "stream_inv N now ?ts ?s" by (rule stream_run_inv [OF es(1) assms(2) es(2)])
  have w: "window_ok now secs ?ts w \<Longrightarrow>
      window_holds (filter (young now secs) ?ts) (evict_loop (length (ts_trades ?s)) (ts_trades ?s) (ts_head ?s) now secs w)" for secs w
    using window_exact [of now secs ?ts w "ts_trades ?s"] stream_trades_sorted [OF es(1)] inv
    by (simp add: stream_inv_def)
  have "stream_run (es @ [StreamTick now]) (stream_sized N tk alpha beta) = stream_update now ?s"
    by (simp add: stream_run_def)
  moreover have "window_ok now 1 ?ts (ts_w1 ?s)" "window_ok now 5 ?ts (ts_w5 ?s)" "window_ok now 30 ?ts (ts_w30 ?s)"
    using inv by (simp_all add: stream_inv_def)
  ultimately show ?thesis
    using w [of 1 "ts_w1 ?s"] w [of 5 "ts_w5 ?s"] w [of 30 "ts_w30 ?s"]
    by (simp add: Let_def stream_stats_of_def stream_update_def evict_expired_def window_holds_def young_volume split: prod.split)
qed

section \<open>The full ring\<close>

text \<open>
  A tail at the head means an empty window to the eviction. In a full ring every trade moves both
  by one, so a window that is empty or spans the ring when a trade arrives never expires again.
\<close>

lemma stuck_window_step:
  assumes "ts_count s = length (ts_trades s)" "tw_tail (ts_w1 s) = ts_head s"
  shows "ts_count (stream_step e s) = length (ts_trades (stream_step e s)) \<and>
    tw_tail (ts_w1 (stream_step e s)) = ts_head (stream_step e s)"
proof (cases e)
  case (StreamTrade t)
  then show ?thesis
    using assms by (simp add: stream_on_trade_def Let_def window_on_trade_def sub_if_evicted_def)
next
  case (StreamTick now)
  have "evict_loop n ring (tw_tail w) now secs w = w" for n ring secs w by (cases n) simp_all
  then show ?thesis
    using assms StreamTick by (simp add: stream_update_def evict_expired_def Let_def) metis
qed

lemma stuck_window_never_expires:
  assumes "ts_count s = length (ts_trades s)" "tw_tail (ts_w1 s) = ts_head s"
  shows "ts_w1 (stream_update now (stream_run es s)) = ts_w1 (stream_run es s)"
proof -
  have "ts_count (stream_run es s) = length (ts_trades (stream_run es s)) \<and>
      tw_tail (ts_w1 (stream_run es s)) = ts_head (stream_run es s)"
    unfolding stream_run_def using assms
    by (induction es arbitrary: s) (simp_all add: stuck_window_step)
  moreover have "evict_loop n ring (tw_tail w) now secs w = w" for n ring secs w by (cases n) simp_all
  ultimately show ?thesis by (simp add: stream_update_def evict_expired_def Let_def) metis
qed

lemma stuck_window_example:
  "st_buy_vol_1s (fst (stream_stats_of (stream_run
     [StreamTrade \<lparr>tr_price = 1, tr_size = 5, tr_side = Buy, tr_timestamp = 0\<rparr>,
      StreamTrade \<lparr>tr_price = 1, tr_size = 7, tr_side = Buy, tr_timestamp = 0\<rparr>,
      StreamTick (seconds 100)] (stream_sized 2 ''X'' 1 1)))) = 12"
  by code_simp

theorem stream_windows_exact_witness:
  "st_buy_vol_1s (fst (stream_stats_of (stream_run
     [StreamTrade \<lparr>tr_price = 1, tr_size = 5, tr_side = Buy, tr_timestamp = 0\<rparr>,
      StreamTrade \<lparr>tr_price = 1, tr_size = 7, tr_side = Buy, tr_timestamp = 0\<rparr>,
      StreamTick (seconds 100)] (stream_sized 3 ''X'' 1 1)))) = 0"
  using stream_windows_exact [of
    "[StreamTrade \<lparr>tr_price = 1, tr_size = 5, tr_side = Buy, tr_timestamp = 0\<rparr>,
      StreamTrade \<lparr>tr_price = 1, tr_size = 7, tr_side = Buy, tr_timestamp = 0\<rparr>]" "seconds 100" 3 "''X''" 1 1]
  by (simp add: Let_def seconds_def elapsed_seconds_def)

end
