(* ===== verification/Tape.thy ===== *)
theory Tape
  imports TradeStream Signals Ring OrderBook
begin

text \<open>
  \<open>signals/TapeAnalyzer.{hpp,cpp}\<close>: the signals of the tape. Bursts, fades and distribution are
  judged on a frame from the statistics of the stream, flushes on a trade. The calls return the
  signals they publish; the trace id of the thread is an argument.
\<close>

section \<open>The analyzer\<close>

record tape_config =
  tac_burst_ratio :: double
  tac_burst_total_intensity_k :: double
  tac_burst_min_denominator :: double
  tac_background_intensity_period :: int
  tac_fade_peak_gate :: double
  tac_fade_reset_ratio :: double
  tac_fade_ratio :: double
  tac_fade_cusum_h :: double
  tac_flush_min_size_usd :: double
  tac_flush_min_move_bps :: double
  tac_flush_cooldown :: duration
  tac_distribution_max_range_bps :: double
  tac_distribution_min_volume_usd :: double

definition tape_config_default :: tape_config where
  "tape_config_default =
     \<lparr>tac_burst_ratio = 3, tac_burst_total_intensity_k = 3, tac_burst_min_denominator = 1 / 10,
      tac_background_intensity_period = 300, tac_fade_peak_gate = 5, tac_fade_reset_ratio = 3 / 2,
      tac_fade_ratio = 1 / 5, tac_fade_cusum_h = 5, tac_flush_min_size_usd = 200000,
      tac_flush_min_move_bps = 15, tac_flush_cooldown = milliseconds 1000,
      tac_distribution_max_range_bps = 20, tac_distribution_min_volume_usd = 500000\<rparr>"

record tape =
  ta_ticker :: ticker
  ta_cfg :: tape_config
  ta_background :: ema
  ta_history :: "(time_point \<times> double) list"
  ta_peak :: double
  ta_cusum :: double
  ta_burst_active :: bool
  ta_fade_active :: bool
  ta_distribution_active :: bool
  ta_last_flush :: time_point
  ta_pre_trade_mid :: double

definition tape_new :: "ticker \<Rightarrow> tape_config \<Rightarrow> tape" where
  "tape_new t c =
     \<lparr>ta_ticker = t, ta_cfg = c, ta_background = ema_from_period (tac_background_intensity_period c),
      ta_history = [], ta_peak = 0, ta_cusum = 0, ta_burst_active = False, ta_fade_active = False,
      ta_distribution_active = False, ta_last_flush = 0, ta_pre_trade_mid = 0\<rparr>"

definition tape_history_size :: nat where
  "tape_history_size = 600"

text \<open>The window of intensities, with the entries older than a minute dropped from its front.\<close>

definition tape_window :: "time_point \<Rightarrow> double \<Rightarrow> (time_point \<times> double) list \<Rightarrow> (time_point \<times> double) list" where
  "tape_window now rate hist =
     dropWhile (\<lambda>e. seconds 60 < now - fst e) (push_bounded tape_history_size (now, rate) hist)"

definition peak_of :: "(time_point \<times> double) list \<Rightarrow> double" where
  "peak_of hist = fold (\<lambda>e p. if p < snd e then snd e else p) hist 0"

definition burst_of :: "tape_config \<Rightarrow> stream_stats \<Rightarrow> (side \<times> double) option" where
  "burst_of c st =
     (let buy = st_buy_intensity st; sell = st_sell_intensity st in
      if sell * tac_burst_ratio c \<le> buy then Some (Buy, buy / max (tac_burst_min_denominator c) sell)
      else if buy * tac_burst_ratio c \<le> sell then Some (Sell, sell / max (tac_burst_min_denominator c) buy)
      else None)"

definition burst_signal :: "nat \<Rightarrow> ticker \<Rightarrow> feature_frame \<Rightarrow> side \<Rightarrow> double \<Rightarrow> double \<Rightarrow> signal" where
  "burst_signal tr t f sd ratio rate =
     \<lparr>sg_kind = TapeBurst, sg_timestamp = ff_timestamp f, sg_ticker = t, sg_price = ff_mid f,
      sg_confidence = min 1 (ratio / 10),
      sg_payload = signal_payload_default\<lparr>sp_side := (if sd = Buy then ''Buy'' else ''Sell''), sp_ratio := ratio,
        sp_intensity := rate\<rparr>,
      sg_trigger_trace_id = tr\<rparr>"

definition tape_burst :: "nat \<Rightarrow> feature_frame \<Rightarrow> stream_stats \<Rightarrow> tape \<Rightarrow> signal list \<times> tape" where
  "tape_burst tr f st ta =
     (case burst_of (ta_cfg ta) st of
        Some (sd, ratio) \<Rightarrow>
          if tac_burst_total_intensity_k (ta_cfg ta) * em_value (ta_background ta) \<le> st_total_intensity st
          then (if ta_burst_active ta then []
                else [burst_signal tr (ta_ticker ta) f sd ratio (st_total_intensity st)],
                ta\<lparr>ta_burst_active := True\<rparr>)
          else ([], ta\<lparr>ta_burst_active := False\<rparr>)
      | None \<Rightarrow> ([], ta\<lparr>ta_burst_active := False\<rparr>))"

definition fade_signal :: "nat \<Rightarrow> feature_frame \<Rightarrow> double \<Rightarrow> tape \<Rightarrow> signal" where
  "fade_signal tr f rate ta =
     \<lparr>sg_kind = TapeFade, sg_timestamp = ff_timestamp f, sg_ticker = ta_ticker ta, sg_price = ff_mid f,
      sg_confidence = 1,
      sg_payload = signal_payload_default\<lparr>sp_peak_rate := ta_peak ta, sp_current_rate := rate, sp_cusum := ta_cusum ta\<rparr>,
      sg_trigger_trace_id = tr\<rparr>"

definition tape_fade :: "nat \<Rightarrow> feature_frame \<Rightarrow> double \<Rightarrow> tape \<Rightarrow> signal list \<times> tape" where
  "tape_fade tr f rate ta =
     (let c = ta_cfg ta; target = ta_peak ta * tac_fade_ratio c; drift = 5 / 100 * ta_peak ta;
          ta1 = ta\<lparr>ta_cusum := cusum_update rate target drift (ta_cusum ta)\<rparr>
      in if tac_fade_cusum_h c \<le> ta_cusum ta1 \<and> tac_fade_peak_gate c < ta_peak ta
         then (if ta_fade_active ta then [] else [fade_signal tr f rate ta1], ta1\<lparr>ta_fade_active := True\<rparr>)
         else if target * tac_fade_reset_ratio c < rate then ([], ta1\<lparr>ta_fade_active := False, ta_cusum := 0\<rparr>)
         else ([], ta1))"

definition tape_distribution ::
    "universe \<Rightarrow> nat \<Rightarrow> feature_frame \<Rightarrow> stream_stats \<Rightarrow> tape \<Rightarrow> signal list \<times> tape" where
  "tape_distribution u tr f st ta =
     (let c = ta_cfg ta; volume = (st_buy_vol_30s st + st_sell_vol_30s st) * ff_mid f;
          low = 0 < ff_volatility_1min_bps f \<and> ff_volatility_1min_bps f \<le> tac_distribution_max_range_bps c;
          sustained = calibrated_min_size_usd u (ta_ticker ta) (tac_distribution_min_volume_usd c) \<le> volume
      in if low \<and> sustained
         then (if ta_distribution_active ta then []
               else [\<lparr>sg_kind = TapeDistribution, sg_timestamp = ff_timestamp f, sg_ticker = ta_ticker ta,
                      sg_price = ff_mid f, sg_confidence = 1,
                      sg_payload = signal_payload_default\<lparr>sp_volatility_bps := ff_volatility_1min_bps f,
                        sp_volume_usd_30s := volume, sp_max_range_bps := tac_distribution_max_range_bps c\<rparr>,
                      sg_trigger_trace_id = tr\<rparr>],
               ta\<lparr>ta_distribution_active := True\<rparr>)
         else ([], ta\<lparr>ta_distribution_active := False\<rparr>))"

definition tape_observe :: "feature_frame \<Rightarrow> double \<Rightarrow> tape \<Rightarrow> tape" where
  "tape_observe f rate ta =
     (let hist = tape_window (ff_timestamp f) rate (ta_history ta)
      in ta\<lparr>ta_background := ema_update rate (ta_background ta),
            ta_pre_trade_mid := (if 0 < ff_mid f \<and> ta_pre_trade_mid ta = 0 then ff_mid f else ta_pre_trade_mid ta),
            ta_history := hist, ta_peak := peak_of hist\<rparr>)"

definition tape_on_frame ::
    "universe \<Rightarrow> nat \<Rightarrow> feature_frame \<Rightarrow> tape \<times> trade_stream \<Rightarrow> signal list \<times> tape \<times> trade_stream" where
  "tape_on_frame u tr f = (\<lambda>(ta, s).
     if ff_ticker f \<noteq> ta_ticker ta \<or> \<not> ff_valid f then ([], ta, s)
     else
       let (st, s1) = stream_stats_of s;
           (out1, ta1) = tape_burst tr f st (tape_observe f (st_total_intensity st) ta);
           (out2, ta2) = tape_fade tr f (st_total_intensity st) ta1;
           (out3, ta3) = tape_distribution u tr f st ta2
       in (out1 @ out2 @ out3, ta3, s1))"

definition flush_signal :: "nat \<Rightarrow> ticker \<Rightarrow> trade \<Rightarrow> double \<Rightarrow> double \<Rightarrow> signal" where
  "flush_signal tr t x size_usd delta_bps =
     \<lparr>sg_kind = TapeFlush, sg_timestamp = tr_timestamp x, sg_ticker = t, sg_price = tr_price x, sg_confidence = 1,
      sg_payload = signal_payload_default\<lparr>sp_size_usd := size_usd, sp_delta_bps := delta_bps\<rparr>,
      sg_trigger_trace_id = tr\<rparr>"

definition tape_on_trade ::
    "universe \<Rightarrow> nat \<Rightarrow> trade \<Rightarrow> tape \<times> trade_stream \<Rightarrow> signal list \<times> tape \<times> trade_stream" where
  "tape_on_trade u tr x = (\<lambda>(ta, s).
     let (st, s1) = stream_stats_of s; c = ta_cfg ta;
         size_usd = tr_size x * tr_price x;
         min_threshold = max (calibrated_min_size_usd u (ta_ticker ta) (tac_flush_min_size_usd c)) (st_q99_size st * tr_price x);
         m = ta_pre_trade_mid ta; delta_bps = \<bar>tr_price x - m\<bar> / m * 10000;
         cooldown_ok = (ta_last_flush ta = 0 \<or> tac_flush_cooldown c \<le> tr_timestamp x - ta_last_flush ta)
     in if min_threshold \<le> size_usd \<and> 0 < m \<and> tac_flush_min_move_bps c \<le> delta_bps \<and> cooldown_ok
        then ([flush_signal tr (ta_ticker ta) x size_usd delta_bps], ta\<lparr>ta_last_flush := tr_timestamp x\<rparr>, s1)
        else ([], ta, s1))"

definition tape_on_book_update :: "order_book \<Rightarrow> tape \<Rightarrow> tape" where
  "tape_on_book_update ob ta = (case mid ob of None \<Rightarrow> ta | Some m \<Rightarrow> ta\<lparr>ta_pre_trade_mid := m\<rparr>)"

section \<open>Runs\<close>

datatype tape_event =
    TapeFrame universe nat feature_frame
  | TapeTrade universe nat trade
  | TapeBook order_book
  | TapeStream stream_event

fun tape_step :: "tape_event \<Rightarrow> tape \<times> trade_stream \<Rightarrow> signal list \<times> tape \<times> trade_stream" where
  "tape_step (TapeFrame u tr f) p = tape_on_frame u tr f p"
| "tape_step (TapeTrade u tr x) p = tape_on_trade u tr x p"
| "tape_step (TapeBook ob) p = ([], tape_on_book_update ob (fst p), snd p)"
| "tape_step (TapeStream e) p = ([], fst p, stream_step e (snd p))"

text \<open>The signals of each event of a run, and the states it passes through.\<close>

fun tape_run :: "tape_event list \<Rightarrow> tape \<times> trade_stream \<Rightarrow> (signal list \<times> tape) list" where
  "tape_run [] p = []"
| "tape_run (e # es) p = (case tape_step e p of (out, q) \<Rightarrow> (out, fst q) # tape_run es q)"

definition tape_signals :: "tape_event list \<Rightarrow> tape \<times> trade_stream \<Rightarrow> signal list" where
  "tape_signals es p = concat (map fst (tape_run es p))"

definition of_kind :: "signal_kind \<Rightarrow> signal list \<Rightarrow> signal list" where
  "of_kind k ss = filter (\<lambda>s. sg_kind s = k) ss"

lemma of_kind_simps [simp]:
  "of_kind k [] = []" "of_kind k (s # ss) = (if sg_kind s = k then s # of_kind k ss else of_kind k ss)"
  "of_kind k (ss @ ts) = of_kind k ss @ of_kind k ts"
  by (simp_all add: of_kind_def)

lemma tape_signals_simps [simp]:
  "tape_signals [] p = []" "tape_signals (e # es) p = fst (tape_step e p) @ tape_signals es (snd (tape_step e p))"
  by (simp_all add: tape_signals_def split: prod.split)

text \<open>
  A latch publishes at most one signal, of its kind, and exactly when it goes from off to on.
\<close>

definition latch :: "signal_kind \<Rightarrow> bool \<Rightarrow> bool \<Rightarrow> signal list \<Rightarrow> bool" where
  "latch k was now out \<longleftrightarrow>
     list_all (\<lambda>s. sg_kind s = k) out \<and> length out = (if \<not> was \<and> now then 1 else 0)"

lemma latch_of_kind:
  "latch k was now out \<Longrightarrow> of_kind k out = out"
  "latch k was now out \<Longrightarrow> j \<noteq> k \<Longrightarrow> of_kind j out = []"
  by (auto simp: latch_def of_kind_def list_all_iff filter_empty_conv filter_id_conv)

lemma tape_burst_latch:
  assumes "tape_burst tr f st ta = (out, ta')"
  shows "latch TapeBurst (ta_burst_active ta) (ta_burst_active ta') out"
    and "ta_fade_active ta' = ta_fade_active ta" "ta_distribution_active ta' = ta_distribution_active ta"
      "ta_last_flush ta' = ta_last_flush ta" "ta_cfg ta' = ta_cfg ta" "ta_peak ta' = ta_peak ta" "ta_history ta' = ta_history ta"
  using assms by (auto simp: tape_burst_def latch_def burst_signal_def split: option.splits if_split_asm)

lemma tape_fade_latch:
  assumes "tape_fade tr f rate ta = (out, ta')"
  shows "latch TapeFade (ta_fade_active ta) (ta_fade_active ta') out"
    and "ta_burst_active ta' = ta_burst_active ta" "ta_distribution_active ta' = ta_distribution_active ta"
      "ta_last_flush ta' = ta_last_flush ta" "ta_cfg ta' = ta_cfg ta" "ta_peak ta' = ta_peak ta" "ta_history ta' = ta_history ta"
  using assms by (auto simp: tape_fade_def latch_def fade_signal_def Let_def split: if_split_asm)

lemma tape_distribution_latch:
  assumes "tape_distribution u tr f st ta = (out, ta')"
  shows "latch TapeDistribution (ta_distribution_active ta) (ta_distribution_active ta') out"
    and "ta_burst_active ta' = ta_burst_active ta" "ta_fade_active ta' = ta_fade_active ta"
      "ta_last_flush ta' = ta_last_flush ta" "ta_cfg ta' = ta_cfg ta" "ta_peak ta' = ta_peak ta" "ta_history ta' = ta_history ta"
  using assms by (auto simp: tape_distribution_def latch_def Let_def split: if_split_asm)

text \<open>What one event publishes of each kind, and what it does to the latches.\<close>

definition latches_move :: "tape \<Rightarrow> tape \<Rightarrow> signal list \<Rightarrow> bool" where
  "latches_move ta ta' out \<longleftrightarrow>
     latch TapeBurst (ta_burst_active ta) (ta_burst_active ta') (of_kind TapeBurst out) \<and>
     latch TapeFade (ta_fade_active ta) (ta_fade_active ta') (of_kind TapeFade out) \<and>
     latch TapeDistribution (ta_distribution_active ta) (ta_distribution_active ta') (of_kind TapeDistribution out)"

lemma latch_idle: "latch k b b []"
  by (simp add: latch_def)

lemma tape_on_frame_facts:
  assumes "tape_on_frame u tr f (ta, s) = (out, ta', s')"
  shows "latches_move ta ta' out \<and> of_kind TapeFlush out = [] \<and> ta_last_flush ta' = ta_last_flush ta \<and> ta_cfg ta' = ta_cfg ta"
proof (cases "ff_ticker f \<noteq> ta_ticker ta \<or> \<not> ff_valid f")
  case True
  then show ?thesis using assms by (simp add: tape_on_frame_def latches_move_def latch_idle)
next
  case False
  obtain st s1 where st: "stream_stats_of s = (st, s1)" by fastforce
  let ?ta = "tape_observe f (st_total_intensity st) ta"
  obtain out1 ta1 where b: "tape_burst tr f st ?ta = (out1, ta1)" by fastforce
  obtain out2 ta2 where d: "tape_fade tr f (st_total_intensity st) ta1 = (out2, ta2)" by fastforce
  obtain out3 ta3 where e: "tape_distribution u tr f st ta2 = (out3, ta3)" by fastforce
  have out: "out = out1 @ out2 @ out3" "ta' = ta3"
    using assms False by (auto simp: tape_on_frame_def st b d e)
  note l = tape_burst_latch(1) [OF b] tape_fade_latch(1) [OF d] tape_distribution_latch(1) [OF e]
  note keep = tape_burst_latch(2-) [OF b] tape_fade_latch(2-) [OF d] tape_distribution_latch(2-) [OF e]
  show ?thesis
    using l keep latch_of_kind [OF l(1)] latch_of_kind [OF l(2)] latch_of_kind [OF l(3)]
    by (simp add: out latches_move_def tape_observe_def Let_def)
qed

lemma tape_step_facts:
  assumes "tape_step e (ta, s) = (out, ta', s')"
  shows "latches_move ta ta' out \<and> ta_cfg ta' = ta_cfg ta"
    and "of_kind TapeFlush out = [] \<and> ta_last_flush ta' = ta_last_flush ta \<or>
      (\<exists>u tr x fl. e = TapeTrade u tr x \<and> of_kind TapeFlush out = [fl] \<and> sg_timestamp fl = tr_timestamp x \<and>
       ta_last_flush ta' = tr_timestamp x \<and>
       (ta_last_flush ta = 0 \<or> ta_last_flush ta + tac_flush_cooldown (ta_cfg ta) \<le> tr_timestamp x) \<and>
       tac_flush_min_move_bps (ta_cfg ta) \<le> sp_delta_bps (sg_payload fl))"
proof -
  show "latches_move ta ta' out \<and> ta_cfg ta' = ta_cfg ta"
  proof (cases e)
    case (TapeFrame u tr f)
    then show ?thesis using assms tape_on_frame_facts [of u tr f ta s out ta' s'] by simp
  qed (use assms in \<open>auto simp: tape_on_trade_def flush_signal_def tape_on_book_update_def latches_move_def latch_idle Let_def
        split: prod.splits if_split_asm option.split\<close>)
  show "of_kind TapeFlush out = [] \<and> ta_last_flush ta' = ta_last_flush ta \<or>
      (\<exists>u tr x fl. e = TapeTrade u tr x \<and> of_kind TapeFlush out = [fl] \<and> sg_timestamp fl = tr_timestamp x \<and>
       ta_last_flush ta' = tr_timestamp x \<and>
       (ta_last_flush ta = 0 \<or> ta_last_flush ta + tac_flush_cooldown (ta_cfg ta) \<le> tr_timestamp x) \<and>
       tac_flush_min_move_bps (ta_cfg ta) \<le> sp_delta_bps (sg_payload fl))"
  proof (cases e)
    case (TapeFrame u tr f)
    then show ?thesis using assms tape_on_frame_facts [of u tr f ta s out ta' s'] by simp
  qed (use assms in \<open>auto simp: tape_on_trade_def flush_signal_def tape_on_book_update_def Let_def
        split: prod.splits if_split_asm option.split\<close>)
qed

section \<open>What a run publishes\<close>

text \<open>The number of times a sequence of flags goes from off to on.\<close>

fun rises :: "bool \<Rightarrow> bool list \<Rightarrow> nat" where
  "rises was [] = 0"
| "rises was (b # bs) = (if \<not> was \<and> b then 1 else 0) + rises b bs"

lemma tape_latches_run:
  "length (of_kind TapeBurst (tape_signals es (ta, s))) = rises (ta_burst_active ta) (map (ta_burst_active \<circ> snd) (tape_run es (ta, s)))"
  "length (of_kind TapeFade (tape_signals es (ta, s))) = rises (ta_fade_active ta) (map (ta_fade_active \<circ> snd) (tape_run es (ta, s)))"
  "length (of_kind TapeDistribution (tape_signals es (ta, s))) =
    rises (ta_distribution_active ta) (map (ta_distribution_active \<circ> snd) (tape_run es (ta, s)))"
proof (induction es arbitrary: ta s)
  case (Cons e es)
  { case 1 show ?case using Cons tape_step_facts(1) [of e ta s] by (auto simp: latches_move_def latch_def split: prod.split) }
  { case 2 show ?case using Cons tape_step_facts(1) [of e ta s] by (auto simp: latches_move_def latch_def split: prod.split) }
  { case 3 show ?case using Cons tape_step_facts(1) [of e ta s] by (auto simp: latches_move_def latch_def split: prod.split) }
qed simp_all

fun trade_time_ok :: "tape_event \<Rightarrow> bool" where
  "trade_time_ok (TapeTrade u tr x) \<longleftrightarrow> 0 < tr_timestamp x"
| "trade_time_ok _ \<longleftrightarrow> True"

lemma tape_flushes_run:
  assumes "list_all trade_time_ok es" "0 \<le> tac_flush_cooldown (ta_cfg ta)"
  defines "gap \<equiv> \<lambda>a b. sg_timestamp a + tac_flush_cooldown (ta_cfg ta) \<le> sg_timestamp b"
  shows "sorted_wrt gap (of_kind TapeFlush (tape_signals es (ta, s))) \<and>
    (\<forall>f\<in>set (of_kind TapeFlush (tape_signals es (ta, s))).
       (ta_last_flush ta = 0 \<or> ta_last_flush ta + tac_flush_cooldown (ta_cfg ta) \<le> sg_timestamp f) \<and>
       tac_flush_min_move_bps (ta_cfg ta) \<le> sp_delta_bps (sg_payload f))"
  using assms(1,2) unfolding gap_def
proof (induction es arbitrary: ta s)
  case (Cons e es)
  obtain out ta' s' where step: "tape_step e (ta, s) = (out, ta', s')" by (metis prod_cases3)
  have cfg: "ta_cfg ta' = ta_cfg ta" using tape_step_facts(1) [OF step] by simp
  note ih = Cons.IH [of ta' s', unfolded cfg]
  from tape_step_facts(2) [OF step] consider
      (quiet) "of_kind TapeFlush out = []" "ta_last_flush ta' = ta_last_flush ta"
    | (flush) u tr x fl where "e = TapeTrade u tr x" "of_kind TapeFlush out = [fl]" "sg_timestamp fl = tr_timestamp x"
      "ta_last_flush ta' = tr_timestamp x"
      "ta_last_flush ta = 0 \<or> ta_last_flush ta + tac_flush_cooldown (ta_cfg ta) \<le> tr_timestamp x"
      "tac_flush_min_move_bps (ta_cfg ta) \<le> sp_delta_bps (sg_payload fl)"
    by blast
  then show ?case
  proof cases
    case quiet
    then show ?thesis using ih Cons.prems by (simp add: step)
  next
    case (flush u tr x fl)
    let ?rest = "of_kind TapeFlush (tape_signals es (ta', s'))"
    have x: "0 < tr_timestamp x" using Cons.prems flush by simp
    then have rest: "sorted_wrt (\<lambda>a b. sg_timestamp a + tac_flush_cooldown (ta_cfg ta) \<le> sg_timestamp b) ?rest"
      "\<And>f. f \<in> set ?rest \<Longrightarrow> sg_timestamp fl + tac_flush_cooldown (ta_cfg ta) \<le> sg_timestamp f \<and>
        tac_flush_min_move_bps (ta_cfg ta) \<le> sp_delta_bps (sg_payload f)"
      using ih Cons.prems flush by auto
    then have "ta_last_flush ta = 0 \<or> ta_last_flush ta + tac_flush_cooldown (ta_cfg ta) \<le> sg_timestamp f"
      if "f \<in> set ?rest" for f using that flush Cons.prems(2) by fastforce
    moreover have "of_kind TapeFlush (tape_signals (e # es) (ta, s)) = fl # ?rest" using flush(2) by (simp add: step)
    ultimately show ?thesis using rest flush(3,5,6) by simp
  qed
qed simp


text \<open>An empty tape counts as a burst of buys: both intensities are zero on the first frame.\<close>

lemma burst_on_empty_tape:
  assumes "ff_ticker f = t" "ff_valid f"
  shows "of_kind TapeBurst (fst (tape_on_frame u tr f (tape_new t tape_config_default, stream_sized N t a b))) =
    [burst_signal tr t f Buy 0 0]"
proof -
  obtain z where st: "stream_stats_of (stream_sized N t a b) = (z, stream_sized N t a b)"
    "st_buy_intensity z = 0" "st_sell_intensity z = 0" "st_total_intensity z = 0"
    by (simp add: stream_stats_of_def stream_q99_def stream_sized_def digest_weight_def digest_new_def kahan_new_def)
  let ?ta = "tape_observe f 0 (tape_new t tape_config_default)"
  have b: "tape_burst tr f z ?ta = ([burst_signal tr t f Buy 0 0], ?ta\<lparr>ta_burst_active := True\<rparr>)"
    by (simp add: tape_burst_def burst_of_def st tape_observe_def tape_new_def tape_config_default_def Let_def
        ema_update_def ema_from_period_def ema_new_def)
  obtain out2 ta2 where d: "tape_fade tr f 0 (?ta\<lparr>ta_burst_active := True\<rparr>) = (out2, ta2)" by fastforce
  obtain out3 ta3 where e: "tape_distribution u tr f z ta2 = (out3, ta3)"
    by fastforce
  have "tape_on_frame u tr f (tape_new t tape_config_default, stream_sized N t a b) =
      ([burst_signal tr t f Buy 0 0] @ out2 @ out3, ta3, stream_sized N t a b)"
    using assms by (simp add: tape_on_frame_def st b d e) (simp add: tape_new_def)
  then show ?thesis
    using latch_of_kind(2) [OF tape_fade_latch(1) [OF d]] latch_of_kind(2) [OF tape_distribution_latch(1) [OF e]]
    by (simp add: burst_signal_def)
qed

definition sample_print :: trade where
  "sample_print = \<lparr>tr_price = 102, tr_size = 5000, tr_side = Buy, tr_timestamp = seconds 7\<rparr>"


end
