(* ===== verification/Iceberg.thy ===== *)
theory Iceberg
  imports Signals Ring OrderBook
begin

text \<open>
  \<open>signals/IcebergDetector.{hpp,cpp}\<close>: hidden liquidity, suspected where a level keeps its size
  although trades eat it. The evidence of each level is a posterior probability; what its size must
  be to reach the threshold, and that a level is reported once. The increment of the book and the
  universe are arguments of the calls; the member \<open>book_history_\<close> is never used.
\<close>

section \<open>The detector\<close>

record iceberg_config =
  ic_prior :: double
  ic_likelihood_iceberg :: double
  ic_likelihood_not_iceberg :: double
  ic_posterior_threshold :: double
  ic_evidence_count_min :: int
  ic_evidence_window :: duration
  ic_min_size_usd :: double
  ic_size_retention_ratio :: double
  ic_event_join_window :: duration

definition iceberg_config_default :: iceberg_config where
  "iceberg_config_default =
     \<lparr>ic_prior = 5 / 100, ic_likelihood_iceberg = 85 / 100, ic_likelihood_not_iceberg = 10 / 100,
      ic_posterior_threshold = 80 / 100, ic_evidence_count_min = 3, ic_evidence_window = seconds 30,
      ic_min_size_usd = 100000, ic_size_retention_ratio = 1 / 2, ic_event_join_window = milliseconds 100\<rparr>"

record level_stats =
  ls_posterior :: double
  ls_refill_count :: int
  ls_total_eaten_vol :: double
  ls_last_refill :: time_point
  ls_emitted :: bool

definition level_stats_new :: level_stats where
  "level_stats_new =
     \<lparr>ls_posterior = 0, ls_refill_count = 0, ls_total_eaten_vol = 0, ls_last_refill = 0, ls_emitted = False\<rparr>"

record iceberg =
  ib_ticker :: ticker
  ib_cfg :: iceberg_config
  ib_last_sizes :: "(price_tick, double) omap"
  ib_levels :: "(price_tick, level_stats) omap"
  ib_trades :: "trade list"
  ib_last_prune :: time_point

text \<open>The detector is built at the time \<open>now\<close> of the system clock.\<close>

definition iceberg_new :: "ticker \<Rightarrow> iceberg_config \<Rightarrow> time_point \<Rightarrow> iceberg" where
  "iceberg_new t c now =
     \<lparr>ib_ticker = t, ib_cfg = c, ib_last_sizes = [], ib_levels = [], ib_trades = [], ib_last_prune = now\<rparr>"

definition k_max_history :: nat where
  "k_max_history = 1024"

definition iceberg_on_frame :: "feature_frame \<Rightarrow> iceberg \<Rightarrow> iceberg" where
  "iceberg_on_frame f ib =
     (if ff_ticker f \<noteq> ib_ticker ib \<or> \<not> ff_valid f then ib
      else
        let now = ff_timestamp f in
        if ib_levels ib \<noteq> [] \<and> minutes 1 < now - ib_last_prune ib
        then ib\<lparr>ib_levels := filter (\<lambda>e. \<not> minutes 5 < now - ls_last_refill (snd e)) (ib_levels ib),
                ib_last_sizes := (if 1000 < length (ib_last_sizes ib) then [] else ib_last_sizes ib),
                ib_last_prune := now\<rparr>
        else ib)"

definition iceberg_on_trade :: "trade \<Rightarrow> iceberg \<Rightarrow> iceberg" where
  "iceberg_on_trade x ib = ib\<lparr>ib_trades := push_bounded k_max_history x (ib_trades ib)\<rparr>"

definition update_bayesian :: "iceberg_config \<Rightarrow> bool \<Rightarrow> level_stats \<Rightarrow> level_stats" where
  "update_bayesian c refill st =
     (let l1 = (if refill then ic_likelihood_iceberg c else 1 - ic_likelihood_iceberg c);
          l0 = (if refill then ic_likelihood_not_iceberg c else 1 - ic_likelihood_not_iceberg c);
          p = ls_posterior st; denom = p * l1 + (1 - p) * l0
      in st\<lparr>ls_posterior :=
           clamp (if denom < 1 / 10 ^ 12
                  then (if refill then p + 5 / 100 * (1 - p) else p - 5 / 100 * p)
                  else p * l1 / denom) (1 / 10000) (9999 / 10000)\<rparr>)"

definition iceberg_signal :: "nat \<Rightarrow> ticker \<Rightarrow> time_point \<Rightarrow> double \<Rightarrow> side \<Rightarrow> level_stats \<Rightarrow> signal" where
  "iceberg_signal tr t ts price sd st =
     \<lparr>sg_kind = IcebergSuspected, sg_timestamp = ts, sg_ticker = t, sg_price = price,
      sg_confidence = ls_posterior st,
      sg_payload = signal_payload_default\<lparr>sp_side := (if sd = Buy then ''Bid'' else ''Ask''),
        sp_total_eaten_usd := ls_total_eaten_vol st * price, sp_refill_events := ls_refill_count st\<rparr>,
      sg_trigger_trace_id = tr\<rparr>"

text \<open>The evidence of a level after one event, and whether it is enough.\<close>

definition level_evidence ::
    "iceberg_config \<Rightarrow> time_point \<Rightarrow> double \<Rightarrow> double \<Rightarrow> double \<Rightarrow> level_stats \<Rightarrow> level_stats" where
  "level_evidence c ts trade_size before after st =
     (let baseline = (if 0 < before then before else after);
          refill = (before - after < trade_size \<and> baseline * ic_size_retention_ratio c \<le> after);
          st1 = update_bayesian c refill (if ls_posterior st = 0 then st\<lparr>ls_posterior := ic_prior c\<rparr> else st)
      in if refill
         then st1\<lparr>ls_refill_count := ls_refill_count st1 + 1,
                  ls_total_eaten_vol := ls_total_eaten_vol st1 + trade_size, ls_last_refill := ts\<rparr>
         else st1)"

definition enough_evidence :: "iceberg_config \<Rightarrow> level_stats \<Rightarrow> bool" where
  "enough_evidence c st =
     (if 0 < ic_posterior_threshold c then ic_posterior_threshold c \<le> ls_posterior st
      else ic_evidence_count_min c \<le> ls_refill_count st)"

definition process_refill ::
    "universe \<Rightarrow> double \<Rightarrow> nat \<Rightarrow> double \<Rightarrow> side \<Rightarrow> double \<Rightarrow> double \<Rightarrow> double \<Rightarrow> time_point \<Rightarrow> iceberg \<Rightarrow>
      signal list \<times> iceberg" where
  "process_refill u inc tr price sd trade_size before after ts ib =
     (if before \<le> 0 \<and> after \<le> 0 then ([], ib)
      else
        let tick = from_price price inc; c = ib_cfg ib;
            st = level_evidence c ts trade_size before after
              (case map_of (ib_levels ib) tick of None \<Rightarrow> level_stats_new | Some s \<Rightarrow> s)
        in if enough_evidence c st \<and> \<not> ls_emitted st \<and>
              calibrated_min_size_usd u (ib_ticker ib) (ic_min_size_usd c) \<le> ls_total_eaten_vol st * price
           then ([iceberg_signal tr (ib_ticker ib) ts price sd st],
                 ib\<lparr>ib_levels := omap_put (<) tick (st\<lparr>ls_emitted := True\<rparr>) (ib_levels ib)\<rparr>)
           else ([], ib\<lparr>ib_levels := omap_put (<) tick st (ib_levels ib)\<rparr>))"

text \<open>
  The recent trades are scanned from the newest to the first that is too old; those too new are
  passed over. \<open>duration_cast\<close> truncates the distance to whole milliseconds.
\<close>

definition joined_trades :: "time_point \<Rightarrow> duration \<Rightarrow> trade list \<Rightarrow> trade list" where
  "joined_trades now window ts =
     (let delta = (\<lambda>x. to_milliseconds (now - tr_timestamp x)); w = to_milliseconds window
      in filter (\<lambda>x. \<not> delta x < - w) (takeWhile (\<lambda>x. \<not> w < delta x) (rev ts)))"

definition volume_at_tick :: "double \<Rightarrow> (side \<Rightarrow> bool) \<Rightarrow> price_tick \<Rightarrow> trade list \<Rightarrow> double" where
  "volume_at_tick inc sd tick ts =
     foldl (+) 0 (map tr_size (filter (\<lambda>x. sd (tr_side x) \<and> from_price (tr_price x) inc = tick) ts))"

definition matched_volume :: "double \<Rightarrow> side \<Rightarrow> price_tick \<Rightarrow> trade list \<Rightarrow> double" where
  "matched_volume inc sd tick ts =
     (if sd = Sell then volume_at_tick inc (\<lambda>d. d = Buy) tick ts else volume_at_tick inc (\<lambda>d. d \<noteq> Buy) tick ts)"

definition iceberg_on_level ::
    "universe \<Rightarrow> double \<Rightarrow> nat \<Rightarrow> time_point \<Rightarrow> trade list \<Rightarrow> price_level \<Rightarrow> iceberg \<Rightarrow> signal list \<times> iceberg" where
  "iceberg_on_level u inc tr now joined l ib =
     (let tick = from_price (pl_price l) inc;
          ib1 = ib\<lparr>ib_last_sizes := omap_put (<) tick (pl_size l) (ib_last_sizes ib)\<rparr>
      in case map_of (ib_last_sizes ib) tick of
           None \<Rightarrow> ([], ib1)
         | Some before \<Rightarrow>
             let vol = matched_volume inc (pl_side l) tick joined in
             if 0 < vol then process_refill u inc tr (pl_price l) (pl_side l) vol before (pl_size l) now ib1
             else ([], ib1))"

fun iceberg_on_levels ::
    "universe \<Rightarrow> double \<Rightarrow> nat \<Rightarrow> time_point \<Rightarrow> trade list \<Rightarrow> price_level list \<Rightarrow> iceberg \<Rightarrow> signal list \<times> iceberg" where
  "iceberg_on_levels u inc tr now joined [] ib = ([], ib)"
| "iceberg_on_levels u inc tr now joined (l # ls) ib =
     (case iceberg_on_level u inc tr now joined l ib of (out, ib1) \<Rightarrow>
        (case iceberg_on_levels u inc tr now joined ls ib1 of (out2, ib2) \<Rightarrow> (out @ out2, ib2)))"

definition iceberg_on_book_update ::
    "universe \<Rightarrow> double \<Rightarrow> nat \<Rightarrow> order_book_update \<Rightarrow> iceberg \<Rightarrow> signal list \<times> iceberg" where
  "iceberg_on_book_update u inc tr upd ib =
     (if upd_ticker upd \<noteq> ib_ticker ib then ([], ib)
      else iceberg_on_levels u inc tr (upd_ts upd)
             (joined_trades (upd_ts upd) (ic_event_join_window (ib_cfg ib)) (ib_trades ib)) (upd_changes upd) ib)"

text \<open>One trade is evidence for every update of its level within the join window.\<close>

definition big_print :: trade where
  "big_print = \<lparr>tr_price = 100, tr_size = 400, tr_side = Buy, tr_timestamp = seconds 10\<rparr>"

definition same_size_update :: order_book_update where
  "same_size_update =
     \<lparr>upd_ticker = ''X'', upd_changes = [\<lparr>pl_price = 100, pl_size = 1000, pl_side = Sell\<rparr>], upd_ts = seconds 10\<rparr>"

lemma one_trade_is_three_refills:
  "let step = (\<lambda>(out, ib). case iceberg_on_book_update (universe_new universe_config_default) 1 7 same_size_update ib of
                (o1, ib1) \<Rightarrow> (out @ o1, ib1));
       sigs = fst (step (step (step (step ([], iceberg_on_trade big_print (iceberg_new ''X'' iceberg_config_default 0))))))
   in map (\<lambda>s. (sp_refill_events (sg_payload s), sp_total_eaten_usd (sg_payload s))) sigs = [(3, 120000)]"
  by code_simp

section \<open>The evidence of a level\<close>

definition odds :: "double \<Rightarrow> double" where
  "odds p = p / (1 - p)"

lemma odds_mono:
  assumes "p \<le> q" "q < 1" shows "odds p \<le> odds q"
proof -
  have "0 < 1 - q" "0 < 1 - p" using assms by simp_all
  then show ?thesis using assms(1) by (simp add: odds_def field_simps)
qed

definition bayes_factor :: "iceberg_config \<Rightarrow> double" where
  "bayes_factor c = ic_likelihood_iceberg c / ic_likelihood_not_iceberg c"

definition iceberg_config_ok :: "iceberg_config \<Rightarrow> bool" where
  "iceberg_config_ok c \<longleftrightarrow>
     1 / 10000 \<le> ic_prior c \<and> ic_prior c \<le> 9999 / 10000 \<and>
     1 / 10 ^ 12 \<le> ic_likelihood_not_iceberg c \<and> ic_likelihood_not_iceberg c \<le> ic_likelihood_iceberg c \<and>
     ic_likelihood_iceberg c \<le> 1 - 1 / 10 ^ 12 \<and> 0 < ic_posterior_threshold c"

lemma bayes_factor_ge: "iceberg_config_ok c \<Longrightarrow> 1 \<le> bayes_factor c"
  by (auto simp: iceberg_config_ok_def bayes_factor_def le_divide_eq)

text \<open>Bayes' rule multiplies the odds by the ratio of the likelihoods.\<close>

lemma posterior_odds:
  assumes "0 < p" "p < 1" "0 < l1" "0 < l0"
  shows "odds (p * l1 / (p * l1 + (1 - p) * l0)) = odds p * (l1 / l0)"
    and "p * l1 / (p * l1 + (1 - p) * l0) < 1"
proof -
  let ?d = "p * l1 + (1 - p) * l0"
  have d: "0 < ?d" and q: "0 < (1 - p) * l0" using assms by (simp_all add: add_pos_pos)
  have "1 - p * l1 / ?d = (1 - p) * l0 / ?d" using d by (simp add: field_simps)
  then show "odds (p * l1 / ?d) = odds p * (l1 / l0)" using d assms by (simp add: odds_def)
  show "p * l1 / ?d < 1" using d q by simp
qed

definition evidence_ok :: "iceberg_config \<Rightarrow> level_stats \<Rightarrow> bool" where
  "evidence_ok c st \<longleftrightarrow>
     0 \<le> ls_refill_count st \<and>
     (ls_posterior st = 0 \<and> ls_refill_count st = 0 \<or>
      1 / 10000 \<le> ls_posterior st \<and> ls_posterior st \<le> 9999 / 10000 \<and>
      odds (ls_posterior st) \<le> odds (ic_prior c) * bayes_factor c ^ nat (ls_refill_count st))"

lemma update_bayesian_odds:
  fixes refill :: bool
  assumes c: "iceberg_config_ok c" and p: "1 / 10000 \<le> ls_posterior st" "ls_posterior st \<le> 9999 / 10000"
    and odds: "odds (ls_posterior st) \<le> odds (ic_prior c) * B" "1 \<le> B"
  defines "q \<equiv> ls_posterior (update_bayesian c refill st)"
  shows "1 / 10000 \<le> q \<and> q \<le> 9999 / 10000 \<and> odds q \<le> odds (ic_prior c) * (if refill then B * bayes_factor c else B)"
proof -
  let ?p = "ls_posterior st" and ?l1 = "if refill then ic_likelihood_iceberg c else 1 - ic_likelihood_iceberg c"
    and ?l0 = "if refill then ic_likelihood_not_iceberg c else 1 - ic_likelihood_not_iceberg c"
  let ?d = "?p * ?l1 + (1 - ?p) * ?l0" and ?C = "if refill then B * bayes_factor c else B"
  have l: "1 / 10 ^ 12 \<le> ?l1" "1 / 10 ^ 12 \<le> ?l0" using c by (auto simp: iceberg_config_ok_def)
  have pos: "0 < ?l1" "0 < ?l0" by (rule less_le_trans [OF _ l(1)], simp) (rule less_le_trans [OF _ l(2)], simp)
  have "?p * (1 / 10 ^ 12) + (1 - ?p) * (1 / 10 ^ 12) \<le> ?d"
    using l p by (intro add_mono mult_left_mono) auto
  moreover have "?p * (1 / 10 ^ 12) + (1 - ?p) * (1 / 10 ^ 12) = 1 / 10 ^ 12" by (simp add: field_simps)
  ultimately have d: "\<not> ?d < 1 / 10 ^ 12" by linarith
  let ?x = "?p * ?l1 / ?d"
  have q: "q = clamp ?x (1 / 10000) (9999 / 10000)"
    unfolding q_def update_bayesian_def Let_def using d by simp
  have x: "odds ?x = odds ?p * (?l1 / ?l0)" "?x < 1" using posterior_odds [of ?p ?l1 ?l0] p pos by auto
  have B: "1 \<le> ?C" using odds(2) bayes_factor_ge [OF c] mult_mono [of 1 B 1 "bayes_factor c"] by auto
  have prior: "0 \<le> odds (ic_prior c)" "odds (1 / 10000) \<le> odds (ic_prior c)"
    using c by (auto simp: iceberg_config_ok_def odds_def intro!: odds_mono [unfolded odds_def])
  then have low: "odds (1 / 10000) \<le> odds (ic_prior c) * ?C"
    using B mult_left_mono [of 1 ?C "odds (ic_prior c)"] by linarith
  have "odds ?p * (?l1 / ?l0) \<le> odds (ic_prior c) * ?C"
  proof (cases refill)
    case True
    have "odds ?p * bayes_factor c \<le> odds (ic_prior c) * B * bayes_factor c"
      using odds(1) bayes_factor_ge [OF c] by (intro mult_right_mono) auto
    then show ?thesis using True by (simp add: bayes_factor_def algebra_simps)
  next
    case False
    have "?l1 / ?l0 \<le> 1" using False pos c by (simp add: iceberg_config_ok_def divide_le_eq)
    moreover have "0 \<le> odds ?p" using p by (simp add: odds_def)
    ultimately show ?thesis using False odds(1) mult_left_le [of "?l1 / ?l0" "odds ?p"] by simp
  qed
  then have high: "odds ?x \<le> odds (ic_prior c) * ?C" using x(1) by simp
  have "odds q \<le> odds (ic_prior c) * ?C"
  proof -
    consider "q = 1 / 10000" | "q = ?x" | "q = 9999 / 10000" "9999 / 10000 < ?x" unfolding q clamp_def by argo
    then show ?thesis
    proof cases
      case 1
      show ?thesis unfolding 1 by (rule low)
    next
      case 2
      show ?thesis unfolding 2 by (rule high)
    next
      case 3
      have "odds q \<le> odds ?x" unfolding 3(1) by (rule odds_mono [OF less_imp_le [OF 3(2)] x(2)])
      then show ?thesis using high by (rule order_trans)
    qed
  qed
  moreover have "1 / 10000 \<le> q \<and> q \<le> 9999 / 10000" unfolding q by (rule clamp_bounds) simp
  ultimately show ?thesis by blast
qed

lemma level_evidence_ok:
  assumes c: "iceberg_config_ok c" and st: "evidence_ok c st"
  shows "evidence_ok c (level_evidence c ts v before after st) \<and>
    1 / 10000 \<le> ls_posterior (level_evidence c ts v before after st) \<and>
    ls_emitted (level_evidence c ts v before after st) = ls_emitted st"
proof -
  define st0 where "st0 = (if ls_posterior st = 0 then st\<lparr>ls_posterior := ic_prior c\<rparr> else st)"
  have st0: "1 / 10000 \<le> ls_posterior st0" "ls_posterior st0 \<le> 9999 / 10000"
    "odds (ls_posterior st0) \<le> odds (ic_prior c) * bayes_factor c ^ nat (ls_refill_count st)"
    "ls_refill_count st0 = ls_refill_count st" "ls_emitted st0 = ls_emitted st" "0 \<le> ls_refill_count st"
    using c st by (auto simp: st0_def evidence_ok_def iceberg_config_ok_def)
  have "1 \<le> bayes_factor c ^ nat (ls_refill_count st)" using bayes_factor_ge [OF c] by (rule one_le_power)
  note u = update_bayesian_odds [OF c st0(1-3) this]
  have keep: "ls_refill_count (update_bayesian c r st0) = ls_refill_count st"
    "ls_emitted (update_bayesian c r st0) = ls_emitted st" for r
    by (simp_all add: update_bayesian_def Let_def st0)
  have eq: "bayes_factor c ^ nat (ls_refill_count st + 1) = bayes_factor c ^ nat (ls_refill_count st) * bayes_factor c"
    using st0(6) by (simp add: nat_add_distrib)
  show ?thesis
    using u [of True] u [of False] st0(6)
    unfolding level_evidence_def Let_def st0_def [symmetric]
    by (auto simp: evidence_ok_def keep eq)
qed

section \<open>What the detector publishes\<close>

definition iceberg_ok :: "iceberg_config \<Rightarrow> iceberg \<Rightarrow> bool" where
  "iceberg_ok c ib \<longleftrightarrow> ib_cfg ib = c \<and> (\<forall>e\<in>set (ib_levels ib). evidence_ok c (snd e))"

definition reported :: "iceberg \<Rightarrow> price_tick \<Rightarrow> bool" where
  "reported ib k \<longleftrightarrow> (\<exists>st. map_of (ib_levels ib) k = Some st \<and> ls_emitted st)"

definition iceberg_justified :: "iceberg_config \<Rightarrow> universe \<Rightarrow> ticker \<Rightarrow> signal \<Rightarrow> bool" where
  "iceberg_justified c u t s \<longleftrightarrow>
     sg_kind s = IcebergSuspected \<and> ic_posterior_threshold c \<le> sg_confidence s \<and> sg_confidence s \<le> 9999 / 10000 \<and>
     odds (sg_confidence s) \<le> odds (ic_prior c) * bayes_factor c ^ nat (sp_refill_events (sg_payload s)) \<and>
     calibrated_min_size_usd u t (ic_min_size_usd c) \<le> sp_total_eaten_usd (sg_payload s)"

text \<open>
  A step is sound when it keeps the invariant and what has been reported, and its signals are
  justified and of levels that were not reported before and are from now on, each once.
\<close>

definition sound_step :: "iceberg_config \<Rightarrow> universe \<Rightarrow> double \<Rightarrow> iceberg \<Rightarrow> signal list \<Rightarrow> iceberg \<Rightarrow> bool" where
  "sound_step c u inc ib out ib' \<longleftrightarrow>
     iceberg_ok c ib' \<and> ib_ticker ib' = ib_ticker ib \<and> (\<forall>k. reported ib k \<longrightarrow> reported ib' k) \<and>
     (\<forall>s\<in>set out. iceberg_justified c u (ib_ticker ib) s \<and> \<not> reported ib (from_price (sg_price s) inc) \<and>
        reported ib' (from_price (sg_price s) inc)) \<and>
     distinct (map (\<lambda>s. from_price (sg_price s) inc) out)"

lemma sound_step_refl: "iceberg_ok c ib \<Longrightarrow> sound_step c u inc ib [] ib"
  by (simp add: sound_step_def)

lemma sound_step_trans:
  assumes "sound_step c u inc ib out ib1" "sound_step c u inc ib1 out2 ib2"
  shows "sound_step c u inc ib (out @ out2) ib2"
  using assms unfolding sound_step_def by auto

lemma sound_step_same:
  assumes "iceberg_ok c ib" "ib_levels ib' = ib_levels ib" "ib_cfg ib' = ib_cfg ib" "ib_ticker ib' = ib_ticker ib"
  shows "sound_step c u inc ib [] ib'"
  using assms by (simp add: sound_step_def iceberg_ok_def reported_def)

lemma process_refill_sound:
  assumes c: "iceberg_config_ok c" and ib: "iceberg_ok c ib"
    and run: "process_refill u inc tr price sd v before after ts ib = (out, ib')"
  shows "sound_step c u inc ib out ib'"
proof (cases "before \<le> 0 \<and> after \<le> 0")
  case True
  then show ?thesis using run ib sound_step_refl by (auto simp: process_refill_def)
next
  case False
  define k st0 where "k = from_price price inc"
    and "st0 = (case map_of (ib_levels ib) k of None \<Rightarrow> level_stats_new | Some s \<Rightarrow> s)"
  define st where "st = level_evidence c ts v before after st0"
  have cfg: "ib_cfg ib = c" using ib by (simp add: iceberg_ok_def)
  have "evidence_ok c st0"
    using ib by (auto simp: st0_def iceberg_ok_def evidence_ok_def level_stats_new_def dest!: map_of_SomeD split: option.split)
  then have st: "evidence_ok c st" "1 / 10000 \<le> ls_posterior st" "ls_emitted st = ls_emitted st0"
    using level_evidence_ok [OF c] unfolding st_def by blast+
  have rep: "ls_emitted st0 = reported ib k"
    by (auto simp: st0_def reported_def level_stats_new_def split: option.split)
  have cases: "(out, ib') =
      (if enough_evidence c st \<and> \<not> ls_emitted st \<and> calibrated_min_size_usd u (ib_ticker ib) (ic_min_size_usd c) \<le> ls_total_eaten_vol st * price
       then ([iceberg_signal tr (ib_ticker ib) ts price sd st], ib\<lparr>ib_levels := omap_put (<) k (st\<lparr>ls_emitted := True\<rparr>) (ib_levels ib)\<rparr>)
       else ([], ib\<lparr>ib_levels := omap_put (<) k st (ib_levels ib)\<rparr>))"
    using run False unfolding process_refill_def Let_def cfg st_def st0_def k_def by simp
  have ev: "evidence_ok c (st\<lparr>ls_emitted := True\<rparr>)" using st(1) by (simp add: evidence_ok_def)
  show ?thesis
  proof (cases "enough_evidence c st \<and> \<not> ls_emitted st \<and>
      calibrated_min_size_usd u (ib_ticker ib) (ic_min_size_usd c) \<le> ls_total_eaten_vol st * price")
    case True
    then have "ic_posterior_threshold c \<le> ls_posterior st" using c by (simp add: enough_evidence_def iceberg_config_ok_def)
    then have "iceberg_justified c u (ib_ticker ib) (iceberg_signal tr (ib_ticker ib) ts price sd st)"
      using st(1,2) True by (auto simp: iceberg_justified_def iceberg_signal_def evidence_ok_def)
    moreover have "sg_price (iceberg_signal tr (ib_ticker ib) ts price sd st) = price" by (simp add: iceberg_signal_def)
    moreover have "\<not> reported ib k" using True st(3) rep by simp
    ultimately show ?thesis
      using True cases ib ev by (auto simp: sound_step_def iceberg_ok_def reported_def k_def dest!: set_omap_put split: if_split_asm)
  next
    case no: False
    then show ?thesis
      using cases ib st rep by (auto simp: sound_step_def iceberg_ok_def reported_def dest!: set_omap_put split: if_split_asm)
  qed
qed

lemma iceberg_on_levels_sound:
  assumes c: "iceberg_config_ok c" and ib: "iceberg_ok c ib"
    and run: "iceberg_on_levels u inc tr now joined ls ib = (out, ib')"
  shows "sound_step c u inc ib out ib'"
  using ib run
proof (induction ls arbitrary: ib out)
  case Nil
  then show ?case using sound_step_refl by simp
next
  case (Cons l ls)
  obtain out1 ib1 where one: "iceberg_on_level u inc tr now joined l ib = (out1, ib1)" by fastforce
  obtain out2 where rest: "iceberg_on_levels u inc tr now joined ls ib1 = (out2, ib')" "out = out1 @ out2"
    using Cons.prems(2) one by (auto split: prod.splits)
  let ?ib = "ib\<lparr>ib_last_sizes := omap_put (<) (from_price (pl_price l) inc) (pl_size l) (ib_last_sizes ib)\<rparr>"
  have same: "sound_step c u inc ib [] ?ib" by (rule sound_step_same [OF Cons.prems(1)]) simp_all
  then have ok: "iceberg_ok c ?ib" by (simp add: sound_step_def)
  have "sound_step c u inc ?ib out1 ib1"
    using one process_refill_sound [OF c ok] sound_step_refl [OF ok]
    by (auto simp: iceberg_on_level_def Let_def split: option.splits if_split_asm)
  then have step: "sound_step c u inc ib out1 ib1" using sound_step_trans [OF same] by simp
  then have "iceberg_ok c ib1" by (simp add: sound_step_def)
  then show ?case using sound_step_trans [OF step Cons.IH [OF _ rest(1)]] rest(2) by simp
qed

lemma iceberg_on_book_update_sound:
  assumes "iceberg_config_ok c" "iceberg_ok c ib" "iceberg_on_book_update u inc tr upd ib = (out, ib')"
  shows "sound_step c u inc ib out ib'"
  using assms iceberg_on_levels_sound sound_step_refl
  by (auto simp: iceberg_on_book_update_def split: if_split_asm)

section \<open>Runs\<close>

datatype iceberg_event =
    IceTrade trade
  | IceUpdate universe double nat order_book_update
  | IceFrame feature_frame

fun iceberg_step :: "iceberg_event \<Rightarrow> iceberg \<Rightarrow> signal list \<times> iceberg" where
  "iceberg_step (IceTrade x) ib = ([], iceberg_on_trade x ib)"
| "iceberg_step (IceUpdate u inc tr upd) ib = iceberg_on_book_update u inc tr upd ib"
| "iceberg_step (IceFrame f) ib = ([], iceberg_on_frame f ib)"

fun iceberg_run :: "iceberg_event list \<Rightarrow> iceberg \<Rightarrow> signal list \<times> iceberg" where
  "iceberg_run [] ib = ([], ib)"
| "iceberg_run (e # es) ib =
     (case iceberg_step e ib of (out, ib1) \<Rightarrow> (case iceberg_run es ib1 of (out2, ib2) \<Rightarrow> (out @ out2, ib2)))"

definition justified_in :: "iceberg_config \<Rightarrow> ticker \<Rightarrow> iceberg_event list \<Rightarrow> signal \<Rightarrow> bool" where
  "justified_in c t es s \<longleftrightarrow>
     list_ex (\<lambda>e. case e of IceUpdate u inc tr upd \<Rightarrow> iceberg_justified c u t s | _ \<Rightarrow> False) es"

text \<open>Events of a book with a fixed increment; a frame may forget levels.\<close>

fun with_increment :: "double \<Rightarrow> iceberg_event \<Rightarrow> bool" where
  "with_increment i (IceUpdate u inc tr upd) \<longleftrightarrow> inc = i"
| "with_increment i _ \<longleftrightarrow> True"

fun is_frame :: "iceberg_event \<Rightarrow> bool" where
  "is_frame (IceFrame f) \<longleftrightarrow> True"
| "is_frame _ \<longleftrightarrow> False"

lemma iceberg_on_frame_ok: "iceberg_ok c ib \<Longrightarrow> iceberg_ok c (iceberg_on_frame f ib)"
  and iceberg_on_frame_ticker: "ib_ticker (iceberg_on_frame f ib) = ib_ticker ib"
  by (auto simp: iceberg_on_frame_def iceberg_ok_def Let_def)

lemma iceberg_step_sound:
  assumes c: "iceberg_config_ok c" and ib: "iceberg_ok c ib" and step: "iceberg_step e ib = (out, ib')"
    and inc: "with_increment inc e"
  shows "iceberg_ok c ib' \<and> ib_ticker ib' = ib_ticker ib \<and> list_all (justified_in c (ib_ticker ib) (e # es)) out"
    and "\<not> is_frame e \<Longrightarrow> (\<forall>k. reported ib k \<longrightarrow> reported ib' k) \<and>
      (\<forall>s\<in>set out. \<not> reported ib (from_price (sg_price s) inc) \<and> reported ib' (from_price (sg_price s) inc)) \<and>
      distinct (map (\<lambda>s. from_price (sg_price s) inc) out)"
proof -
  have "iceberg_ok c ib' \<and> ib_ticker ib' = ib_ticker ib \<and> list_all (justified_in c (ib_ticker ib) (e # es)) out \<and>
     (\<not> is_frame e \<longrightarrow> (\<forall>k. reported ib k \<longrightarrow> reported ib' k) \<and>
      (\<forall>s\<in>set out. \<not> reported ib (from_price (sg_price s) inc) \<and> reported ib' (from_price (sg_price s) inc)) \<and>
      distinct (map (\<lambda>s. from_price (sg_price s) inc) out))"
  proof (cases e)
    case (IceTrade x)
    then show ?thesis using step ib by (auto simp: iceberg_on_trade_def iceberg_ok_def reported_def)
  next
    case (IceUpdate u i tr upd)
    then have "sound_step c u inc ib out ib'"
      using step iceberg_on_book_update_sound [OF c ib] inc by simp
    then show ?thesis using IceUpdate by (auto simp: sound_step_def justified_in_def list_all_iff)
  next
    case (IceFrame f)
    then show ?thesis using step iceberg_on_frame_ok [OF ib] iceberg_on_frame_ticker [of f ib] by auto
  qed
  then show "iceberg_ok c ib' \<and> ib_ticker ib' = ib_ticker ib \<and> list_all (justified_in c (ib_ticker ib) (e # es)) out"
    and "\<not> is_frame e \<Longrightarrow> (\<forall>k. reported ib k \<longrightarrow> reported ib' k) \<and>
      (\<forall>s\<in>set out. \<not> reported ib (from_price (sg_price s) inc) \<and> reported ib' (from_price (sg_price s) inc)) \<and>
      distinct (map (\<lambda>s. from_price (sg_price s) inc) out)" by blast+
qed

lemma iceberg_run_sound:
  assumes c: "iceberg_config_ok c" and ib: "iceberg_ok c ib" and run: "iceberg_run es ib = (out, ib')"
    and inc: "list_all (with_increment inc) es"
  shows "list_all (justified_in c (ib_ticker ib) es) out \<and>
    (list_all (\<lambda>e. \<not> is_frame e) es \<longrightarrow>
      (\<forall>s\<in>set out. \<not> reported ib (from_price (sg_price s) inc)) \<and> distinct (map (\<lambda>s. from_price (sg_price s) inc) out))"
  using ib run inc
proof (induction es arbitrary: ib out)
  case (Cons e es)
  obtain out1 ib1 out2 where step: "iceberg_step e ib = (out1, ib1)" "iceberg_run es ib1 = (out2, ib')" "out = out1 @ out2"
    using Cons.prems(2) by (auto split: prod.splits)
  have e: "with_increment inc e" and es: "list_all (with_increment inc) es" using Cons.prems(3) by simp_all
  note s1 = iceberg_step_sound(1) [OF c Cons.prems(1) step(1) e, of es]
  note s2 = iceberg_step_sound(2) [OF c Cons.prems(1) step(1) e]
  have ih: "list_all (justified_in c (ib_ticker ib1) es) out2"
    "list_all (\<lambda>e. \<not> is_frame e) es \<Longrightarrow>
      (\<forall>s\<in>set out2. \<not> reported ib1 (from_price (sg_price s) inc)) \<and> distinct (map (\<lambda>s. from_price (sg_price s) inc) out2)"
    using Cons.IH [OF _ step(2) es] s1 by blast+
  have "list_all (justified_in c (ib_ticker ib) (e # es)) out"
    using s1 ih(1) step(3) by (auto simp: list_all_iff justified_in_def)
  moreover have "(\<forall>s\<in>set out. \<not> reported ib (from_price (sg_price s) inc)) \<and> distinct (map (\<lambda>s. from_price (sg_price s) inc) out)"
    if plain: "list_all (\<lambda>e. \<not> is_frame e) (e # es)"
  proof -
    from plain have nf: "\<not> is_frame e" "list_all (\<lambda>e. \<not> is_frame e) es" by simp_all
    show ?thesis using s2 [OF nf(1)] ih(2) [OF nf(2)] step(3) by auto
  qed
  ultimately show ?case by blast
qed simp



text \<open>With the default configuration this means at least three refills.\<close>

lemma default_needs_three_refills:
  assumes "iceberg_justified iceberg_config_default u t s"
  shows "3 \<le> sp_refill_events (sg_payload s)"
proof (rule ccontr)
  let ?n = "nat (sp_refill_events (sg_payload s))"
  assume "\<not> 3 \<le> sp_refill_events (sg_payload s)"
  then have n: "?n \<le> 2" by simp
  have B: "bayes_factor iceberg_config_default = 17 / 2" by (simp add: bayes_factor_def iceberg_config_default_def)
  have conf: "80 / 100 \<le> sg_confidence s" "sg_confidence s \<le> 9999 / 10000"
    and o1: "odds (sg_confidence s) \<le> odds (5 / 100) * (17 / 2) ^ ?n"
    using assms by (auto simp: iceberg_justified_def B) (simp_all add: iceberg_config_default_def)
  have "odds (80 / 100) \<le> odds (sg_confidence s)" using conf by (intro odds_mono) auto
  also note o1
  also have "odds (5 / 100) * (17 / 2) ^ ?n \<le> odds (5 / 100) * (17 / 2) ^ (2 :: nat)"
    using n by (intro mult_left_mono power_increasing) (auto simp: odds_def)
  finally show False by (simp add: odds_def power2_eq_square)
qed

end
