(* ===== verification/Tracker.thy ===== *)
theory Tracker
  imports Numeric
begin

text \<open>
  \<open>marketdata/KalmanLagEstimator.{hpp,cpp}\<close> and \<open>marketdata/LeaderTracker.{hpp,cpp}\<close>: the
  lag of a ticker behind its leader, observed as the shift with the largest cross-correlation of
  two price windows and smoothed by a Kalman filter with two states, and the alarm on their
  decorrelation.
\<close>

section \<open>The Kalman filter\<close>

record kalman_config =
  kc_initial_lag_ms :: double
  kc_initial_drift_ms_per_sec :: double
  kc_initial_var_lag :: double
  kc_initial_var_drift :: double
  kc_q_lag :: double
  kc_q_drift :: double
  kc_r_obs :: double
  kc_confidence_scale :: double
  kc_outlier_cutoff_ms :: double

definition kalman_config_default :: kalman_config where
  "kalman_config_default =
     \<lparr>kc_initial_lag_ms = 0, kc_initial_drift_ms_per_sec = 0, kc_initial_var_lag = 1000000,
      kc_initial_var_drift = 1000, kc_q_lag = 1, kc_q_drift = 1 / 100, kc_r_obs = 2500,
      kc_confidence_scale = 2500, kc_outlier_cutoff_ms = 5000\<rparr>"

record kalman =
  kal_cfg :: kalman_config
  kal_lag :: double
  kal_drift :: double
  kal_p00 :: double
  kal_p01 :: double
  kal_p10 :: double
  kal_p11 :: double

definition kalman_reset :: "kalman \<Rightarrow> kalman" where
  "kalman_reset k =
     k\<lparr>kal_lag := kc_initial_lag_ms (kal_cfg k), kal_drift := kc_initial_drift_ms_per_sec (kal_cfg k),
       kal_p00 := kc_initial_var_lag (kal_cfg k), kal_p01 := 0, kal_p10 := 0,
       kal_p11 := kc_initial_var_drift (kal_cfg k)\<rparr>"

definition kalman_new :: "kalman_config \<Rightarrow> kalman" where
  "kalman_new c =
     kalman_reset \<lparr>kal_cfg = c, kal_lag = 0, kal_drift = 0, kal_p00 = 0, kal_p01 = 0, kal_p10 = 0, kal_p11 = 0\<rparr>"

definition kalman_predict :: "double \<Rightarrow> kalman \<Rightarrow> kalman" where
  "kalman_predict dt k =
     (let fp00 = kal_p00 k + dt * kal_p10 k; fp01 = kal_p01 k + dt * kal_p11 k;
          fp10 = kal_p10 k; fp11 = kal_p11 k
      in k\<lparr>kal_lag := kal_lag k + dt * kal_drift k,
           kal_p00 := fp00 + dt * fp01 + kc_q_lag (kal_cfg k) * dt, kal_p01 := fp01,
           kal_p10 := fp10 + dt * fp11, kal_p11 := fp11 + kc_q_drift (kal_cfg k) * dt\<rparr>)"

definition kalman_correct :: "double \<Rightarrow> kalman \<Rightarrow> kalman" where
  "kalman_correct z k =
     (let y = z - kal_lag k; r = kc_r_obs (kal_cfg k); s = kal_p00 k + r in
      if s < 1 / 10 ^ 9 then k
      else if kc_outlier_cutoff_ms (kal_cfg k) < \<bar>y\<bar> then k
      else
        let k0 = kal_p00 k / s; k1 = kal_p10 k / s;
            p00 = kal_p00 k; p01 = kal_p01 k; p10 = kal_p10 k; p11 = kal_p11 k;
            new00 = (1 - k0) * (1 - k0) * p00 + k0 * k0 * r;
            new01 = - (1 - k0) * k1 * p00 + (1 - k0) * p01 + k0 * k1 * r;
            new10 = (1 - k0) * (- k1 * p00 + p10) + k0 * k1 * r;
            new11 = k1 * k1 * p00 - k1 * p10 - k1 * p01 + p11 + k1 * k1 * r
        in k\<lparr>kal_lag := clamp (kal_lag k + k0 * y) (- 1000) 10000,
             kal_drift := clamp (kal_drift k + k1 * y) (- 100) 100,
             kal_p00 := max (1 / 10 ^ 9) new00, kal_p11 := max (1 / 10 ^ 9) new11,
             kal_p01 := 1 / 2 * (new01 + new10), kal_p10 := 1 / 2 * (new01 + new10)\<rparr>)"

definition kalman_update :: "double \<Rightarrow> double \<Rightarrow> kalman \<Rightarrow> kalman" where
  "kalman_update dt z k =
     (if dt \<le> 0 \<or> 3600 < dt then (if 3600 < dt then kalman_reset k else k)
      else kalman_correct z (kalman_predict dt k))"

definition kalman_confidence :: "kalman \<Rightarrow> double" where
  "kalman_confidence k =
     (if kc_confidence_scale (kal_cfg k) \<le> 0 then 0
      else 1 / (1 + kal_p00 k / kc_confidence_scale (kal_cfg k)))"

section \<open>The tracker\<close>

record tracker_config =
  tkc_xcorr_window :: nat
  tkc_xcorr_max_lag_steps :: nat
  tkc_dt_sec :: double
  tkc_cusum_warmup :: nat
  tkc_cusum_baseline :: double
  tkc_cusum_drift :: double
  tkc_cusum_threshold :: double
  tkc_kalman :: kalman_config

definition tracker_config_default :: tracker_config where
  "tracker_config_default =
     \<lparr>tkc_xcorr_window = 100, tkc_xcorr_max_lag_steps = 10, tkc_dt_sec = 1 / 10, tkc_cusum_warmup = 30,
      tkc_cusum_baseline = 7 / 10, tkc_cusum_drift = 5 / 100, tkc_cusum_threshold = 1,
      tkc_kalman = kalman_config_default\<rparr>"

record tracker =
  tk_cfg :: tracker_config
  tk_corr :: correlation
  tk_leader :: "double list"
  tk_follower :: "double list"
  tk_kalman :: kalman
  tk_n :: nat
  tk_cusum_minus :: double
  tk_cusum_alarm :: bool

definition tracker_new :: "tracker_config \<Rightarrow> tracker" where
  "tracker_new c =
     \<lparr>tk_cfg = c, tk_corr = correlation_new, tk_leader = [], tk_follower = [],
      tk_kalman = kalman_new (tkc_kalman c), tk_n = 0, tk_cusum_minus = 0, tk_cusum_alarm = False\<rparr>"

definition window_mean :: "double list \<Rightarrow> double" where
  "window_mean v = foldl (+) 0 v / real (length v)"

text \<open>The three sums over the overlap, and the correlation they give, if any.\<close>

definition shift_sums :: "double list \<Rightarrow> double list \<Rightarrow> nat \<Rightarrow> nat list \<Rightarrow> double \<times> double \<times> double" where
  "shift_sums dl df s idx =
     fold (\<lambda>i (sxy, sxx, syy). (sxy + dl ! (i - s) * df ! i, sxx + dl ! (i - s) * dl ! (i - s), syy + df ! i * df ! i))
       idx (0, 0, 0)"

definition shift_range :: "nat \<Rightarrow> int \<Rightarrow> nat list" where
  "shift_range W shift = [nat (max 0 shift)..<W - nat (max 0 (- shift))]"

definition shift_correlation :: "double list \<Rightarrow> double list \<Rightarrow> int \<Rightarrow> double option" where
  "shift_correlation dl df shift =
     (let idx = shift_range (length dl) shift in
      if length idx \<le> 4 then None
      else
        (case shift_sums dl df (nat (max 0 shift)) idx of
           (sxy, sxx, syy) \<Rightarrow>
             if sxx \<le> 1 / 10 ^ 18 \<or> syy \<le> 1 / 10 ^ 18 then None else Some (sxy / csqrt (sxx * syy))))"

definition better_shift :: "double list \<Rightarrow> double list \<Rightarrow> int \<Rightarrow> double \<times> int \<Rightarrow> double \<times> int" where
  "better_shift dl df shift best =
     (case shift_correlation dl df shift of
        None \<Rightarrow> best
      | Some r \<Rightarrow> if fst best < r then (r, shift) else best)"

definition best_shift :: "int \<Rightarrow> double list \<Rightarrow> double list \<Rightarrow> double \<times> int" where
  "best_shift K dl df = fold (better_shift dl df) [- K..K] (- 2, 0)"

definition lag_observation :: "tracker_config \<Rightarrow> double list \<Rightarrow> double list \<Rightarrow> double" where
  "lag_observation c ls fs =
     real_of_int (snd (best_shift (int (tkc_xcorr_max_lag_steps c))
       (map (\<lambda>x. x - window_mean ls) ls) (map (\<lambda>x. x - window_mean fs) fs))) * tkc_dt_sec c * 1000"

definition window_push :: "nat \<Rightarrow> double \<Rightarrow> double list \<Rightarrow> double list" where
  "window_push n x w = (if length w = n then tl w else w) @ [x]"

definition cusum_step :: "tracker_config \<Rightarrow> double \<Rightarrow> tracker \<Rightarrow> tracker" where
  "cusum_step cfg c tk =
     (let m = max 0 (tk_cusum_minus tk + (tkc_cusum_baseline cfg - c - tkc_cusum_drift cfg)) in
      if tkc_cusum_threshold cfg < m then tk\<lparr>tk_cusum_alarm := True, tk_cusum_minus := 0\<rparr>
      else if tkc_cusum_baseline cfg \<le> c \<and> m = 0 then tk\<lparr>tk_cusum_alarm := False, tk_cusum_minus := m\<rparr>
      else tk\<lparr>tk_cusum_minus := m\<rparr>)"

definition tracker_update :: "double \<Rightarrow> double \<Rightarrow> tracker \<Rightarrow> tracker" where
  "tracker_update leader follower tk =
     (let c = tk_cfg tk; corr = correlation_update leader follower (tk_corr tk); n = tk_n tk + 1;
          ls = window_push (tkc_xcorr_window c) leader (tk_leader tk);
          fs = (if length (tk_leader tk) = tkc_xcorr_window c then tl (tk_follower tk) else tk_follower tk) @ [follower];
          kal = (if 2 * tkc_xcorr_max_lag_steps c + 4 \<le> length ls
                 then kalman_update (tkc_dt_sec c) (lag_observation c ls fs) (tk_kalman tk) else tk_kalman tk);
          tk1 = tk\<lparr>tk_corr := corr, tk_n := n, tk_leader := ls, tk_follower := fs, tk_kalman := kal\<rparr>
      in if tkc_cusum_warmup c < n then cusum_step c (correlation_value corr) tk1 else tk1)"

definition reset_cusum :: "tracker \<Rightarrow> tracker" where
  "reset_cusum tk = tk\<lparr>tk_cusum_minus := 0, tk_cusum_alarm := False\<rparr>"

section \<open>What the filter keeps\<close>

definition kalman_config_ok :: "kalman_config \<Rightarrow> bool" where
  "kalman_config_ok c \<longleftrightarrow>
     0 < kc_initial_var_lag c \<and> 0 < kc_initial_var_drift c \<and> 0 \<le> kc_q_lag c \<and> 0 \<le> kc_q_drift c \<and>
     0 < kc_r_obs c \<and> 0 < kc_confidence_scale c \<and> \<bar>kc_initial_drift_ms_per_sec c\<bar> \<le> 100"

definition kalman_ok :: "kalman \<Rightarrow> bool" where
  "kalman_ok k \<longleftrightarrow>
     kal_p01 k = kal_p10 k \<and> 0 \<le> kal_p00 k \<and> 0 \<le> kal_p11 k \<and>
     (kal_p01 k)\<^sup>2 \<le> kal_p00 k * kal_p11 k \<and> \<bar>kal_drift k\<bar> \<le> 100"

lemma kalman_reset_ok: "kalman_config_ok (kal_cfg k) \<Longrightarrow> kalman_ok (kalman_reset k)"
  by (auto simp: kalman_ok_def kalman_config_ok_def kalman_reset_def)

text \<open>A symmetric matrix with a nonnegative determinant is a nonnegative form.\<close>

lemma form_nonneg:
  fixes a b d t :: double
  assumes "0 \<le> a" "0 \<le> d" "b\<^sup>2 \<le> a * d"
  shows "0 \<le> a + 2 * t * b + t\<^sup>2 * d"
proof (cases "d = 0")
  case False
  have "d * (a + 2 * t * b + t\<^sup>2 * d) = (a * d - b\<^sup>2) + (b + t * d)\<^sup>2"
    by (simp add: power2_eq_square algebra_simps)
  then have "0 \<le> d * (a + 2 * t * b + t\<^sup>2 * d)" using assms(3) by simp
  then show ?thesis using assms(2) False by (simp add: zero_le_mult_iff)
qed (use assms in auto)

lemma kalman_predict_ok:
  assumes c: "kalman_config_ok (kal_cfg k)" and k: "kalman_ok k" and dt: "0 < dt"
  shows "kalman_ok (kalman_predict dt k)"
proof -
  obtain a b d where p: "kal_p00 k = a" "kal_p01 k = b" "kal_p10 k = b" "kal_p11 k = d"
    and ok: "0 \<le> a" "0 \<le> d" "b\<^sup>2 \<le> a * d" "\<bar>kal_drift k\<bar> \<le> 100"
    using k unfolding kalman_ok_def by metis
  let ?q = "kc_q_lag (kal_cfg k) * dt" and ?e = "kc_q_drift (kal_cfg k) * dt"
  let ?A = "a + 2 * dt * b + dt\<^sup>2 * d"
  have q: "0 \<le> ?q" "0 \<le> ?e" using c dt by (auto simp: kalman_config_ok_def)
  have A: "0 \<le> ?A" by (rule form_nonneg [OF ok(1-3)])
  have p00: "kal_p00 (kalman_predict dt k) = ?A + ?q" and p11: "kal_p11 (kalman_predict dt k) = d + ?e"
    and p01: "kal_p01 (kalman_predict dt k) = b + dt * d" and p10: "kal_p10 (kalman_predict dt k) = b + dt * d"
    by (simp_all add: kalman_predict_def p Let_def power2_eq_square algebra_simps)
  have "(b + dt * d)\<^sup>2 = ?A * d - (a * d - b\<^sup>2)" by (simp add: power2_eq_square algebra_simps)
  also have "\<dots> \<le> ?A * d" using ok(3) by simp
  also have "\<dots> \<le> (?A + ?q) * (d + ?e)" using A ok(2) q by (intro mult_mono) auto
  finally show ?thesis
    using ok A q by (simp add: kalman_ok_def p00 p11 p01 p10) (simp add: kalman_predict_def Let_def)
qed

text \<open>
  Joseph's form with the optimal gain is the posterior covariance: what the observation leaves of
  the variance of the lag is its harmonic combination with the variance of the observation.
\<close>

lemma joseph_posterior:
  fixes a b d r s k0 k1 :: double
  assumes s: "s = a + r" "s \<noteq> 0" and k0: "k0 = a / s" and k1: "k1 = b / s"
  shows "(1 - k0) * (1 - k0) * a + k0 * k0 * r = a * r / s"
    and "- (1 - k0) * k1 * a + (1 - k0) * b + k0 * k1 * r = b * r / s"
    and "(1 - k0) * (- k1 * a + b) + k0 * k1 * r = b * r / s"
    and "k1 * k1 * a - k1 * b - k1 * b + d + k1 * k1 * r = d - b\<^sup>2 / s"
proof -
  have a: "a = s - r" using s(1) by simp
  show "(1 - k0) * (1 - k0) * a + k0 * k0 * r = a * r / s"
    unfolding k0 using s(2) by (simp add: a divide_simps) algebra
  show "- (1 - k0) * k1 * a + (1 - k0) * b + k0 * k1 * r = b * r / s"
    unfolding k0 k1 using s(2) by (simp add: a divide_simps)
  show "(1 - k0) * (- k1 * a + b) + k0 * k1 * r = b * r / s"
    unfolding k0 k1 using s(2) by (simp add: a divide_simps) algebra
  show "k1 * k1 * a - k1 * b - k1 * b + d + k1 * k1 * r = d - b\<^sup>2 / s"
    unfolding k1 using s(2) by (simp add: a divide_simps power2_eq_square) algebra
qed

lemma kalman_correct_ok:
  assumes c: "kalman_config_ok (kal_cfg k)" and k: "kalman_ok k"
  shows "kalman_ok (kalman_correct z k)"
proof -
  obtain a b d where p: "kal_p00 k = a" "kal_p01 k = b" "kal_p10 k = b" "kal_p11 k = d"
    and ok: "0 \<le> a" "0 \<le> d" "b\<^sup>2 \<le> a * d" "\<bar>kal_drift k\<bar> \<le> 100"
    using k unfolding kalman_ok_def by metis
  let ?r = "kc_r_obs (kal_cfg k)" and ?s = "a + kc_r_obs (kal_cfg k)" and ?k = "kalman_correct z k"
  have r: "0 < ?r" using c by (auto simp: kalman_config_ok_def)
  then have s: "0 < ?s" using ok(1) by simp
  let ?A = "a * ?r / ?s" and ?B = "b * ?r / ?s" and ?D = "d - b\<^sup>2 / ?s"
  have det: "?B\<^sup>2 \<le> ?A * ?D"
  proof -
    have "?A * ?D - ?B\<^sup>2 = ?r / ?s * (a * d - b\<^sup>2)"
      using s by (simp add: divide_simps power2_eq_square) algebra
    also have "0 \<le> \<dots>" using r s ok(3) by (intro mult_nonneg_nonneg) auto
    finally show ?thesis by simp
  qed
  have A: "0 \<le> ?A" using ok(1) r s by (intro divide_nonneg_pos mult_nonneg_nonneg) auto
  have "b\<^sup>2 \<le> d * ?s" using ok r by (smt (verit) mult.commute mult_nonneg_nonneg distrib_left)
  then have D: "0 \<le> ?D" using s by (simp add: field_simps)
  show ?thesis
  proof (cases "?s < 1 / 10 ^ 9 \<or> kc_outlier_cutoff_ms (kal_cfg k) < \<bar>z - kal_lag k\<bar>")
    case True
    then have "?k = k" by (auto simp: kalman_correct_def p Let_def)
    then show ?thesis using k by simp
  next
    case False
    note j = joseph_posterior [of ?s a ?r "a / ?s" "b / ?s" b, OF refl _ refl refl]
    have eq: "?k = k\<lparr>kal_lag := clamp (kal_lag k + a / ?s * (z - kal_lag k)) (- 1000) 10000,
        kal_drift := clamp (kal_drift k + b / ?s * (z - kal_lag k)) (- 100) 100,
        kal_p00 := max (1 / 10 ^ 9) ?A, kal_p11 := max (1 / 10 ^ 9) ?D, kal_p01 := ?B, kal_p10 := ?B\<rparr>"
      using False j s unfolding kalman_correct_def Let_def p by simp
    have "?A * ?D \<le> max (1 / 10 ^ 9) ?A * max (1 / 10 ^ 9) ?D" using A D by (intro mult_mono) auto
    then show ?thesis
      using det clamp_bounds [of "- 100" 100 "kal_drift k + b / ?s * (z - kal_lag k)"]
      by (simp add: kalman_ok_def eq abs_le_iff le_max_iff_disj)
  qed
qed

lemma kalman_cfg [simp]:
  "kal_cfg (kalman_reset k) = kal_cfg k" "kal_cfg (kalman_predict dt k) = kal_cfg k"
  "kal_cfg (kalman_correct z k) = kal_cfg k" "kal_cfg (kalman_update dt z k) = kal_cfg k"
  by (simp_all add: kalman_reset_def kalman_predict_def kalman_correct_def kalman_update_def Let_def)

lemma kalman_update_ok:
  "kalman_config_ok (kal_cfg k) \<Longrightarrow> kalman_ok k \<Longrightarrow> kalman_ok (kalman_update dt z k)"
  by (simp add: kalman_update_def kalman_reset_ok kalman_predict_ok kalman_correct_ok)

lemma kalman_confidence_range:
  assumes "kalman_config_ok (kal_cfg k)" "kalman_ok k"
  shows "0 < kalman_confidence k \<and> kalman_confidence k \<le> 1"
proof -
  have "0 \<le> kal_p00 k / kc_confidence_scale (kal_cfg k)" "0 < kc_confidence_scale (kal_cfg k)"
    using assms by (auto simp: kalman_config_ok_def kalman_ok_def)
  then show ?thesis by (simp add: kalman_confidence_def divide_le_eq_1)
qed

section \<open>The tracker over a run\<close>

definition tracker_run :: "tracker_config \<Rightarrow> (double \<times> double) list \<Rightarrow> tracker" where
  "tracker_run c ps = fold (\<lambda>(x, y). tracker_update x y) ps (tracker_new c)"

lemma tracker_run_snoc: "tracker_run c (ps @ [(x, y)]) = tracker_update x y (tracker_run c ps)"
  by (simp add: tracker_run_def)

lemma cusum_step_fields:
  "tk_cfg (cusum_step g v tk) = tk_cfg tk \<and> tk_corr (cusum_step g v tk) = tk_corr tk \<and>
   tk_leader (cusum_step g v tk) = tk_leader tk \<and> tk_follower (cusum_step g v tk) = tk_follower tk \<and>
   tk_kalman (cusum_step g v tk) = tk_kalman tk \<and> tk_n (cusum_step g v tk) = tk_n tk \<and>
   0 \<le> tk_cusum_minus (cusum_step g v tk)"
  by (auto simp: cusum_step_def Let_def)

definition tracker_inv :: "tracker_config \<Rightarrow> (double \<times> double) list \<Rightarrow> tracker \<Rightarrow> bool" where
  "tracker_inv c ps tk \<longleftrightarrow>
     tk_cfg tk = c \<and> tk_n tk = length ps \<and> tk_corr tk = correlation_run ps \<and>
     tk_leader tk = map fst (drop (length ps - tkc_xcorr_window c) ps) \<and>
     tk_follower tk = map snd (drop (length ps - tkc_xcorr_window c) ps) \<and>
     kal_cfg (tk_kalman tk) = tkc_kalman c \<and> kalman_ok (tk_kalman tk) \<and> 0 \<le> tk_cusum_minus tk"

lemma last_window_push:
  assumes "0 < N"
  shows "(if length (drop (length ps - N) ps) = N then tl (drop (length ps - N) ps) else drop (length ps - N) ps) @ [p]
    = drop (length (ps @ [p]) - N) (ps @ [p])"
proof (cases "N \<le> length ps")
  case True
  then have "tl (drop (length ps - N) ps) = drop (Suc (length ps - N)) ps" by (simp add: drop_Suc tl_drop)
  then show ?thesis using True assms by (simp add: Suc_diff_le)
qed auto

lemma tracker_new_inv:
  assumes "kalman_config_ok (tkc_kalman c)" shows "tracker_inv c [] (tracker_new c)"
  using assms kalman_reset_ok
  by (auto simp: tracker_inv_def tracker_new_def correlation_run_def kalman_new_def)

lemma tracker_update_inv:
  assumes c: "kalman_config_ok (tkc_kalman c)" "0 < tkc_xcorr_window c" and inv: "tracker_inv c ps tk"
  shows "tracker_inv c (ps @ [(x, y)]) (tracker_update x y tk)"
proof -
  let ?N = "tkc_xcorr_window c" and ?w = "drop (length ps - tkc_xcorr_window c) ps"
  have w: "(if length ?w = ?N then tl ?w else ?w) @ [(x, y)] = drop (length (ps @ [(x, y)]) - ?N) (ps @ [(x, y)])"
    by (rule last_window_push [OF c(2)])
  have l: "window_push ?N x (map fst ?w) = map fst (drop (length (ps @ [(x, y)]) - ?N) (ps @ [(x, y)]))"
    unfolding w [symmetric] by (simp add: window_push_def map_tl del: length_drop)
  have f: "(if length ?w = ?N then tl (map snd ?w) else map snd ?w) @ [y]
      = map snd (drop (length (ps @ [(x, y)]) - ?N) (ps @ [(x, y)]))"
    unfolding w [symmetric] by (simp add: map_tl del: length_drop)
  show ?thesis
    using inv l f c(1) kalman_update_ok [of "tk_kalman tk"]
    by (simp add: tracker_inv_def tracker_update_def Let_def correlation_run_snoc cusum_step_fields
        del: length_drop split: if_split_asm)
qed

lemma tracker_run_inv:
  assumes "kalman_config_ok (tkc_kalman c)" "0 < tkc_xcorr_window c"
  shows "tracker_inv c ps (tracker_run c ps)"
proof (induction ps rule: rev_induct)
  case Nil
  then show ?case using tracker_new_inv assms(1) by (simp add: tracker_run_def)
next
  case (snoc p ps)
  then show ?case using tracker_update_inv assms by (cases p) (auto simp: tracker_run_snoc)
qed

section \<open>The shift of the best correlation\<close>

lemma shift_sums_products:
  "shift_sums dl df s idx =
     (let ps = map (\<lambda>i. (dl ! (i - s), df ! i)) idx
      in (products_of ps 0 0, squares_of (map fst ps) 0, squares_of (map snd ps) 0))"
proof -
  have "fold (\<lambda>i (sxy, sxx, syy). (sxy + dl ! (i - s) * df ! i, sxx + dl ! (i - s) * dl ! (i - s), syy + df ! i * df ! i))
      idx (u, v, w) =
    (u + (\<Sum>i\<leftarrow>idx. dl ! (i - s) * df ! i), v + (\<Sum>i\<leftarrow>idx. dl ! (i - s) * dl ! (i - s)), w + (\<Sum>i\<leftarrow>idx. df ! i * df ! i))"
    for u v w by (induction idx arbitrary: u v w) (auto simp: algebra_simps)
  then show ?thesis
    by (simp add: shift_sums_def products_of_def squares_of_def Let_def o_def power2_eq_square)
qed

lemma shift_correlation_bound:
  assumes "shift_correlation dl df k = Some r" shows "\<bar>r\<bar> \<le> 1"
proof -
  let ?ps = "map (\<lambda>i. (dl ! (i - nat (max 0 k)), df ! i)) (shift_range (length dl) k)"
  let ?P = "products_of ?ps 0 0" and ?X = "squares_of (map fst ?ps) 0" and ?Y = "squares_of (map snd ?ps) 0"
  have "r = ?P / csqrt (?X * ?Y)"
    using assms by (simp add: shift_correlation_def shift_sums_products Let_def split: if_split_asm)
  then show ?thesis using correlation_coefficient_bound [of ?ps 0 0] by (simp only:)
qed

lemma better_shift_fold:
  assumes "distinct ks"
  shows "(let b = fold (better_shift dl df) ks (- 2, 0) in
      (b = (- 2, 0) \<and> (\<forall>k\<in>set ks. shift_correlation dl df k = None)) \<or>
      (snd b \<in> set ks \<and> shift_correlation dl df (snd b) = Some (fst b) \<and>
       (\<forall>k\<in>set ks. \<forall>r. shift_correlation dl df k = Some r \<longrightarrow> r \<le> fst b) \<and>
       (\<forall>k\<in>set (takeWhile (\<lambda>k. k \<noteq> snd b) ks). \<forall>r. shift_correlation dl df k = Some r \<longrightarrow> r < fst b)))"
  using assms
proof (induction ks rule: rev_induct)
  case Nil
  then show ?case by simp
next
  case (snoc k ks)
  let ?b = "fold (better_shift dl df) ks (- 2, 0)"
  have d: "k \<notin> set ks" using snoc.prems by simp
  have tw: "takeWhile (\<lambda>j. j \<noteq> i) (ks @ [k]) = takeWhile (\<lambda>j. j \<noteq> i) ks" if "i \<in> set ks" for i
    using that by (metis (mono_tags, lifting) takeWhile_append1)
  have tk: "takeWhile (\<lambda>j. j \<noteq> k) (ks @ [k]) = ks" using d by (induction ks) auto
  show ?case
  proof (cases "shift_correlation dl df k")
    case None
    then show ?thesis using snoc tw by (auto simp: better_shift_def Let_def)
  next
    case (Some r)
    then have "- 1 \<le> r" using shift_correlation_bound by fastforce
    then show ?thesis
      using snoc Some tw tk d by (auto simp: better_shift_def Let_def)
  qed
qed

text \<open>
  A negative shift shortens the window and does not shift it: what is measured is the correlation
  at lag zero of the first samples.
\<close>

lemma negative_shift_is_unshifted:
  assumes "length df = length dl" "s \<le> length dl"
  shows "shift_correlation dl df (- int s) =
    shift_correlation (take (length dl - s) dl) (take (length dl - s) df) 0"
proof -
  have "shift_range (length dl) (- int s) = shift_range (length dl - s) 0" by (simp add: shift_range_def)
  moreover have "shift_sums dl df 0 [0..<length dl - s] =
      shift_sums (take (length dl - s) dl) (take (length dl - s) df) 0 [0..<length dl - s]"
    unfolding shift_sums_def using assms by (intro fold_cong) auto
  moreover have "length (take (length dl - s) dl) = length dl - s" by simp
  ultimately show ?thesis by (simp add: shift_correlation_def shift_range_def)
qed

text \<open>The lag that is observed is the shift of the largest correlation coefficient that the
  windows have within the range of shifts, the first of them in the order of the loop, and this
  coefficient lies between minus one and one; without one the observed lag is zero.\<close>

theorem lag_observation_is_best:
  fixes c :: tracker_config and ls fs :: "double list"
  defines "dl \<equiv> map (\<lambda>x. x - window_mean ls) ls" and "df \<equiv> map (\<lambda>x. x - window_mean fs) fs"
    and "K \<equiv> int (tkc_xcorr_max_lag_steps c)"
  shows "\<exists>k r. lag_observation c ls fs = real_of_int k * tkc_dt_sec c * 1000 \<and> - K \<le> k \<and> k \<le> K \<and>
     (if list_all (\<lambda>j. shift_correlation dl df j = None) [- K..K] then k = 0
      else shift_correlation dl df k = Some r \<and> \<bar>r\<bar> \<le> 1 \<and>
        list_all (\<lambda>j. case shift_correlation dl df j of None \<Rightarrow> True | Some q \<Rightarrow> if j < k then q < r else q \<le> r) [- K..K])"
proof -
  let ?b = "best_shift K dl df"
  have obs: "lag_observation c ls fs = real_of_int (snd ?b) * tkc_dt_sec c * 1000"
    by (simp add: lag_observation_def dl_def df_def K_def)
  have K: "0 \<le> K" by (simp add: K_def)
  have "distinct [- K..K]" by simp
  note best = better_shift_fold [OF this, of dl df, folded best_shift_def]
  have before: "j \<in> set (takeWhile (\<lambda>k. k \<noteq> i) [- K..K]) \<longleftrightarrow> - K \<le> j \<and> j < i" if "i \<in> set [- K..K]" for i j
  proof -
    have "[- K..K] = [- K..i - 1] @ i # [i + 1..K]"
      using that upto_split3 [of "- K" i K] by simp
    then have "takeWhile (\<lambda>k. k \<noteq> i) [- K..K] = [- K..i - 1]" by (simp add: takeWhile_append)
    then show ?thesis by auto
  qed
  show ?thesis
  proof (cases "list_all (\<lambda>j. shift_correlation dl df j = None) [- K..K]")
    case True
    then have "snd ?b = 0" using best by (auto simp: Let_def list_all_iff)
    then show ?thesis using True obs K by (intro exI [of _ 0] exI [of _ "0 :: double"]) simp
  next
    case False
    then have b: "snd ?b \<in> set [- K..K]" "shift_correlation dl df (snd ?b) = Some (fst ?b)"
      and le: "\<And>j r. j \<in> set [- K..K] \<Longrightarrow> shift_correlation dl df j = Some r \<Longrightarrow> r \<le> fst ?b"
      and less: "\<And>j r. j \<in> set (takeWhile (\<lambda>k. k \<noteq> snd ?b) [- K..K]) \<Longrightarrow> shift_correlation dl df j = Some r \<Longrightarrow> r < fst ?b"
      using best unfolding Let_def list_all_iff by blast+
    have "list_all (\<lambda>j. case shift_correlation dl df j of None \<Rightarrow> True
        | Some q \<Rightarrow> if j < snd ?b then q < fst ?b else q \<le> fst ?b) [- K..K]"
      using le less before [OF b(1)] by (auto simp: list_all_iff split: option.split)
    then show ?thesis
      using False obs b shift_correlation_bound [OF b(2)]
      by (intro exI [of _ "snd ?b"] exI [of _ "fst ?b"]) auto
  qed
qed

text \<open>C40. Over any run of samples the covariance of the lag filter stays symmetric and positive
  semidefinite, its drift within the limits and its confidence between zero and one; the windows
  hold the last samples of both series and the correlation is the one of all samples.\<close>

theorem lag_filter_stays_sane:
  assumes "kalman_config_ok (tkc_kalman c)" "0 < tkc_xcorr_window c"
  shows "let tk = tracker_run c ps; k = tk_kalman tk; win = drop (length ps - tkc_xcorr_window c) ps in
     kal_p01 k = kal_p10 k \<and> 0 \<le> kal_p00 k \<and> 0 \<le> kal_p11 k \<and> (kal_p01 k)\<^sup>2 \<le> kal_p00 k * kal_p11 k \<and>
     \<bar>kal_drift k\<bar> \<le> 100 \<and> 0 < kalman_confidence k \<and> kalman_confidence k \<le> 1 \<and>
     tk_leader tk = map fst win \<and> tk_follower tk = map snd win \<and> tk_corr tk = correlation_run ps \<and>
     0 \<le> tk_cusum_minus tk"
proof -
  have inv: "tracker_inv c ps (tracker_run c ps)" by (rule tracker_run_inv [OF assms])
  then have "0 < kalman_confidence (tk_kalman (tracker_run c ps)) \<and> kalman_confidence (tk_kalman (tracker_run c ps)) \<le> 1"
    using assms(1) by (intro kalman_confidence_range) (auto simp: tracker_inv_def)
  then show ?thesis using inv unfolding Let_def tracker_inv_def kalman_ok_def by blast
qed

theorem lag_filter_stays_sane_witness:
  "tk_leader (tracker_run (tracker_config_default\<lparr>tkc_xcorr_window := 2\<rparr>) [(1, 4), (2, 5), (3, 6)]) = [2, 3]"
  using lag_filter_stays_sane [of "tracker_config_default\<lparr>tkc_xcorr_window := 2\<rparr>" "[(1, 4), (2, 5), (3, 6)]"]
  by (simp add: tracker_config_default_def kalman_config_default_def kalman_config_ok_def Let_def)

end
