(* ===== verification/LeaderMoves.thy ===== *)
theory LeaderMoves
  imports Tracker Signals Ring
begin

text \<open>
  \<open>signals/LeaderSignal.{hpp,cpp}\<close>: the signal of a ticker that lags behind its leader. The moves of
  both are taken over five seconds, with the earlier price found by a binary search that is compared
  here with the linear search it stands for.
\<close>

record leader_signal_config =
  lsc_min_correlation :: double
  lsc_move_min_pct :: double
  lsc_lag_min_pct :: double
  lsc_lag_max_age :: duration

definition leader_signal_config_default :: leader_signal_config where
  "leader_signal_config_default =
     \<lparr>lsc_min_correlation = 6 / 10, lsc_move_min_pct = 3 / 10, lsc_lag_min_pct = 15 / 100,
      lsc_lag_max_age = milliseconds 3000\<rparr>"

type_synonym price_history = "(time_point \<times> double) list"

record leader_signal =
  lsg_ticker :: ticker
  lsg_leader_ticker :: ticker
  lsg_cfg :: leader_signal_config
  lsg_leader_history :: price_history
  lsg_our_history :: price_history

definition leader_signal_new :: "ticker \<Rightarrow> ticker \<Rightarrow> leader_signal_config \<Rightarrow> leader_signal" where
  "leader_signal_new t l c =
     \<lparr>lsg_ticker = t, lsg_leader_ticker = l, lsg_cfg = c, lsg_leader_history = [], lsg_our_history = []\<rparr>"

definition leader_history_size :: nat where
  "leader_history_size = 60000"

text \<open>The loop of the binary search for the last entry at or before the target.\<close>

function search_last :: "price_history \<Rightarrow> time_point \<Rightarrow> int \<Rightarrow> int \<Rightarrow> int \<Rightarrow> int" where
  "search_last h target low high best =
     (if low \<le> high
      then
        let m = low + cdiv (high - low) 2 in
        if fst (h ! nat m) \<le> target then search_last h target (m + 1) high m
        else search_last h target low (m - 1) best
      else best)"
  by pat_completeness auto
termination
proof (relation "measure (\<lambda>(h, t, low, high, best). nat (high - low + 1))", simp)
  fix low high m :: int
  assume le: "low \<le> high" and m: "m = low + cdiv (high - low) 2"
  then have "low \<le> m" "m \<le> high" by (simp_all add: cdiv_nonneg)
  then show "((h, t, m + 1, high, b), h, t, low, high, b') \<in> measure (\<lambda>(h, t, low, high, best). nat (high - low + 1))"
    and "((h, t, low, m - 1, b), h, t, low, high, b') \<in> measure (\<lambda>(h, t, low, high, best). nat (high - low + 1))"
    for h :: price_history and t b b' using le by auto
qed

declare search_last.simps [simp del]

definition get_move :: "price_history \<Rightarrow> time_point \<Rightarrow> double" where
  "get_move h now =
     (if h = [] then 0
      else
        let cur = snd (last h) in
        if cur = 0 then 0
        else
          let best = search_last h (now - seconds 5) 0 (int (length h) - 1) (- 1);
              prev = (if best \<noteq> - 1 then snd (h ! nat best) else snd (h ! 0))
          in if prev = 0 then 0 else (cur - prev) / prev * 100)"

definition lag_signal :: "nat \<Rightarrow> ticker \<Rightarrow> time_point \<Rightarrow> double \<Rightarrow> tracker \<Rightarrow> double \<Rightarrow> double \<Rightarrow> signal" where
  "lag_signal tr t now price tk leader_move our_move =
     (let corr = correlation_value (tk_corr tk); expected = leader_move * corr
      in \<lparr>sg_kind = LeaderMove, sg_timestamp = now, sg_ticker = t, sg_price = price,
          sg_confidence = kalman_confidence (tk_kalman tk),
          sg_payload = signal_payload_default\<lparr>sp_lag_pct := expected - our_move, sp_correlation := corr,
            sp_leader_move_pct := leader_move, sp_our_move_pct := our_move, sp_expected_move_pct := expected,
            sp_lag_ms := kal_lag (tk_kalman tk)\<rparr>,
          sg_trigger_trace_id = tr\<rparr>)"

definition check_signal :: "nat \<Rightarrow> tracker \<Rightarrow> time_point \<Rightarrow> leader_signal \<Rightarrow> signal list" where
  "check_signal tr tk now g =
     (if length (lsg_leader_history g) < 50 \<or> length (lsg_our_history g) < 50 then []
      else
        let corr = correlation_value (tk_corr tk) in
        if \<bar>corr\<bar> < lsc_min_correlation (lsg_cfg g) then []
        else
          let leader_move = get_move (lsg_leader_history g) now; our_move = get_move (lsg_our_history g) now in
          if lsc_move_min_pct (lsg_cfg g) \<le> \<bar>leader_move\<bar> \<and>
             lsc_lag_min_pct (lsg_cfg g) \<le> \<bar>leader_move * corr - our_move\<bar>
          then [lag_signal tr (lsg_ticker g) now (snd (last (lsg_our_history g))) tk leader_move our_move]
          else [])"

definition leader_signal_on_frame :: "nat \<Rightarrow> tracker \<Rightarrow> feature_frame \<Rightarrow> leader_signal \<Rightarrow> signal list \<times> leader_signal" where
  "leader_signal_on_frame tr tk f g =
     (if ff_ticker f \<noteq> lsg_ticker g \<or> \<not> ff_valid f then ([], g)
      else
        let g1 = g\<lparr>lsg_our_history := push_bounded leader_history_size (ff_timestamp f, ff_mid f) (lsg_our_history g)\<rparr>
        in (check_signal tr tk (ff_timestamp f) g1, g1))"

definition leader_signal_on_leader_frame :: "feature_frame \<Rightarrow> leader_signal \<Rightarrow> leader_signal" where
  "leader_signal_on_leader_frame f g =
     (if ff_ticker f \<noteq> lsg_leader_ticker g \<or> \<not> ff_valid f then g
      else g\<lparr>lsg_leader_history := push_bounded leader_history_size (ff_timestamp f, ff_mid f) (lsg_leader_history g)\<rparr>)"

section \<open>The search\<close>

text \<open>
  The invariant of the loop: the entries before \<open>low\<close> are at or before the target, those after
  \<open>high\<close> are not, and \<open>best\<close> is the entry before \<open>low\<close>.
\<close>

lemma search_last_inv:
  assumes "sorted (map fst h)" "0 \<le> low" "high < int (length h)" "low \<le> high + 1" "best = low - 1"
    and "\<forall>i < nat low. fst (h ! i) \<le> target" "\<forall>i < length h. high < int i \<longrightarrow> target < fst (h ! i)"
  shows "search_last h target low high best = int (length (takeWhile (\<lambda>e. fst e \<le> target) h)) - 1"
  using assms
proof (induction h target low high best rule: search_last.induct)
  case (1 h target low high best)
  let ?m = "low + cdiv (high - low) 2"
  show ?case
  proof (cases "low \<le> high")
    case False
    then have h: "high = low - 1" using "1.prems" by simp
    have "takeWhile (\<lambda>e. fst e \<le> target) h = take (nat low) h"
    proof (rule takeWhile_eq_take_P_nth)
      show "fst (h ! i) \<le> target" if "i < nat low" "i < length h" for i using "1.prems"(6) that by simp
      assume "nat low < length h"
      moreover have "high < int (nat low)" using "1.prems"(2) h by simp
      ultimately show "\<not> fst (h ! nat low) \<le> target" using "1.prems"(7) by (simp add: not_le)
    qed
    then have "length (takeWhile (\<lambda>e. fst e \<le> target) h) = nat low" using "1.prems" h by simp
    then show ?thesis using False "1.prems" by (simp add: search_last.simps)
  next
    case True
    define m where "m = ?m"
    have m: "low \<le> m" "m \<le> high" using True by (simp_all add: m_def cdiv_nonneg)
    then have len: "nat m < length h" "0 \<le> m" using "1.prems" by auto
    have srt: "fst (h ! i) \<le> fst (h ! j)" if "i \<le> j" "j < length h" for i j
      using sorted_nth_mono [OF "1.prems"(1), of i j] that by simp
    show ?thesis
    proof (cases "fst (h ! nat m) \<le> target")
      case le: True
      have "\<forall>i < nat (m + 1). fst (h ! i) \<le> target"
      proof (intro allI impI)
        fix i assume "i < nat (m + 1)"
        then have "i \<le> nat m" using len(2) by simp
        then show "fst (h ! i) \<le> target" using srt [OF \<open>i \<le> nat m\<close> len(1)] le by simp
      qed
      then show ?thesis
        using "1.IH"(1) [OF True m_def] le "1.prems" m True m_def
        by (subst search_last.simps) (simp add: Let_def)
    next
      case less: False
      have "\<forall>i < length h. m - 1 < int i \<longrightarrow> target < fst (h ! i)"
        using srt [of "nat m"] less by (force simp: nat_le_iff)
      then show ?thesis
        using "1.IH"(2) [OF True m_def] less "1.prems" m True m_def
        by (subst search_last.simps) (simp add: Let_def)
    qed
  qed
qed

text \<open>The linear search: the last sample old enough, or else the first.\<close>

definition sample_before :: "price_history \<Rightarrow> time_point \<Rightarrow> double" where
  "sample_before h target =
     (let old = filter (\<lambda>e. fst e \<le> target) h in if old = [] then snd (hd h) else snd (last old))"

definition move_over :: "price_history \<Rightarrow> time_point \<Rightarrow> double" where
  "move_over h now =
     (let cur = snd (last h); prev = sample_before h (now - seconds 5) in
      if h = [] \<or> cur = 0 \<or> prev = 0 then 0 else (cur - prev) / prev * 100)"

lemma sorted_filter_takeWhile:
  "sorted (map fst h) \<Longrightarrow> filter (\<lambda>e. fst e \<le> (t :: int)) h = takeWhile (\<lambda>e. fst e \<le> t) h"
proof (induction h)
  case (Cons e h)
  have "filter (\<lambda>e. fst e \<le> t) h = []" if "\<not> fst e \<le> t" using that Cons.prems by (force simp: filter_empty_conv)
  then show ?case using Cons by simp
qed simp

lemma get_move_linear:
  assumes "sorted (map fst h)" shows "get_move h now = move_over h now"
proof (cases "h = []")
  case False
  let ?t = "now - seconds 5" and ?w = "takeWhile (\<lambda>e. fst e \<le> now - seconds 5) h"
  have search: "search_last h ?t 0 (int (length h) - 1) (- 1) = int (length ?w) - 1"
    using assms False by (intro search_last_inv) auto
  have nat: "nat (int (length ?w) - 1) = length ?w - 1" by simp
  have "(if int (length ?w) - 1 \<noteq> - 1 then snd (h ! nat (int (length ?w) - 1)) else snd (h ! 0)) = sample_before h ?t"
    using False takeWhile_nth [of "length ?w - 1" "\<lambda>e. fst e \<le> ?t" h] unfolding nat
    by (auto simp: sample_before_def sorted_filter_takeWhile [OF assms] Let_def hd_conv_nth last_conv_nth)
  then show ?thesis
    using False unfolding get_move_def move_over_def search Let_def
    by (cases "snd (last h) = 0"; cases "sample_before h (now - seconds 5) = 0"; simp only: if_True if_False simp_thms)
qed (simp add: get_move_def move_over_def)

section \<open>Runs\<close>

datatype leader_event = OurFrame nat tracker feature_frame | LeaderFrame feature_frame

fun leader_step :: "leader_event \<Rightarrow> leader_signal \<Rightarrow> signal list \<times> leader_signal" where
  "leader_step (OurFrame tr tk f) g = leader_signal_on_frame tr tk f g"
| "leader_step (LeaderFrame f) g = ([], leader_signal_on_leader_frame f g)"

fun leader_run :: "leader_event list \<Rightarrow> leader_signal \<Rightarrow> signal list \<times> leader_signal" where
  "leader_run [] g = ([], g)"
| "leader_run (e # es) g =
     (case leader_step e g of (out, g1) \<Rightarrow> (case leader_run es g1 of (out2, g2) \<Rightarrow> (out @ out2, g2)))"

lemma leader_run_snoc:
  "leader_run (es @ [e]) g =
     (fst (leader_run es g) @ fst (leader_step e (snd (leader_run es g))), snd (leader_step e (snd (leader_run es g))))"
  by (induction es arbitrary: g) (simp_all split: prod.split)

text \<open>The prices of the two tickers among the events.\<close>

definition sample_of :: "feature_frame \<Rightarrow> time_point \<times> double" where
  "sample_of f = (ff_timestamp f, ff_mid f)"

fun our_samples :: "ticker \<Rightarrow> leader_event list \<Rightarrow> price_history" where
  "our_samples t [] = []"
| "our_samples t (OurFrame tr tk f # es) = (if ff_ticker f = t \<and> ff_valid f then [sample_of f] else []) @ our_samples t es"
| "our_samples t (LeaderFrame f # es) = our_samples t es"

fun leader_samples :: "ticker \<Rightarrow> leader_event list \<Rightarrow> price_history" where
  "leader_samples t [] = []"
| "leader_samples t (OurFrame tr tk f # es) = leader_samples t es"
| "leader_samples t (LeaderFrame f # es) = (if ff_ticker f = t \<and> ff_valid f then [sample_of f] else []) @ leader_samples t es"

lemma samples_append [simp]:
  "our_samples t (es @ fs) = our_samples t es @ our_samples t fs"
  "leader_samples t (es @ fs) = leader_samples t es @ leader_samples t fs"
  by (induction es rule: our_samples.induct) simp_all

lemma leader_run_state:
  "snd (leader_run es (leader_signal_new t l c)) =
     \<lparr>lsg_ticker = t, lsg_leader_ticker = l, lsg_cfg = c,
      lsg_leader_history = last_n leader_history_size (leader_samples l es),
      lsg_our_history = last_n leader_history_size (our_samples t es)\<rparr>"
proof (induction es rule: rev_induct)
  case Nil
  then show ?case by (simp add: leader_signal_new_def last_n_def)
next
  case (snoc e es)
  have N: "0 < leader_history_size" by (simp add: leader_history_size_def)
  show ?case
    using snoc by (cases e) (simp_all add: push_bounded_last_n [OF N] leader_run_snoc leader_signal_on_frame_def leader_signal_on_leader_frame_def sample_of_def Let_def)
qed

lemma sorted_last_n: "sorted (map fst h) \<Longrightarrow> sorted (map fst (last_n N h))"
  by (simp add: last_n_def drop_map [symmetric] sorted_wrt_drop)

text \<open>C37. With the frames of each ticker in order of time, a frame of the ticker publishes a signal
  exactly when both histories are long enough, the correlation and the move of the leader are large
  enough and the lag behind the expected move is: the moves are the relative changes of the last
  sample over the last one at least five seconds old, or the oldest kept, as a linear search of the
  samples seen finds it.\<close>

theorem leader_moves_are_true:
  assumes srt: "sorted (map fst (our_samples t (es @ [OurFrame tr tk f])))" "sorted (map fst (leader_samples l es))"
    and f: "ff_ticker f = t" "ff_valid f"
  shows "let ours = last_n leader_history_size (our_samples t (es @ [OurFrame tr tk f]));
      leaders = last_n leader_history_size (leader_samples l es); now = ff_timestamp f;
      corr = correlation_value (tk_corr tk); lm = move_over leaders now; om = move_over ours now
    in fst (leader_step (OurFrame tr tk f) (snd (leader_run es (leader_signal_new t l c)))) =
      (if 50 \<le> length leaders \<and> 50 \<le> length ours \<and> lsc_min_correlation c \<le> \<bar>corr\<bar> \<and>
          lsc_move_min_pct c \<le> \<bar>lm\<bar> \<and> lsc_lag_min_pct c \<le> \<bar>lm * corr - om\<bar>
       then [lag_signal tr t now (ff_mid f) tk lm om] else [])"
proof -
  have N: "0 < leader_history_size" by (simp add: leader_history_size_def)
  have push: "push_bounded leader_history_size (ff_timestamp f, ff_mid f) (last_n leader_history_size (our_samples t es)) =
      last_n leader_history_size (our_samples t (es @ [OurFrame tr tk f]))"
    using f by (simp add: sample_of_def push_bounded_last_n [OF N])
  have last: "snd (last (last_n leader_history_size (our_samples t (es @ [OurFrame tr tk f])))) = ff_mid f"
    unfolding push [symmetric] by simp
  note lin = get_move_linear [OF sorted_last_n [OF srt(1)]] get_move_linear [OF sorted_last_n [OF srt(2)]]
  show ?thesis
    using f by (simp add: Let_def leader_signal_on_frame_def leader_run_state push check_signal_def last lin not_less not_le
        del: our_samples.simps samples_append)
qed

definition frame_at :: "ticker \<Rightarrow> time_point \<Rightarrow> double \<Rightarrow> feature_frame" where
  "frame_at t ts price = feature_frame_default\<lparr>ff_ticker := t, ff_timestamp := ts, ff_mid := price, ff_valid := True\<rparr>"

definition tight_tracker :: tracker where
  "tight_tracker = (tracker_new tracker_config_default)
     \<lparr>tk_corr := \<lparr>co_n = 2, co_x = \<lparr>wf_n = 2, wf_mean = 0, wf_m2 = 1\<rparr>, co_y = \<lparr>wf_n = 2, wf_mean = 0, wf_m2 = 1\<rparr>, co_xy = 1\<rparr>\<rparr>"

definition lagging_run :: "leader_event list" where
  "lagging_run = replicate 50 (LeaderFrame (frame_at ''BTC'' 0 100)) @ [LeaderFrame (frame_at ''BTC'' (seconds 10) 101)] @
     replicate 50 (OurFrame 1 tight_tracker (frame_at ''X'' 0 50))"

theorem leader_moves_are_true_witness:
  "map (\<lambda>s. sp_lag_pct (sg_payload s)) (fst (leader_step (OurFrame 1 tight_tracker (frame_at ''X'' (seconds 10) 50))
     (snd (leader_run lagging_run (leader_signal_new ''X'' ''BTC'' leader_signal_config_default))))) = [1]"
proof -
  have f: "ff_ticker (frame_at ''X'' (seconds 10) 50) = ''X''" "ff_valid (frame_at ''X'' (seconds 10) 50)"
    by (simp_all add: frame_at_def)
  have rep: "our_samples ''X'' (replicate n (OurFrame tr tight_tracker (frame_at ''X'' 0 50))) = replicate n (0, 50)"
    "our_samples ''X'' (replicate n (LeaderFrame (frame_at ''BTC'' 0 100))) = []"
    "leader_samples ''BTC'' (replicate n (OurFrame tr tight_tracker (frame_at ''X'' 0 50))) = []"
    "leader_samples ''BTC'' (replicate n (LeaderFrame (frame_at ''BTC'' 0 100))) = replicate n (0, 100)" for n tr
    by (induction n) (simp_all add: frame_at_def sample_of_def)
  have ours: "our_samples ''X'' (lagging_run @ [OurFrame 1 tight_tracker (frame_at ''X'' (seconds 10) 50)])
      = replicate 50 (0, 50) @ [(seconds 10, 50)]"
    and leaders: "leader_samples ''BTC'' lagging_run = replicate 50 (0, 100) @ [(seconds 10, 101)]"
    by (simp_all add: lagging_run_def rep) (simp_all add: frame_at_def sample_of_def)
  have srt: "sorted (map fst (our_samples ''X'' (lagging_run @ [OurFrame 1 tight_tracker (frame_at ''X'' (seconds 10) 50)])))"
    "sorted (map fst (leader_samples ''BTC'' lagging_run))"
    unfolding ours leaders by (simp_all add: sorted_append seconds_def)
  have short: "last_n leader_history_size (replicate 50 x @ [y]) = replicate 50 x @ [y]" for x y :: "time_point \<times> double"
    by (simp add: last_n_def leader_history_size_def)
  have move: "move_over (replicate 50 (0, p) @ [(seconds 10, q)]) (seconds 10) = (if q = 0 \<or> p = 0 then 0 else (q - p) / p * 100)" for p q
    by (simp add: move_over_def sample_before_def seconds_def Let_def)
  have corr: "correlation_value (tk_corr tight_tracker) = 1" by code_simp
  show ?thesis
    unfolding leader_moves_are_true [OF srt f, of leader_signal_config_default, unfolded Let_def] ours leaders short
    by (simp add: move corr frame_at_def lag_signal_def leader_signal_config_default_def Let_def)
qed

end
