(* ===== verification/Density.thy ===== *)
theory Density
  imports Signals OrderBook Numeric
begin

text \<open>
  \<open>signals/DensityDetector.{hpp,cpp}\<close>: large resting orders, from their first sight over the time
  they must persist to their removal, their eating by trades, and stacks of several of them. The
  book and the universe are arguments of the calls, which return the signals they publish.
\<close>

section \<open>The detector\<close>

record density_config =
  dc_min_size_vs_avg :: double
  dc_min_size_usd :: double
  dc_min_distance_bps :: double
  dc_max_distance_bps :: double
  dc_sticky_duration :: duration
  dc_fake_threshold :: duration
  dc_eating_window :: duration
  dc_eating_ratio_threshold :: double
  dc_eating_min_prints :: int
  dc_dema_period :: int
  dc_stack_min_levels :: int
  dc_stack_max_width_bps :: double
  dc_stack_min_size_usd :: double

definition density_config_default :: density_config where
  "density_config_default =
     \<lparr>dc_min_size_vs_avg = 10, dc_min_size_usd = 50000, dc_min_distance_bps = 5, dc_max_distance_bps = 150,
      dc_sticky_duration = milliseconds 2000, dc_fake_threshold = milliseconds 300,
      dc_eating_window = milliseconds 3000, dc_eating_ratio_threshold = 1 / 2, dc_eating_min_prints = 5,
      dc_dema_period = 100, dc_stack_min_levels = 2, dc_stack_max_width_bps = 20, dc_stack_min_size_usd = 100000\<rparr>"

record level_meta =
  lm_side :: side
  lm_initial_size :: double
  lm_first_seen :: time_point
  lm_emitted :: bool
  lm_eaten_volume :: double
  lm_print_count :: int
  lm_last_hit :: time_point
  lm_eating_emitted :: bool

record stack_signature =
  ss_side :: side
  ss_first_tick :: int
  ss_last_tick :: int
  ss_total_size_usd :: double
  ss_valid :: bool

definition signature_matches :: "side \<Rightarrow> int \<Rightarrow> int \<Rightarrow> double \<Rightarrow> stack_signature \<Rightarrow> bool" where
  "signature_matches s ft lt tsu g \<longleftrightarrow>
     ss_valid g \<and> ss_side g = s \<and> ss_first_tick g = ft \<and> ss_last_tick g = lt \<and> \<bar>ss_total_size_usd g - tsu\<bar> < 1"

record density =
  dd_ticker :: ticker
  dd_cfg :: density_config
  dd_avg :: dema
  dd_tracked :: "(price_tick, level_meta) omap"
  dd_last_stack :: stack_signature

definition density_new :: "ticker \<Rightarrow> density_config \<Rightarrow> density" where
  "density_new t c =
     \<lparr>dd_ticker = t, dd_cfg = c, dd_avg = dema_from_period (dc_dema_period c), dd_tracked = [],
      dd_last_stack = \<lparr>ss_side = Buy, ss_first_tick = 0, ss_last_tick = 0, ss_total_size_usd = 0, ss_valid = False\<rparr>\<rparr>"

definition density_signal :: "signal_kind \<Rightarrow> nat \<Rightarrow> ticker \<Rightarrow> time_point \<Rightarrow> double \<Rightarrow> double \<Rightarrow> signal_payload \<Rightarrow> signal" where
  "density_signal k tr t now price conf payload =
     \<lparr>sg_kind = k, sg_timestamp = now, sg_ticker = t, sg_price = price, sg_confidence = conf,
      sg_payload = payload, sg_trigger_trace_id = tr\<rparr>"

definition resting_side :: "side \<Rightarrow> string" where
  "resting_side s = (if s = Buy then ''Bid'' else ''Ask'')"

section \<open>Trades\<close>

text \<open>The level a trade eats: at its tick, else one below, else one above, of the other side.\<close>

definition eaten_level :: "double \<Rightarrow> trade \<Rightarrow> density \<Rightarrow> (price_tick \<times> level_meta) option" where
  "eaten_level inc x d =
     (let hit = (\<lambda>k. case map_of (dd_tracked d) k of
                       Some m \<Rightarrow> if lm_side m \<noteq> tr_side x then Some (k, m) else None
                     | None \<Rightarrow> None);
          b = from_price (tr_price x) inc
      in case hit b of Some e \<Rightarrow> Some e
         | None \<Rightarrow> (case hit (b - 1) of Some e \<Rightarrow> Some e | None \<Rightarrow> hit (b + 1)))"

definition register_hit :: "density_config \<Rightarrow> trade \<Rightarrow> level_meta \<Rightarrow> level_meta" where
  "register_hit c x m =
     (let m1 = (if lm_last_hit m \<noteq> 0 \<and> dc_eating_window c < tr_timestamp x - lm_last_hit m
                then m\<lparr>lm_eaten_volume := 0, lm_print_count := 0, lm_eating_emitted := False\<rparr> else m)
      in m1\<lparr>lm_eaten_volume := lm_eaten_volume m1 + tr_size x, lm_print_count := lm_print_count m1 + 1,
            lm_last_hit := tr_timestamp x\<rparr>)"

definition eating_signal :: "nat \<Rightarrow> ticker \<Rightarrow> trade \<Rightarrow> level_meta \<Rightarrow> signal" where
  "eating_signal tr t x m =
     (let remaining = lm_initial_size m - lm_eaten_volume m; ratio = lm_eaten_volume m / lm_initial_size m in
      density_signal DensityEating tr t (tr_timestamp x) (tr_price x) (min 1 ratio)
        (signal_payload_default\<lparr>sp_side := resting_side (lm_side m), sp_size := remaining,
          sp_original_size := lm_initial_size m, sp_remaining_size := remaining, sp_eaten_ratio := ratio,
          sp_remaining_ratio := (if 0 < lm_initial_size m then max 0 (remaining / lm_initial_size m) else 0),
          sp_prints := lm_print_count m\<rparr>))"

definition density_on_trade :: "nat \<Rightarrow> double \<Rightarrow> trade \<Rightarrow> density \<Rightarrow> signal list \<times> density" where
  "density_on_trade tr inc x d =
     (case eaten_level inc x d of
        None \<Rightarrow> ([], d)
      | Some (k, m) \<Rightarrow>
          let c = dd_cfg d; m1 = register_hit c x m in
          if \<not> lm_eating_emitted m1 \<and> dc_eating_ratio_threshold c \<le> lm_eaten_volume m1 / lm_initial_size m1 \<and>
             dc_eating_min_prints c \<le> lm_print_count m1
          then ([eating_signal tr (dd_ticker d) x m1],
                d\<lparr>dd_tracked := omap_put (<) k (m1\<lparr>lm_eating_emitted := True\<rparr>) (dd_tracked d)\<rparr>)
          else ([], d\<lparr>dd_tracked := omap_put (<) k m1 (dd_tracked d)\<rparr>))"

section \<open>Book updates\<close>

definition removal_signal :: "nat \<Rightarrow> ticker \<Rightarrow> time_point \<Rightarrow> density_config \<Rightarrow> double \<Rightarrow> level_meta \<Rightarrow> signal" where
  "removal_signal tr t now c price m =
     (let age = to_milliseconds (now - lm_first_seen m) in
      density_signal DensityRemoved tr t now price 1
        (signal_payload_default\<lparr>sp_age_ms := age, sp_fake := age < to_milliseconds (dc_fake_threshold c)\<rparr>))"

definition remove_level :: "nat \<Rightarrow> double \<Rightarrow> time_point \<Rightarrow> price_level \<Rightarrow> density \<Rightarrow> signal list \<times> density" where
  "remove_level tr inc now l d =
     (if 0 < pl_size l then ([], d)
      else
        let k = from_price (pl_price l) inc in
        case map_of (dd_tracked d) k of
          None \<Rightarrow> ([], d)
        | Some m \<Rightarrow> ([removal_signal tr (dd_ticker d) now (dd_cfg d) (pl_price l) m],
                     d\<lparr>dd_tracked := omap_erase k (dd_tracked d),
                       dd_last_stack := (dd_last_stack d)\<lparr>ss_valid := False\<rparr>\<rparr>))"

fun remove_levels :: "nat \<Rightarrow> double \<Rightarrow> time_point \<Rightarrow> price_level list \<Rightarrow> density \<Rightarrow> signal list \<times> density" where
  "remove_levels tr inc now [] d = ([], d)"
| "remove_levels tr inc now (l # ls) d =
     (case remove_level tr inc now l d of (out, d1) \<Rightarrow>
        (case remove_levels tr inc now ls d1 of (out2, d2) \<Rightarrow> (out @ out2, d2)))"

definition average_level :: "double \<Rightarrow> price_level \<Rightarrow> dema \<Rightarrow> dema" where
  "average_level min_size l a =
     (if 0 < pl_size l \<and> 0 < pl_price l \<and> min_size * (5 / 100) \<le> pl_size l * pl_price l
      then dema_update (pl_size l) a else a)"

definition is_density :: "density_config \<Rightarrow> double \<Rightarrow> double \<Rightarrow> double \<Rightarrow> price_level \<Rightarrow> bool" where
  "is_density c min_size avg m l \<longleftrightarrow>
     pl_size l \<noteq> 0 \<and> m \<noteq> 0 \<and> dc_min_size_vs_avg c * avg \<le> pl_size l \<and> min_size \<le> pl_size l * pl_price l \<and>
     dc_min_distance_bps c \<le> \<bar>pl_price l - m\<bar> / m * 10000 \<and> \<bar>pl_price l - m\<bar> / m * 10000 \<le> dc_max_distance_bps c"

text \<open>A level seen first, grown again, or cut back.\<close>

definition track_meta :: "time_point \<Rightarrow> price_level \<Rightarrow> level_meta option \<Rightarrow> level_meta" where
  "track_meta now l old =
     (case old of
        None \<Rightarrow> \<lparr>lm_side = pl_side l, lm_initial_size = pl_size l, lm_first_seen = now, lm_emitted = False,
                 lm_eaten_volume = 0, lm_print_count = 0, lm_last_hit = 0, lm_eating_emitted = False\<rparr>
      | Some m \<Rightarrow>
          if lm_initial_size m \<le> pl_size l
          then m\<lparr>lm_initial_size := pl_size l, lm_first_seen := now, lm_emitted := False, lm_eaten_volume := 0,
                 lm_print_count := 0, lm_eating_emitted := False\<rparr>
          else m\<lparr>lm_initial_size := pl_size l, lm_eaten_volume := 0, lm_print_count := 0\<rparr>)"

definition track_level :: "double \<Rightarrow> double \<Rightarrow> double \<Rightarrow> time_point \<Rightarrow> double \<Rightarrow> price_level \<Rightarrow> density \<Rightarrow> density" where
  "track_level min_size avg m now inc l d =
     (if is_density (dd_cfg d) min_size avg m l
      then let k = from_price (pl_price l) inc
           in d\<lparr>dd_tracked := omap_put (<) k (track_meta now l (map_of (dd_tracked d) k)) (dd_tracked d)\<rparr>
      else d)"

definition density_on_book_update ::
    "universe \<Rightarrow> nat \<Rightarrow> order_book \<Rightarrow> order_book_update \<Rightarrow> density \<Rightarrow> signal list \<times> density" where
  "density_on_book_update u tr ob upd d =
     (if upd_ticker upd \<noteq> dd_ticker d then ([], d)
      else
        case remove_levels tr (ob_price_increment ob) (upd_ts upd) (upd_changes upd) d of
          (out, d1) \<Rightarrow>
            (case mid ob of
               None \<Rightarrow> (out, d1)
             | Some m \<Rightarrow>
                 let min_size = density_min_size_usd u (dd_ticker d) (dc_min_size_usd (dd_cfg d));
                     avg = fold (average_level min_size) (upd_changes upd) (dd_avg d1)
                 in (out, fold (track_level min_size (dema_value avg) m (upd_ts upd) (ob_price_increment ob))
                            (upd_changes upd) (d1\<lparr>dd_avg := avg\<rparr>))))"

section \<open>Frames\<close>

definition detected_signal :: "nat \<Rightarrow> ticker \<Rightarrow> time_point \<Rightarrow> double \<Rightarrow> price_tick \<Rightarrow> level_meta \<Rightarrow> signal" where
  "detected_signal tr t now inc k m =
     density_signal DensityDetected tr t now (to_price k inc) 1
       (signal_payload_default\<lparr>sp_side := resting_side (lm_side m), sp_size := lm_initial_size m,
         sp_age_ms := to_milliseconds (now - lm_first_seen m)\<rparr>)"

text \<open>A level that drifted out of range is dropped; one old enough is announced once.\<close>

definition out_of_range :: "density_config \<Rightarrow> double \<Rightarrow> double option \<Rightarrow> price_tick \<Rightarrow> bool" where
  "out_of_range c inc m k \<longleftrightarrow>
     (case m of None \<Rightarrow> False
      | Some p \<Rightarrow> 0 < p \<and> dc_max_distance_bps c < \<bar>to_price k inc - p\<bar> / p * 10000)"

fun check_sticky ::
    "density_config \<Rightarrow> nat \<Rightarrow> ticker \<Rightarrow> time_point \<Rightarrow> double \<Rightarrow> double option \<Rightarrow> (price_tick, level_meta) omap \<Rightarrow>
      signal list \<times> (price_tick, level_meta) omap" where
  "check_sticky c tr t now inc m [] = ([], [])"
| "check_sticky c tr t now inc m ((k, lm) # es) =
     (case check_sticky c tr t now inc m es of (out, rest) \<Rightarrow>
        if out_of_range c inc m k then (out, rest)
        else if \<not> lm_emitted lm \<and> to_milliseconds (dc_sticky_duration c) \<le> to_milliseconds (now - lm_first_seen lm)
        then (detected_signal tr t now inc k lm # out, (k, lm\<lparr>lm_emitted := True\<rparr>) # rest)
        else (out, (k, lm) # rest))"

text \<open>A tick as the \<open>int\<close> it is cast to.\<close>

definition to_int32 :: "int \<Rightarrow> int" where
  "to_int32 x = (x + 2147483648) mod 4294967296 - 2147483648"

record cluster_entry =
  cl_tick :: int
  cl_price :: double
  cl_size :: double

definition cluster_entry_of :: "double \<Rightarrow> price_tick \<times> level_meta \<Rightarrow> cluster_entry" where
  "cluster_entry_of inc e =
     \<lparr>cl_tick = to_int32 (fst e), cl_price = to_price (fst e) inc, cl_size = lm_initial_size (snd e)\<rparr>"

text \<open>The runs of levels of one side within the width, from the lowest level on.\<close>

fun clusters ::
    "density_config \<Rightarrow> double \<Rightarrow> double \<Rightarrow> side \<Rightarrow> cluster_entry list \<Rightarrow> (price_tick \<times> level_meta) list \<Rightarrow>
      (side \<times> cluster_entry list) list" where
  "clusters c m inc sd cur [] = [(sd, cur)]"
| "clusters c m inc sd cur (e # es) =
     (let x = cluster_entry_of inc e in
      if lm_side (snd e) = sd \<and> \<bar>cl_price x - cl_price (hd cur)\<bar> / m * 10000 \<le> dc_stack_max_width_bps c
      then clusters c m inc sd (cur @ [x]) es
      else (sd, cur) # clusters c m inc (lm_side (snd e)) [x] es)"

definition stack_clusters ::
    "density_config \<Rightarrow> double \<Rightarrow> double \<Rightarrow> (price_tick, level_meta) omap \<Rightarrow> (side \<times> cluster_entry list) list" where
  "stack_clusters c m inc tracked =
     (case filter (\<lambda>e. lm_emitted (snd e)) tracked of
        [] \<Rightarrow> []
      | e # es \<Rightarrow> clusters c m inc (lm_side (snd e)) [cluster_entry_of inc e] es)"

definition stack_signal :: "nat \<Rightarrow> ticker \<Rightarrow> time_point \<Rightarrow> double \<Rightarrow> side \<times> cluster_entry list \<Rightarrow> signal" where
  "stack_signal tr t now m = (\<lambda>(sd, cl).
     let near = (if sd = Sell then hd cl else last cl); far = (if sd = Sell then last cl else hd cl);
         usd = foldl (+) 0 (map (\<lambda>e. cl_size e * cl_price e) cl)
     in density_signal DensityStack tr t now (cl_price near) 1
          (signal_payload_default\<lparr>sp_side := (if sd = Sell then ''Ask'' else ''Bid''),
            sp_size := foldl (+) 0 (map cl_size cl), sp_size_usd := usd,
            sp_first_price := cl_price near, sp_last_price := cl_price far,
            sp_width_bps := \<bar>cl_price (last cl) - cl_price (hd cl)\<bar> / m * 10000,
            sp_total_size_usd := usd, sp_stop_anchor_price := cl_price far\<rparr>))"

definition emit_stack ::
    "density_config \<Rightarrow> nat \<Rightarrow> ticker \<Rightarrow> time_point \<Rightarrow> double \<Rightarrow> side \<times> cluster_entry list \<Rightarrow> stack_signature \<Rightarrow>
      signal list \<times> stack_signature" where
  "emit_stack c tr t now m = (\<lambda>(sd, cl) g.
     let s = stack_signal tr t now m (sd, cl); usd = sp_total_size_usd (sg_payload s);
         ft = cl_tick (if sd = Sell then hd cl else last cl); lt = cl_tick (if sd = Sell then last cl else hd cl)
     in if int (length cl) < dc_stack_min_levels c \<or> dc_stack_max_width_bps c < sp_width_bps (sg_payload s) \<or>
           usd < dc_stack_min_size_usd c \<or> signature_matches sd ft lt usd g
        then ([], g)
        else ([s], \<lparr>ss_side = sd, ss_first_tick = ft, ss_last_tick = lt, ss_total_size_usd = usd, ss_valid = True\<rparr>))"

fun emit_stacks ::
    "density_config \<Rightarrow> nat \<Rightarrow> ticker \<Rightarrow> time_point \<Rightarrow> double \<Rightarrow> (side \<times> cluster_entry list) list \<Rightarrow> stack_signature \<Rightarrow>
      signal list \<times> stack_signature" where
  "emit_stacks c tr t now m [] g = ([], g)"
| "emit_stacks c tr t now m (cl # cls) g =
     (case emit_stack c tr t now m cl g of (out, g1) \<Rightarrow>
        (case emit_stacks c tr t now m cls g1 of (out2, g2) \<Rightarrow> (out @ out2, g2)))"

definition check_sticky_levels :: "nat \<Rightarrow> order_book \<Rightarrow> time_point \<Rightarrow> density \<Rightarrow> signal list \<times> density" where
  "check_sticky_levels tr ob now d =
     (if dd_tracked d = [] then ([], d)
      else
        let inc = ob_price_increment ob; m = mid ob; c = dd_cfg d in
        case check_sticky c tr (dd_ticker d) now inc m (dd_tracked d) of
          (out, tracked) \<Rightarrow>
            (case m of
               Some p \<Rightarrow>
                 if 0 < p
                 then (case emit_stacks c tr (dd_ticker d) now p (stack_clusters c p inc tracked) (dd_last_stack d) of
                         (out2, g) \<Rightarrow> (out @ out2, d\<lparr>dd_tracked := tracked, dd_last_stack := g\<rparr>))
                 else (out, d\<lparr>dd_tracked := tracked\<rparr>)
             | None \<Rightarrow> (out, d\<lparr>dd_tracked := tracked\<rparr>)))"

definition density_on_frame :: "nat \<Rightarrow> order_book \<Rightarrow> feature_frame \<Rightarrow> density \<Rightarrow> signal list \<times> density" where
  "density_on_frame tr ob f d =
     (if ff_ticker f \<noteq> dd_ticker d \<or> \<not> ff_valid f then ([], d) else check_sticky_levels tr ob (ff_timestamp f) d)"

section \<open>Scenarios\<close>

text \<open>A book around 100 with an increment of one hundredth.\<close>

definition book_100 :: order_book where
  "book_100 =
     \<lparr>ob_ticker = ''X'', ob_price_increment = 1 / 100, ob_size_increment = 1, ob_inv_price_increment = 100,
      ob_inv_size_increment = 1, ob_bids = [(9999, 1)], ob_asks = [(10001, 1)], ob_best_bid_tick = Some 9999,
      ob_best_ask_tick = Some 10001, ob_update_count = 0, ob_top_dirty = False, ob_synced = True\<rparr>"

definition level_update :: "time_point \<Rightarrow> side \<Rightarrow> double \<Rightarrow> double \<Rightarrow> order_book_update" where
  "level_update ts sd price sz =
     \<lparr>upd_ticker = ''X'', upd_changes = [\<lparr>pl_price = price, pl_size = sz, pl_side = sd\<rparr>], upd_ts = ts\<rparr>"

definition valid_frame :: "time_point \<Rightarrow> feature_frame" where
  "valid_frame ts = feature_frame_default\<lparr>ff_ticker := ''X'', ff_timestamp := ts, ff_valid := True\<rparr>"

datatype density_event =
    DenTrade nat double trade
  | DenUpdate universe nat order_book order_book_update
  | DenFrame nat order_book feature_frame

fun density_step :: "density_event \<Rightarrow> density \<Rightarrow> signal list \<times> density" where
  "density_step (DenTrade tr inc x) d = density_on_trade tr inc x d"
| "density_step (DenUpdate u tr ob upd) d = density_on_book_update u tr ob upd d"
| "density_step (DenFrame tr ob f) d = density_on_frame tr ob f d"

fun density_run :: "density_event list \<Rightarrow> density \<Rightarrow> signal list \<times> density" where
  "density_run [] d = ([], d)"
| "density_run (e # es) d =
     (case density_step e d of (out, d1) \<Rightarrow> (case density_run es d1 of (out2, d2) \<Rightarrow> (out @ out2, d2)))"

definition loose_config :: density_config where
  "loose_config = density_config_default\<lparr>dc_min_size_vs_avg := 1 / 10\<rparr>"

text \<open>
  A level cut from 1000 to 1, far below every threshold, keeps its entry and is announced two
  seconds later with its old size.
\<close>

lemma shrunk_level_is_announced:
  "map (\<lambda>s. (sg_kind s, sp_size (sg_payload s)))
     (fst (density_run
       [DenUpdate (universe_new universe_config_default) 1 book_100 (level_update (seconds 1) Sell 101 1000),
        DenUpdate (universe_new universe_config_default) 1 book_100 (level_update (seconds 2) Sell 101 1),
        DenFrame 1 book_100 (valid_frame (seconds 4))] (density_new ''X'' loose_config)))
   = [(DensityDetected, 1000)]"
  by code_simp

text \<open>
  Buys eat two thirds of a level in six prints, and nothing is published: the book update that
  reports what the first three took resets the count.
\<close>

lemma eating_is_reset_by_its_own_update:
  "fst (density_run
     ([DenUpdate (universe_new universe_config_default) 1 book_100 (level_update (seconds 1) Sell 101 3000)] @
      replicate 3 (DenTrade 1 (1 / 100) \<lparr>tr_price = 101, tr_size = 333, tr_side = Buy, tr_timestamp = seconds 2\<rparr>) @
      [DenUpdate (universe_new universe_config_default) 1 book_100 (level_update (seconds 2) Sell 101 2001)] @
      replicate 3 (DenTrade 1 (1 / 100) \<lparr>tr_price = 101, tr_size = 333, tr_side = Buy, tr_timestamp = seconds 2\<rparr>))
     (density_new ''X'' loose_config)) = []"
  by code_simp

text \<open>Only the last stack is remembered: with one on each side both are published on every frame.\<close>

definition known_level :: "side \<Rightarrow> level_meta" where
  "known_level sd =
     \<lparr>lm_side = sd, lm_initial_size = 1000, lm_first_seen = 0, lm_emitted = True, lm_eaten_volume = 0,
      lm_print_count = 0, lm_last_hit = 0, lm_eating_emitted = False\<rparr>"

lemma two_stacks_repeat_every_frame:
  "map (\<lambda>s. (sg_kind s, sp_stop_anchor_price (sg_payload s)))
     (fst (density_run (map (\<lambda>n. DenFrame 1 book_100 (valid_frame (seconds n))) [4, 5])
       ((density_new ''X'' density_config_default)\<lparr>dd_tracked :=
          [(9990, known_level Buy), (9991, known_level Buy), (10009, known_level Sell), (10010, known_level Sell)]\<rparr>)))
   = [(DensityStack, 9990 / 100), (DensityStack, 10010 / 100), (DensityStack, 9990 / 100), (DensityStack, 10010 / 100)]"
  by code_simp

section \<open>What is announced has persisted\<close>

fun event_increment :: "double \<Rightarrow> density_event \<Rightarrow> bool" where
  "event_increment i (DenTrade tr inc x) \<longleftrightarrow> inc = i"
| "event_increment i (DenUpdate u tr ob upd) \<longleftrightarrow> ob_price_increment ob = i"
| "event_increment i (DenFrame tr ob f) \<longleftrightarrow> ob_price_increment ob = i"

text \<open>An update of the ticker that puts size on a level at a time, and one that empties it.\<close>

fun places :: "ticker \<Rightarrow> double \<Rightarrow> price_tick \<Rightarrow> time_point \<Rightarrow> density_event \<Rightarrow> bool" where
  "places t inc k ts (DenUpdate u tr ob upd) \<longleftrightarrow>
     upd_ticker upd = t \<and> upd_ts upd = ts \<and>
     list_ex (\<lambda>l. pl_size l \<noteq> 0 \<and> from_price (pl_price l) inc = k) (upd_changes upd)"
| "places t inc k ts _ \<longleftrightarrow> False"

fun empties :: "ticker \<Rightarrow> double \<Rightarrow> price_tick \<Rightarrow> density_event \<Rightarrow> bool" where
  "empties t inc k (DenUpdate u tr ob upd) \<longleftrightarrow>
     upd_ticker upd = t \<and> list_ex (\<lambda>l. pl_size l \<le> 0 \<and> from_price (pl_price l) inc = k) (upd_changes upd)"
| "empties t inc k _ \<longleftrightarrow> False"

definition persisted :: "ticker \<Rightarrow> double \<Rightarrow> density_event list \<Rightarrow> price_tick \<Rightarrow> time_point \<Rightarrow> bool" where
  "persisted t inc es k ts \<longleftrightarrow>
     (\<exists>pre e post. es = pre @ e # post \<and> places t inc k ts e \<and> list_all (\<lambda>f. \<not> empties t inc k f) post)"

lemma persisted_snoc:
  assumes "persisted t inc es k ts" "\<not> empties t inc k e" shows "persisted t inc (es @ [e]) k ts"
proof -
  from assms(1) obtain pre p post where "es = pre @ p # post" "places t inc k ts p" "list_all (\<lambda>f. \<not> empties t inc k f) post"
    unfolding persisted_def by blast
  then have "es @ [e] = pre @ p # (post @ [e])" "list_all (\<lambda>f. \<not> empties t inc k f) (post @ [e])"
    using assms(2) by simp_all
  then show ?thesis using \<open>places t inc k ts p\<close> unfolding persisted_def by blast
qed

lemma persisted_here: "places t inc k ts e \<Longrightarrow> persisted t inc (es @ [e]) k ts"
  unfolding persisted_def by (intro exI [of _ es] exI [of _ e] exI [of _ "[]"]) simp

definition density_inv :: "ticker \<Rightarrow> double \<Rightarrow> density_event list \<Rightarrow> density \<Rightarrow> bool" where
  "density_inv t inc es d \<longleftrightarrow>
     dd_ticker d = t \<and> (\<forall>e\<in>set (dd_tracked d). persisted t inc es (fst e) (lm_first_seen (snd e)))"

lemma eaten_level_member: "eaten_level inc x d = Some (k, m) \<Longrightarrow> (k, m) \<in> set (dd_tracked d)"
  by (auto simp: eaten_level_def Let_def dest!: map_of_SomeD split: option.splits if_split_asm)

lemma register_hit_seen [simp]: "lm_first_seen (register_hit c x m) = lm_first_seen m"
  by (simp add: register_hit_def Let_def)

lemma seen_put:
  assumes "(k, m) \<in> set old" "lm_first_seen m' = lm_first_seen m" "e \<in> set (omap_put (<) k m' old)"
  shows "\<exists>o1\<in>set old. fst o1 = fst e \<and> lm_first_seen (snd o1) = lm_first_seen (snd e)"
  using set_omap_put [OF assms(3)] assms(1,2) by force

lemma density_on_trade_tracked:
  assumes "density_on_trade tr inc x d = (out, d')"
  shows "dd_ticker d' = dd_ticker d \<and> dd_cfg d' = dd_cfg d \<and>
    (\<forall>e\<in>set (dd_tracked d'). \<exists>o1\<in>set (dd_tracked d). fst o1 = fst e \<and> lm_first_seen (snd o1) = lm_first_seen (snd e)) \<and>
    (\<forall>s\<in>set out. sg_kind s = DensityEating)"
proof (cases "eaten_level inc x d")
  case None
  then show ?thesis using assms by (auto simp: density_on_trade_def)
next
  case (Some km)
  obtain k m where km: "km = (k, m)" by (cases km)
  note put = seen_put [OF eaten_level_member [of inc x d k m]]
  show ?thesis
    using assms Some put [of "register_hit (dd_cfg d) x m"]
      put [of "(register_hit (dd_cfg d) x m)\<lparr>lm_eating_emitted := True\<rparr>"]
    by (auto simp: km density_on_trade_def eating_signal_def density_signal_def Let_def split: if_split_asm)
qed

lemma remove_levels_tracked:
  assumes "remove_levels tr inc now ls d = (out, d')"
  shows "dd_ticker d' = dd_ticker d \<and> dd_cfg d' = dd_cfg d \<and> set (dd_tracked d') \<subseteq> set (dd_tracked d) \<and>
    (\<forall>e\<in>set (dd_tracked d'). \<not> list_ex (\<lambda>l. pl_size l \<le> 0 \<and> from_price (pl_price l) inc = fst e) ls) \<and>
    (\<forall>s\<in>set out. sg_kind s = DensityRemoved)"
  using assms
proof (induction ls arbitrary: d out)
  case (Cons l ls)
  obtain out1 d1 out2 where one: "remove_level tr inc now l d = (out1, d1)"
    and rest: "remove_levels tr inc now ls d1 = (out2, d')" "out = out1 @ out2"
    using Cons.prems by (auto split: prod.splits)
  have "dd_ticker d1 = dd_ticker d \<and> dd_cfg d1 = dd_cfg d \<and> set (dd_tracked d1) \<subseteq> set (dd_tracked d) \<and>
      (\<forall>e\<in>set (dd_tracked d1). \<not> (pl_size l \<le> 0 \<and> from_price (pl_price l) inc = fst e)) \<and>
      (\<forall>s\<in>set out1. sg_kind s = DensityRemoved)"
    using one
    by (auto simp: remove_level_def removal_signal_def density_signal_def Let_def map_of_eq_None_iff image_iff
        split: if_split_asm option.splits)
  then show ?case using Cons.IH [OF rest(1)] rest(2) by auto
qed simp

lemma track_levels_tracked:
  defines "F \<equiv> \<lambda>min_size avg m now inc ls d. fold (track_level min_size avg m now inc) ls d"
  shows "dd_ticker (F min_size avg m now inc ls d) = dd_ticker d \<and> dd_cfg (F min_size avg m now inc ls d) = dd_cfg d \<and>
    (\<forall>e\<in>set (dd_tracked (F min_size avg m now inc ls d)).
      (\<exists>o1\<in>set (dd_tracked d). fst o1 = fst e \<and> lm_first_seen (snd o1) = lm_first_seen (snd e)) \<or>
      lm_first_seen (snd e) = now \<and> list_ex (\<lambda>l. pl_size l \<noteq> 0 \<and> from_price (pl_price l) inc = fst e) ls)"
  unfolding F_def
proof (induction ls arbitrary: d)
  case (Cons l ls)
  let ?d = "track_level min_size avg m now inc l d"
  have "dd_ticker ?d = dd_ticker d \<and> dd_cfg ?d = dd_cfg d \<and>
    (\<forall>e\<in>set (dd_tracked ?d).
      (\<exists>o1\<in>set (dd_tracked d). fst o1 = fst e \<and> lm_first_seen (snd o1) = lm_first_seen (snd e)) \<or>
      lm_first_seen (snd e) = now \<and> pl_size l \<noteq> 0 \<and> from_price (pl_price l) inc = fst e)"
    by (fastforce simp: track_level_def track_meta_def is_density_def Let_def dest!: set_omap_put map_of_SomeD
        split: option.splits if_split_asm)
  then show ?case using Cons.IH [of ?d] by simp (metis (no_types, lifting))
qed fastforce

lemma check_sticky_tracked:
  assumes "check_sticky c tr t now inc m es = (out, rest)"
  shows "(\<forall>e\<in>set rest. \<exists>o1\<in>set es. fst o1 = fst e \<and> lm_first_seen (snd o1) = lm_first_seen (snd e)) \<and>
    (\<forall>s\<in>set out. \<exists>o1\<in>set es. s = detected_signal tr t now inc (fst o1) (snd o1) \<and>
       to_milliseconds (dc_sticky_duration c) \<le> to_milliseconds (now - lm_first_seen (snd o1)))"
  using assms
proof (induction es arbitrary: out rest)
  case (Cons e es)
  obtain k lm where e: "e = (k, lm)" by (cases e)
  obtain out1 rest1 where rec: "check_sticky c tr t now inc m es = (out1, rest1)" by fastforce
  show ?case using Cons.IH [OF rec] Cons.prems by (auto simp: e rec split: if_split_asm)
qed simp

lemma emit_stacks_kind: "\<forall>s\<in>set (fst (emit_stacks c tr t now m cls g)). sg_kind s = DensityStack"
proof (induction cls arbitrary: g)
  case (Cons cl cls)
  have "\<forall>s\<in>set (fst (emit_stack c tr t now m cl g)). sg_kind s = DensityStack"
    by (auto simp: emit_stack_def stack_signal_def density_signal_def Let_def split: prod.split if_split_asm)
  then show ?case using Cons [of "snd (emit_stack c tr t now m cl g)"] by (auto split: prod.split)
qed simp

lemma density_on_frame_tracked:
  assumes "density_on_frame tr ob f d = (out, d')"
  shows "dd_ticker d' = dd_ticker d \<and> dd_cfg d' = dd_cfg d \<and>
    (\<forall>e\<in>set (dd_tracked d'). \<exists>o1\<in>set (dd_tracked d). fst o1 = fst e \<and> lm_first_seen (snd o1) = lm_first_seen (snd e)) \<and>
    (\<forall>s\<in>set out. sg_kind s = DensityStack \<or>
       (\<exists>o1\<in>set (dd_tracked d). s = detected_signal tr (dd_ticker d) (ff_timestamp f) (ob_price_increment ob) (fst o1) (snd o1) \<and>
          to_milliseconds (dc_sticky_duration (dd_cfg d)) \<le> to_milliseconds (ff_timestamp f - lm_first_seen (snd o1))))"
proof -
  let ?inc = "ob_price_increment ob" and ?now = "ff_timestamp f"
  obtain out1 tracked where st: "check_sticky (dd_cfg d) tr (dd_ticker d) ?now ?inc (mid ob) (dd_tracked d) = (out1, tracked)"
    by fastforce
  obtain out2 g where em: "emit_stacks (dd_cfg d) tr (dd_ticker d) ?now (the (mid ob))
      (stack_clusters (dd_cfg d) (the (mid ob)) ?inc tracked) (dd_last_stack d) = (out2, g)" by fastforce
  have kind: "\<forall>s\<in>set out2. sg_kind s = DensityStack" using emit_stacks_kind em by (metis fst_conv)
  have "d' = d \<and> out = [] \<or> (\<exists>g. d' = d\<lparr>dd_tracked := tracked, dd_last_stack := g\<rparr>) \<and> out = out1 @ out2 \<or>
      d' = d\<lparr>dd_tracked := tracked\<rparr> \<and> out = out1"
    using assms st em
    by (auto simp: density_on_frame_def check_sticky_levels_def Let_def split: if_split_asm option.splits prod.splits)
  then show ?thesis using check_sticky_tracked [OF st] kind by (elim disjE exE conjE) auto
qed

lemma density_on_book_update_tracked:
  assumes "density_on_book_update u tr ob upd d = (out, d')"
  shows "dd_ticker d' = dd_ticker d \<and> dd_cfg d' = dd_cfg d \<and> (\<forall>s\<in>set out. sg_kind s = DensityRemoved) \<and>
    (\<forall>e\<in>set (dd_tracked d').
      (\<exists>o1\<in>set (dd_tracked d). fst o1 = fst e \<and> lm_first_seen (snd o1) = lm_first_seen (snd e)) \<and>
        \<not> empties (dd_ticker d) (ob_price_increment ob) (fst e) (DenUpdate u tr ob upd) \<or>
      places (dd_ticker d) (ob_price_increment ob) (fst e) (lm_first_seen (snd e)) (DenUpdate u tr ob upd))"
proof (cases "upd_ticker upd = dd_ticker d")
  case False
  then show ?thesis using assms by (auto simp: density_on_book_update_def)
next
  case True
  let ?inc = "ob_price_increment ob"
  obtain out1 d1 where rm: "remove_levels tr ?inc (upd_ts upd) (upd_changes upd) d = (out1, d1)" by fastforce
  note r = remove_levels_tracked [OF rm]
  have out: "out = out1" using assms True rm by (auto simp: density_on_book_update_def Let_def split: option.splits)
  show ?thesis
  proof (cases "mid ob")
    case None
    then have "d' = d1" using assms True rm by (simp add: density_on_book_update_def)
    then show ?thesis using r out True by auto
  next
    case (Some m)
    define ms where "ms = density_min_size_usd u (dd_ticker d) (dc_min_size_usd (dd_cfg d))"
    define avg where "avg = fold (average_level ms) (upd_changes upd) (dd_avg d1)"
    have d': "d' = fold (track_level ms (dema_value avg) m (upd_ts upd) ?inc) (upd_changes upd) (d1\<lparr>dd_avg := avg\<rparr>)"
      using assms True rm Some by (simp add: density_on_book_update_def Let_def ms_def avg_def)
    note tl = track_levels_tracked [of ms "dema_value avg" m "upd_ts upd" ?inc "upd_changes upd" "d1\<lparr>dd_avg := avg\<rparr>", folded d']
    have "(\<exists>o1\<in>set (dd_tracked d). fst o1 = fst e \<and> lm_first_seen (snd o1) = lm_first_seen (snd e)) \<and>
        \<not> empties (dd_ticker d) ?inc (fst e) (DenUpdate u tr ob upd) \<or>
      places (dd_ticker d) ?inc (fst e) (lm_first_seen (snd e)) (DenUpdate u tr ob upd)"
      if e: "e \<in> set (dd_tracked d')" for e
    proof -
      consider (old) o1 where "o1 \<in> set (dd_tracked d1)" "fst o1 = fst e" "lm_first_seen (snd o1) = lm_first_seen (snd e)"
        | (new) "lm_first_seen (snd e) = upd_ts upd"
            "list_ex (\<lambda>l. pl_size l \<noteq> 0 \<and> from_price (pl_price l) ?inc = fst e) (upd_changes upd)"
        using tl e by auto
      then show ?thesis
      proof cases
        case old
        then have "o1 \<in> set (dd_tracked d)" "\<not> empties (dd_ticker d) ?inc (fst o1) (DenUpdate u tr ob upd)"
          using r by auto
        then show ?thesis using old(2,3) by metis
      next
        case new
        then show ?thesis using True by simp
      qed
    qed
    then show ?thesis using tl r out by simp
  qed
qed

lemma density_step_inv:
  assumes inv: "density_inv t inc es d" and e: "event_increment inc e" and step: "density_step e d = (out, d')"
  shows "density_inv t inc (es @ [e]) d' \<and> dd_cfg d' = dd_cfg d"
proof -
  have keep: "\<And>x y. persisted t inc es x y \<Longrightarrow> \<not> empties t inc x e \<Longrightarrow> persisted t inc (es @ [e]) x y"
    using persisted_snoc by blast
  show ?thesis
  proof (cases e)
    case (DenTrade tr i x)
    then have ne: "\<And>k. \<not> empties t inc k e" by simp
    have tr: "density_on_trade tr i x d = (out, d')" using step DenTrade by simp
    show ?thesis
      using density_on_trade_tracked [OF tr] inv keep [OF _ ne] unfolding density_inv_def by metis
  next
    case (DenUpdate u tr ob upd)
    have up: "density_on_book_update u tr ob upd d = (out, d')" and i: "ob_price_increment ob = inc" and t: "dd_ticker d = t"
      using step e inv DenUpdate by (simp_all add: density_inv_def)
    have "persisted t inc (es @ [e]) (fst x) (lm_first_seen (snd x))" if "x \<in> set (dd_tracked d')" for x
      using density_on_book_update_tracked [OF up] that inv keep persisted_here [of t inc _ _ e es]
      unfolding i t DenUpdate [symmetric] density_inv_def by metis
    then show ?thesis using density_on_book_update_tracked [OF up] t by (simp add: density_inv_def)
  next
    case (DenFrame tr ob f)
    then have ne: "\<And>k. \<not> empties t inc k e" by simp
    have fr: "density_on_frame tr ob f d = (out, d')" using step DenFrame by simp
    show ?thesis
      using density_on_frame_tracked [OF fr] inv keep [OF _ ne] unfolding density_inv_def by metis
  qed
qed

lemma density_run_snoc:
  "density_run (es @ [e]) d =
     (fst (density_run es d) @ fst (density_step e (snd (density_run es d))), snd (density_step e (snd (density_run es d))))"
  by (induction es arbitrary: d) (simp_all split: prod.split)

lemma density_run_inv:
  assumes "list_all (event_increment inc) es"
  shows "density_inv t inc es (snd (density_run es (density_new t c))) \<and> dd_cfg (snd (density_run es (density_new t c))) = c"
  using assms
proof (induction es rule: rev_induct)
  case Nil
  then show ?case by (simp add: density_inv_def density_new_def)
next
  case (snoc e es)
  obtain out d' where step: "density_step e (snd (density_run es (density_new t c))) = (out, d')" by fastforce
  show ?case using density_step_inv [OF _ _ step, of t inc es] snoc by (simp add: density_run_snoc step)
qed

text \<open>C18. Whatever the trades, book updates and frames before it, a density is announced only for a
  level on which an update put size at least the sticky duration ago, and which no update has
  emptied since; and only a frame announces one.\<close>

theorem detected_densities_persisted:
  assumes "list_all (event_increment inc) (es @ [e])"
  shows "list_all (\<lambda>s. sg_kind s = DensityDetected \<longrightarrow>
      (\<exists>k ts tr ob f. e = DenFrame tr ob f \<and> sg_timestamp s = ff_timestamp f \<and> sg_price s = to_price k inc \<and>
         persisted t inc es k ts \<and> to_milliseconds (dc_sticky_duration c) \<le> to_milliseconds (ff_timestamp f - ts)))
    (fst (density_step e (snd (density_run es (density_new t c)))))"
proof -
  let ?d = "snd (density_run es (density_new t c))"
  have inv: "density_inv t inc es ?d" "dd_cfg ?d = c" using density_run_inv [of inc es t c] assms by simp_all
  obtain out d' where step: "density_step e ?d = (out, d')" by fastforce
  have "\<exists>k ts tr ob f. e = DenFrame tr ob f \<and> sg_timestamp s = ff_timestamp f \<and> sg_price s = to_price k inc \<and>
         persisted t inc es k ts \<and> to_milliseconds (dc_sticky_duration c) \<le> to_milliseconds (ff_timestamp f - ts)"
    if s: "s \<in> set out" "sg_kind s = DensityDetected" for s
  proof (cases e)
    case (DenTrade tr i x)
    then show ?thesis using density_on_trade_tracked [of tr i x ?d out d'] step s by auto
  next
    case (DenUpdate u tr ob upd)
    then show ?thesis using density_on_book_update_tracked [of u tr ob upd ?d out d'] step s by auto
  next
    case (DenFrame tr ob f)
    then obtain o1 where o1: "o1 \<in> set (dd_tracked ?d)"
      "s = detected_signal tr (dd_ticker ?d) (ff_timestamp f) (ob_price_increment ob) (fst o1) (snd o1)"
      "to_milliseconds (dc_sticky_duration (dd_cfg ?d)) \<le> to_milliseconds (ff_timestamp f - lm_first_seen (snd o1))"
      using density_on_frame_tracked [of tr ob f ?d out d'] step s by auto
    have "ob_price_increment ob = inc" using assms DenFrame by simp
    then show ?thesis
      using DenFrame o1 inv by (auto simp: density_inv_def detected_signal_def density_signal_def)
  qed
  then show ?thesis by (simp add: step list_all_iff)
qed

definition wall_update :: density_event where
  "wall_update = DenUpdate (universe_new universe_config_default) 1 book_100 (level_update (seconds 1) Sell 101 1000)"

theorem detected_densities_persisted_witness:
  "\<exists>k ts. to_price k (1 / 100) = 101 \<and> persisted ''X'' (1 / 100) [wall_update] k ts \<and> 2000 \<le> to_milliseconds (seconds 4 - ts)"
proof -
  let ?out = "fst (density_step (DenFrame 1 book_100 (valid_frame (seconds 4)))
      (snd (density_run [wall_update] (density_new ''X'' loose_config))))"
  have "map (\<lambda>s. (sg_kind s, sg_timestamp s, sg_price s)) ?out = [(DensityDetected, seconds 4, 101)]" by code_simp
  then obtain s where s: "s \<in> set ?out" "sg_kind s = DensityDetected" "sg_timestamp s = seconds 4" "sg_price s = 101" by auto
  have inc: "list_all (event_increment (1 / 100)) ([wall_update] @ [DenFrame 1 book_100 (valid_frame (seconds 4))])"
    by (simp add: wall_update_def book_100_def)
  have st: "to_milliseconds (dc_sticky_duration loose_config) = 2000" by code_simp
  have fr: "ff_timestamp (valid_frame (seconds 4)) = seconds 4" by (simp add: valid_frame_def)
  obtain k ts where "sg_price s = to_price k (1 / 100)" "persisted ''X'' (1 / 100) [wall_update] k ts"
    "2000 \<le> to_milliseconds (seconds 4 - ts)"
    using detected_densities_persisted [OF inc, of "''X''" loose_config, unfolded list_all_iff, rule_format, OF s(1,2)] st fr
    by auto
  then show ?thesis using s(4) by metis
qed

section \<open>Stacks\<close>

text \<open>The table stays in order of price.\<close>

lemma omap_ok_put_tick: "omap_ok (<) m \<Longrightarrow> omap_ok (<) (omap_put (<) (k :: price_tick) v m)"
  by (rule asc.omap_ok_put)

lemma density_on_trade_ok:
  assumes "omap_ok (<) (dd_tracked d)" shows "omap_ok (<) (dd_tracked (snd (density_on_trade tr inc x d)))"
  using omap_ok_put_tick [OF assms] assms
  by (auto simp: density_on_trade_def Let_def split: option.split prod.split)

lemma remove_levels_ok:
  "omap_ok (<) (dd_tracked d) \<Longrightarrow> omap_ok (<) (dd_tracked (snd (remove_levels tr inc now ls d)))"
proof (induction ls arbitrary: d)
  case (Cons l ls)
  have "omap_ok (<) (dd_tracked (snd (remove_level tr inc now l d)))"
    using Cons.prems omap_ok_erase by (auto simp: remove_level_def Let_def split: option.split)
  then show ?case using Cons.IH [of "snd (remove_level tr inc now l d)"] by (auto split: prod.split)
qed simp

lemma track_levels_ok:
  "omap_ok (<) (dd_tracked d) \<Longrightarrow> omap_ok (<) (dd_tracked (fold (track_level ms avg m now inc) ls d))"
  by (induction ls arbitrary: d) (simp_all add: track_level_def Let_def omap_ok_put_tick)

lemma check_sticky_keys:
  assumes "omap_ok (<) es" shows "omap_ok (<) (snd (check_sticky c tr t now inc m es))"
  using assms
proof (induction es)
  case (Cons e es)
  obtain k lm where e: "e = (k, lm)" by (cases e)
  have "x \<in> set (snd (check_sticky c tr t now inc m es)) \<Longrightarrow> \<exists>o1\<in>set es. fst o1 = fst x" for x
    using check_sticky_tracked [of c tr t now inc m es] by (metis prod.collapse)
  then show ?case using Cons by (fastforce simp: e omap_ok_Cons split: prod.split)
qed simp

lemma density_step_ok:
  assumes "omap_ok (<) (dd_tracked d)" shows "omap_ok (<) (dd_tracked (snd (density_step e d)))"
proof (cases e)
  case (DenTrade tr inc x)
  then show ?thesis using density_on_trade_ok [OF assms] by simp
next
  case (DenUpdate u tr ob upd)
  let ?d = "snd (remove_levels tr (ob_price_increment ob) (upd_ts upd) (upd_changes upd) d)"
  have "omap_ok (<) (dd_tracked ?d)" by (rule remove_levels_ok [OF assms])
  then show ?thesis
    using DenUpdate assms track_levels_ok
    by (auto simp: density_on_book_update_def Let_def split: option.split prod.split)
next
  case (DenFrame tr ob f)
  then show ?thesis
    using assms check_sticky_keys [OF assms]
    by (auto simp: density_on_frame_def check_sticky_levels_def Let_def split: option.split prod.split) (metis snd_conv)+
qed

lemma density_run_ok: "omap_ok (<) (dd_tracked (snd (density_run es (density_new t c))))"
  by (induction es rule: rev_induct) (simp_all add: density_new_def density_run_snoc density_step_ok)

text \<open>A cluster is a run of levels of one side, in order of price.\<close>

definition cluster_of :: "double \<Rightarrow> (price_tick \<times> level_meta) list \<Rightarrow> side \<times> cluster_entry list \<Rightarrow> bool" where
  "cluster_of inc es x \<longleftrightarrow>
     (\<exists>seg. snd x = map (cluster_entry_of inc) seg \<and> seg \<noteq> [] \<and> set seg \<subseteq> set es \<and>
        list_all (\<lambda>e. lm_side (snd e) = fst x) seg \<and> sorted_wrt (<) (map fst seg))"

lemma clusters_of:
  assumes "seg \<noteq> []" "list_all (\<lambda>e. lm_side (snd e) = sd) seg" "sorted_wrt (<) (map fst (seg @ es))"
    and "x \<in> set (clusters c m inc sd (map (cluster_entry_of inc) seg) es)"
  shows "cluster_of inc (seg @ es) x"
  using assms
proof (induction es arbitrary: sd seg)
  case Nil
  then show ?case by (auto simp: cluster_of_def)
next
  case (Cons e es)
  let ?grow = "lm_side (snd e) = sd \<and>
    \<bar>cl_price (cluster_entry_of inc e) - cl_price (hd (map (cluster_entry_of inc) seg))\<bar> / m * 10000 \<le> dc_stack_max_width_bps c"
  show ?case
  proof (cases ?grow)
    case True
    then show ?thesis using Cons.IH [of "seg @ [e]" sd] Cons.prems by (simp add: Let_def)
  next
    case False
    have "sorted_wrt (<) (map fst seg)" "sorted_wrt (<) (map fst ([e] @ es))"
      using Cons.prems(3) by (simp_all add: sorted_wrt_append)
    moreover have "cluster_of inc ([e] @ es) y \<Longrightarrow> cluster_of inc (seg @ e # es) y" for y
      by (auto simp: cluster_of_def)
    moreover have "x = (sd, map (cluster_entry_of inc) seg) \<or>
        x \<in> set (clusters c m inc (lm_side (snd e)) (map (cluster_entry_of inc) [e]) es)"
      using Cons.prems(4) False by (simp add: Let_def split: if_split_asm)
    ultimately show ?thesis
      using Cons.IH [of "[e]" "lm_side (snd e)"] Cons.prems(1,2)
      by (auto simp: cluster_of_def)
  qed
qed

lemma stack_clusters_of:
  assumes "omap_ok (<) tracked" "x \<in> set (stack_clusters c m inc tracked)"
  shows "cluster_of inc (filter (\<lambda>e. lm_emitted (snd e)) tracked) x"
proof -
  let ?es = "filter (\<lambda>e. lm_emitted (snd e)) tracked"
  have srt: "sorted_wrt (<) (map fst ?es)" using omap_ok_filter [OF assms(1)] by (simp add: omap_ok_def)
  show ?thesis
  proof (cases ?es)
    case Nil
    then show ?thesis using assms(2) by (simp add: stack_clusters_def)
  next
    case (Cons e es)
    then show ?thesis
      using assms(2) srt clusters_of [of "[e]" "lm_side (snd e)" es x c m inc] by (simp add: stack_clusters_def)
  qed
qed

lemma emit_stacks_source:
  assumes "s \<in> set (fst (emit_stacks c tr t now m cls g))"
  shows "\<exists>x\<in>set cls. s = stack_signal tr t now m x \<and> dc_stack_min_levels c \<le> int (length (snd x)) \<and>
    sp_width_bps (sg_payload s) \<le> dc_stack_max_width_bps c \<and> dc_stack_min_size_usd c \<le> sp_total_size_usd (sg_payload s)"
  using assms
proof (induction cls arbitrary: g)
  case (Cons x cls)
  have "s \<in> set (fst (emit_stack c tr t now m x g)) \<Longrightarrow>
      s = stack_signal tr t now m x \<and> dc_stack_min_levels c \<le> int (length (snd x)) \<and>
      sp_width_bps (sg_payload s) \<le> dc_stack_max_width_bps c \<and> dc_stack_min_size_usd c \<le> sp_total_size_usd (sg_payload s)"
    by (auto simp: emit_stack_def Let_def not_less split: prod.splits if_split_asm)
  then show ?case using Cons by (auto split: prod.splits) (metis fst_conv)+
qed simp

lemma frame_stack_source:
  assumes ok: "omap_ok (<) (dd_tracked d)" and step: "density_on_frame tr ob f d = (out, d')"
    and s: "s \<in> set out" "sg_kind s = DensityStack"
  obtains p x where "mid ob = Some p" "s = stack_signal tr (dd_ticker d) (ff_timestamp f) p x"
    "cluster_of (ob_price_increment ob) (filter (\<lambda>e. lm_emitted (snd e)) (dd_tracked d')) x"
    "dc_stack_min_levels (dd_cfg d) \<le> int (length (snd x))"
    "sp_width_bps (sg_payload s) \<le> dc_stack_max_width_bps (dd_cfg d)"
    "dc_stack_min_size_usd (dd_cfg d) \<le> sp_total_size_usd (sg_payload s)"
proof -
  let ?inc = "ob_price_increment ob" and ?now = "ff_timestamp f" and ?c = "dd_cfg d"
  obtain out1 tracked where st: "check_sticky ?c tr (dd_ticker d) ?now ?inc (mid ob) (dd_tracked d) = (out1, tracked)"
    by fastforce
  have no: "s \<notin> set out1"
    using check_sticky_tracked [OF st] s(2) by (auto simp: detected_signal_def density_signal_def)
  have trk: "omap_ok (<) tracked" using check_sticky_keys [OF ok, of ?c tr "dd_ticker d" ?now ?inc "mid ob"] st by simp
  have "\<exists>p g. mid ob = Some p \<and> d' = d\<lparr>dd_tracked := tracked, dd_last_stack := g\<rparr> \<and>
      s \<in> set (fst (emit_stacks ?c tr (dd_ticker d) ?now p (stack_clusters ?c p ?inc tracked) (dd_last_stack d)))"
    using step s(1) no st
    by (auto simp: density_on_frame_def check_sticky_levels_def Let_def split: if_split_asm option.splits prod.splits)
  then obtain p g where p: "mid ob = Some p" "dd_tracked d' = tracked"
    and em: "s \<in> set (fst (emit_stacks ?c tr (dd_ticker d) ?now p (stack_clusters ?c p ?inc tracked) (dd_last_stack d)))"
    by auto
  from emit_stacks_source [OF em] obtain x where "x \<in> set (stack_clusters ?c p ?inc tracked)"
    "s = stack_signal tr (dd_ticker d) ?now p x" "dc_stack_min_levels ?c \<le> int (length (snd x))"
    "sp_width_bps (sg_payload s) \<le> dc_stack_max_width_bps ?c" "dc_stack_min_size_usd ?c \<le> sp_total_size_usd (sg_payload s)"
    by auto
  then show thesis using that p stack_clusters_of [OF trk] by metis
qed

lemma foldl_sum: "foldl (+) (0 :: double) xs = sum_list xs"
proof -
  have "foldl (+) a xs = a + sum_list xs" for a :: double by (induction xs arbitrary: a) simp_all
  then show ?thesis by simp
qed

lemma density_step_cfg: "dd_cfg (snd (density_step e d)) = dd_cfg d"
proof (cases e)
  case (DenTrade tr inc x)
  then show ?thesis using density_on_trade_tracked [of tr inc x d] by (metis density_step.simps(1) prod.collapse)
next
  case (DenUpdate u tr ob upd)
  then show ?thesis using density_on_book_update_tracked [of u tr ob upd d] by (metis density_step.simps(2) prod.collapse)
next
  case (DenFrame tr ob f)
  then show ?thesis using density_on_frame_tracked [of tr ob f d] by (metis density_step.simps(3) prod.collapse)
qed

text \<open>The prices of a cluster in order of tick lie between the first and the last.\<close>

lemma cluster_between:
  assumes "sorted_wrt (<) (map fst seg)" "e \<in> set seg" "0 \<le> inc"
  shows "to_price (fst (hd seg)) inc \<le> to_price (fst e) inc" "to_price (fst e) inc \<le> to_price (fst (last seg)) inc"
proof -
  obtain i where i: "i < length seg" "seg ! i = e" using assms(2) by (auto simp: in_set_conv_nth)
  have nth: "fst (seg ! a) \<le> fst (seg ! b)" if "a \<le> b" "b < length seg" for a b
    using sorted_wrt_nth_less [OF assms(1), of a b] that by (cases "a = b") auto
  have ne: "seg \<noteq> []" using i by auto
  show "to_price (fst (hd seg)) inc \<le> to_price (fst e) inc"
    using nth [of 0 i] i ne to_price_mono [OF assms(3)] by (simp add: hd_conv_nth)
  show "to_price (fst e) inc \<le> to_price (fst (last seg)) inc"
    using nth [of i "length seg - 1"] i ne to_price_mono [OF assms(3)] by (simp add: last_conv_nth)
qed



end
