(* ===== verification/Extractor.thy ===== *)
theory Extractor
  imports TradeStream Tracker Signals OrderBook Ring
begin

text \<open>
  \<open>features/FeatureExtractor.{hpp,cpp}\<close>: a frame from the book, the trade stream and the leader
  tracker, with the price changes and the volatility from the history of mids. The ring of samples
  is the bounded list it stands for; the latency histograms are left out.
\<close>

text \<open>\<open>std::log\<close>; evaluation knows its value at one.\<close>

definition cln :: "double \<Rightarrow> double" where
  [code del]: "cln x = ln x"

definition cln_other :: "double \<Rightarrow> double" where
  [code del]: "cln_other x = ln x"

lemma cln_code [code]: "cln x = (if x = 1 then 0 else cln_other x)"
  by (simp add: cln_def cln_other_def)

record mid_sample =
  ms_t :: time_point
  ms_mid :: double
  ms_log_mid :: double

record extractor =
  fx_ticker :: ticker
  fx_reserve :: nat
  fx_history :: "mid_sample list"

definition extractor_new :: "ticker \<Rightarrow> nat \<Rightarrow> extractor" where
  "extractor_new t reserve = \<lparr>fx_ticker = t, fx_reserve = (if reserve = 0 then 1 else reserve), fx_history = []\<rparr>"

definition crossed_book_spread_bps :: double where
  "crossed_book_spread_bps = 999"

section \<open>The stages\<close>

definition book_stage :: "order_book option \<Rightarrow> feature_frame \<Rightarrow> feature_frame" where
  "book_stage src f =
     (case src of
        None \<Rightarrow> f
      | Some ob \<Rightarrow>
          let f1 = f\<lparr>ff_best_bid := (case best_bid ob of Some b \<Rightarrow> b | None \<Rightarrow> ff_best_bid f),
                     ff_best_ask := (case best_ask ob of Some a \<Rightarrow> a | None \<Rightarrow> ff_best_ask f),
                     ff_mid := (case mid ob of Some m \<Rightarrow> m | None \<Rightarrow> ff_mid f)\<rparr>;
              f2 = (case (best_bid ob, best_ask ob) of
                      (Some b, Some a) \<Rightarrow>
                        (if a - b < 0 then f1\<lparr>ff_spread_bps := crossed_book_spread_bps, ff_spread_abs := - (a - b)\<rparr>
                         else if 0 < ff_mid f1 then f1\<lparr>ff_spread_abs := a - b, ff_spread_bps := (a - b) / ff_mid f1 * 10000\<rparr>
                         else f1\<lparr>ff_spread_abs := a - b\<rparr>)
                    | _ \<Rightarrow> f1);
              bd = bid_depth ob 10; ad = ask_depth ob 10
          in f2\<lparr>ff_bid_depth_10 := bd, ff_ask_depth_10 := ad,
                ff_imbalance := (if 0 < bd + ad then (bd - ad) / (bd + ad) else 0)\<rparr>)"

definition tape_stage :: "trade_stream option \<Rightarrow> feature_frame \<Rightarrow> feature_frame \<times> trade_stream option" where
  "tape_stage src f =
     (case src of
        None \<Rightarrow> (f, None)
      | Some s \<Rightarrow>
          (case stream_stats_of s of (st, s1) \<Rightarrow>
             let tot5 = st_buy_vol_5s st + st_sell_vol_5s st in
             (f\<lparr>ff_buy_vol_1s := st_buy_vol_1s st, ff_buy_vol_5s := st_buy_vol_5s st, ff_buy_vol_30s := st_buy_vol_30s st,
                ff_sell_vol_1s := st_sell_vol_1s st, ff_sell_vol_5s := st_sell_vol_5s st, ff_sell_vol_30s := st_sell_vol_30s st,
                ff_prints_per_sec := st_prints_per_sec st, ff_avg_print_size := st_avg_size st,
                ff_tape_aggression := (if 0 < tot5 then (st_buy_vol_5s st - st_sell_vol_5s st) / tot5 else 0),
                ff_max_print_size_5s := st_q99_size st\<rparr>, Some s1)))"

definition record_mid :: "time_point \<Rightarrow> double \<Rightarrow> extractor \<Rightarrow> extractor" where
  "record_mid now m x =
     (if 0 < m
      then x\<lparr>fx_history := push_bounded (fx_reserve x) \<lparr>ms_t = now, ms_mid = m, ms_log_mid = cln m\<rparr> (fx_history x)\<rparr>
      else x)"

record mid_scan =
  sn_mid1 :: double
  sn_mid2 :: double
  sn_mid5 :: double
  sn_mid30 :: double
  sn_vol :: welford
  sn_last_log :: double

text \<open>The scan from the newest sample but one to the first that is older than a minute.\<close>

fun scan_mids :: "time_point \<Rightarrow> mid_sample list \<Rightarrow> mid_scan \<Rightarrow> mid_scan" where
  "scan_mids now [] sn = sn"
| "scan_mids now (s # ss) sn =
     (let sn1 = sn\<lparr>sn_mid1 := (if now - seconds 1 \<le> ms_t s then ms_mid s else sn_mid1 sn),
                   sn_mid2 := (if now - seconds 2 \<le> ms_t s then ms_mid s else sn_mid2 sn),
                   sn_mid5 := (if now - seconds 5 \<le> ms_t s then ms_mid s else sn_mid5 sn),
                   sn_mid30 := (if now - seconds 30 \<le> ms_t s then ms_mid s else sn_mid30 sn)\<rparr>
      in if now - seconds 60 \<le> ms_t s
         then scan_mids now ss
           (sn1\<lparr>sn_vol := (if 0 < ms_mid s then welford_update (sn_last_log sn - ms_log_mid s) (sn_vol sn) else sn_vol sn),
                sn_last_log := ms_log_mid s\<rparr>)
         else sn1)"

definition calc_pct :: "double \<Rightarrow> double \<Rightarrow> double" where
  "calc_pct cur ref = (if 0 < ref then (cur - ref) / ref * 100 else 0)"

definition dynamics_stage :: "time_point \<Rightarrow> mid_sample list \<Rightarrow> feature_frame \<Rightarrow> feature_frame" where
  "dynamics_stage now hist f =
     (if length hist < 2 then f
      else
        let sn = scan_mids now (tl (rev hist))
                   \<lparr>sn_mid1 = 0, sn_mid2 = 0, sn_mid5 = 0, sn_mid30 = 0, sn_vol = welford_new,
                    sn_last_log = ms_log_mid (last hist)\<rparr>;
            oldest = ms_mid (hd hist);
            change = (\<lambda>m. calc_pct (ff_mid f) (if 0 < m then m else oldest))
        in f\<lparr>ff_price_change_1s := change (sn_mid1 sn), ff_price_change_2s := change (sn_mid2 sn),
             ff_price_change_5s := change (sn_mid5 sn), ff_price_change_30s := change (sn_mid30 sn),
             ff_volatility_1min := welford_stdev (sn_vol sn)\<rparr>)"

definition leader_stage :: "tracker option \<Rightarrow> feature_frame \<Rightarrow> feature_frame" where
  "leader_stage src f =
     (case src of
        None \<Rightarrow> f
      | Some tk \<Rightarrow> f\<lparr>ff_leader_correlation := correlation_value (tk_corr tk), ff_leader_lag_ms := kal_lag (tk_kalman tk)\<rparr>)"

definition extract_frame ::
    "nat \<Rightarrow> order_book option \<Rightarrow> trade_stream option \<Rightarrow> tracker option \<Rightarrow> time_point \<Rightarrow> extractor \<Rightarrow>
      feature_frame \<times> trade_stream option \<times> extractor" where
  "extract_frame tr ob ts lt now x =
     (let f0 = feature_frame_default\<lparr>ff_ticker := fx_ticker x, ff_timestamp := now, ff_derived_from := tr\<rparr>;
          (f1, ts1) = tape_stage ts (book_stage ob f0);
          x1 = record_mid now (ff_mid f1) x;
          f2 = dynamics_stage now (fx_history x1) f1;
          f3 = leader_stage lt (f2\<lparr>ff_volatility_1min_bps := ff_volatility_1min f2 * 10000\<rparr>)
      in (f3\<lparr>ff_valid := 0 < ff_mid f3\<rparr>, ts1, x1))"

section \<open>The reference of a price change\<close>

text \<open>The oldest sample within a window, the newest one left out, or else the oldest of all.\<close>

definition reference_mid :: "time_point \<Rightarrow> mid_sample list \<Rightarrow> double" where
  "reference_mid since hist =
     (case filter (\<lambda>s. since \<le> ms_t s) (butlast hist) of
        [] \<Rightarrow> ms_mid (hd hist)
      | s # _ \<Rightarrow> ms_mid s)"

definition last_since :: "time_point \<Rightarrow> double \<Rightarrow> mid_sample list \<Rightarrow> double" where
  "last_since since d ss =
     (case filter (\<lambda>s. since \<le> ms_t s) (rev ss) of [] \<Rightarrow> d | s # _ \<Rightarrow> ms_mid s)"

lemma last_since_simps [simp]:
  "last_since t d [] = d"
  "last_since t d (s # ss) = last_since t (if t \<le> ms_t s then ms_mid s else d) ss"
  by (simp_all add: last_since_def split: list.split)

lemma last_since_none: "(\<And>s. s \<in> set ss \<Longrightarrow> ms_t s < t) \<Longrightarrow> last_since t d ss = d"
  by (induction ss) (simp_all, metis leD)

text \<open>Newest first, nothing after the break belongs to a window.\<close>

lemma scan_mids_mids:
  assumes "sorted_wrt (\<ge>) (map ms_t ss)"
  shows "sn_mid1 (scan_mids now ss sn) = last_since (now - seconds 1) (sn_mid1 sn) ss \<and>
     sn_mid2 (scan_mids now ss sn) = last_since (now - seconds 2) (sn_mid2 sn) ss \<and>
     sn_mid5 (scan_mids now ss sn) = last_since (now - seconds 5) (sn_mid5 sn) ss \<and>
     sn_mid30 (scan_mids now ss sn) = last_since (now - seconds 30) (sn_mid30 sn) ss"
  using assms
proof (induction ss arbitrary: sn)
  case (Cons s ss)
  show ?case
  proof (cases "now - seconds 60 \<le> ms_t s")
    case True
    then show ?thesis using Cons by (simp add: Let_def)
  next
    case False
    have "x \<in> set ss \<Longrightarrow> ms_t x < now - seconds k" if "k \<le> 60" for x k
      using Cons.prems False that by (fastforce simp: seconds_def)
    then have "last_since (now - seconds k) d ss = d" if "k \<le> 60" for k d using that by (intro last_since_none) auto
    then show ?thesis using False by (simp add: Let_def)
  qed
qed simp

lemma reference_of_scan:
  assumes "2 \<le> length hist" "list_all (\<lambda>s. 0 < ms_mid s) hist"
  shows "(if 0 < last_since t 0 (tl (rev hist)) then last_since t 0 (tl (rev hist)) else ms_mid (hd hist)) = reference_mid t hist"
proof -
  have "rev (tl (rev hist)) = butlast hist" by (simp flip: butlast_rev)
  moreover have "0 < ms_mid s" if "filter P (butlast hist) = s # ss" for P s ss
  proof -
    have "s \<in> set (filter P (butlast hist))" using that by simp
    then show ?thesis using assms(2) by (auto simp: list_all_iff dest: in_set_butlastD)
  qed
  ultimately show ?thesis by (auto simp: last_since_def reference_mid_def split: list.split)
qed

section \<open>Frames of a run\<close>

text \<open>The sources at each call are arguments; the history is what the calls record.\<close>

record extract_call =
  xc_trace :: nat
  xc_book :: "order_book option"
  xc_trades :: "trade_stream option"
  xc_tracker :: "tracker option"
  xc_now :: time_point

definition extract_call_run :: "extract_call \<Rightarrow> extractor \<Rightarrow> extractor" where
  "extract_call_run c x = snd (snd (extract_frame (xc_trace c) (xc_book c) (xc_trades c) (xc_tracker c) (xc_now c) x))"

definition call_mid :: "extract_call \<Rightarrow> double" where
  "call_mid c = (case xc_book c of None \<Rightarrow> 0 | Some ob \<Rightarrow> (case mid ob of None \<Rightarrow> 0 | Some m \<Rightarrow> m))"

definition call_samples :: "extract_call list \<Rightarrow> mid_sample list" where
  "call_samples cs = map (\<lambda>c. \<lparr>ms_t = xc_now c, ms_mid = call_mid c, ms_log_mid = cln (call_mid c)\<rparr>) (filter (\<lambda>c. 0 < call_mid c) cs)"

lemma book_stage_mid: "ff_mid (book_stage src f) = (case src of None \<Rightarrow> ff_mid f | Some ob \<Rightarrow> (case mid ob of None \<Rightarrow> ff_mid f | Some m \<Rightarrow> m))"
  by (auto simp: book_stage_def Let_def split: option.split)

lemma tape_stage_mid [simp]: "ff_mid (fst (tape_stage src f)) = ff_mid f"
  by (simp add: tape_stage_def Let_def split: option.split prod.split)

lemma default_mid [simp]: "ff_mid feature_frame_default = 0"
  by (simp add: feature_frame_default_def)

lemma extract_mid:
  "ff_mid (book_stage (xc_book c) (feature_frame_default\<lparr>ff_ticker := t, ff_timestamp := n, ff_derived_from := i\<rparr>)) = call_mid c"
  by (simp add: book_stage_mid call_mid_def split: option.split)

lemma extract_call_history:
  "extract_call_run c x = record_mid (xc_now c) (call_mid c) x"
  by (simp add: extract_call_run_def extract_frame_def Let_def case_prod_beta extract_mid)

lemma extract_run_history:
  "fold extract_call_run cs (extractor_new t n) =
     \<lparr>fx_ticker = t, fx_reserve = (if n = 0 then 1 else n), fx_history = last_n (if n = 0 then 1 else n) (call_samples cs)\<rparr>"
proof (induction cs rule: rev_induct)
  case Nil
  then show ?case by (simp add: extractor_new_def call_samples_def last_n_def)
next
  case (snoc c cs)
  then show ?case by (auto simp: extract_call_history record_mid_def call_samples_def push_bounded_last_n)
qed

lemma sorted_last_samples:
  assumes "sorted (map xc_now cs)" shows "sorted (map ms_t (last_n N (call_samples cs)))"
proof -
  have "map ms_t (call_samples cs) = map xc_now (filter (\<lambda>c. 0 < call_mid c) cs)" by (simp add: call_samples_def o_def)
  then have "sorted (map ms_t (call_samples cs))" using assms by (simp add: sorted_filter)
  then show ?thesis by (simp add: last_n_def drop_map [symmetric] sorted_wrt_drop)
qed

lemma leader_stage_keeps:
  "ff_price_change_1s (leader_stage l f) = ff_price_change_1s f" "ff_price_change_2s (leader_stage l f) = ff_price_change_2s f"
  "ff_price_change_5s (leader_stage l f) = ff_price_change_5s f" "ff_price_change_30s (leader_stage l f) = ff_price_change_30s f"
  "ff_mid (leader_stage l f) = ff_mid f"
  by (simp_all add: leader_stage_def split: option.split)

lemma dynamics_changes:
  fixes f :: feature_frame
  assumes hist: "2 \<le> length hist" "list_all (\<lambda>s. 0 < ms_mid s) hist" "sorted (map ms_t hist)"
  shows "ff_price_change_1s (dynamics_stage now hist f) = calc_pct (ff_mid f) (reference_mid (now - seconds 1) hist)"
    and "ff_price_change_2s (dynamics_stage now hist f) = calc_pct (ff_mid f) (reference_mid (now - seconds 2) hist)"
    and "ff_price_change_5s (dynamics_stage now hist f) = calc_pct (ff_mid f) (reference_mid (now - seconds 5) hist)"
    and "ff_price_change_30s (dynamics_stage now hist f) = calc_pct (ff_mid f) (reference_mid (now - seconds 30) hist)"
proof -
  have "sorted_wrt (\<ge>) (map ms_t (rev hist))" using hist(3) by (simp add: sorted_wrt_rev flip: rev_map)
  then have srt: "sorted_wrt (\<ge>) (map ms_t (tl (rev hist)))" by (cases "rev hist") simp_all
  note scan = scan_mids_mids [OF srt, of now] and ref = reference_of_scan [OF hist(1,2)]
  have n: "\<not> length hist < 2" using hist(1) by simp
  show "ff_price_change_1s (dynamics_stage now hist f) = calc_pct (ff_mid f) (reference_mid (now - seconds 1) hist)"
    and "ff_price_change_2s (dynamics_stage now hist f) = calc_pct (ff_mid f) (reference_mid (now - seconds 2) hist)"
    and "ff_price_change_5s (dynamics_stage now hist f) = calc_pct (ff_mid f) (reference_mid (now - seconds 5) hist)"
    and "ff_price_change_30s (dynamics_stage now hist f) = calc_pct (ff_mid f) (reference_mid (now - seconds 30) hist)"
    by (simp_all add: dynamics_stage_def Let_def n scan ref cong: if_cong split del: if_split)
qed

text \<open>C38. With the calls in order of time, the price changes of a frame are those of its mid over the
  oldest mid recorded within the window, the one of the frame left out, or the oldest mid kept when
  the window has none; the mids kept are the last positive ones of the calls; and a frame is valid
  exactly when the book has a positive mid.\<close>

theorem price_changes_exact:
  fixes cs :: "extract_call list" and t :: ticker and n :: nat
  assumes "sorted (map xc_now (cs @ [c]))" "0 < n"
  defines "hist \<equiv> last_n n (call_samples (cs @ [c]))"
    and "f \<equiv> fst (extract_frame (xc_trace c) (xc_book c) (xc_trades c) (xc_tracker c) (xc_now c)
           (fold extract_call_run cs (extractor_new t n)))"
    and "change \<equiv> \<lambda>secs. if length (last_n n (call_samples (cs @ [c]))) < 2 then 0
           else calc_pct (call_mid c) (reference_mid (xc_now c - seconds secs) (last_n n (call_samples (cs @ [c]))))"
  shows "ff_price_change_1s f = change 1 \<and> ff_price_change_2s f = change 2 \<and> ff_price_change_5s f = change 5 \<and>
     ff_price_change_30s f = change 30 \<and> ff_mid f = call_mid c \<and> (ff_valid f \<longleftrightarrow> 0 < call_mid c)"
proof -
  let ?x = "fold extract_call_run cs (extractor_new t n)"
  have hist: "fx_history (record_mid (xc_now c) (call_mid c) ?x) = hist"
    using extract_run_history [of "cs @ [c]" t n] assms(2) by (simp add: extract_call_history hist_def)
  define f1 where "f1 = fst (tape_stage (xc_trades c) (book_stage (xc_book c)
      (feature_frame_default\<lparr>ff_ticker := fx_ticker ?x, ff_timestamp := xc_now c, ff_derived_from := xc_trace c\<rparr>)))"
  have f1: "ff_mid f1 = call_mid c" by (simp add: f1_def extract_mid)
  define f2 where "f2 = dynamics_stage (xc_now c) hist f1"
  have f: "f = (let f3 = leader_stage (xc_tracker c) (f2\<lparr>ff_volatility_1min_bps := ff_volatility_1min f2 * 10000\<rparr>)
      in f3\<lparr>ff_valid := 0 < ff_mid f3\<rparr>)"
    unfolding f_def extract_frame_def Let_def case_prod_beta f1_def [symmetric] f1 hist f2_def by simp
  have mid2: "ff_mid f2 = ff_mid f1" by (simp add: f2_def dynamics_stage_def Let_def)
  have pos: "list_all (\<lambda>s. 0 < ms_mid s) hist"
    by (auto simp: hist_def last_n_def call_samples_def list_all_iff dest!: in_set_dropD)
  have srt: "sorted (map ms_t hist)" unfolding hist_def by (rule sorted_last_samples [OF assms(1)])
  have zero: "ff_price_change_1s f1 = 0 \<and> ff_price_change_2s f1 = 0 \<and> ff_price_change_5s f1 = 0 \<and> ff_price_change_30s f1 = 0"
    by (simp add: f1_def tape_stage_def book_stage_def feature_frame_default_def Let_def split: option.split prod.split)
  show ?thesis
  proof (cases "length hist < 2")
    case True
    then have "f2 = f1" by (simp add: f2_def dynamics_stage_def)
    then show ?thesis
      using True zero f1 unfolding f change_def hist_def [symmetric] by (simp add: Let_def leader_stage_keeps)
  next
    case False
    then have "2 \<le> length hist" by simp
    note dyn = dynamics_changes [OF this pos srt, of "xc_now c" f1, folded f2_def]
    show ?thesis
      using False dyn f1 mid2 unfolding f change_def hist_def [symmetric] by (simp add: Let_def leader_stage_keeps)
  qed
qed

text \<open>
  Where the window of a change is empty its reference is the oldest mid kept. Here the price has not
  moved for 58 seconds, and the change over one second is ten per cent.
\<close>

definition book_at :: "price_tick \<Rightarrow> order_book" where
  "book_at k =
     \<lparr>ob_ticker = ''X'', ob_price_increment = 1, ob_size_increment = 1, ob_inv_price_increment = 1,
      ob_inv_size_increment = 1, ob_bids = [(k - 1, 1)], ob_asks = [(k + 1, 1)], ob_best_bid_tick = Some (k - 1),
      ob_best_ask_tick = Some (k + 1), ob_update_count = 0, ob_top_dirty = False, ob_synced = True\<rparr>"

definition call_at :: "time_point \<Rightarrow> price_tick \<Rightarrow> extract_call" where
  "call_at now k = \<lparr>xc_trace = 1, xc_book = Some (book_at k), xc_trades = None, xc_tracker = None, xc_now = now\<rparr>"

lemma call_at_mid [simp]: "call_mid (call_at now k) = real_of_int k" "xc_now (call_at now k) = now"
  by (simp_all add: call_mid_def call_at_def book_at_def mid_def to_price_def)

theorem price_changes_exact_witness:
  "ff_price_change_1s (fst (extract_frame 1 (Some (book_at 110)) None None (seconds 60)
     (fold extract_call_run [call_at 0 100, call_at (seconds 58) 110] (extractor_new ''X'' 600)))) = 10"
proof -
  have srt: "sorted (map xc_now ([call_at 0 100, call_at (seconds 58) 110] @ [call_at (seconds 60) 110]))"
    by (simp add: seconds_def)
  have samples: "last_n 600 (call_samples ([call_at 0 100, call_at (seconds 58) 110] @ [call_at (seconds 60) 110])) =
      [\<lparr>ms_t = 0, ms_mid = 100, ms_log_mid = cln 100\<rparr>, \<lparr>ms_t = seconds 58, ms_mid = 110, ms_log_mid = cln 110\<rparr>,
       \<lparr>ms_t = seconds 60, ms_mid = 110, ms_log_mid = cln 110\<rparr>]"
    by (simp add: call_samples_def last_n_def)
  have call: "xc_trace (call_at (seconds 60) 110) = 1" "xc_book (call_at (seconds 60) 110) = Some (book_at 110)"
    "xc_trades (call_at (seconds 60) 110) = None" "xc_tracker (call_at (seconds 60) 110) = None"
    by (simp_all add: call_at_def)
  show ?thesis
    using price_changes_exact [OF srt, of 600 "''X''"] unfolding samples call
    by (simp add: calc_pct_def reference_mid_def seconds_def)
qed

end
