(* ===== verification/Spec2Isabelle.thy ===== *)
theory Spec2Isabelle
  imports OrderBookSpec Reconciliator LiveCases PaperSpec EngineCases Account BusCases RecoveryCases
    Tape Iceberg LeaderMoves Density Extractor
begin

text \<open>
  A verification development for the trading bot in \<open>core/src\<close>; all paths below are relative to it.

  \<^bold>\<open>The program.\<close> Market data keeps a replica of every order book (\<open>marketdata/OrderBook\<close>)
  and the stream of trades (\<open>marketdata/TradeStream\<close>). A feature extractor turns both into a frame per
  ticker and period; detectors (\<open>signals\<close>) read frames, trades and book updates and publish signals
  on a bus. Four strategies (\<open>strategy\<close>) read frames and signals, remember them in a context, and
  propose a plan: entry, stop and targets. The engine collects the plans; the callbacks of
  \<open>app/BotAppInit.cpp\<close> pass each through the pre-trade gate (\<open>risk/RiskManager\<close>) and to an
  executor, a simulated one (\<open>executor/PaperExecutor\<close>) or one that trades
  (\<open>executor/LiveExecutor\<close>), which settles submissions of unknown outcome with
  \<open>trading/OrderReconciliator\<close> and starts from the persisted trades with
  \<open>executor/StartupRecovery\<close>. The application drains the closed trades, feeds them back to the gate
  and keeps the account. The universe (\<open>universe\<close>) chooses the tickers; a calendar of news
  (\<open>risk/NewsCalendar\<close>) closes the gate around scheduled events.

  \<^bold>\<open>The theories\<close>, in the order of their imports. A theory without a name ending in \<open>Spec\<close>,
  \<open>Runs\<close> or \<open>Cases\<close> holds the definitions of its component; the others hold what they promise.

  \<^item> \<open>Prelude\<close>: readings of the C++ base types, \<open>std::round\<close>, \<open>std::clamp\<close>, truncating casts and
    divisions, and ordered maps (\<open>omap_put\<close>, \<open>omap_erase\<close>), whose laws are proved once in the locale
    \<open>key_order\<close> and interpreted for both directions of an order.
  \<^item> \<open>Text\<close> (\<open>utils/FixedString.hpp\<close>, \<open>utils/TickerSymbol.hpp\<close>, \<open>utils/UrlEncoder.hpp\<close>),
    \<open>Domain\<close> (\<open>domain/Types.hpp\<close>, \<open>strategy/TradePlan.hpp\<close> and the other plain records), \<open>FixedPoint\<close>
    (\<open>numeric/FixedPoint.hpp\<close>), \<open>Numeric\<close> (Kahan sums, averages, CUSUM, Welford and correlation of
    \<open>numeric\<close>), \<open>Ring\<close> (\<open>utils/CircularBuffer.hpp\<close>), \<open>Digest\<close> (\<open>numeric/TDigest.hpp\<close>).
  \<^item> \<open>OrderBook\<close> (\<open>marketdata/OrderBook\<close>: snapshot, single and batch updates, queries) with
    \<open>OrderBookSpec\<close>: the abstract book of two finite maps, the refinement of the updates, the agreement
    of the two update paths, crossed books, and the exact sum over a price range within \<open>int64\<close>.
  \<^item> \<open>TradeStream\<close> (\<open>marketdata/TradeStream\<close>), \<open>Tracker\<close> (\<open>marketdata/KalmanLagEstimator\<close> and
    \<open>marketdata/LeaderTracker\<close>), \<open>Extractor\<close> (\<open>features/FeatureExtractor\<close>): the incremental windows
    are the sums over the trades young enough, the covariance of the lag filter stays positive
    semidefinite, and the price changes of a frame are those over the oldest mid of each window.
  \<^item> \<open>Signals\<close> (\<open>features/FeatureFrame.hpp\<close>, \<open>signals/Signal.hpp\<close>, \<open>strategy/StrategyContext\<close>) with
    \<open>ContextSpec\<close>: the frame ring finds the newest frame of an age, and the history forgets by age.
  \<^item> \<open>Tape\<close>, \<open>Iceberg\<close>, \<open>LeaderMoves\<close>, \<open>Density\<close>: the detectors \<open>signals/TapeAnalyzer\<close>,
    \<open>signals/IcebergDetector\<close>, \<open>signals/LeaderSignal\<close> and \<open>signals/DensityDetector\<close>. Their calls return
    the signals they publish. What is announced has been observed: persistence of a density, evidence
    of an iceberg, moves found by a linear search, one signal per episode of the tape.
  \<^item> \<open>Bus\<close> (\<open>signals/SignalBus\<close>) and \<open>Bridge\<close> (\<open>signals/SignalLevelBridge\<close>, and the application's
    subscribers) with \<open>BusCases\<close>: publications end and reach every subscriber, by generations of
    answers, also when a subscriber throws. The locales \<open>ranked_clients\<close> and \<open>plain_clients\<close> say what
    the bus asks of subscribers; \<open>Bridge\<close> interprets both on the application's.
  \<^item> \<open>Filters\<close> (\<open>universe/UniverseFilters\<close>) and \<open>Universe\<close> (\<open>universe/TickerUniverse\<close>) with
    \<open>UniverseSpec\<close>: the glob matcher decides the declarative meaning of its pattern; the pool is the
    top of the filtered tickers; affinity events are exactly the transitions.
  \<^item> \<open>News\<close> (\<open>risk/NewsCalendar\<close>) and \<open>Risk\<close> (\<open>risk/RiskManager\<close>) with \<open>RiskSpec\<close>: an accepted
    plan satisfies every rule, its size respects the caps, acceptances are limited in every window of
    time, a loss streak and a funding event block.
  \<^item> \<open>Strategies\<close> (\<open>strategy/IStrategy.hpp\<close> and the locale \<open>trading_strategy\<close>) over \<open>Flush\<close>,
    \<open>LeaderLag\<close>, \<open>Bounce\<close>, \<open>Breakout\<close> (\<open>strategy/FlushReversal\<close>, \<open>strategy/LeaderLag\<close>,
    \<open>strategy/BounceFromDensity\<close>, \<open>strategy/BreakoutEatThrough\<close>), with \<open>StrategySpec\<close> and
    \<open>StrategyCases\<close>: stops and targets on their sides, at most one plan pending.
  \<^item> \<open>Engine\<close> (\<open>strategy/StrategyEngine\<close>) and \<open>Desk\<close> (the callbacks of \<open>app/BotAppInit.cpp\<close>) with
    \<open>EngineSpec\<close> and \<open>EngineCases\<close>: only admitted plans reach the executor, at most one per ticker
    and tick. \<open>Account\<close> (\<open>app/BotAppInit.cpp\<close>, \<open>app/BotAppRun.cpp\<close>): the account is the
    loaded one plus the profits of the closed trades.
  \<^item> \<open>Executor\<close> (\<open>executor/IExecutor.hpp\<close>): the locale \<open>closed_trade_source\<close>, interpreted by both
    executors, under which a drained trade is delivered once.
  \<^item> \<open>Paper\<close> (\<open>executor/PaperExecutor\<close>) with \<open>PaperSpec\<close>: fills within the limits of the order,
    exits by cause, sizes that balance.
  \<^item> \<open>Live\<close> (submission, stops, targets, closing) and \<open>LiveHandlers\<close> (order, position and balance
    updates, \<open>tick\<close>, reconciliation) of \<open>executor/LiveExecutor\<close>, with \<open>LiveSpec\<close> (frame conditions),
    \<open>LiveRuns\<close> (invariants over every run) and \<open>LiveCases\<close> (protection of positions, concrete runs).
  \<^item> \<open>Reconciliator\<close> (\<open>trading/OrderReconciliator\<close>): its two indexes agree, a poll reports each
    intent once, and none outlives its timeout. \<open>Recovery\<close> (\<open>executor/StartupRecovery\<close>) with
    \<open>RecoveryCases\<close>: recovery opens the positions of the exchange and protects the unexplained ones.

  \<^bold>\<open>Correspondence.\<close> A class is a \<open>record\<close> whose fields carry a prefix of their own, a method a
  definition of the same name (with the class before it where two classes share a name) from the old
  state to the results and the new one. Where a method makes calls outward, its value holds the list
  of the calls in their order, or the calls made are part of the state, as for the order gateway.
  Callbacks, the gateway, the fetcher, the clock, generated identifiers and the answers of
  third-party libraries are arguments of the definitions. An exception is an error value, and what the
  code had changed before it was thrown is kept. A critical section is one step; an operation that
  releases its lock is composed from the steps of its sections.

  \<^bold>\<open>Idealisations.\<close> A \<open>double\<close> is a real: no rounding, NaN or infinity, and guards against those are
  passed. A division by zero that the code can reach is written out. Time is in nanoseconds, unbounded;
  sums of prices in ticks are \<open>int\<close> with proved bounds where the code relies on them
  (\<open>volume_at_range_exact\<close>), otherwise an overflow is left out of the model. Hash maps whose order of
  iteration no result depends on are ordered maps or association lists. \<open>std::sort\<close> keeps equal
  elements in order.

  \<^bold>\<open>Loops.\<close> Recursion is structural, or by a measure, with three exceptions. \<open>glob_loop\<close> and
  \<open>drain\<close> are partial functions into \<open>option\<close>: the first is proved to return always
  (\<open>glob_match_correct\<close>), the second where answers of subscribers decrease in rank
  (\<open>publish_visits_generations\<close>), as those of the application do; subscribers that answer each other
  for ever would not return. \<open>evict_loop\<close> counts down from the size of the ring, which is enough: the
  tail meets the head before, and the loop stops there (\<open>evict_loop_window\<close>).

  \<^bold>\<open>Sizes.\<close> The frame ring of a strategy has 16 slots, the histories of the detectors 600 to 60000, the ring of
  trades 65536 slots (\<open>k_max_trades\<close>); the last is a parameter of the definitions, so that the
  lemmas hold for every size and runs can be evaluated on small ones.

  \<^bold>\<open>Where the code is not as it says.\<close> Lemmas on concrete runs record the divergences that modelling
  showed; they stand beside the component, in the theories ending in \<open>Cases\<close> or under the heading of
  scenarios.

  \<^bold>\<open>Not modelled.\<close> The loop, threads and signal handling of \<open>app\<close>, the parsing and serialisation of
  messages, network clients, the dashboard, configuration files, the journal, metrics and generated
  code: they are input and output through third-party libraries, and no decision of the model is
  taken in them. Of the detectors, \<open>signals/LevelDetector\<close> and \<open>signals/ApproachAnalyzer\<close>
  are left out; their signals are inputs of the strategies.
\<close>

end
